(* ===== verification/Prelude.thy ===== *)
theory Prelude
  imports Main "HOL-Library.Word"
begin

text \<open>
  Machine integers and the facts about them that every component uses.

  The program's integers are Rust's unsigned ones. A \<open>u64\<close> is a \<open>64 word\<close>, so a value of
  the model is always one the program can hold. Rust's \<open>saturating_add\<close>, \<open>saturating_sub\<close>
  and \<open>saturating_mul\<close> are the functions below. Where the source widens to \<open>u128\<close>, computes,
  takes the minimum with \<open>u64::MAX\<close> and narrows again, the model computes in \<open>nat\<close> and narrows
  with \<open>clamp_u64\<close>: \<open>u128_product\<close> shows that the widened product of two 64-bit values fits
  128 bits, so the unbounded computation is the program's.

  The collection \<open>u64_nat\<close> moves a goal about 64-bit words to \<open>nat\<close>, where linear arithmetic
  finishes it.
\<close>

named_theorems u64_nat \<open>rewrites that move comparisons and saturating arithmetic to nat\<close>

type_synonym u8 = "8 word"
type_synonym u16 = "16 word"
type_synonym u32 = "32 word"
type_synonym u64 = "64 word"

abbreviation U64_MAX :: u64 where
  "U64_MAX \<equiv> - 1"

definition clamp_u64 :: "nat \<Rightarrow> u64" where
  "clamp_u64 n = of_nat (min n (2 ^ 64 - 1))"

definition sat_add :: "u64 \<Rightarrow> u64 \<Rightarrow> u64" where
  "sat_add a b = clamp_u64 (unat a + unat b)"

definition sat_sub :: "u64 \<Rightarrow> u64 \<Rightarrow> u64" where
  "sat_sub a b = (if a \<le> b then 0 else a - b)"

definition sat_mul :: "u64 \<Rightarrow> u64 \<Rightarrow> u64" where
  "sat_mul a b = clamp_u64 (unat a * unat b)"

text \<open>\<open>u32::saturating_add\<close>, which counts verification failures.\<close>

definition sat_add32 :: "u32 \<Rightarrow> u32 \<Rightarrow> u32" where
  "sat_add32 a b = of_nat (min (unat a + unat b) (2 ^ 32 - 1))"

subsection \<open>Words as natural numbers\<close>

lemma unat_u64_less: "unat (a :: u64) < 2 ^ 64"
  using unsigned_less [of a, where 'a = nat] by simp

lemma unat_u64_le [simp]: "unat (a :: u64) \<le> 18446744073709551615"
  using unat_u64_less [of a] by simp

lemma unat_U64_MAX [u64_nat]: "unat U64_MAX = 18446744073709551615"
  by (simp add: unsigned_minus_1_eq_mask mask_eq_exp_minus_1)

lemma unat_clamp_u64 [u64_nat]: "unat (clamp_u64 n) = min n 18446744073709551615"
  by (simp add: clamp_u64_def unat_of_nat min_def take_bit_eq_mod)

lemma clamp_u64_unat [simp]: "clamp_u64 (unat a) = a"
  by (simp add: clamp_u64_def min_absorb1)

lemma unat_sat_add [u64_nat]: "unat (sat_add a b) = min (unat a + unat b) 18446744073709551615"
  by (simp add: sat_add_def unat_clamp_u64)

lemma unat_sat_add32: "unat (sat_add32 a b) = min (unat a + unat b) 4294967295"
  by (simp add: sat_add32_def unat_of_nat min_def take_bit_eq_mod)

lemma unat_sat_mul [u64_nat]: "unat (sat_mul a b) = min (unat a * unat b) 18446744073709551615"
  by (simp add: sat_mul_def unat_clamp_u64)

lemma unat_sat_sub [u64_nat]: "unat (sat_sub a b) = unat a - unat b"
  by (auto simp: sat_sub_def word_le_nat_alt unat_sub)

lemma unat_max_u64 [u64_nat]: "unat (max a b :: u64) = max (unat a) (unat b)"
  by (simp add: max_def word_le_nat_alt)

lemma unat_min_u64 [u64_nat]: "unat (min a b :: u64) = min (unat a) (unat b)"
  by (simp add: min_def word_le_nat_alt)

lemma u64_eq_nat: "a = b \<longleftrightarrow> unat a = unat (b :: u64)"
  by (simp add: word_unat_eq_iff)

lemma u64_plus_nat: "unat a + unat b < 2 ^ 64 \<Longrightarrow> unat (a + b :: u64) = unat a + unat b"
  by (simp add: unat_add_lem [THEN iffD1])

lemma u64_minus_nat: "unat b \<le> unat a \<Longrightarrow> unat (a - b :: u64) = unat a - unat b"
  by (simp add: unat_sub word_le_nat_alt)

lemmas u64_order = word_le_nat_alt [where 'a = 64] word_less_nat_alt [where 'a = 64]

declare u64_order [u64_nat]

text \<open>The widened product of two 64-bit values always fits 128 bits.\<close>

lemma u128_product: "unat (a :: u64) * unat (b :: u64) < 2 ^ 128"
proof -
  have "unat a * unat b \<le> (2 ^ 64 - 1) * (2 ^ 64 - 1)"
    by (rule mult_le_mono) simp_all
  also have "\<dots> < (2 :: nat) ^ 128"
    by simp
  finally show ?thesis .
qed

subsection \<open>Saturating arithmetic\<close>

lemma sat_sub_0 [simp]: "sat_sub a 0 = a" "sat_sub 0 a = 0" "sat_sub a a = 0"
  by (auto simp: sat_sub_def)

lemma sat_add_0 [simp]: "sat_add a 0 = a" "sat_add 0 a = a"
  by (simp_all add: sat_add_def)

lemma sat_add_ge: "a \<le> sat_add a b" "b \<le> sat_add a b"
  by (simp_all add: u64_nat)

lemma sat_sub_le: "sat_sub a b \<le> a"
  by (simp add: u64_nat)

lemma sat_sub_eq_0: "sat_sub a b = 0 \<longleftrightarrow> a \<le> b"
  by (simp add: u64_eq_nat u64_nat)

lemma sat_add_sub_le: "a \<le> sat_add (sat_sub a b) b"
  by (auto simp: u64_nat min_def)

subsection \<open>Evaluation\<close>

text \<open>Clamped results are evaluated over binary integers.\<close>

definition clamp_int :: "int \<Rightarrow> u64" where
  "clamp_int z = word_of_int (min z 18446744073709551615)"

lemma clamp_u64_int: "clamp_u64 n = clamp_int (int n)"
  by (simp add: clamp_u64_def clamp_int_def min_def)

lemma sat_add_code [code]: "sat_add a b = clamp_int (uint a + uint b)"
  by (simp add: sat_add_def clamp_u64_int)

lemma sat_mul_code [code]: "sat_mul a b = clamp_int (uint a * uint b)"
  by (simp add: sat_mul_def clamp_u64_int)

subsection \<open>Lists searched from the front\<close>

text \<open>
  \<open>iter_mut().find(p)\<close> followed by an assignment changes the first element \<open>p\<close> accepts;
  \<open>position(p)\<close> followed by \<open>remove\<close> drops it.
\<close>

fun update_first :: "('a \<Rightarrow> bool) \<Rightarrow> ('a \<Rightarrow> 'a) \<Rightarrow> 'a list \<Rightarrow> 'a list" where
  "update_first P f [] = []"
| "update_first P f (x # xs) = (if P x then f x # xs else x # update_first P f xs)"

fun remove_first :: "('a \<Rightarrow> bool) \<Rightarrow> 'a list \<Rightarrow> 'a list" where
  "remove_first P [] = []"
| "remove_first P (x # xs) = (if P x then xs else x # remove_first P xs)"

lemma map_update_first:
  "(\<And>x. P x \<Longrightarrow> g (f x) = g x) \<Longrightarrow> map g (update_first P f xs) = map g xs"
  by (induction xs) auto

lemma length_update_first [simp]: "length (update_first P f xs) = length xs"
  by (induction xs) auto

lemma update_first_Nil [simp]: "update_first P f xs = [] \<longleftrightarrow> xs = []"
  by (cases xs) auto

lemma update_first_none: "find P xs = None \<Longrightarrow> update_first P f xs = xs"
  by (induction xs) (auto split: if_splits)

lemma set_update_first: "set (update_first P f xs) \<subseteq> set xs \<union> f ` {x \<in> set xs. P x}"
  by (induction xs) auto

lemma set_remove_first: "set (remove_first P xs) \<subseteq> set xs"
  by (induction xs) auto

lemma remove_first_none: "find P xs = None \<Longrightarrow> remove_first P xs = xs"
  by (induction xs) (auto split: if_splits)

lemma remove_first_key:
  "distinct (map k xs) \<Longrightarrow> remove_first (\<lambda>x. k x = a) xs = filter (\<lambda>x. k x \<noteq> a) xs"
  by (induction xs) (auto simp: image_iff intro!: filter_True [symmetric])

lemma find_update_first_key:
  assumes "\<And>x. k (f x) = k x"
  shows "find (\<lambda>x. k x = a) (update_first (\<lambda>x. k x = b) f xs)
    = (if a = b then map_option f (find (\<lambda>x. k x = a) xs) else find (\<lambda>x. k x = a) xs)"
  using assms by (induction xs) auto

lemma find_filter_key: "find (\<lambda>x. k x = a) (filter (\<lambda>x. k x \<noteq> b) xs)
    = (if a = b then None else find (\<lambda>x. k x = a) xs)"
  by (induction xs) auto

lemma find_in_set: "find P xs = Some x \<Longrightarrow> x \<in> set xs \<and> P x"
  by (induction xs) (auto split: if_splits)

lemma find_key_None: "find (\<lambda>x. k x = a) xs = None \<longleftrightarrow> a \<notin> k ` set xs"
  by (induction xs) auto

lemma find_append_key: "find P (xs @ ys) = (case find P xs of None \<Rightarrow> find P ys | Some x \<Rightarrow> Some x)"
  by (induction xs) auto

end
