(* ===== verification/Account.thy ===== *)
theory Account
  imports Prelude
begin

text \<open>
  The contract of a prepaid account: every operation leaves at most what was there before, plus
  what the operation paid in, less what it drew. Both sides of a sale keep such an account, the
  provider in \<open>Grant\<close> and the payer in \<open>Buyer\<close>, and both interpret the locale.
\<close>

text \<open>A run of operations, with what each one drew.\<close>

fun run_ops :: "('s \<Rightarrow> 'op \<Rightarrow> 's \<times> nat) \<Rightarrow> 's \<Rightarrow> 'op list \<Rightarrow> 's \<times> nat list" where
  "run_ops step s [] = (s, [])"
| "run_ops step s (p # ps) =
     (let (s1, d) = step s p; (s2, ds) = run_ops step s1 ps in (s2, d # ds))"

locale prepaid_account =
  fixes step :: "'s \<Rightarrow> 'op \<Rightarrow> 's \<times> nat"
    and left :: "'s \<Rightarrow> nat"
    and credit :: "'op \<Rightarrow> nat"
    and ok :: "'s \<Rightarrow> bool"
  assumes ok_step: "ok s \<Longrightarrow> ok (fst (step s p))"
    and step_bound: "ok s \<Longrightarrow> left (fst (step s p)) + snd (step s p) \<le> left s + credit p"
begin

lemma ok_run: "ok s \<Longrightarrow> ok (fst (run_ops step s ps))"
proof (induction ps arbitrary: s)
  case (Cons p ps)
  obtain s1 d where step: "step s p = (s1, d)" by (cases "step s p")
  from ok_step [OF Cons.prems, of p] have "ok s1" by (simp add: step)
  from Cons.IH [OF this] show ?case
    by (cases "run_ops step s1 ps") (simp add: step)
qed simp

lemma run_bound:
  "ok s \<Longrightarrow> left (fst (run_ops step s ps)) + sum_list (snd (run_ops step s ps))
     \<le> left s + sum_list (map credit ps)"
proof (induction ps arbitrary: s)
  case (Cons p ps)
  obtain s1 d where step: "step s p = (s1, d)" by (cases "step s p")
  have "ok s1" and "left s1 + d \<le> left s + credit p"
    using ok_step [OF Cons.prems, of p] step_bound [OF Cons.prems, of p] by (simp_all add: step)
  with Cons.IH [of s1] show ?case
    by (auto simp: step split: prod.splits)
qed simp

lemma drawn_le_paid: "ok s \<Longrightarrow> sum_list (snd (run_ops step s ps)) \<le> left s + sum_list (map credit ps)"
  using run_bound [of s ps] by simp

end

end
