(* ===== verification/Clock.thy ===== *)
theory Clock
  imports Prelude
begin

text \<open>
  Time as a number the host supplies (\<open>crates/tollgate-core/src/time.rs\<close>). The source's newtype
  \<open>Millis\<close> over \<open>u64\<close> keeps instants and durations apart in the type checker; here both are
  \<open>u64\<close>, and the operations keep their names. Adding to an instant saturates.
\<close>

type_synonym Millis = u64

definition saturating_since :: "Millis \<Rightarrow> Millis \<Rightarrow> u64" where
  "saturating_since self earlier = sat_sub self earlier"

definition millis_add :: "Millis \<Rightarrow> u64 \<Rightarrow> Millis" where
  "millis_add self ms = sat_add self ms"

definition millis_sub :: "Millis \<Rightarrow> u64 \<Rightarrow> Millis" where
  "millis_sub self ms = sat_sub self ms"

lemma unat_saturating_since [u64_nat]: "unat (saturating_since a b) = unat a - unat b"
  by (simp add: saturating_since_def u64_nat)

lemma unat_millis_add [u64_nat]: "unat (millis_add a b) = min (unat a + unat b) 18446744073709551615"
  by (simp add: millis_add_def u64_nat)

lemma millis_add_ge [simp]: "a \<le> millis_add a b"
  by (simp add: u64_nat)

end
