(* ===== verification/Limits.thy ===== *)
theory Limits
  imports Clock
begin

text \<open>
  Rate arithmetic and the second the draw rule is applied over
  (\<open>crates/tollgate-core/src/grant/limits.rs\<close>).
\<close>

subsection \<open>Rates and quantities\<close>

definition rate_from :: "u64 \<Rightarrow> u64 \<Rightarrow> u64" where
  "rate_from units ms =
     (if ms = 0 then U64_MAX else clamp_u64 (unat units * 1000 div unat ms))"

definition units_in :: "u64 \<Rightarrow> u64 \<Rightarrow> u64" where
  "units_in rate ms = clamp_u64 (unat rate * unat ms div 1000)"

definition budget_for :: "u64 \<Rightarrow> u64 \<Rightarrow> u64" where
  "budget_for rate window_ms = units_in rate window_ms"

text \<open>\<open>u64::leading_zeros\<close>: zero bits from the top, looking at the lowest \<open>n\<close> of them.\<close>

fun leading_zeros_in :: "nat \<Rightarrow> u64 \<Rightarrow> nat" where
  "leading_zeros_in 0 c = 0"
| "leading_zeros_in (Suc n) c = (if bit c n then 0 else Suc (leading_zeros_in n c))"

definition leading_zeros :: "u64 \<Rightarrow> nat" where
  "leading_zeros c = leading_zeros_in 64 c"

definition per_tick_ceiling :: "u64 \<Rightarrow> u64 \<Rightarrow> u64" where
  "per_tick_ceiling remaining tick_ms =
     (let c = rate_from remaining (max tick_ms 1)
      in if c = 0 then 0 else push_bit (63 - leading_zeros c) 1)"

definition SECOND_MS :: u64 where
  "SECOND_MS = 1000"

subsection \<open>The second being drawn\<close>

record Second =
  sec_start :: Millis
  sec_at :: Millis
  sec_moved :: u64

definition starting :: "Millis \<Rightarrow> Second" where
  "starting now = \<lparr>sec_start = now, sec_at = now, sec_moved = 0\<rparr>"

definition last_read :: "Second \<Rightarrow> Millis" where
  "last_read s = sec_at s"

definition second_read :: "Second \<Rightarrow> u64 \<Rightarrow> Millis \<Rightarrow> u64 \<Rightarrow> Second \<times> u64" where
  "second_read s moved now rate =
     (let s = s\<lparr>sec_moved := sat_add (sec_moved s) moved\<rparr>;
          s = s\<lparr>sec_at := max (sec_at s) now\<rparr>;
          whole = saturating_since (sec_at s) (sec_start s) div SECOND_MS
      in if whole = 0 then (s, moved)
         else let floor = units_in rate (sat_mul whole SECOND_MS);
                  owed = sat_add moved (sat_sub floor (sec_moved s));
                  s = s\<lparr>sec_start := millis_add (sec_start s) (sat_mul whole SECOND_MS)\<rparr>;
                  s = s\<lparr>sec_moved := 0\<rparr>
              in (s, owed))"

definition second_close :: "Second \<Rightarrow> Millis \<Rightarrow> u64 \<Rightarrow> u64" where
  "second_close s until rate =
     (let floor = units_in rate (saturating_since until (sec_start s))
      in sat_sub floor (sec_moved s))"

text \<open>A run of readings at one reserved rate, with what each one owed.\<close>

fun second_run :: "Second \<Rightarrow> u64 \<Rightarrow> (u64 \<times> Millis) list \<Rightarrow> Second \<times> u64 list" where
  "second_run s rate [] = (s, [])"
| "second_run s rate ((moved, now) # rs) =
     (let (s1, owed) = second_read s moved now rate;
          (s2, owes) = second_run s1 rate rs
      in (s2, owed # owes))"

subsection \<open>Arithmetic\<close>

lemma rate_from_code [code]:
  "rate_from units ms = (if ms = 0 then U64_MAX else clamp_int (uint units * 1000 div uint ms))"
  by (simp add: rate_from_def clamp_u64_int zdiv_int)

lemma units_in_code [code]: "units_in rate ms = clamp_int (uint rate * uint ms div 1000)"
  by (simp add: units_in_def clamp_u64_int zdiv_int)

lemma unat_units_in [u64_nat]:
  "unat (units_in rate ms) = min (unat rate * unat ms div 1000) 18446744073709551615"
  by (simp add: units_in_def u64_nat)

lemma unat_rate_from:
  "ms \<noteq> 0 \<Longrightarrow> unat (rate_from u ms) = min (unat u * 1000 div unat ms) 18446744073709551615"
  by (simp add: rate_from_def u64_nat)

lemma units_in_0 [simp]: "units_in 0 ms = 0" "units_in rate 0 = 0"
  by (simp_all add: units_in_def clamp_u64_def)

lemma units_in_mono: "ms \<le> ms' \<Longrightarrow> units_in rate ms \<le> units_in rate ms'"
  by (simp add: u64_nat div_le_mono min.coboundedI1)

text \<open>Converting units to a rate and back never yields more than there were.\<close>

lemma units_in_rate_from_le:
  assumes "ms \<noteq> 0" and "r \<le> rate_from u ms"
  shows "units_in r ms \<le> u"
proof -
  from assms(1) have pos: "0 < unat ms" by (simp add: unat_gt_0)
  from assms have "unat r \<le> unat u * 1000 div unat ms"
    by (simp add: u64_nat unat_rate_from)
  then have "unat r * unat ms \<le> unat u * 1000"
    using pos by (simp add: less_eq_div_iff_mult_less_eq)
  then have "unat r * unat ms div 1000 \<le> unat u * 1000 div 1000"
    by (rule div_le_mono)
  then show ?thesis
    by (simp add: u64_nat)
qed

lemma even_small: "even (m :: nat) \<Longrightarrow> m < 2 \<Longrightarrow> m = 0"
  by presburger

lemma leading_zeros_in_spec:
  assumes "c \<noteq> 0" and "unat c < 2 ^ n"
  shows "leading_zeros_in n c < n \<and> 2 ^ (n - 1 - leading_zeros_in n c) \<le> unat c
    \<and> unat c < 2 ^ (n - leading_zeros_in n c)"
  using assms(2)
proof (induction n)
  case 0
  with assms(1) show ?case by (simp add: unat_eq_0)
next
  case (Suc n)
  have bit_iff: "bit c n \<longleftrightarrow> odd (unat c div 2 ^ n)"
    by (metis bit_iff_odd bit_unsigned_iff possible_bit_nat unsigned_or_eq)
  show ?case
  proof (cases "bit c n")
    case True
    then have "unat c div 2 ^ n \<noteq> 0" using bit_iff by (metis even_zero)
    then have "2 ^ n \<le> unat c"
      by (meson div_less not_le)
    with True Suc.prems show ?thesis by simp
  next
    case False
    have "unat c div 2 ^ n < 2"
      using Suc.prems by (simp add: less_mult_imp_div_less)
    moreover have "even (unat c div 2 ^ n)"
      using False bit_iff by simp
    ultimately have "unat c div 2 ^ n = 0"
      by (simp add: even_small)
    then have "unat c < 2 ^ n"
      by (simp add: div_eq_0_iff)
    with Suc.IH False show ?thesis by auto
  qed
qed

lemma leading_zeros_spec:
  assumes "c \<noteq> 0"
  shows "leading_zeros c < 64" and "2 ^ (63 - leading_zeros c) \<le> unat c"
    and "unat c < 2 * 2 ^ (63 - leading_zeros c)"
proof -
  have *: "leading_zeros c < 64 \<and> 2 ^ (64 - 1 - leading_zeros c) \<le> unat c
    \<and> unat c < 2 ^ (64 - leading_zeros c)"
    unfolding leading_zeros_def by (rule leading_zeros_in_spec [OF assms unat_u64_less])
  then show "leading_zeros c < 64" "2 ^ (63 - leading_zeros c) \<le> unat c" by simp_all
  from * have "64 - leading_zeros c = Suc (63 - leading_zeros c)" by linarith
  with * show "unat c < 2 * 2 ^ (63 - leading_zeros c)" by simp
qed

lemma unat_u64_power:
  assumes "n < 64"
  shows "unat ((2 :: u64) ^ n) = 2 ^ n"
proof -
  from assms have "(2 :: nat) ^ n < 2 ^ 64" by (simp only: power_strict_increasing_iff)
  moreover have "(2 :: u64) ^ n = of_nat (2 ^ n)" by simp
  ultimately show ?thesis by (simp only: unat_of_nat) simp
qed

text \<open>
  The ceiling is the largest power of two at most the exact rate: never above it, and more than
  half of it.
\<close>

lemma per_tick_ceiling_le: "per_tick_ceiling r t \<le> rate_from r (max t 1)"
  using leading_zeros_spec [of "rate_from r (max t 1)"]
  by (auto simp: per_tick_ceiling_def Let_def word_le_nat_alt unat_u64_power)

lemma per_tick_ceiling_gt_half:
  assumes "rate_from r (max t 1) \<noteq> 0"
  shows "unat (rate_from r (max t 1)) < 2 * unat (per_tick_ceiling r t)"
  using leading_zeros_spec [OF assms] assms
  by (simp add: per_tick_ceiling_def Let_def unat_u64_power)

lemma units_in_per_tick_ceiling:
  assumes "rate \<le> per_tick_ceiling remaining t"
  shows "units_in rate t \<le> remaining"
proof -
  have "units_in rate (max t 1) \<le> remaining"
    using assms per_tick_ceiling_le [of remaining t]
    by (intro units_in_rate_from_le) (auto simp: max_def)
  moreover have "units_in rate t \<le> units_in rate (max t 1)"
    by (rule units_in_mono) simp
  ultimately show ?thesis by simp
qed

subsection \<open>One reading\<close>

text \<open>The number of whole seconds a reading at \<open>now\<close> completes.\<close>

definition whole_seconds :: "Second \<Rightarrow> Millis \<Rightarrow> nat" where
  "whole_seconds s now = (unat (max (sec_at s) now) - unat (sec_start s)) div 1000"

lemma whole_seconds_moved [simp]:
  "whole_seconds (s\<lparr>sec_moved := m\<rparr>) now = whole_seconds s now"
  by (simp add: whole_seconds_def)

lemma unat_SECOND_MS [simp]: "unat SECOND_MS = 1000"
  by (simp add: SECOND_MS_def)

lemma whole_seconds_ms: "unat (sec_start s) + whole_seconds s now * 1000 \<le> 18446744073709551615
  \<or> whole_seconds s now = 0"
proof -
  have "whole_seconds s now * 1000 \<le> unat (max (sec_at s) now) - unat (sec_start s)"
    by (simp add: whole_seconds_def)
  moreover have "unat (max (sec_at s) now) \<le> 18446744073709551615" by simp
  ultimately show ?thesis by linarith
qed

lemma unat_whole:
  "unat (saturating_since (max (sec_at s) now) (sec_start s) div SECOND_MS) = whole_seconds s now"
  by (simp add: whole_seconds_def unat_div saturating_since_def unat_sat_sub)

lemma whole_zero:
  "saturating_since (max (sec_at s) now) (sec_start s) div SECOND_MS = 0
    \<longleftrightarrow> whole_seconds s now = 0"
  by (metis unat_whole unat_eq_0)

lemma unat_whole_ms:
  "unat (sat_mul (saturating_since (max (sec_at s) now) (sec_start s) div SECOND_MS) SECOND_MS)
    = whole_seconds s now * 1000"
  using whole_seconds_ms [of s now]
  by (auto simp: unat_sat_mul unat_whole)

text \<open>
  A reading that completes no second owes what moved. One that completes \<open>k\<close> seconds owes, with
  what was already drawn in them, the larger of what moved in them and the reserved rate for
  \<open>k\<close> seconds.
\<close>

lemma second_read_open:
  assumes "whole_seconds s now = 0"
  shows "second_read s moved now rate =
    (s\<lparr>sec_at := max (sec_at s) now, sec_moved := sat_add (sec_moved s) moved\<rparr>, moved)"
  using assms by (simp add: second_read_def Let_def whole_zero)

lemma second_read_whole:
  assumes k: "whole_seconds s now = k" "k \<noteq> 0"
    and fits: "unat (sec_moved s) + unat moved + unat rate * k < 2 ^ 64"
    and read: "second_read s moved now rate = (s', owed)"
  shows "unat (sec_moved s) + unat owed = max (unat (sec_moved s) + unat moved) (unat rate * k)"
    and "sec_moved s' = 0" and "unat (sec_start s') = unat (sec_start s) + k * 1000"
    and "sec_at s' = max (sec_at s) now"
proof -
  have start: "unat (sec_start s) + k * 1000 \<le> 18446744073709551615"
    using whole_seconds_ms [of s now] k by simp
  have div: "unat rate * (k * 1000) div 1000 = unat rate * k"
    by simp
  from read k have s': "s' = s\<lparr>sec_at := max (sec_at s) now, sec_moved := 0,
      sec_start := millis_add (sec_start s)
        (sat_mul (saturating_since (max (sec_at s) now) (sec_start s) div SECOND_MS) SECOND_MS)\<rparr>"
    and owed: "owed = sat_add moved (sat_sub (units_in rate
        (sat_mul (saturating_since (max (sec_at s) now) (sec_start s) div SECOND_MS) SECOND_MS))
        (sat_add (sec_moved s) moved))"
    by (auto simp: second_read_def Let_def whole_zero)
  show "sec_moved s' = 0" "sec_at s' = max (sec_at s) now"
    by (simp_all add: s')
  show "unat (sec_start s') = unat (sec_start s) + k * 1000"
    using start k by (simp add: s' unat_millis_add unat_whole_ms)
  show "unat (sec_moved s) + unat owed = max (unat (sec_moved s) + unat moved) (unat rate * k)"
    using fits k div
    by (simp add: owed unat_sat_add unat_sat_sub unat_units_in unat_whole_ms)
qed

subsection \<open>A run of readings\<close>

text \<open>The whole seconds between the starts of two states of one run.\<close>

definition seconds_done :: "Second \<Rightarrow> Second \<Rightarrow> nat" where
  "seconds_done s s' = (unat (sec_start s') - unat (sec_start s)) div 1000"

lemma second_read_start:
  "unat (sec_start (fst (second_read s moved now rate)))
    = unat (sec_start s) + whole_seconds s now * 1000"
proof (cases "whole_seconds s now = 0")
  case False
  then show ?thesis
    using whole_seconds_ms [of s now]
    by (simp add: second_read_def Let_def whole_zero unat_millis_add unat_whole_ms)
qed (simp add: second_read_open)

lemma second_run_start:
  "second_run s rate rs = (s', owes) \<Longrightarrow>
    unat (sec_start s') = unat (sec_start s) + seconds_done s s' * 1000"
proof (induction rs arbitrary: s s' owes)
  case (Cons r rs)
  obtain moved now where r: "r = (moved, now)" by (cases r)
  obtain s1 owed where read: "second_read s moved now rate = (s1, owed)"
    by (cases "second_read s moved now rate")
  with Cons.prems obtain os where rest: "second_run s1 rate rs = (s', os)"
    by (auto simp: r split: prod.splits)
  have "unat (sec_start s1) = unat (sec_start s) + whole_seconds s now * 1000"
    using second_read_start [of s moved now rate] read by simp
  with Cons.IH [OF rest]
  have eq: "unat (sec_start s')
    = unat (sec_start s) + (whole_seconds s now + seconds_done s1 s') * 1000"
    by (simp add: algebra_simps)
  then have "seconds_done s s' = whole_seconds s now + seconds_done s1 s'"
    unfolding seconds_done_def [of s s'] by simp
  with eq show ?case by simp
qed (simp add: seconds_done_def)

lemma second_read_bounds:
  assumes read: "second_read s moved now rate = (s', owed)"
    and fits: "unat (sec_moved s) + unat moved + unat rate * whole_seconds s now < 2 ^ 64"
  shows "unat moved \<le> unat owed"
    and "unat rate * whole_seconds s now + unat (sec_moved s') \<le> unat (sec_moved s) + unat owed"
    and "unat owed \<le> unat moved + unat rate * whole_seconds s now"
    and "unat (sec_moved s') \<le> unat (sec_moved s) + unat moved"
proof -
  have "unat moved \<le> unat owed
    \<and> unat rate * whole_seconds s now + unat (sec_moved s') \<le> unat (sec_moved s) + unat owed
    \<and> unat owed \<le> unat moved + unat rate * whole_seconds s now
    \<and> unat (sec_moved s') \<le> unat (sec_moved s) + unat moved"
  proof (cases "whole_seconds s now = 0")
    case True
    with read fits show ?thesis
      by (auto simp: second_read_open unat_sat_add)
  next
    case False
    show ?thesis
      using second_read_whole(1,2) [OF refl False fits read] by auto
  qed
  then show "unat moved \<le> unat owed"
    "unat rate * whole_seconds s now + unat (sec_moved s') \<le> unat (sec_moved s) + unat owed"
    "unat owed \<le> unat moved + unat rate * whole_seconds s now"
    "unat (sec_moved s') \<le> unat (sec_moved s) + unat moved"
    by simp_all
qed

text \<open>
  Over a run of readings at one reserved rate, what is owed is at least what moved and at least
  the reserved rate for every whole second the run completed, and never more than the two
  together.
\<close>

lemma second_run_bounds:
  assumes "second_run s rate rs = (s', owes)"
    and "unat (sec_moved s) + (\<Sum>(m, _)\<leftarrow>rs. unat m) + unat rate * seconds_done s s' < 2 ^ 64"
  shows "(\<Sum>(m, _)\<leftarrow>rs. unat m) \<le> (\<Sum>w\<leftarrow>owes. unat w)
    \<and> unat rate * seconds_done s s' + unat (sec_moved s') \<le> unat (sec_moved s) + (\<Sum>w\<leftarrow>owes. unat w)
    \<and> (\<Sum>w\<leftarrow>owes. unat w) \<le> (\<Sum>(m, _)\<leftarrow>rs. unat m) + unat rate * seconds_done s s'"
  using assms
proof (induction rs arbitrary: s owes)
  case (Cons r rs)
  obtain moved now where r: "r = (moved, now)" by (cases r)
  obtain s1 owed where read: "second_read s moved now rate = (s1, owed)"
    by (cases "second_read s moved now rate")
  with Cons.prems obtain os where rest: "second_run s1 rate rs = (s', os)" and owes: "owes = owed # os"
    by (auto simp: r split: prod.splits)
  define k where "k = whole_seconds s now"
  define K where "K = seconds_done s1 s'"
  have done_eq: "seconds_done s s' = k + K"
    using second_read_start [of s moved now rate] second_run_start [OF rest] read
    by (simp add: seconds_done_def k_def K_def)
  have fits1: "unat (sec_moved s) + unat moved + unat rate * k < 2 ^ 64"
    and fits2: "unat (sec_moved s) + unat moved + (\<Sum>(m, _)\<leftarrow>rs. unat m) + unat rate * K < 2 ^ 64"
    using Cons.prems(2) by (simp_all add: r done_eq algebra_simps)
  note one = second_read_bounds [OF read, folded k_def, OF fits1]
  have "unat (sec_moved s1) + (\<Sum>(m, _)\<leftarrow>rs. unat m) + unat rate * K < 2 ^ 64"
    using fits2 one(4) by linarith
  from Cons.IH [OF rest, folded K_def, OF this] one show ?case
    by (simp add: r owes done_eq algebra_simps)
qed (simp add: seconds_done_def)

end
