(* ===== verification/Policy.thy ===== *)
theory Policy
  imports Prelude
begin

text \<open>
  The operator's policy as core reads it (\<open>crates/tollgate-core/src/config.rs\<close>): what a payer may
  buy, how fast it is carried, the node's own settings and the overrides per peer.
\<close>

subsection \<open>Grant policy\<close>

record GrantPolicy =
  gp_min_window_ms :: u64
  gp_max_window_ms :: u64
  gp_min_reserved_rate :: u64
  gp_min_topup_gap_ms :: u64
  gp_max_rate :: "u64 option"

definition GrantPolicy_default :: GrantPolicy where
  "GrantPolicy_default =
     \<lparr>gp_min_window_ms = 1000, gp_max_window_ms = 2592000000, gp_min_reserved_rate = 0,
      gp_min_topup_gap_ms = 1000, gp_max_rate = None\<rparr>"

definition window_acceptable :: "GrantPolicy \<Rightarrow> u64 \<Rightarrow> bool" where
  "window_acceptable g window_ms = (gp_min_window_ms g \<le> window_ms \<and> window_ms \<le> gp_max_window_ms g)"

definition window_range_valid :: "GrantPolicy \<Rightarrow> bool" where
  "window_range_valid g =
     (gp_min_window_ms g \<le> gp_max_window_ms g \<and> gp_min_window_ms g \<ge> gp_min_topup_gap_ms g)"

subsection \<open>Burst policy\<close>

record BurstPolicy =
  bp_rate :: u64
  bp_unreserved_rate :: u64

definition BurstPolicy_default :: BurstPolicy where
  "BurstPolicy_default = \<lparr>bp_rate = 0, bp_unreserved_rate = 0\<rparr>"

definition unreserved_speed :: "BurstPolicy \<Rightarrow> u64" where
  "unreserved_speed b = (if bp_unreserved_rate b = 0 then U64_MAX else bp_unreserved_rate b)"

subsection \<open>Node policy\<close>

record NodePolicy =
  np_unit :: string
  np_accepted_mints :: "string list"
  np_from_payer_weight :: u16
  np_minimum_flow :: u64
  np_grants :: GrantPolicy
  np_burst :: BurstPolicy
  np_tick_ms :: u64
  np_initial_channel_capacity :: u64
  np_min_channel_capacity :: u64
  np_max_channel_capacity :: u64
  np_capacity_growth_pct :: u32
  np_safety_margin_ms :: u64
  np_stale_timeout_ms :: u64
  np_rollover_threshold_pct :: u8

definition DEFAULT_INITIAL_CAPACITY :: u64 where
  "DEFAULT_INITIAL_CAPACITY = 2 ^ 30"

definition DEFAULT_STALE_TIMEOUT_MS :: u64 where
  "DEFAULT_STALE_TIMEOUT_MS = 60000"

definition NodePolicy_default :: NodePolicy where
  "NodePolicy_default =
     \<lparr>np_unit = ''byte'', np_accepted_mints = [], np_from_payer_weight = 1, np_minimum_flow = 0,
      np_grants = GrantPolicy_default, np_burst = BurstPolicy_default, np_tick_ms = 1000,
      np_initial_channel_capacity = DEFAULT_INITIAL_CAPACITY,
      np_min_channel_capacity = 2 ^ 27, np_max_channel_capacity = 2 ^ 34,
      np_capacity_growth_pct = 200, np_safety_margin_ms = 60000,
      np_stale_timeout_ms = DEFAULT_STALE_TIMEOUT_MS, np_rollover_threshold_pct = 80\<rparr>"

definition clamp_capacity :: "NodePolicy \<Rightarrow> u64 \<Rightarrow> u64" where
  "clamp_capacity n capacity =
     min (max capacity (np_min_channel_capacity n)) (np_max_channel_capacity n)"

definition first_channel_capacity :: "NodePolicy \<Rightarrow> u64" where
  "first_channel_capacity n = clamp_capacity n (np_initial_channel_capacity n)"

definition grown_capacity :: "NodePolicy \<Rightarrow> u64 \<Rightarrow> u64" where
  "grown_capacity n capacity =
     clamp_capacity n (clamp_u64 (unat capacity * unat (np_capacity_growth_pct n) div 100))"

definition keepalive_interval_ms :: "NodePolicy \<Rightarrow> u64" where
  "keepalive_interval_ms n =
     (let timeout = (if np_stale_timeout_ms n = 0 then DEFAULT_STALE_TIMEOUT_MS
                     else np_stale_timeout_ms n)
      in max (timeout div 3) 1)"

definition settle_lead_ms :: "NodePolicy \<Rightarrow> u64" where
  "settle_lead_ms n = np_safety_margin_ms n div 2"

subsection \<open>Per-peer overrides\<close>

record PeerPolicy =
  pp_no_charge :: bool
  pp_blocked :: bool
  pp_from_payer_weight :: "u16 option"
  pp_burst_rate :: "u64 option"
  pp_unreserved_rate :: "u64 option"

definition PeerPolicy_default :: PeerPolicy where
  "PeerPolicy_default =
     \<lparr>pp_no_charge = False, pp_blocked = False, pp_from_payer_weight = None,
      pp_burst_rate = None, pp_unreserved_rate = None\<rparr>"

definition peer_weight :: "PeerPolicy \<Rightarrow> NodePolicy \<Rightarrow> u16" where
  "peer_weight p n = (case pp_from_payer_weight p of Some w \<Rightarrow> w | None \<Rightarrow> np_from_payer_weight n)"

definition peer_burst :: "PeerPolicy \<Rightarrow> NodePolicy \<Rightarrow> BurstPolicy" where
  "peer_burst p n =
     \<lparr>bp_rate = (case pp_burst_rate p of Some r \<Rightarrow> r | None \<Rightarrow> bp_rate (np_burst n)),
      bp_unreserved_rate =
        (case pp_unreserved_rate p of Some r \<Rightarrow> r | None \<Rightarrow> bp_unreserved_rate (np_burst n))\<rparr>"

subsection \<open>Bounds\<close>

lemma grown_capacity_code [code]:
  "grown_capacity n c = clamp_capacity n (clamp_int (uint c * uint (np_capacity_growth_pct n) div 100))"
  by (simp add: grown_capacity_def clamp_u64_int zdiv_int)

lemma clamp_capacity_le: "clamp_capacity n c \<le> np_max_channel_capacity n"
  by (simp add: clamp_capacity_def)

lemma clamp_capacity_ge:
  "np_min_channel_capacity n \<le> np_max_channel_capacity n \<Longrightarrow>
    np_min_channel_capacity n \<le> clamp_capacity n c"
  by (simp add: clamp_capacity_def)

lemma settle_lead_within_margin: "settle_lead_ms n \<le> np_safety_margin_ms n"
  by (simp add: settle_lead_ms_def word_le_nat_alt unat_div)

lemma keepalive_interval_pos: "keepalive_interval_ms n > 0"
  by (simp add: keepalive_interval_ms_def Let_def less_max_iff_disj)

end
