(* ===== verification/Wire_Types.thy ===== *)
theory Wire_Types
  imports Prelude "HOL-Library.List_Lexorder"
begin

text \<open>
  The wire vocabulary of \<open>crates/tollgate-protocol/src/types.rs\<close> and \<open>message.rs\<close>: fixed-width
  identifiers, message tags, reason codes, one record per message and the union \<open>Message\<close>.

  A fixed-width byte array is a byte list under its own constructor, as the source's newtypes
  are; \<open>wf_pubkey\<close>, \<open>wf_channel_id\<close> and \<open>wf_signature\<close> state the width. Public keys are compared
  as byte arrays, which is the order the session's maps iterate in.
\<close>

subsection \<open>Identifiers\<close>

datatype PubKey = PubKey (pubkey_bytes: "u8 list")

datatype ChannelId = ChannelId (channel_id_bytes: "u8 list")

datatype Signature = Signature (signature_bytes: "u8 list")

definition wf_pubkey :: "PubKey \<Rightarrow> bool" where
  "wf_pubkey k = (length (pubkey_bytes k) = 33)"

definition wf_channel_id :: "ChannelId \<Rightarrow> bool" where
  "wf_channel_id c = (length (channel_id_bytes c) = 32)"

definition wf_signature :: "Signature \<Rightarrow> bool" where
  "wf_signature s = (length (signature_bytes s) = 64)"

instantiation PubKey :: linorder
begin

definition less_eq_PubKey :: "PubKey \<Rightarrow> PubKey \<Rightarrow> bool" where
  "less_eq_PubKey a b = (pubkey_bytes a \<le> pubkey_bytes b)"

definition less_PubKey :: "PubKey \<Rightarrow> PubKey \<Rightarrow> bool" where
  "less_PubKey a b = (pubkey_bytes a < pubkey_bytes b)"

instance
  by standard (auto simp: less_eq_PubKey_def less_PubKey_def PubKey.expand)

end

subsection \<open>Message tags\<close>

datatype MsgType =
    MT_Announce | MT_Offer | MT_Accept | MT_ChannelReady | MT_TopUp | MT_TopUpReject
  | MT_RolloverInit | MT_RolloverReady | MT_ChannelClose | MT_CloseAck | MT_Reject
  | MT_Disconnect | MT_Balance

fun msg_type_u8 :: "MsgType \<Rightarrow> u8" where
  "msg_type_u8 MT_Announce = 0x00"
| "msg_type_u8 MT_Offer = 0x01"
| "msg_type_u8 MT_Accept = 0x02"
| "msg_type_u8 MT_ChannelReady = 0x03"
| "msg_type_u8 MT_TopUp = 0x04"
| "msg_type_u8 MT_TopUpReject = 0x05"
| "msg_type_u8 MT_RolloverInit = 0x06"
| "msg_type_u8 MT_RolloverReady = 0x07"
| "msg_type_u8 MT_ChannelClose = 0x08"
| "msg_type_u8 MT_CloseAck = 0x09"
| "msg_type_u8 MT_Reject = 0x0A"
| "msg_type_u8 MT_Disconnect = 0x0B"
| "msg_type_u8 MT_Balance = 0x0C"

definition msg_type_from_u8 :: "u8 \<Rightarrow> MsgType option" where
  "msg_type_from_u8 v =
     (if v = 0x00 then Some MT_Announce
      else if v = 0x01 then Some MT_Offer
      else if v = 0x02 then Some MT_Accept
      else if v = 0x03 then Some MT_ChannelReady
      else if v = 0x04 then Some MT_TopUp
      else if v = 0x05 then Some MT_TopUpReject
      else if v = 0x06 then Some MT_RolloverInit
      else if v = 0x07 then Some MT_RolloverReady
      else if v = 0x08 then Some MT_ChannelClose
      else if v = 0x09 then Some MT_CloseAck
      else if v = 0x0A then Some MT_Reject
      else if v = 0x0B then Some MT_Disconnect
      else if v = 0x0C then Some MT_Balance
      else None)"

subsection \<open>Reason codes\<close>

datatype ReasonCode =
    FromPayerWeightUnacceptable | MintNotAccepted | UnitNotAccepted | OutOfRange
  | FundingInvalid | GrantInvalid | RateExceedsCapacity | GrantExceedsChannel
  | VersionUnsupported | TooSoon | OtherReason

fun reason_u8 :: "ReasonCode \<Rightarrow> u8" where
  "reason_u8 FromPayerWeightUnacceptable = 0x01"
| "reason_u8 MintNotAccepted = 0x02"
| "reason_u8 UnitNotAccepted = 0x03"
| "reason_u8 OutOfRange = 0x04"
| "reason_u8 FundingInvalid = 0x05"
| "reason_u8 GrantInvalid = 0x06"
| "reason_u8 RateExceedsCapacity = 0x07"
| "reason_u8 GrantExceedsChannel = 0x08"
| "reason_u8 VersionUnsupported = 0x09"
| "reason_u8 TooSoon = 0x0A"
| "reason_u8 OtherReason = 0xFF"

definition avoidable_from_offer :: "ReasonCode \<Rightarrow> bool" where
  "avoidable_from_offer r = (\<not> (r = RateExceedsCapacity \<or> r = TooSoon))"

definition reason_from_u8 :: "u8 \<Rightarrow> ReasonCode" where
  "reason_from_u8 v =
     (if v = 0x01 then FromPayerWeightUnacceptable
      else if v = 0x02 then MintNotAccepted
      else if v = 0x03 then UnitNotAccepted
      else if v = 0x04 then OutOfRange
      else if v = 0x05 then FundingInvalid
      else if v = 0x06 then GrantInvalid
      else if v = 0x07 then RateExceedsCapacity
      else if v = 0x08 then GrantExceedsChannel
      else if v = 0x09 then VersionUnsupported
      else if v = 0x0A then TooSoon
      else OtherReason)"

datatype CloseReason = NormalClose | PriceRejected | PeerLeaving

fun close_reason_u8 :: "CloseReason \<Rightarrow> u8" where
  "close_reason_u8 NormalClose = 0"
| "close_reason_u8 PriceRejected = 1"
| "close_reason_u8 PeerLeaving = 2"

definition close_reason_from_u8 :: "u8 \<Rightarrow> CloseReason" where
  "close_reason_from_u8 v = (if v = 1 then PriceRejected else if v = 2 then PeerLeaving
     else NormalClose)"

subsection \<open>Messages\<close>

record Announce =
  ann_version :: u8
  ann_pubkey :: PubKey
  ann_unit :: string
  ann_capabilities :: u32

record Offer =
  offer_accepted_mints :: "string list"
  offer_unit :: string
  offer_min_window_ms :: u64
  offer_max_window_ms :: u64
  offer_from_payer_weight :: u16
  offer_no_charge :: bool
  offer_min_reserved_rate :: u64
  offer_min_topup_gap_ms :: u64

record Accept =
  acc_funding :: "u8 list"

record ChannelReady =
  ready_channel_id :: ChannelId

record ChannelUpdate =
  upd_channel_id :: ChannelId
  upd_cumulative :: u64
  upd_signature :: Signature

record TopUp =
  topup_updates :: "ChannelUpdate list"
  topup_window_ms :: u64
  topup_reserved_rate :: u64

record RefusedUpdate =
  ref_channel_id :: ChannelId
  ref_cumulative :: u64

record TopUpReject =
  rej_refused :: "RefusedUpdate list"
  rej_max_reserved_rate :: u64
  rej_reason :: ReasonCode

record RolloverInit =
  ri_old_channel_id :: ChannelId
  ri_funding :: "u8 list"

record RolloverReady =
  rr_old_channel_id :: ChannelId
  rr_new_channel_id :: ChannelId

record ChannelClose =
  close_channel_id :: ChannelId
  close_final_balance :: u64
  close_final_signature :: Signature
  close_reason :: CloseReason

record CloseAck =
  ack_channel_id :: ChannelId
  ack_accepted_balance :: u64

record Reject =
  reject_type :: u8
  reject_reason :: ReasonCode
  reject_text :: "string option"

record Disconnect =
  disc_reason :: ReasonCode

record Balance =
  bal_remaining :: u64
  bal_expires_in_ms :: u64
  bal_reserved_rate :: u64

datatype Message =
    MAnnounce Announce
  | MOffer Offer
  | MAccept Accept
  | MChannelReady ChannelReady
  | MTopUp TopUp
  | MTopUpReject TopUpReject
  | MRolloverInit RolloverInit
  | MRolloverReady RolloverReady
  | MChannelClose ChannelClose
  | MCloseAck CloseAck
  | MReject Reject
  | MDisconnect Disconnect
  | MBalance Balance

fun msg_type :: "Message \<Rightarrow> MsgType" where
  "msg_type (MAnnounce _) = MT_Announce"
| "msg_type (MOffer _) = MT_Offer"
| "msg_type (MAccept _) = MT_Accept"
| "msg_type (MChannelReady _) = MT_ChannelReady"
| "msg_type (MTopUp _) = MT_TopUp"
| "msg_type (MTopUpReject _) = MT_TopUpReject"
| "msg_type (MRolloverInit _) = MT_RolloverInit"
| "msg_type (MRolloverReady _) = MT_RolloverReady"
| "msg_type (MChannelClose _) = MT_ChannelClose"
| "msg_type (MCloseAck _) = MT_CloseAck"
| "msg_type (MReject _) = MT_Reject"
| "msg_type (MDisconnect _) = MT_Disconnect"
| "msg_type (MBalance _) = MT_Balance"

definition PROTOCOL_VERSION :: u8 where
  "PROTOCOL_VERSION = 1"

definition MAX_CHANNEL_UPDATES :: nat where
  "MAX_CHANNEL_UPDATES = 8"

subsection \<open>Tags and codes survive the wire\<close>

lemma msg_type_roundtrip [simp]: "msg_type_from_u8 (msg_type_u8 t) = Some t"
  by (cases t) (simp_all add: msg_type_from_u8_def)

lemma msg_type_from_u8_inverse: "msg_type_from_u8 v = Some t \<Longrightarrow> msg_type_u8 t = v"
  by (auto simp: msg_type_from_u8_def split: if_splits)

lemma reason_roundtrip [simp]: "reason_from_u8 (reason_u8 r) = r"
  by (cases r) (simp_all add: reason_from_u8_def)

lemma close_reason_roundtrip [simp]: "close_reason_from_u8 (close_reason_u8 r) = r"
  by (cases r) (simp_all add: close_reason_from_u8_def)

end
