(* ===== verification/Grant.thy ===== *)
theory Grant
  imports Account Limits Policy Wire_Types
begin

text \<open>
  What a payer has bought and what has been drawn from it: the provider's view of one payer
  (\<open>crates/tollgate-core/src/grant/state.rs\<close>). A channel holds a ratchet; the budget is
  \<open>authorized - consumed\<close>, spendable until the deadline.
\<close>

definition MAX_VERIFICATION_FAILURES :: u32 where
  "MAX_VERIFICATION_FAILURES = 3"

subsection \<open>Channels\<close>

record IncomingChannel =
  ic_id :: ChannelId
  ic_capacity :: u64
  ic_signed :: u64
  ic_failures :: u32
  ic_expires_at :: "Millis option"

definition ic_new :: "ChannelId \<Rightarrow> u64 \<Rightarrow> Millis option \<Rightarrow> IncomingChannel" where
  "ic_new i capacity expires_at =
     \<lparr>ic_id = i, ic_capacity = capacity, ic_signed = 0, ic_failures = 0,
      ic_expires_at = expires_at\<rparr>"

definition ic_headroom :: "IncomingChannel \<Rightarrow> u64" where
  "ic_headroom c = sat_sub (ic_capacity c) (ic_signed c)"

definition ic_exhausted :: "IncomingChannel \<Rightarrow> bool" where
  "ic_exhausted c = (ic_signed c \<ge> ic_capacity c)"

subsection \<open>The budget kept between sessions\<close>

record Budget =
  bud_remaining :: u64
  bud_deadline :: Millis

definition Budget_NONE :: Budget where
  "Budget_NONE = \<lparr>bud_remaining = 0, bud_deadline = 0\<rparr>"

definition budget_at :: "Budget \<Rightarrow> Millis \<Rightarrow> Budget" where
  "budget_at b now = (if bud_remaining b = 0 \<or> now \<ge> bud_deadline b then Budget_NONE else b)"

definition budget_expires_in_ms :: "Budget \<Rightarrow> Millis \<Rightarrow> u64" where
  "budget_expires_in_ms b now =
     (let live = budget_at b now
      in if bud_remaining live = 0 then 0 else saturating_since (bud_deadline live) now)"

subsection \<open>The state of one payer\<close>

record GrantState =
  gs_channels :: "IncomingChannel list"
  gs_authorized :: u64
  gs_consumed :: u64
  gs_deadline :: Millis
  gs_reserved_rate :: u64
  gs_last_topup :: "Millis option"
  gs_second :: "Second option"

definition grant_new :: GrantState where
  "grant_new =
     \<lparr>gs_channels = [], gs_authorized = 0, gs_consumed = 0, gs_deadline = 0,
      gs_reserved_rate = 0, gs_last_topup = None, gs_second = None\<rparr>"

definition grant_remaining :: "GrantState \<Rightarrow> u64" where
  "grant_remaining g = sat_sub (gs_authorized g) (gs_consumed g)"

definition grant_take :: "GrantState \<Rightarrow> u64 \<Rightarrow> GrantState \<times> u64" where
  "grant_take g owed =
     (let drawn = min owed (grant_remaining g);
          g = g\<lparr>gs_consumed := sat_add (gs_consumed g) drawn\<rparr>;
          g = (if grant_remaining g = 0 then g\<lparr>gs_reserved_rate := 0\<rparr> else g)
      in (g, drawn))"

definition grant_pause :: "GrantState \<Rightarrow> GrantState \<times> u64" where
  "grant_pause g =
     (case gs_second g of
        None \<Rightarrow> (g, 0)
      | Some second \<Rightarrow>
          let g = g\<lparr>gs_second := None\<rparr>;
              owed = second_close second (last_read second) (gs_reserved_rate g)
          in grant_take g owed)"

definition grant_budget :: "GrantState \<Rightarrow> Millis \<Rightarrow> Budget" where
  "grant_budget g now =
     budget_at \<lparr>bud_remaining = grant_remaining g, bud_deadline = gs_deadline g\<rparr> now"

definition grant_restore :: "GrantState \<Rightarrow> Budget \<Rightarrow> Millis \<Rightarrow> GrantState" where
  "grant_restore g budget now =
     (let budget = budget_at budget now
      in g\<lparr>gs_authorized := bud_remaining budget, gs_consumed := 0,
           gs_deadline := bud_deadline budget, gs_reserved_rate := 0, gs_second := None\<rparr>)"

definition grant_restart :: "GrantState \<Rightarrow> Millis \<Rightarrow> GrantState" where
  "grant_restart g now =
     (let g = fst (grant_pause g);
          channels = map (\<lambda>c. c\<lparr>ic_failures := 0\<rparr>) (gs_channels g);
          budget = grant_budget g now;
          g = grant_new\<lparr>gs_channels := channels\<rparr>
      in grant_restore g budget now)"

definition grant_end_reservation :: "GrantState \<Rightarrow> GrantState" where
  "grant_end_reservation g = (fst (grant_pause g))\<lparr>gs_reserved_rate := 0\<rparr>"

definition grant_channel :: "GrantState \<Rightarrow> ChannelId \<Rightarrow> IncomingChannel option" where
  "grant_channel g i = find (\<lambda>c. ic_id c = i) (gs_channels g)"

definition grant_open_channel ::
  "GrantState \<Rightarrow> ChannelId \<Rightarrow> u64 \<Rightarrow> Millis option \<Rightarrow> GrantState" where
  "grant_open_channel g i capacity expires_at =
     (case find (\<lambda>c. ic_id c = i) (gs_channels g) of
        Some _ \<Rightarrow>
          g\<lparr>gs_channels := update_first (\<lambda>c. ic_id c = i)
              (\<lambda>c. c\<lparr>ic_capacity := capacity, ic_expires_at := expires_at\<rparr>) (gs_channels g)\<rparr>
      | None \<Rightarrow> g\<lparr>gs_channels := gs_channels g @ [ic_new i capacity expires_at]\<rparr>)"

definition grant_close_channel ::
  "GrantState \<Rightarrow> ChannelId \<Rightarrow> GrantState \<times> IncomingChannel option" where
  "grant_close_channel g i =
     (case find (\<lambda>c. ic_id c = i) (gs_channels g) of
        None \<Rightarrow> (g, None)
      | Some c \<Rightarrow>
          (g\<lparr>gs_channels := remove_first (\<lambda>c. ic_id c = i) (gs_channels g)\<rparr>, Some c))"

text \<open>
  The loop that closes a list of channels, with what each closed one is settled at: its id, and
  its expiry as far as the channel was known.
\<close>

fun grant_close_all ::
  "GrantState \<Rightarrow> ChannelId list \<Rightarrow> GrantState \<times> (ChannelId \<times> Millis option) list" where
  "grant_close_all g [] = (g, [])"
| "grant_close_all g (i # is) =
     (let (g, closed) = grant_close_channel g i;
          expires_at = (case closed of None \<Rightarrow> None | Some c \<Rightarrow> ic_expires_at c);
          (g, settled) = grant_close_all g is
      in (g, (i, expires_at) # settled))"

definition grant_record_failure :: "GrantState \<Rightarrow> ChannelId \<Rightarrow> GrantState \<times> u32 option" where
  "grant_record_failure g i =
     (case find (\<lambda>c. ic_id c = i) (gs_channels g) of
        None \<Rightarrow> (g, None)
      | Some c \<Rightarrow>
          let failures = sat_add32 (ic_failures c) 1
          in (g\<lparr>gs_channels := update_first (\<lambda>c. ic_id c = i)
                 (\<lambda>c. c\<lparr>ic_failures := failures\<rparr>) (gs_channels g)\<rparr>, Some failures))"

definition grant_exhausted_channels :: "GrantState \<Rightarrow> ChannelId list" where
  "grant_exhausted_channels g = map ic_id (filter ic_exhausted (gs_channels g))"

definition grant_expiring_channels :: "GrantState \<Rightarrow> Millis \<Rightarrow> u64 \<Rightarrow> ChannelId list" where
  "grant_expiring_channels g now lead_ms =
     map ic_id (filter (\<lambda>c. case ic_expires_at c of None \<Rightarrow> False
       | Some e \<Rightarrow> millis_add now lead_ms \<ge> e) (gs_channels g))"

definition grant_too_soon :: "GrantState \<Rightarrow> Millis \<Rightarrow> u64 \<Rightarrow> bool" where
  "grant_too_soon g now gap_ms =
     (case gs_last_topup g of None \<Rightarrow> False | Some prev \<Rightarrow> saturating_since now prev < gap_ms)"

definition grant_topup_checked :: "GrantState \<Rightarrow> Millis \<Rightarrow> GrantState" where
  "grant_topup_checked g now = g\<lparr>gs_last_topup := Some now\<rparr>"

definition grant_expire_if_due :: "GrantState \<Rightarrow> Millis \<Rightarrow> GrantState \<times> bool" where
  "grant_expire_if_due g now =
     (if now < gs_deadline g then (g, False)
      else let g = g\<lparr>gs_reserved_rate := 0\<rparr>
           in if gs_consumed g < gs_authorized g
              then (g\<lparr>gs_consumed := gs_authorized g\<rparr>, True)
              else (g, False))"

fun apply_ratchets :: "(ChannelId \<times> u64) list \<Rightarrow> IncomingChannel list \<Rightarrow> IncomingChannel list" where
  "apply_ratchets [] cs = cs"
| "apply_ratchets ((i, cumulative) # rs) cs =
     apply_ratchets rs (update_first (\<lambda>c. ic_id c = i)
       (\<lambda>c. c\<lparr>ic_signed := cumulative, ic_failures := 0\<rparr>) cs)"

text \<open>A reserved rate that changes splits the second being drawn.\<close>

definition grant_split_second :: "GrantState \<Rightarrow> u64 \<Rightarrow> Millis \<Rightarrow> GrantState" where
  "grant_split_second g reserved_rate now =
     (if reserved_rate \<noteq> gs_reserved_rate g
      then (case gs_second g of
              None \<Rightarrow> g
            | Some second \<Rightarrow>
                let g = g\<lparr>gs_second := None\<rparr>;
                    owed = second_close second now (gs_reserved_rate g)
                in fst (grant_take g owed))
      else g)"

definition grant_apply ::
  "GrantState \<Rightarrow> (ChannelId \<times> u64) list \<Rightarrow> u64 \<Rightarrow> u64 \<Rightarrow> u64 \<Rightarrow> Millis \<Rightarrow> GrantState" where
  "grant_apply g ratchets grant window_ms reserved_rate now =
     (let g = g\<lparr>gs_channels := apply_ratchets ratchets (gs_channels g)\<rparr>;
          g = fst (grant_expire_if_due g now);
          g = grant_split_second g reserved_rate now;
          g = g\<lparr>gs_authorized := sat_add (gs_authorized g) grant,
                gs_deadline := max (gs_deadline g) (millis_add now window_ms),
                gs_reserved_rate := reserved_rate\<rparr>
      in g\<lparr>gs_second := (case gs_second g of None \<Rightarrow> Some (starting now) | Some s \<Rightarrow> Some s)\<rparr>)"

definition grant_draw :: "GrantState \<Rightarrow> u64 \<Rightarrow> Millis \<Rightarrow> GrantState \<times> u64" where
  "grant_draw g moved now =
     (let rate = gs_reserved_rate g;
          (g, owed) =
            (case gs_second g of
               Some second \<Rightarrow>
                 let (second, owed) = second_read second moved now rate
                 in (g\<lparr>gs_second := Some second\<rparr>, owed)
             | None \<Rightarrow>
                 let (second, _) = second_read (starting now) moved now rate
                 in (g\<lparr>gs_second := Some second\<rparr>, moved))
      in grant_take g owed)"

definition grant_is_live :: "GrantState \<Rightarrow> Millis \<Rightarrow> bool" where
  "grant_is_live g now = (now < gs_deadline g \<and> grant_remaining g > 0)"

definition grant_shaping_rate ::
  "GrantState \<Rightarrow> Millis \<Rightarrow> BurstPolicy \<Rightarrow> u64 \<Rightarrow> u64 \<Rightarrow> u64" where
  "grant_shaping_rate g now burst minimum_flow tick_ms =
     (if \<not> grant_is_live g now then minimum_flow
      else let speed = (if gs_reserved_rate g > 0
                        then max (gs_reserved_rate g) (bp_rate burst)
                        else unreserved_speed burst);
               speed = min speed (per_tick_ceiling (grant_remaining g) tick_ms)
           in max speed minimum_flow)"

text \<open>The operations of the state, with the units each one reports drawn.\<close>

datatype grant_op =
    GApply "(ChannelId \<times> u64) list" u64 u64 u64 Millis
  | GDraw u64 Millis
  | GPause
  | GExpire Millis
  | GEndReservation
  | GRestart Millis
  | GRestore Budget Millis
  | GOpen ChannelId u64 "Millis option"
  | GClose ChannelId
  | GFail ChannelId
  | GChecked Millis

fun grant_step :: "GrantState \<Rightarrow> grant_op \<Rightarrow> GrantState \<times> nat" where
  "grant_step g (GApply rs grant w rate now) = (grant_apply g rs grant w rate now, 0)"
| "grant_step g (GDraw moved now) = (let (g', d) = grant_draw g moved now in (g', unat d))"
| "grant_step g GPause = (let (g', d) = grant_pause g in (g', unat d))"
| "grant_step g (GExpire now) = (fst (grant_expire_if_due g now), 0)"
| "grant_step g GEndReservation = (grant_end_reservation g, 0)"
| "grant_step g (GRestart now) = (grant_restart g now, 0)"
| "grant_step g (GRestore b now) = (grant_restore g b now, 0)"
| "grant_step g (GOpen i c e) = (grant_open_channel g i c e, 0)"
| "grant_step g (GClose i) = (fst (grant_close_channel g i), 0)"
| "grant_step g (GFail i) = (fst (grant_record_failure g i), 0)"
| "grant_step g (GChecked now) = (grant_topup_checked g now, 0)"

text \<open>What an operation pays in: the grant of a purchase, or the budget brought back.\<close>

fun grant_credit :: "grant_op \<Rightarrow> nat" where
  "grant_credit (GApply rs grant w rate now) = unat grant"
| "grant_credit (GRestore b now) = unat (bud_remaining (budget_at b now))"
| "grant_credit _ = 0"

subsection \<open>The invariant\<close>

definition grant_wf :: "GrantState \<Rightarrow> bool" where
  "grant_wf g = (gs_consumed g \<le> gs_authorized g \<and> distinct (map ic_id (gs_channels g)))"

lemma unat_grant_remaining: "unat (grant_remaining g) = unat (gs_authorized g) - unat (gs_consumed g)"
  by (simp add: grant_remaining_def u64_nat)

lemma grant_take_frame [simp]:
  "gs_channels (fst (grant_take g w)) = gs_channels g"
  "gs_authorized (fst (grant_take g w)) = gs_authorized g"
  "gs_deadline (fst (grant_take g w)) = gs_deadline g"
  "gs_last_topup (fst (grant_take g w)) = gs_last_topup g"
  "gs_second (fst (grant_take g w)) = gs_second g"
  by (simp_all add: grant_take_def Let_def)

lemma grant_take_drawn: "snd (grant_take g w) = min w (grant_remaining g)"
  by (simp add: grant_take_def Let_def)

lemma grant_take_consumed:
  assumes "gs_consumed g \<le> gs_authorized g"
  shows "unat (gs_consumed (fst (grant_take g w)))
    = unat (gs_consumed g) + min (unat w) (unat (grant_remaining g))"
proof -
  have "unat (gs_consumed g) + min (unat w) (unat (grant_remaining g)) \<le> unat (gs_authorized g)"
    using assms by (simp add: word_le_nat_alt unat_grant_remaining)
  also have "\<dots> \<le> 18446744073709551615" by simp
  finally show ?thesis
    by (simp add: grant_take_def Let_def unat_sat_add unat_min_u64)
qed

lemma grant_take_remaining:
  assumes "gs_consumed g \<le> gs_authorized g"
  shows "unat (grant_remaining (fst (grant_take g w))) = unat (grant_remaining g) - unat w"
  using grant_take_consumed [OF assms, of w] assms
  by (simp add: unat_grant_remaining)

lemma grant_take_wf: "grant_wf g \<Longrightarrow> grant_wf (fst (grant_take g w))"
  using grant_take_consumed [of g w]
  by (auto simp: grant_wf_def word_le_nat_alt unat_grant_remaining)

text \<open>When the budget reaches zero the reservation ends with it.\<close>

lemma grant_take_rate:
  "gs_reserved_rate (fst (grant_take g w))
    = (if grant_remaining (fst (grant_take g w)) = 0 then 0 else gs_reserved_rate g)"
  by (simp add: grant_take_def Let_def grant_remaining_def)

lemma grant_remaining_update [simp]:
  "grant_remaining (g\<lparr>gs_second := s\<rparr>) = grant_remaining g"
  "grant_remaining (g\<lparr>gs_channels := cs\<rparr>) = grant_remaining g"
  "grant_remaining (g\<lparr>gs_reserved_rate := r\<rparr>) = grant_remaining g"
  "grant_remaining (g\<lparr>gs_last_topup := t\<rparr>) = grant_remaining g"
  "grant_remaining (g\<lparr>gs_deadline := d\<rparr>) = grant_remaining g"
  by (simp_all add: grant_remaining_def)

lemma grant_wf_update [simp]:
  "grant_wf (g\<lparr>gs_second := s\<rparr>) = grant_wf g"
  "grant_wf (g\<lparr>gs_reserved_rate := r\<rparr>) = grant_wf g"
  "grant_wf (g\<lparr>gs_last_topup := t\<rparr>) = grant_wf g"
  "grant_wf (g\<lparr>gs_deadline := d\<rparr>) = grant_wf g"
  by (simp_all add: grant_wf_def)

lemma apply_ratchets_ids [simp]: "map ic_id (apply_ratchets rs cs) = map ic_id cs"
  by (induction rs cs rule: apply_ratchets.induct) (auto simp: map_update_first)

lemma grant_new_wf [simp]: "grant_wf grant_new"
  by (simp add: grant_wf_def grant_new_def)

subsection \<open>Every operation keeps the invariant and pays for what it draws\<close>

lemma grant_wf_consumed: "grant_wf g \<Longrightarrow> gs_consumed g \<le> gs_authorized g"
  by (simp add: grant_wf_def)

lemma grant_wf_ids: "grant_wf g \<Longrightarrow> distinct (map ic_id (gs_channels g))"
  by (simp add: grant_wf_def)

lemma grant_take_bound:
  assumes "grant_wf g"
  shows "unat (grant_remaining (fst (grant_take g w))) + unat (snd (grant_take g w))
    = unat (grant_remaining g)"
  using grant_take_remaining [OF grant_wf_consumed [OF assms], of w]
  by (simp add: grant_take_drawn unat_min_u64)

lemma grant_pause_eq:
  "grant_pause g = (case gs_second g of None \<Rightarrow> (g, 0)
     | Some s \<Rightarrow> grant_take (g\<lparr>gs_second := None\<rparr>) (second_close s (last_read s) (gs_reserved_rate g)))"
  by (simp add: grant_pause_def Let_def split: option.splits)

lemma grant_draw_eq:
  "\<exists>s w. grant_draw g moved now = grant_take (g\<lparr>gs_second := Some s\<rparr>) w"
  unfolding grant_draw_def Let_def
  by (cases "gs_second g"; cases "second_read (starting now) moved now (gs_reserved_rate g)")
     (auto split: prod.splits)

lemma grant_pause_bound:
  "grant_wf g \<Longrightarrow> unat (grant_remaining (fst (grant_pause g))) + unat (snd (grant_pause g))
    = unat (grant_remaining g)"
  by (simp add: grant_pause_eq grant_take_bound split: option.splits)

lemma grant_pause_wf: "grant_wf g \<Longrightarrow> grant_wf (fst (grant_pause g))"
  by (simp add: grant_pause_eq grant_take_wf split: option.splits)

lemma grant_draw_bound:
  "grant_wf g \<Longrightarrow> unat (grant_remaining (fst (grant_draw g moved now)))
    + unat (snd (grant_draw g moved now)) = unat (grant_remaining g)"
  using grant_draw_eq [of g moved now] grant_take_bound by fastforce

lemma grant_draw_wf: "grant_wf g \<Longrightarrow> grant_wf (fst (grant_draw g moved now))"
  using grant_draw_eq [of g moved now] grant_take_wf by fastforce

lemma grant_expire_wf: "grant_wf g \<Longrightarrow> grant_wf (fst (grant_expire_if_due g now))"
  by (simp add: grant_expire_if_due_def Let_def grant_wf_def)

lemma grant_expire_le:
  "unat (grant_remaining (fst (grant_expire_if_due g now))) \<le> unat (grant_remaining g)"
  by (simp add: grant_expire_if_due_def Let_def unat_grant_remaining)

lemma grant_close_channel_channels:
  "gs_channels (fst (grant_close_channel g i)) = remove_first (\<lambda>c. ic_id c = i) (gs_channels g)"
  by (simp add: grant_close_channel_def remove_first_none split: option.splits)

lemma grant_close_channel_frame [simp]:
  "grant_remaining (fst (grant_close_channel g i)) = grant_remaining g"
  "gs_consumed (fst (grant_close_channel g i)) = gs_consumed g"
  "gs_authorized (fst (grant_close_channel g i)) = gs_authorized g"
  "gs_deadline (fst (grant_close_channel g i)) = gs_deadline g"
  "gs_reserved_rate (fst (grant_close_channel g i)) = gs_reserved_rate g"
  "gs_last_topup (fst (grant_close_channel g i)) = gs_last_topup g"
  by (simp_all add: grant_close_channel_def split: option.splits)

lemma grant_close_channel_wf: "grant_wf g \<Longrightarrow> grant_wf (fst (grant_close_channel g i))"
  by (simp add: grant_wf_def grant_close_channel_channels remove_first_key distinct_map_filter)

lemma grant_open_channel_wf: "grant_wf g \<Longrightarrow> grant_wf (grant_open_channel g i c e)"
  by (auto simp: grant_wf_def grant_open_channel_def map_update_first ic_new_def find_key_None
      split: option.splits)

lemma grant_record_failure_wf: "grant_wf g \<Longrightarrow> grant_wf (fst (grant_record_failure g i))"
  by (auto simp: grant_wf_def grant_record_failure_def map_update_first Let_def
      split: option.splits)

lemma grant_restore_wf: "distinct (map ic_id (gs_channels g)) \<Longrightarrow> grant_wf (grant_restore g b now)"
  by (simp add: grant_wf_def grant_restore_def Let_def)

lemma grant_restart_eq:
  "grant_restart g now = grant_restore (grant_new\<lparr>gs_channels :=
     map (\<lambda>c. c\<lparr>ic_failures := 0\<rparr>) (gs_channels g)\<rparr>) (grant_budget (fst (grant_pause g)) now) now"
  by (simp add: grant_restart_def Let_def grant_pause_eq split: option.splits)

lemma grant_restart_wf: "grant_wf g \<Longrightarrow> grant_wf (grant_restart g now)"
  unfolding grant_restart_eq by (rule grant_restore_wf) (simp add: grant_wf_def comp_def)

lemma grant_restore_remaining:
  "grant_remaining (grant_restore g b now) = bud_remaining (budget_at b now)"
  by (simp add: grant_restore_def Let_def grant_remaining_def)

lemma budget_at_le: "bud_remaining (budget_at b now) \<le> bud_remaining b"
  by (simp add: budget_at_def Budget_NONE_def)

lemma grant_budget_le: "bud_remaining (grant_budget g now) \<le> grant_remaining g"
  using budget_at_le [of "\<lparr>bud_remaining = grant_remaining g, bud_deadline = gs_deadline g\<rparr>" now]
  by (simp add: grant_budget_def)

lemma grant_restart_remaining: "grant_wf g \<Longrightarrow> grant_remaining (grant_restart g now) \<le> grant_remaining g"
proof -
  assume wf: "grant_wf g"
  have "grant_remaining (grant_restart g now) \<le> bud_remaining (grant_budget (fst (grant_pause g)) now)"
    unfolding grant_restart_eq grant_restore_remaining by (rule budget_at_le)
  also have "\<dots> \<le> grant_remaining (fst (grant_pause g))"
    by (rule grant_budget_le)
  also have "\<dots> \<le> grant_remaining g"
    using grant_pause_bound [OF wf] by (simp add: word_le_nat_alt)
  finally show ?thesis .
qed

subsection \<open>Purchases\<close>

lemma grant_split_second_frame [simp]:
  "gs_channels (grant_split_second g r now) = gs_channels g"
  "gs_authorized (grant_split_second g r now) = gs_authorized g"
  "gs_deadline (grant_split_second g r now) = gs_deadline g"
  "gs_last_topup (grant_split_second g r now) = gs_last_topup g"
  by (simp_all add: grant_split_second_def Let_def split: option.splits)

lemma grant_split_second_wf: "grant_wf g \<Longrightarrow> grant_wf (grant_split_second g r now)"
  by (simp add: grant_split_second_def Let_def grant_take_wf split: option.splits)

lemma grant_split_second_le:
  assumes "grant_wf g"
  shows "unat (grant_remaining (grant_split_second g r now)) \<le> unat (grant_remaining g)"
proof (cases "gs_second g")
  case (Some s)
  let ?g = "g\<lparr>gs_second := None\<rparr>" and ?w = "second_close s now (gs_reserved_rate g)"
  have "unat (grant_remaining (fst (grant_take ?g ?w))) \<le> unat (grant_remaining g)"
    using grant_take_bound [of ?g ?w] assms by simp
  with Some show ?thesis by (simp add: grant_split_second_def Let_def)
qed (simp add: grant_split_second_def)

lemma grant_expire_frame [simp]:
  "gs_channels (fst (grant_expire_if_due g now)) = gs_channels g"
  "gs_authorized (fst (grant_expire_if_due g now)) = gs_authorized g"
  "gs_deadline (fst (grant_expire_if_due g now)) = gs_deadline g"
  "gs_last_topup (fst (grant_expire_if_due g now)) = gs_last_topup g"
  "gs_second (fst (grant_expire_if_due g now)) = gs_second g"
  by (simp_all add: grant_expire_if_due_def Let_def)

text \<open>The state a purchase is added to: ratchets turned, an expired budget gone, the second split.\<close>

definition grant_before_grant ::
  "GrantState \<Rightarrow> (ChannelId \<times> u64) list \<Rightarrow> u64 \<Rightarrow> Millis \<Rightarrow> GrantState" where
  "grant_before_grant g rs rate now =
     grant_split_second (fst (grant_expire_if_due
       (g\<lparr>gs_channels := apply_ratchets rs (gs_channels g)\<rparr>) now)) rate now"

lemma grant_before_grant_frame [simp]:
  "gs_channels (grant_before_grant g rs r now) = apply_ratchets rs (gs_channels g)"
  "gs_authorized (grant_before_grant g rs r now) = gs_authorized g"
  "gs_deadline (grant_before_grant g rs r now) = gs_deadline g"
  "gs_last_topup (grant_before_grant g rs r now) = gs_last_topup g"
  by (simp_all add: grant_before_grant_def)

lemma grant_wf_ratchets: "grant_wf g \<Longrightarrow> grant_wf (g\<lparr>gs_channels := apply_ratchets rs (gs_channels g)\<rparr>)"
  by (simp add: grant_wf_def)

lemma grant_before_grant_wf: "grant_wf g \<Longrightarrow> grant_wf (grant_before_grant g rs r now)"
  unfolding grant_before_grant_def
  by (intro grant_split_second_wf grant_expire_wf grant_wf_ratchets)

lemma grant_before_grant_le:
  assumes "grant_wf g"
  shows "unat (grant_remaining (grant_before_grant g rs r now)) \<le> unat (grant_remaining g)"
  using grant_split_second_le [OF grant_expire_wf [OF grant_wf_ratchets [OF assms]], of rs now r now]
    grant_expire_le [of "g\<lparr>gs_channels := apply_ratchets rs (gs_channels g)\<rparr>" now]
  by (simp add: grant_before_grant_def)

lemma grant_apply_fields [simp]:
  "gs_channels (grant_apply g rs grant w r now) = apply_ratchets rs (gs_channels g)"
  "gs_authorized (grant_apply g rs grant w r now) = sat_add (gs_authorized g) grant"
  "gs_consumed (grant_apply g rs grant w r now) = gs_consumed (grant_before_grant g rs r now)"
  "gs_deadline (grant_apply g rs grant w r now) = max (gs_deadline g) (millis_add now w)"
  "gs_reserved_rate (grant_apply g rs grant w r now) = r"
  "gs_last_topup (grant_apply g rs grant w r now) = gs_last_topup g"
  by (simp_all add: grant_apply_def grant_before_grant_def Let_def)

lemma grant_apply_wf: "grant_wf g \<Longrightarrow> grant_wf (grant_apply g rs grant w r now)"
  using grant_before_grant_wf [of g rs r now] order_trans [OF _ sat_add_ge(1)]
  by (auto simp: grant_wf_def)

lemma grant_apply_bound:
  assumes "grant_wf g"
  shows "unat (grant_remaining (grant_apply g rs grant w r now))
    \<le> unat (grant_remaining g) + unat grant"
  using grant_before_grant_le [OF assms, of rs r now]
  by (simp add: unat_grant_remaining unat_sat_add)

text \<open>With a total that does not saturate, a purchase adds exactly its grant.\<close>

lemma grant_apply_exact:
  assumes "grant_wf g" and "unat (gs_authorized g) + unat grant < 2 ^ 64"
  shows "unat (grant_remaining (grant_apply g rs grant w r now))
    = unat (grant_remaining (grant_before_grant g rs r now)) + unat grant"
  using grant_wf_consumed [OF grant_before_grant_wf [OF assms(1), of rs r now]] assms(2)
  by (simp add: unat_grant_remaining unat_sat_add word_le_nat_alt)

subsection \<open>Prepaid, never on credit\<close>

lemma grant_open_channel_remaining [simp]:
  "grant_remaining (grant_open_channel g i c e) = grant_remaining g"
  by (simp add: grant_open_channel_def split: option.splits)

lemma grant_record_failure_remaining [simp]:
  "grant_remaining (fst (grant_record_failure g i)) = grant_remaining g"
  by (simp add: grant_record_failure_def Let_def split: option.splits)

lemma grant_end_reservation_wf: "grant_wf g \<Longrightarrow> grant_wf (grant_end_reservation g)"
  by (simp add: grant_end_reservation_def grant_pause_wf)

lemma grant_step_wf: "grant_wf g \<Longrightarrow> grant_wf (fst (grant_step g p))"
  using grant_draw_wf [of g] grant_pause_wf [of g]
  by (cases p)
     (simp_all add: grant_apply_wf grant_expire_wf grant_end_reservation_wf grant_restart_wf
       grant_restore_wf grant_open_channel_wf grant_close_channel_wf grant_record_failure_wf
       grant_topup_checked_def grant_wf_ids case_prod_beta)

lemma grant_step_bound:
  "grant_wf g \<Longrightarrow> unat (grant_remaining (fst (grant_step g p))) + snd (grant_step g p)
    \<le> unat (grant_remaining g) + grant_credit p"
  using grant_draw_bound [of g] grant_pause_bound [of g] grant_restart_remaining [of g]
  by (cases p)
     (simp_all add: grant_apply_bound grant_expire_le grant_restore_remaining
       grant_topup_checked_def grant_end_reservation_def case_prod_beta word_le_nat_alt
       add_leD1 eq_imp_le)

interpretation provider: prepaid_account grant_step "\<lambda>g. unat (grant_remaining g)" grant_credit grant_wf
  by unfold_locales (simp_all add: grant_step_wf grant_step_bound)

subsection \<open>Closing channels\<close>

lemma grant_close_all_frame [simp]:
  "grant_remaining (fst (grant_close_all g is)) = grant_remaining g"
  "gs_consumed (fst (grant_close_all g is)) = gs_consumed g"
  "gs_authorized (fst (grant_close_all g is)) = gs_authorized g"
  "gs_deadline (fst (grant_close_all g is)) = gs_deadline g"
  "gs_reserved_rate (fst (grant_close_all g is)) = gs_reserved_rate g"
  "gs_last_topup (fst (grant_close_all g is)) = gs_last_topup g"
  "gs_second (fst (grant_close_all g is)) = gs_second g"
  by (induction "is" arbitrary: g)
     (auto simp: split_beta Let_def grant_close_channel_def split: option.splits)

lemma grant_close_all_wf: "grant_wf g \<Longrightarrow> grant_wf (fst (grant_close_all g is))"
  by (induction "is" arbitrary: g) (auto simp: split_beta Let_def grant_close_channel_wf)

lemma grant_close_all_ids: "map fst (snd (grant_close_all g is)) = is"
  by (induction "is" arbitrary: g) (auto simp: split_beta Let_def)

lemma grant_close_all_channels:
  "grant_wf g \<Longrightarrow> gs_channels (fst (grant_close_all g is))
    = filter (\<lambda>c. ic_id c \<notin> set is) (gs_channels g)"
proof (induction "is" arbitrary: g)
  case (Cons i "is")
  obtain g' c where close: "grant_close_channel g i = (g', c)"
    by (cases "grant_close_channel g i")
  have "grant_wf g'" and ch: "gs_channels g' = filter (\<lambda>c. ic_id c \<noteq> i) (gs_channels g)"
    using grant_close_channel_wf [OF Cons.prems, of i] grant_close_channel_channels [of g i]
      remove_first_key [OF grant_wf_ids [OF Cons.prems], of i] by (simp_all add: close)
  with Cons.IH close show ?case
    by (simp add: split_beta Let_def conj_commute)
qed simp

end
