(* ===== verification/Admission.thy ===== *)
theory Admission
  imports Grant
begin

text \<open>
  The decision on an incoming purchase (\<open>crates/tollgate-core/src/grant/core.rs\<close>): snapshot in,
  verdict out. A purchase is honored or refused as a whole.
\<close>

record Admission =
  adm_policy :: GrantPolicy
  adm_reserved_elsewhere :: u64

definition rate_available :: "Admission \<Rightarrow> u64" where
  "rate_available a =
     (case gp_max_rate (adm_policy a) of
        Some m \<Rightarrow> sat_sub m (adm_reserved_elsewhere a)
      | None \<Rightarrow> U64_MAX)"

datatype Verdict =
    VAccept "(ChannelId \<times> u64) list" u64
  | VReject ReasonCode u64

text \<open>
  The loop over the updates: the ratchets and the grant gathered so far, or the reason the first
  update that fails is refused with.
\<close>

fun check_updates ::
  "GrantState \<Rightarrow> ChannelUpdate list \<Rightarrow> (ChannelId \<times> u64) list \<Rightarrow> u64
    \<Rightarrow> ReasonCode + (ChannelId \<times> u64) list \<times> u64" where
  "check_updates g [] ratchets grant = Inr (ratchets, grant)"
| "check_updates g (u # us) ratchets grant =
     (case grant_channel g (upd_channel_id u) of
        None \<Rightarrow> Inl FundingInvalid
      | Some channel \<Rightarrow>
          if upd_cumulative u \<le> ic_signed channel then Inl GrantInvalid
          else if upd_cumulative u > ic_capacity channel then Inl GrantExceedsChannel
          else if list_ex (\<lambda>(i, _). i = upd_channel_id u) ratchets then Inl GrantInvalid
          else check_updates g us (ratchets @ [(upd_channel_id u, upd_cumulative u)])
                 (sat_add grant (upd_cumulative u - ic_signed channel)))"

definition evaluate_topup ::
  "GrantState \<Rightarrow> Admission \<Rightarrow> ChannelUpdate list \<Rightarrow> u64 \<Rightarrow> u64 \<Rightarrow> Verdict" where
  "evaluate_topup g admission updates window_ms reserved_rate =
     (let available = rate_available admission in
      if updates = [] then VReject GrantInvalid available
      else case check_updates g updates [] 0 of
             Inl reason \<Rightarrow> VReject reason available
           | Inr (ratchets, grant) \<Rightarrow>
               if \<not> window_acceptable (adm_policy admission) window_ms
                  \<or> reserved_rate < gp_min_reserved_rate (adm_policy admission)
               then VReject OutOfRange available
               else if reserved_rate > gs_reserved_rate g \<and> reserved_rate > available
               then VReject RateExceedsCapacity available
               else VAccept ratchets grant)"

subsection \<open>What an accepted purchase is\<close>

definition update_pair :: "ChannelUpdate \<Rightarrow> ChannelId \<times> u64" where
  "update_pair u = (upd_channel_id u, upd_cumulative u)"

text \<open>An update that turns a ratchet we hold, within the channel's capacity.\<close>

definition update_valid :: "GrantState \<Rightarrow> ChannelUpdate \<Rightarrow> bool" where
  "update_valid g u =
     (case grant_channel g (upd_channel_id u) of
        None \<Rightarrow> False
      | Some c \<Rightarrow> ic_signed c < upd_cumulative u \<and> upd_cumulative u \<le> ic_capacity c)"

text \<open>What one update adds to the total signed on its channel.\<close>

definition update_increase :: "GrantState \<Rightarrow> ChannelUpdate \<Rightarrow> nat" where
  "update_increase g u =
     (case grant_channel g (upd_channel_id u) of
        None \<Rightarrow> 0 | Some c \<Rightarrow> unat (upd_cumulative u) - unat (ic_signed c))"

lemma check_updates_Inr:
  "check_updates g us rs grant = Inr (rs', grant') \<longleftrightarrow>
     (\<forall>u \<in> set us. update_valid g u)
     \<and> distinct (map upd_channel_id us) \<and> fst ` set rs \<inter> upd_channel_id ` set us = {}
     \<and> rs' = rs @ map update_pair us
     \<and> unat grant' = min (unat grant + (\<Sum>u\<leftarrow>us. update_increase g u)) 18446744073709551615"
proof (induction us arbitrary: rs grant)
  case Nil
  have "min (unat grant) 18446744073709551615 = unat grant"
    by (rule min_absorb1) simp
  then show ?case by (auto simp: u64_eq_nat)
next
  case (Cons u us)
  show ?case
  proof (cases "update_valid g u \<and> \<not> list_ex (\<lambda>(i, _). i = upd_channel_id u) rs")
    case False
    then show ?thesis
      by (auto simp: update_valid_def list_ex_iff split: option.splits)
         (force simp: update_valid_def not_le not_less image_iff split: option.splits if_splits)+
  next
    case True
    then obtain c where c: "grant_channel g (upd_channel_id u) = Some c"
      "ic_signed c < upd_cumulative u" "upd_cumulative u \<le> ic_capacity c"
      by (auto simp: update_valid_def split: option.splits)
    let ?inc = "upd_cumulative u - ic_signed c"
    have inc: "unat ?inc = update_increase g u"
      using c by (simp add: update_increase_def u64_minus_nat word_less_nat_alt)
    have step: "check_updates g (u # us) rs grant
      = check_updates g us (rs @ [update_pair u]) (sat_add grant ?inc)"
      using True c by (auto simp: update_pair_def not_le not_less)
    have new: "upd_channel_id u \<notin> fst ` set rs"
      using True by (force simp: list_ex_iff)
    have sat: "min (unat (sat_add grant ?inc) + S) 18446744073709551615
      = min (unat grant + (update_increase g u + S)) 18446744073709551615" for S
      by (simp add: unat_sat_add inc min_def)
    show ?thesis
      unfolding step Cons.IH sat using True new by (auto simp: update_pair_def)
  qed
qed

lemma evaluate_topup_accept_iff:
  "evaluate_topup g a us w r = VAccept rs grant \<longleftrightarrow>
     us \<noteq> [] \<and> (\<forall>u \<in> set us. update_valid g u) \<and> distinct (map upd_channel_id us)
     \<and> rs = map update_pair us
     \<and> unat grant = min (\<Sum>u\<leftarrow>us. update_increase g u) 18446744073709551615
     \<and> window_acceptable (adm_policy a) w \<and> gp_min_reserved_rate (adm_policy a) \<le> r
     \<and> (r \<le> gs_reserved_rate g \<or> r \<le> rate_available a)"
  using check_updates_Inr [of g us "[]" 0 rs grant]
  by (auto simp: evaluate_topup_def Let_def not_le not_less split: sum.splits if_splits)

subsection \<open>What applying it does to the channels\<close>

lemma find_apply_ratchets:
  "distinct (map fst rs) \<Longrightarrow> find (\<lambda>c. ic_id c = i) (apply_ratchets rs cs) =
    map_option (\<lambda>c. case map_of rs i of None \<Rightarrow> c
      | Some v \<Rightarrow> c\<lparr>ic_signed := v, ic_failures := 0\<rparr>) (find (\<lambda>c. ic_id c = i) cs)"
proof (induction rs cs rule: apply_ratchets.induct)
  case (2 j v rs cs)
  have "j = i \<Longrightarrow> map_of rs i = None"
    using 2 by (metis distinct.simps(2) fst_conv list.simps(9) map_of_eq_None_iff set_map)
  with 2 show ?case
    by (cases "find (\<lambda>c. ic_id c = i) cs")
       (auto simp: find_update_first_key [where k = ic_id] split: option.splits)
qed (simp add: option.map_ident)

lemma grant_channel_apply:
  "distinct (map fst rs) \<Longrightarrow> grant_channel (grant_apply g rs grant w r now) i =
    map_option (\<lambda>c. case map_of rs i of None \<Rightarrow> c
      | Some v \<Rightarrow> c\<lparr>ic_signed := v, ic_failures := 0\<rparr>) (grant_channel g i)"
  by (simp add: grant_channel_def find_apply_ratchets)

lemma map_fst_update_pair: "map fst (map update_pair us) = map upd_channel_id us"
  by (simp add: update_pair_def comp_def)

lemma map_of_update_pair:
  assumes "distinct (map upd_channel_id us)" and "u \<in> set us"
  shows "map_of (map update_pair us) (upd_channel_id u) = Some (upd_cumulative u)"
proof (rule map_of_is_SomeI)
  show "distinct (map fst (map update_pair us))"
    using assms(1) by (simp only: map_fst_update_pair)
  show "(upd_channel_id u, upd_cumulative u) \<in> set (map update_pair us)"
    using assms(2) by (auto simp: update_pair_def)
qed

text \<open>After an accepted purchase is applied, each channel it names is signed at its new total.\<close>

lemma accepted_channel:
  assumes acc: "evaluate_topup g a us w r = VAccept rs grant" and u: "u \<in> set us"
  shows "\<exists>c. grant_channel g (upd_channel_id u) = Some c
    \<and> ic_signed c < upd_cumulative u \<and> upd_cumulative u \<le> ic_capacity c
    \<and> grant_channel (grant_apply g rs grant w' r' now) (upd_channel_id u)
      = Some (c\<lparr>ic_signed := upd_cumulative u, ic_failures := 0\<rparr>)"
proof -
  from acc have dist: "distinct (map upd_channel_id us)" and rs: "rs = map update_pair us"
    and valid: "update_valid g u"
    using u by (simp_all add: evaluate_topup_accept_iff)
  from valid obtain c where c: "grant_channel g (upd_channel_id u) = Some c"
    "ic_signed c < upd_cumulative u" "upd_cumulative u \<le> ic_capacity c"
    by (auto simp: update_valid_def split: option.splits)
  have "distinct (map fst rs)"
    using dist by (simp only: rs map_fst_update_pair)
  from grant_channel_apply [OF this] show ?thesis
    using c map_of_update_pair [OF dist u] by (auto simp: rs)
qed

lemma evaluate_stale:
  assumes "us = u # us'" and "grant_channel g (upd_channel_id u) = Some c"
    and "upd_cumulative u \<le> ic_signed c"
  shows "evaluate_topup g a us w r = VReject GrantInvalid (rate_available a)"
  using assms by (simp add: evaluate_topup_def)

subsection \<open>Properties\<close>

text \<open>C6: A purchase is accepted exactly when it names at least one channel, every update names a
  recognised channel and raises its signed total without passing its capacity, no channel is
  named twice, the window and the reserved rate are within the advertised terms, and a reserved
  rate that rises fits the capacity left. The grant is then the combined increase over all
  updates, and the ratchets are the updates as sent.\<close>

theorem evaluate_topup_accepts_exactly:
  "evaluate_topup g a us w r = VAccept rs grant \<longleftrightarrow>
     us \<noteq> [] \<and> list_all (update_valid g) us \<and> distinct (map upd_channel_id us)
     \<and> rs = map update_pair us
     \<and> unat grant = min (\<Sum>u\<leftarrow>us. update_increase g u) (2 ^ 64 - 1)
     \<and> window_acceptable (adm_policy a) w \<and> gp_min_reserved_rate (adm_policy a) \<le> r
     \<and> (r \<le> gs_reserved_rate g \<or> r \<le> rate_available a)"
  unfolding evaluate_topup_accept_iff by (simp add: list_all_iff)

text \<open>A purchase that was accepted and applied cannot be used again: the same updates, sent
  again with any window and reserved rate and judged under any terms, are refused as
  \<open>GrantInvalid\<close>, whatever was applied with them.\<close>

lemma replayed_topup_refused:
  assumes "evaluate_topup g a us w r = VAccept rs grant"
  shows "evaluate_topup (grant_apply g rs grant w r now) a' us w' r'
    = VReject GrantInvalid (rate_available a')"
proof (cases us)
  case Nil
  with assms show ?thesis by (simp add: evaluate_topup_def)
next
  case (Cons u us')
  from accepted_channel [OF assms, of u w r now] obtain c where
    "grant_channel (grant_apply g rs grant w r now) (upd_channel_id u)
      = Some (c\<lparr>ic_signed := upd_cumulative u, ic_failures := 0\<rparr>)"
    using Cons by auto
  from evaluate_stale [OF Cons this] show ?thesis by simp
qed

definition example_channel :: IncomingChannel where
  "example_channel = ic_new (ChannelId [1]) 1000 None"

definition example_grant :: GrantState where
  "example_grant = grant_new\<lparr>gs_channels := [example_channel]\<rparr>"

definition example_update :: ChannelUpdate where
  "example_update =
     \<lparr>upd_channel_id = ChannelId [1], upd_cumulative = 400, upd_signature = Signature []\<rparr>"

definition example_admission :: Admission where
  "example_admission = \<lparr>adm_policy = GrantPolicy_default, adm_reserved_elsewhere = 0\<rparr>"

lemma example_accepts:
  "evaluate_topup example_grant example_admission [example_update] 5000 10
    = VAccept [(ChannelId [1], 400)] 400"
  by (simp add: evaluate_topup_def example_grant_def example_channel_def example_update_def
      example_admission_def grant_channel_def ic_new_def grant_new_def GrantPolicy_default_def
      window_acceptable_def rate_available_def)

lemma replayed_topup_refused_witness:
  "evaluate_topup (grant_apply example_grant [(ChannelId [1], 400)] 400 5000 10 7)
    example_admission [example_update] 5000 10 = VReject GrantInvalid U64_MAX"
  using replayed_topup_refused [OF example_accepts, of 7 example_admission 5000 10]
  by (simp add: rate_available_def example_admission_def GrantPolicy_default_def)

end
