(* ===== verification/Buyer.thy ===== *)
theory Buyer
  imports Account Limits Wire_Types
begin

text \<open>
  The payer's side of one peering: its policy, its channels with the peer, its own count of the
  budget it holds, and the funding requests under way
  (\<open>crates/tollgate-core/src/buyer/state.rs\<close>).
\<close>

subsection \<open>Policy and terms\<close>

record BuyerPolicy =
  by_demand :: u64
  by_reserve :: bool
  by_headroom_pct :: u32
  by_min_rate :: u64
  by_max_rate :: u64
  by_max_from_payer_weight :: "u16 option"
  by_window_ms :: u64
  by_budget :: u64
  by_renew_lead_ms :: u64
  by_cap_hold_ms :: u64

definition MIN_SAFE_LEAD_MS :: u64 where
  "MIN_SAFE_LEAD_MS = 1000"

definition lead_within :: "BuyerPolicy \<Rightarrow> u64 \<Rightarrow> u64" where
  "lead_within p window_ms = min (by_renew_lead_ms p) (window_ms div 2)"

definition lead_is_thin :: "BuyerPolicy \<Rightarrow> bool" where
  "lead_is_thin p = (by_renew_lead_ms p < MIN_SAFE_LEAD_MS)"

definition buying :: "BuyerPolicy \<Rightarrow> bool" where
  "buying p = (if by_reserve p then by_max_rate p > 0 else by_budget p > 0)"

definition accepts_weight :: "BuyerPolicy \<Rightarrow> u16 \<Rightarrow> bool" where
  "accepts_weight p w = (case by_max_from_payer_weight p of None \<Rightarrow> True | Some m \<Rightarrow> w \<le> m)"

definition BuyerPolicy_default :: BuyerPolicy where
  "BuyerPolicy_default =
     \<lparr>by_demand = 0, by_reserve = True, by_headroom_pct = 125, by_min_rate = 0,
      by_max_rate = U64_MAX, by_max_from_payer_weight = None, by_window_ms = 10000,
      by_budget = 0, by_renew_lead_ms = 1200, by_cap_hold_ms = 10000\<rparr>"

record Terms =
  tm_min_window_ms :: u64
  tm_max_window_ms :: u64
  tm_min_reserved_rate :: u64
  tm_min_topup_gap_ms :: u64
  tm_from_payer_weight :: u16

definition clamp_window :: "Terms \<Rightarrow> u64 \<Rightarrow> u64" where
  "clamp_window t want_ms =
     (let lo = tm_min_window_ms t; hi = max (tm_max_window_ms t) (tm_min_window_ms t)
      in if want_ms < lo then lo else if want_ms > hi then hi else want_ms)"

subsection \<open>Channels and purchases\<close>

record ChannelBuyer =
  cb_id :: ChannelId
  cb_capacity :: u64
  cb_cumulative :: u64
  cb_expires_at :: "Millis option"

definition cb_new :: "ChannelId \<Rightarrow> u64 \<Rightarrow> Millis option \<Rightarrow> ChannelBuyer" where
  "cb_new i capacity expires_at =
     \<lparr>cb_id = i, cb_capacity = capacity, cb_cumulative = 0, cb_expires_at = expires_at\<rparr>"

definition cb_expiring :: "ChannelBuyer \<Rightarrow> Millis \<Rightarrow> u64 \<Rightarrow> bool" where
  "cb_expiring c now margin_ms =
     (case cb_expires_at c of None \<Rightarrow> False | Some expiry \<Rightarrow> millis_add now margin_ms \<ge> expiry)"

definition cb_headroom :: "ChannelBuyer \<Rightarrow> u64" where
  "cb_headroom c = sat_sub (cb_capacity c) (cb_cumulative c)"

definition cb_exhausted :: "ChannelBuyer \<Rightarrow> bool" where
  "cb_exhausted c = (cb_cumulative c \<ge> cb_capacity c)"

record Leg =
  leg_channel_id :: ChannelId
  leg_cumulative :: u64

datatype Trigger = FirstPurchase | Renewal | RateRose | Rebuy | StopReserving

datatype RolloverReason = RolloverCapacity | RolloverExpiry

record Purchase =
  pu_first :: Leg
  pu_second :: "Leg option"
  pu_window_ms :: u64
  pu_reserved_rate :: u64
  pu_grant :: u64
  pu_trigger :: Trigger

definition FUNDING_TIMEOUT_MS :: u64 where
  "FUNDING_TIMEOUT_MS = 30000"

record FundingRequests =
  fr_first :: u64
  fr_latest :: u64
  fr_since :: "Millis option"

record Prior =
  pr_active :: "ChannelBuyer option"
  pr_next :: "ChannelBuyer option"
  pr_deadline :: Millis
  pr_reserved :: u64
  pr_started :: bool
  pr_resumed :: u64
  pr_grant :: u64

subsection \<open>The buyer\<close>

record Buyer =
  b_active :: "ChannelBuyer option"
  b_next :: "ChannelBuyer option"
  b_pending :: "ChannelBuyer option"
  b_funding :: "FundingRequests option"
  b_remaining :: u64
  b_deadline :: Millis
  b_reserved :: u64
  b_second :: "Second option"
  b_last_topup :: "Millis option"
  b_started :: bool
  b_resumed :: u64
  b_capped_at :: "(u64 \<times> Millis) option"
  b_last_grant :: u64
  b_prior :: "Prior option"

definition buyer_new :: Buyer where
  "buyer_new =
     \<lparr>b_active = None, b_next = None, b_pending = None, b_funding = None, b_remaining = 0,
      b_deadline = 0, b_reserved = 0, b_second = None, b_last_topup = None, b_started = False,
      b_resumed = 0, b_capped_at = None, b_last_grant = 0, b_prior = None\<rparr>"

definition awaiting_confirmation :: "Buyer \<Rightarrow> bool" where
  "awaiting_confirmation b = (b_pending b \<noteq> None)"

definition buyer_cumulative :: "Buyer \<Rightarrow> u64" where
  "buyer_cumulative b = (case b_active b of Some c \<Rightarrow> cb_cumulative c | None \<Rightarrow> 0)"

definition remaining_at :: "Buyer \<Rightarrow> Millis \<Rightarrow> u64" where
  "remaining_at b now = (if now \<ge> b_deadline b then 0 else b_remaining b)"

definition resume_rate :: "Buyer \<Rightarrow> Millis \<Rightarrow> u64" where
  "resume_rate b now = (if b_started b \<or> remaining_at b now = 0 then 0 else b_resumed b)"

definition start_over :: "Buyer \<Rightarrow> Buyer" where
  "start_over b = buyer_new\<lparr>b_resumed := b_resumed b\<rparr>"

definition buyer_cap :: "Buyer \<Rightarrow> Millis \<Rightarrow> u64 option" where
  "buyer_cap b now =
     (case b_capped_at b of None \<Rightarrow> None
      | Some (rate, until) \<Rightarrow> if now < until then Some rate else None)"

definition is_active :: "Buyer \<Rightarrow> ChannelId \<Rightarrow> bool" where
  "is_active b i = (case b_active b of None \<Rightarrow> False | Some c \<Rightarrow> cb_id c = i)"

definition buyer_take :: "Buyer \<Rightarrow> u64 \<Rightarrow> Buyer" where
  "buyer_take b drawn =
     (let b = b\<lparr>b_remaining := sat_sub (b_remaining b) drawn\<rparr>
      in if b_remaining b = 0 then b\<lparr>b_reserved := 0\<rparr> else b)"

definition buyer_restart :: "Buyer \<Rightarrow> Buyer" where
  "buyer_restart b =
     (let b = (case b_second b of
                 None \<Rightarrow> b
               | Some second \<Rightarrow>
                   buyer_take (b\<lparr>b_second := None\<rparr>)
                     (second_close second (last_read second) (b_reserved b)));
          resumed = (if b_started b then b_reserved b else b_resumed b)
      in buyer_new\<lparr>b_resumed := resumed, b_active := b_active b, b_next := b_next b,
           b_pending := b_pending b, b_funding := b_funding b, b_last_grant := b_last_grant b,
           b_remaining := b_remaining b, b_deadline := b_deadline b\<rparr>)"

definition buyer_draw :: "Buyer \<Rightarrow> u64 \<Rightarrow> Millis \<Rightarrow> Buyer" where
  "buyer_draw b moved now =
     (if now \<ge> b_deadline b
      then b\<lparr>b_remaining := 0, b_reserved := 0, b_second := None\<rparr>
      else let rate = b_reserved b;
               second = (case b_second b of None \<Rightarrow> starting now | Some s \<Rightarrow> s);
               (second, drawn) = second_read second moved now rate
           in buyer_take (b\<lparr>b_second := Some second\<rparr>) drawn)"

definition note_balance :: "Buyer \<Rightarrow> u64 \<Rightarrow> u64 \<Rightarrow> Millis \<Rightarrow> Buyer" where
  "note_balance b remaining expires_in_ms now =
     (if remaining = 0 \<or> expires_in_ms = 0 \<or> b_started b then b
      else if remaining_at b now = 0
      then b\<lparr>b_remaining := remaining,
             b_deadline := max (b_deadline b) (millis_add now expires_in_ms)\<rparr>
      else b)"

definition forget_pending :: "Buyer \<Rightarrow> Buyer" where
  "forget_pending b = b\<lparr>b_pending := None\<rparr>"

subsection \<open>Funding requests\<close>

definition funding_requested :: "Buyer \<Rightarrow> u64 \<Rightarrow> Millis \<Rightarrow> Buyer" where
  "funding_requested b request now =
     (let first = (case b_funding b of None \<Rightarrow> request | Some open_reqs \<Rightarrow> fr_first open_reqs)
      in b\<lparr>b_funding := Some \<lparr>fr_first = first, fr_latest = request, fr_since = Some now\<rparr>\<rparr>)"

definition funding_failed :: "Buyer \<Rightarrow> u64 \<Rightarrow> Buyer" where
  "funding_failed b request =
     (case b_funding b of
        None \<Rightarrow> b
      | Some open_reqs \<Rightarrow>
          if fr_latest open_reqs = request
          then b\<lparr>b_funding := Some (open_reqs\<lparr>fr_since := None\<rparr>)\<rparr> else b)"

definition funding_in_flight :: "Buyer \<Rightarrow> Millis \<Rightarrow> bool" where
  "funding_in_flight b now =
     (case b_funding b of
        None \<Rightarrow> False
      | Some open_reqs \<Rightarrow>
          (case fr_since open_reqs of None \<Rightarrow> False
           | Some since \<Rightarrow> saturating_since now since < FUNDING_TIMEOUT_MS))"

definition answers :: "Buyer \<Rightarrow> u64 \<Rightarrow> bool" where
  "answers b request =
     (b_pending b = None
      \<and> (case b_funding b of None \<Rightarrow> False
         | Some open_reqs \<Rightarrow> fr_first open_reqs \<le> request \<and> request \<le> fr_latest open_reqs))"

definition funded :: "Buyer \<Rightarrow> ChannelId \<Rightarrow> u64 \<Rightarrow> Millis option \<Rightarrow> Buyer" where
  "funded b i capacity expires_at =
     b\<lparr>b_funding := None, b_pending := Some (cb_new i capacity expires_at)\<rparr>"

definition confirmed :: "Buyer \<Rightarrow> ChannelId \<Rightarrow> Buyer" where
  "confirmed b i =
     (case b_pending b of
        None \<Rightarrow> b
      | Some channel \<Rightarrow>
          let b = b\<lparr>b_pending := None\<rparr>;
              channel = channel\<lparr>cb_id := i\<rparr>
          in if (case b_active b of None \<Rightarrow> True | Some a \<Rightarrow> cb_exhausted a)
             then b\<lparr>b_active := Some channel\<rparr>
             else b\<lparr>b_next := Some channel\<rparr>)"

subsection \<open>Rollover\<close>

definition needs_rollover :: "Buyer \<Rightarrow> u8 \<Rightarrow> bool" where
  "needs_rollover b threshold_pct =
     (if b_next b \<noteq> None \<or> b_pending b \<noteq> None then False
      else case b_active b of
             None \<Rightarrow> False
           | Some a \<Rightarrow>
               if cb_capacity a = 0 then False
               else if cb_headroom a \<le> sat_mul (b_last_grant b) 2 then True
               else unat (cb_cumulative a) * 100 \<ge> unat (cb_capacity a) * unat threshold_pct)"

definition rollover_due :: "Buyer \<Rightarrow> u8 \<Rightarrow> Millis \<Rightarrow> u64 \<Rightarrow> RolloverReason option" where
  "rollover_due b threshold_pct now margin_ms =
     (if funding_in_flight b now then None
      else if needs_rollover b threshold_pct then Some RolloverCapacity
      else if b_next b \<noteq> None \<or> b_pending b \<noteq> None then None
      else case b_active b of
             None \<Rightarrow> None
           | Some a \<Rightarrow> if cb_expiring a now margin_ms then Some RolloverExpiry else None)"

definition retire_expiring :: "Buyer \<Rightarrow> Millis \<Rightarrow> u64 \<Rightarrow> u64 \<Rightarrow> Buyer \<times> ChannelId option" where
  "retire_expiring b now margin_ms settle_lead =
     (case b_active b of
        None \<Rightarrow> (b, None)
      | Some a \<Rightarrow>
          if \<not> cb_expiring a now margin_ms then (b, None)
          else if b_next b \<noteq> None
          then (b\<lparr>b_active := b_next b, b_next := None, b_prior := None\<rparr>, Some (cb_id a))
          else if cb_expiring a now settle_lead
          then (b\<lparr>b_active := None, b_prior := None\<rparr>, Some (cb_id a))
          else (b, None))"

subsection \<open>Purchases\<close>

definition retire_exhausted :: "Buyer \<Rightarrow> Buyer \<times> ChannelId option" where
  "retire_exhausted b =
     (case b_active b of
        None \<Rightarrow> (b, None)
      | Some a \<Rightarrow>
          if \<not> cb_exhausted a then (b, None)
          else case b_next b of
                 None \<Rightarrow> (b, None)
               | Some replacement \<Rightarrow>
                   (b\<lparr>b_next := None, b_active := Some replacement\<rparr>, Some (cb_id a)))"

definition buyer_record :: "Buyer \<Rightarrow> Purchase \<Rightarrow> Millis \<Rightarrow> Buyer \<times> ChannelId option" where
  "buyer_record b purchase now =
     (let b = b\<lparr>b_prior := Some
            \<lparr>pr_active = b_active b, pr_next = b_next b, pr_deadline = b_deadline b,
             pr_reserved = b_reserved b, pr_started = b_started b, pr_resumed = b_resumed b,
             pr_grant = pu_grant purchase\<rparr>\<rparr>;
          b = b\<lparr>b_active := map_option
                 (\<lambda>c. c\<lparr>cb_cumulative := leg_cumulative (pu_first purchase)\<rparr>) (b_active b)\<rparr>;
          b = (case pu_second purchase of
                 None \<Rightarrow> b
               | Some leg \<Rightarrow> b\<lparr>b_next := map_option
                   (\<lambda>c. c\<lparr>cb_cumulative := leg_cumulative leg\<rparr>) (b_next b)\<rparr>);
          b = (if pu_reserved_rate purchase \<noteq> b_reserved b
               then (case b_second b of
                       None \<Rightarrow> b
                     | Some second \<Rightarrow>
                         buyer_take (b\<lparr>b_second := None\<rparr>) (second_close second now (b_reserved b)))
               else b);
          b = b\<lparr>b_remaining := sat_add (remaining_at b now) (pu_grant purchase)\<rparr>;
          b = b\<lparr>b_deadline := max (b_deadline b) (millis_add now (pu_window_ms purchase)),
                b_reserved := pu_reserved_rate purchase, b_started := True, b_resumed := 0,
                b_last_topup := Some now, b_last_grant := pu_grant purchase,
                b_second := (case b_second b of None \<Rightarrow> Some (starting now) | Some s \<Rightarrow> Some s)\<rparr>
      in retire_exhausted b)"

definition holds_refused :: "(ChannelId \<times> u64) list \<Rightarrow> ChannelBuyer option \<Rightarrow> bool" where
  "holds_refused refused c =
     (case c of None \<Rightarrow> False
      | Some c \<Rightarrow> list_ex (\<lambda>(i, cum). i = cb_id c \<and> cum = cb_cumulative c) refused)"

definition record_reject ::
  "Buyer \<Rightarrow> (ChannelId \<times> u64) list \<Rightarrow> ReasonCode \<Rightarrow> u64 \<Rightarrow> Millis \<Rightarrow> u64 \<Rightarrow> Buyer" where
  "record_reject b refused reason max_reserved_rate now hold_ms =
     (let b = (if reason = RateExceedsCapacity
               then b\<lparr>b_capped_at := Some (max_reserved_rate, millis_add now hold_ms)\<rparr> else b)
      in if \<not> holds_refused refused (b_active b) \<and> \<not> holds_refused refused (b_next b) then b
         else case b_prior b of
                None \<Rightarrow> b
              | Some prior \<Rightarrow>
                  b\<lparr>b_prior := None, b_active := pr_active prior, b_next := pr_next prior,
                    b_remaining := sat_sub (b_remaining b) (pr_grant prior),
                    b_deadline := pr_deadline prior, b_reserved := pr_reserved prior,
                    b_started := pr_started prior, b_resumed := pr_resumed prior\<rparr>)"

subsection \<open>The channels a buyer holds\<close>

text \<open>
  A replacement waits only behind a channel that can still be drained, and neither is signed past
  its capacity. The step kept for an undo describes such a pair too.
\<close>

definition cb_usable :: "ChannelBuyer \<Rightarrow> bool" where
  "cb_usable c = (cb_cumulative c < cb_capacity c)"

definition pair_wf :: "ChannelBuyer option \<Rightarrow> ChannelBuyer option \<Rightarrow> bool" where
  "pair_wf a n =
     ((case a of None \<Rightarrow> n = None
       | Some c \<Rightarrow> cb_cumulative c \<le> cb_capacity c \<and> (n \<noteq> None \<longrightarrow> cb_usable c))
      \<and> (case n of None \<Rightarrow> True | Some c \<Rightarrow> cb_usable c))"

definition buyer_wf :: "Buyer \<Rightarrow> bool" where
  "buyer_wf b =
     (pair_wf (b_active b) (b_next b)
      \<and> (case b_pending b of None \<Rightarrow> True | Some c \<Rightarrow> cb_usable c)
      \<and> (case b_prior b of None \<Rightarrow> True | Some p \<Rightarrow> pair_wf (pr_active p) (pr_next p)))"

lemma needs_rollover_code [code]:
  "needs_rollover b threshold_pct =
     (if b_next b \<noteq> None \<or> b_pending b \<noteq> None then False
      else case b_active b of
             None \<Rightarrow> False
           | Some a \<Rightarrow>
               if cb_capacity a = 0 then False
               else if cb_headroom a \<le> sat_mul (b_last_grant b) 2 then True
               else uint (cb_cumulative a) * 100 \<ge> uint (cb_capacity a) * uint threshold_pct)"
proof -
  have "unat x * 100 \<ge> unat y * unat z \<longleftrightarrow> uint x * 100 \<ge> uint y * uint z" for x y :: u64 and z :: u8
    unfolding uint_nat using of_nat_le_iff [of "unat y * unat z" "unat x * 100", where 'a = int] by simp
  then show ?thesis by (simp add: needs_rollover_def split: option.split)
qed

lemma buyer_wf_new [simp]: "buyer_wf buyer_new"
  by (simp add: buyer_wf_def buyer_new_def pair_wf_def)

lemma buyer_wf_take [simp]: "buyer_wf (buyer_take b d) = buyer_wf b"
  by (simp add: buyer_take_def Let_def buyer_wf_def)

lemma buyer_take_frame [simp]:
  "b_active (buyer_take b d) = b_active b" "b_next (buyer_take b d) = b_next b"
  "b_pending (buyer_take b d) = b_pending b" "b_funding (buyer_take b d) = b_funding b"
  "b_deadline (buyer_take b d) = b_deadline b" "b_second (buyer_take b d) = b_second b"
  "b_last_topup (buyer_take b d) = b_last_topup b" "b_started (buyer_take b d) = b_started b"
  "b_resumed (buyer_take b d) = b_resumed b" "b_capped_at (buyer_take b d) = b_capped_at b"
  "b_last_grant (buyer_take b d) = b_last_grant b" "b_prior (buyer_take b d) = b_prior b"
  "b_remaining (buyer_take b d) = sat_sub (b_remaining b) d"
  "b_reserved (buyer_take b d) = (if sat_sub (b_remaining b) d = 0 then 0 else b_reserved b)"
  by (simp_all add: buyer_take_def Let_def)

lemma pair_wf_exhausted: "pair_wf (Some a) n \<Longrightarrow> cb_exhausted a \<Longrightarrow> n = None"
  by (auto simp: pair_wf_def cb_usable_def cb_exhausted_def)

lemma buyer_draw_wf: "buyer_wf b \<Longrightarrow> buyer_wf (buyer_draw b moved now)"
  by (auto simp: buyer_draw_def Let_def buyer_wf_def split: prod.splits)

lemma buyer_restart_frame [simp]:
  "b_active (buyer_restart b) = b_active b" "b_next (buyer_restart b) = b_next b"
  "b_pending (buyer_restart b) = b_pending b" "b_funding (buyer_restart b) = b_funding b"
  "b_prior (buyer_restart b) = None" "b_reserved (buyer_restart b) = 0"
  "b_started (buyer_restart b) = False" "b_deadline (buyer_restart b) = b_deadline b"
  by (simp_all add: buyer_restart_def Let_def buyer_new_def split: option.splits)

lemma buyer_restart_wf: "buyer_wf b \<Longrightarrow> buyer_wf (buyer_restart b)"
  by (simp add: buyer_wf_def)

lemma note_balance_wf: "buyer_wf b \<Longrightarrow> buyer_wf (note_balance b r e now)"
  by (simp add: note_balance_def buyer_wf_def)

lemma start_over_wf: "buyer_wf (start_over b)"
  by (simp add: start_over_def buyer_new_def buyer_wf_def pair_wf_def)

lemma forget_pending_wf: "buyer_wf b \<Longrightarrow> buyer_wf (forget_pending b)"
  by (simp add: forget_pending_def buyer_wf_def)

lemma funding_wf:
  "buyer_wf b \<Longrightarrow> buyer_wf (funding_requested b request now)"
  "buyer_wf b \<Longrightarrow> buyer_wf (funding_failed b request)"
  by (simp_all add: funding_requested_def funding_failed_def Let_def buyer_wf_def
      split: option.splits)

lemma funded_wf: "buyer_wf b \<Longrightarrow> 0 < capacity \<Longrightarrow> buyer_wf (funded b i capacity e)"
  by (simp add: funded_def buyer_wf_def cb_usable_def cb_new_def)

lemma confirmed_wf: "buyer_wf b \<Longrightarrow> buyer_wf (confirmed b i)"
  by (auto simp: confirmed_def Let_def buyer_wf_def pair_wf_def cb_usable_def cb_exhausted_def
      split: option.splits)

lemma retire_expiring_wf: "buyer_wf b \<Longrightarrow> buyer_wf (fst (retire_expiring b now m l))"
  by (auto simp: retire_expiring_def buyer_wf_def pair_wf_def cb_usable_def split: option.splits)

lemma record_reject_wf: "buyer_wf b \<Longrightarrow> buyer_wf (record_reject b rs reason m now h)"
  by (auto simp: record_reject_def Let_def buyer_wf_def split: option.splits)

end
