(* ===== verification/Buying.thy ===== *)
theory Buying
  imports Buyer
begin

text \<open>
  The buy or hold decision (\<open>crates/tollgate-core/src/buyer/core.rs\<close>): what to reserve, how
  much to buy, and when. Additions the source writes with plain \<open>+\<close> are word additions here;
  \<open>poll_wellformed\<close> shows that none of them wraps.
\<close>

record Demand =
  dm_observed_rate :: u64
  dm_terms :: Terms

definition fit_rate :: "Buyer \<Rightarrow> BuyerPolicy \<Rightarrow> Terms \<Rightarrow> u64 \<Rightarrow> Millis \<Rightarrow> u64 option" where
  "fit_rate b policy terms rate now =
     (let rate = (if by_reserve policy then max rate (by_min_rate policy) else 0);
          rate = min (max rate (tm_min_reserved_rate terms)) (by_max_rate policy);
          rate = (case buyer_cap b now of Some cap \<Rightarrow> min rate cap | None \<Rightarrow> rate)
      in if by_reserve policy \<and> rate = 0 then None
         else if rate \<ge> tm_min_reserved_rate terms then Some rate else None)"

definition wanted_reserved_rate ::
  "Buyer \<Rightarrow> BuyerPolicy \<Rightarrow> Terms \<Rightarrow> u64 \<Rightarrow> Millis \<Rightarrow> u64 option" where
  "wanted_reserved_rate b policy terms wanted now =
     (let rate = (if by_reserve policy
                  then clamp_u64 (unat wanted * unat (by_headroom_pct policy) div 100) else 0)
      in fit_rate b policy terms rate now)"

text \<open>Which event makes the buyer act, if any.\<close>

definition poll_trigger ::
  "Buyer \<Rightarrow> BuyerPolicy \<Rightarrow> Millis \<Rightarrow> u64 \<Rightarrow> u64 \<Rightarrow> u64 \<Rightarrow> bool \<Rightarrow> Trigger option" where
  "poll_trigger b policy now reserve wanted_rate resume running_out =
     (if reserve > b_reserved b \<and> max wanted_rate resume > b_reserved b
      then (if \<not> b_started b then Some FirstPurchase
            else if buyer_cap b now \<noteq> None then Some Rebuy
            else Some RateRose)
      else if \<not> by_reserve policy \<and> b_reserved b > reserve then Some StopReserving
      else if running_out
      then (if b_started b then Some Renewal else Some FirstPurchase)
      else None)"

text \<open>The channel updates that buy \<open>wanted\<close> units, and how many units they come to.\<close>

definition poll_legs :: "ChannelBuyer \<Rightarrow> ChannelBuyer option \<Rightarrow> u64 \<Rightarrow> Leg \<times> Leg option \<times> u64" where
  "poll_legs a nxt wanted =
     (if wanted \<le> cb_headroom a
      then (\<lparr>leg_channel_id = cb_id a, leg_cumulative = cb_cumulative a + wanted\<rparr>, None, wanted)
      else case nxt of
             Some n \<Rightarrow>
               let overflow = min (wanted - cb_headroom a) (cb_headroom n)
               in (\<lparr>leg_channel_id = cb_id a, leg_cumulative = cb_capacity a\<rparr>,
                   Some \<lparr>leg_channel_id = cb_id n, leg_cumulative = cb_cumulative n + overflow\<rparr>,
                   cb_headroom a + overflow)
           | None \<Rightarrow>
               (\<lparr>leg_channel_id = cb_id a, leg_cumulative = cb_capacity a\<rparr>, None, cb_headroom a))"

definition poll :: "Buyer \<Rightarrow> BuyerPolicy \<Rightarrow> Demand \<Rightarrow> Millis \<Rightarrow> Purchase option" where
  "poll b policy demand now =
     (case b_active b of
        None \<Rightarrow> None
      | Some a \<Rightarrow>
          let terms = dm_terms demand;
              wanted_rate = max (dm_observed_rate demand) (by_demand policy);
              resume = (if by_reserve policy then resume_rate b now else 0)
          in if wanted_rate = 0 \<and> resume = 0 then None
             else if (case b_last_topup b of None \<Rightarrow> False
                      | Some prev \<Rightarrow> saturating_since now prev < tm_min_topup_gap_ms terms)
             then None
             else case (if wanted_rate > 0 then wanted_reserved_rate b policy terms wanted_rate now
                        else fit_rate b policy terms resume now) of
                    None \<Rightarrow> None
                  | Some reserve \<Rightarrow>
                      let window_ms = clamp_window terms (by_window_ms policy);
                          size = (if by_reserve policy then budget_for reserve window_ms
                                  else by_budget policy);
                          remaining = remaining_at b now;
                          lead = lead_within policy window_ms;
                          draining = max (b_reserved b) (dm_observed_rate demand);
                          running_out = (remaining \<le> units_in draining lead
                                         \<or> millis_add now lead \<ge> b_deadline b)
                      in case poll_trigger b policy now reserve wanted_rate resume running_out of
                           None \<Rightarrow> None
                         | Some trigger \<Rightarrow>
                             let wanted = max (sat_sub size remaining) 1;
                                 (first, second, grant) = poll_legs a (b_next b) wanted
                             in if grant = 0 then None
                                else Some \<lparr>pu_first = first, pu_second = second,
                                           pu_window_ms = window_ms, pu_reserved_rate = reserve,
                                           pu_grant = grant, pu_trigger = trigger\<rparr>)"

subsection \<open>What a purchase is\<close>

lemma wanted_reserved_rate_code [code]:
  "wanted_reserved_rate b policy terms wanted now =
     (let rate = (if by_reserve policy
                  then clamp_int (uint wanted * uint (by_headroom_pct policy) div 100) else 0)
      in fit_rate b policy terms rate now)"
  by (simp add: wanted_reserved_rate_def clamp_u64_int zdiv_int)

lemma fit_rate_bounds:
  assumes "fit_rate b policy terms rate now = Some r"
  shows "tm_min_reserved_rate terms \<le> r" "r \<le> by_max_rate policy"
    "buyer_cap b now = Some cap \<Longrightarrow> r \<le> cap" "by_reserve policy \<Longrightarrow> 0 < r"
  using assms
  by (auto simp: fit_rate_def Let_def word_neq_0_conv min_le_iff_disj
      split: option.splits if_splits)

lemma wanted_reserved_rate_fit:
  "wanted_reserved_rate b policy terms wanted now = Some r \<Longrightarrow>
    \<exists>rate. fit_rate b policy terms rate now = Some r"
  by (auto simp: wanted_reserved_rate_def Let_def)

text \<open>Everything \<open>poll\<close> decides, in one place.\<close>

lemma poll_SomeD:
  assumes "poll b policy demand now = Some pu"
  obtains a rate wanted where "b_active b = Some a"
    and "fit_rate b policy (dm_terms demand) rate now = Some (pu_reserved_rate pu)"
    and "pu_window_ms pu = clamp_window (dm_terms demand) (by_window_ms policy)"
    and "wanted = max (sat_sub (if by_reserve policy
        then budget_for (pu_reserved_rate pu) (pu_window_ms pu) else by_budget policy)
        (remaining_at b now)) 1"
    and "poll_legs a (b_next b) wanted = (pu_first pu, pu_second pu, pu_grant pu)"
    and "pu_grant pu \<noteq> 0"
    and "\<forall>prev. b_last_topup b = Some prev \<longrightarrow>
        tm_min_topup_gap_ms (dm_terms demand) \<le> saturating_since now prev"
    and "0 < max (dm_observed_rate demand) (by_demand policy)
        \<or> by_reserve policy \<and> 0 < resume_rate b now"
proof -
  let ?wr = "max (dm_observed_rate demand) (by_demand policy)"
  let ?rs = "if by_reserve policy then resume_rate b now else 0"
  from assms obtain a where a: "b_active b = Some a"
    by (auto simp: poll_def split: option.splits)
  note p = assms [unfolded poll_def, simplified a option.case Let_def]
  from p have some: "\<not> (?wr = 0 \<and> ?rs = 0)" by (auto split: if_splits)
  from p have gap: "\<forall>prev. b_last_topup b = Some prev \<longrightarrow>
      tm_min_topup_gap_ms (dm_terms demand) \<le> saturating_since now prev"
    by (auto simp: not_less split: if_splits)
  from p obtain r where r: "(if ?wr > 0 then wanted_reserved_rate b policy (dm_terms demand) ?wr now
      else fit_rate b policy (dm_terms demand) ?rs now) = Some r"
    by (auto split: if_splits option.splits)
  from r obtain rate where rate: "fit_rate b policy (dm_terms demand) rate now = Some r"
    by (auto dest: wanted_reserved_rate_fit split: if_splits)
  have "pu_reserved_rate pu = r \<and> pu_window_ms pu = clamp_window (dm_terms demand) (by_window_ms policy)
    \<and> pu_grant pu \<noteq> 0 \<and> poll_legs a (b_next b) (max (sat_sub (if by_reserve policy
        then budget_for r (clamp_window (dm_terms demand) (by_window_ms policy)) else by_budget policy)
        (remaining_at b now)) 1) = (pu_first pu, pu_second pu, pu_grant pu)"
    using p unfolding r by (auto split: if_splits option.splits prod.splits)
  with a rate gap some that show thesis
    by (auto simp: word_neq_0_conv split: if_splits)
qed

text \<open>
  A purchase that fits the channels it is signed on: every leg raises its own channel's total,
  within its capacity, a second leg comes only with the first channel filled, and the grant is
  the combined increase.
\<close>

definition legs_fit :: "ChannelBuyer \<Rightarrow> ChannelBuyer option \<Rightarrow> Leg \<Rightarrow> Leg option \<Rightarrow> u64 \<Rightarrow> bool" where
  "legs_fit a n l1 l2 grant =
     (leg_channel_id l1 = cb_id a \<and> cb_cumulative a < leg_cumulative l1
      \<and> leg_cumulative l1 \<le> cb_capacity a
      \<and> (case l2 of
           None \<Rightarrow> unat grant = unat (leg_cumulative l1) - unat (cb_cumulative a)
         | Some l \<Rightarrow>
             (case n of
                None \<Rightarrow> False
              | Some c \<Rightarrow>
                  leg_channel_id l = cb_id c \<and> leg_cumulative l1 = cb_capacity a
                  \<and> cb_cumulative c < leg_cumulative l \<and> leg_cumulative l \<le> cb_capacity c
                  \<and> unat grant = unat (leg_cumulative l1) - unat (cb_cumulative a)
                      + (unat (leg_cumulative l) - unat (cb_cumulative c)))))"

lemma unat_cb_headroom: "unat (cb_headroom c) = unat (cb_capacity c) - unat (cb_cumulative c)"
  by (simp add: cb_headroom_def u64_nat)

lemma unat_add_room:
  fixes a b c :: u64
  assumes "unat b \<le> unat c - unat a" and "unat a \<le> unat c"
  shows "unat (a + b) = unat a + unat b" "unat a + unat b \<le> unat c"
proof -
  show "unat a + unat b \<le> unat c" using assms by simp
  also have "\<dots> < 2 ^ 64" by (rule unat_u64_less)
  finally show "unat (a + b) = unat a + unat b" by (rule u64_plus_nat)
qed

lemma poll_legs_single:
  assumes le: "cb_cumulative a \<le> cb_capacity a" and w: "0 < wanted" "wanted \<le> cb_headroom a"
    and legs: "poll_legs a n wanted = (l1, l2, grant)"
  shows "legs_fit a n l1 l2 grant \<and> grant \<le> wanted"
proof -
  have "unat (cb_cumulative a + wanted) = unat (cb_cumulative a) + unat wanted"
    "unat (cb_cumulative a) + unat wanted \<le> unat (cb_capacity a)"
    using unat_add_room [of wanted "cb_capacity a" "cb_cumulative a"] le w
    by (simp_all add: word_le_nat_alt unat_cb_headroom)
  with legs w show ?thesis
    by (auto simp: poll_legs_def legs_fit_def word_le_nat_alt word_less_nat_alt)
qed

lemma poll_legs_fill:
  assumes le: "cb_cumulative a \<le> cb_capacity a" and w: "\<not> wanted \<le> cb_headroom a"
    and legs: "poll_legs a None wanted = (l1, l2, grant)" and g: "grant \<noteq> 0"
  shows "legs_fit a n l1 l2 grant \<and> grant \<le> wanted"
proof -
  from legs w have "l1 = \<lparr>leg_channel_id = cb_id a, leg_cumulative = cb_capacity a\<rparr>"
    "l2 = None" "grant = cb_headroom a"
    by (simp_all add: poll_legs_def)
  with g w le show ?thesis
    using unat_cb_headroom [of a]
    by (auto simp: legs_fit_def word_le_nat_alt word_less_nat_alt unat_eq_0 word_neq_0_conv
        intro: Nat.gr0I)
qed

lemma poll_legs_span:
  assumes use: "cb_usable a" "cb_usable c" and w: "\<not> wanted \<le> cb_headroom a"
    and legs: "poll_legs a (Some c) wanted = (l1, l2, grant)"
  shows "legs_fit a (Some c) l1 l2 grant \<and> grant \<le> wanted"
proof -
  define ov where "ov = min (wanted - cb_headroom a) (cb_headroom c)"
  from legs w have l: "l1 = \<lparr>leg_channel_id = cb_id a, leg_cumulative = cb_capacity a\<rparr>"
    "l2 = Some \<lparr>leg_channel_id = cb_id c, leg_cumulative = cb_cumulative c + ov\<rparr>"
    "grant = cb_headroom a + ov"
    by (simp_all add: poll_legs_def ov_def Let_def)
  have sub: "unat (wanted - cb_headroom a) = unat wanted - unat (cb_headroom a)"
    by (rule u64_minus_nat) (use w in \<open>simp add: word_le_nat_alt\<close>)
  have ov: "unat ov = min (unat wanted - unat (cb_headroom a)) (unat (cb_headroom c))"
    by (simp add: ov_def unat_min_u64 sub)
  have "0 < unat ov"
    using use w by (simp add: ov unat_cb_headroom cb_usable_def word_le_nat_alt word_less_nat_alt)
  moreover have "unat (cb_headroom a + ov) = unat (cb_headroom a) + unat ov"
    "unat (cb_headroom a) + unat ov \<le> unat wanted"
    using unat_add_room [of ov wanted "cb_headroom a"] w by (simp_all add: ov word_le_nat_alt)
  moreover have "unat (cb_cumulative c + ov) = unat (cb_cumulative c) + unat ov"
    "unat (cb_cumulative c) + unat ov \<le> unat (cb_capacity c)"
    using unat_add_room [of ov "cb_capacity c" "cb_cumulative c"] use
    by (simp_all add: ov unat_cb_headroom cb_usable_def word_less_nat_alt)
  ultimately show ?thesis
    using use by (simp add: l legs_fit_def word_le_nat_alt word_less_nat_alt cb_usable_def
        unat_cb_headroom)
qed

lemma poll_legs_fit:
  assumes wf: "pair_wf (Some a) n" and w: "0 < wanted" and g: "grant \<noteq> 0"
    and legs: "poll_legs a n wanted = (l1, l2, grant)"
  shows "legs_fit a n l1 l2 grant \<and> grant \<le> wanted"
proof (cases "wanted \<le> cb_headroom a")
  case True
  with assms show ?thesis
    by (intro poll_legs_single) (auto simp: pair_wf_def)
next
  case False
  show ?thesis
  proof (cases n)
    case None
    with False wf legs g show ?thesis
      by (intro poll_legs_fill) (auto simp: pair_wf_def)
  next
    case (Some c)
    with False wf legs show ?thesis
      using poll_legs_span [of a c wanted l1 l2 grant] by (auto simp: pair_wf_def)
  qed
qed

lemma poll_fit:
  assumes wf: "buyer_wf b" and poll: "poll b policy demand now = Some pu"
  shows "\<exists>a. b_active b = Some a \<and> legs_fit a (b_next b) (pu_first pu) (pu_second pu) (pu_grant pu)"
  using poll
proof (rule poll_SomeD)
  fix a rate wanted
  assume a: "b_active b = Some a"
    and w: "wanted = max (sat_sub (if by_reserve policy
        then budget_for (pu_reserved_rate pu) (pu_window_ms pu) else by_budget policy)
        (remaining_at b now)) 1"
    and legs: "poll_legs a (b_next b) wanted = (pu_first pu, pu_second pu, pu_grant pu)"
    and g: "pu_grant pu \<noteq> 0"
  have "0 < wanted" by (simp add: w less_max_iff_disj)
  from poll_legs_fit [OF _ this g legs] wf a show ?thesis
    by (auto simp: buyer_wf_def)
qed

subsection \<open>Recording it\<close>

lemma retire_exhausted_frame [simp]:
  "b_remaining (fst (retire_exhausted b)) = b_remaining b"
  "b_deadline (fst (retire_exhausted b)) = b_deadline b"
  "b_reserved (fst (retire_exhausted b)) = b_reserved b"
  "b_second (fst (retire_exhausted b)) = b_second b"
  "b_prior (fst (retire_exhausted b)) = b_prior b"
  "b_pending (fst (retire_exhausted b)) = b_pending b"
  "b_funding (fst (retire_exhausted b)) = b_funding b"
  "b_started (fst (retire_exhausted b)) = b_started b"
  by (auto simp: retire_exhausted_def split: option.splits)

text \<open>The channels a purchase leaves behind.\<close>

definition signed_active :: "Buyer \<Rightarrow> Purchase \<Rightarrow> ChannelBuyer option" where
  "signed_active b pu =
     map_option (\<lambda>c. c\<lparr>cb_cumulative := leg_cumulative (pu_first pu)\<rparr>) (b_active b)"

definition signed_next :: "Buyer \<Rightarrow> Purchase \<Rightarrow> ChannelBuyer option" where
  "signed_next b pu =
     (case pu_second pu of None \<Rightarrow> b_next b
      | Some l \<Rightarrow> map_option (\<lambda>c. c\<lparr>cb_cumulative := leg_cumulative l\<rparr>) (b_next b))"

definition prior_of :: "Buyer \<Rightarrow> Purchase \<Rightarrow> Prior" where
  "prior_of b pu =
     \<lparr>pr_active = b_active b, pr_next = b_next b, pr_deadline = b_deadline b,
      pr_reserved = b_reserved b, pr_started = b_started b, pr_resumed = b_resumed b,
      pr_grant = pu_grant pu\<rparr>"

text \<open>The second after a purchase, and what the split of the old one drew.\<close>

definition split_owed :: "Second option \<Rightarrow> u64 \<Rightarrow> u64 \<Rightarrow> Millis \<Rightarrow> u64" where
  "split_owed sec old_rate new_rate now =
     (case sec of None \<Rightarrow> 0
      | Some s \<Rightarrow> if new_rate \<noteq> old_rate then second_close s now old_rate else 0)"

definition split_second :: "Second option \<Rightarrow> u64 \<Rightarrow> u64 \<Rightarrow> Millis \<Rightarrow> Second" where
  "split_second sec old_rate new_rate now =
     (case sec of None \<Rightarrow> starting now
      | Some s \<Rightarrow> if new_rate \<noteq> old_rate then starting now else s)"

lemma buyer_record_eq:
  "buyer_record b pu now = retire_exhausted
    (b\<lparr>b_active := signed_active b pu, b_next := signed_next b pu,
       b_remaining := sat_add (if now \<ge> b_deadline b then 0
         else sat_sub (b_remaining b) (split_owed (b_second b) (b_reserved b) (pu_reserved_rate pu) now))
         (pu_grant pu),
       b_deadline := max (b_deadline b) (millis_add now (pu_window_ms pu)),
       b_reserved := pu_reserved_rate pu,
       b_second := Some (split_second (b_second b) (b_reserved b) (pu_reserved_rate pu) now),
       b_last_topup := Some now, b_started := True, b_resumed := 0,
       b_last_grant := pu_grant pu, b_prior := Some (prior_of b pu)\<rparr>)"
  by (cases b; cases "pu_second pu"; cases "b_second b";
      cases "pu_reserved_rate pu = b_reserved b")
     (simp_all add: buyer_record_def Let_def buyer_take_def signed_active_def signed_next_def
      prior_of_def split_owed_def split_second_def remaining_at_def)

lemma buyer_record_wf:
  assumes wf: "buyer_wf b" and a: "b_active b = Some a"
    and fit: "legs_fit a (b_next b) (pu_first pu) (pu_second pu) (pu_grant pu)"
  shows "buyer_wf (fst (buyer_record b pu now))"
proof -
  have "pair_wf (Some a) (b_next b)" and "case b_pending b of None \<Rightarrow> True | Some c \<Rightarrow> cb_usable c"
    using wf a by (simp_all add: buyer_wf_def)
  then show ?thesis
    using fit a
    by (cases "b_next b"; cases "pu_second pu")
       (auto simp: buyer_record_eq retire_exhausted_def buyer_wf_def pair_wf_def cb_usable_def
         cb_exhausted_def signed_active_def signed_next_def prior_of_def legs_fit_def)
qed

lemma buyer_record_fields [simp]:
  "b_deadline (fst (buyer_record b pu now)) = max (b_deadline b) (millis_add now (pu_window_ms pu))"
  "b_reserved (fst (buyer_record b pu now)) = pu_reserved_rate pu"
  "b_second (fst (buyer_record b pu now))
    = Some (split_second (b_second b) (b_reserved b) (pu_reserved_rate pu) now)"
  "b_prior (fst (buyer_record b pu now)) = Some (prior_of b pu)"
  "b_pending (fst (buyer_record b pu now)) = b_pending b"
  "b_funding (fst (buyer_record b pu now)) = b_funding b"
  "b_remaining (fst (buyer_record b pu now)) = sat_add (if now \<ge> b_deadline b then 0
     else sat_sub (b_remaining b) (split_owed (b_second b) (b_reserved b) (pu_reserved_rate pu) now))
     (pu_grant pu)"
  by (simp_all add: buyer_record_eq)

end
