(* ===== verification/Lockstep.thy ===== *)
theory Lockstep
  imports Admission Buying
begin

text \<open>
  The two sides of one sale together. The payer decides with \<open>poll\<close> and commits with
  \<open>buyer_record\<close>; the provider judges with \<open>evaluate_topup\<close> and commits with \<open>grant_apply\<close>, and
  both draw each meter reading by the same rule. The relation \<open>in_step\<close> says that the payer's
  own count is the provider's budget, and \<open>mirrors\<close> that the provider holds every channel the
  payer may still sign on, at the total the payer last signed.
\<close>

subsection \<open>The purchase as it reaches the provider\<close>

text \<open>The host signs each leg; \<open>sign\<close> stands for the wallet.\<close>

definition purchase_legs :: "Purchase \<Rightarrow> Leg list" where
  "purchase_legs pu = pu_first pu # (case pu_second pu of None \<Rightarrow> [] | Some l \<Rightarrow> [l])"

definition purchase_ratchets :: "Purchase \<Rightarrow> (ChannelId \<times> u64) list" where
  "purchase_ratchets pu = map (\<lambda>l. (leg_channel_id l, leg_cumulative l)) (purchase_legs pu)"

definition purchase_updates :: "(ChannelId \<Rightarrow> u64 \<Rightarrow> Signature) \<Rightarrow> Purchase \<Rightarrow> ChannelUpdate list" where
  "purchase_updates sign pu = map (\<lambda>(i, cum).
     \<lparr>upd_channel_id = i, upd_cumulative = cum, upd_signature = sign i cum\<rparr>) (purchase_ratchets pu)"

definition terms_match :: "Terms \<Rightarrow> GrantPolicy \<Rightarrow> bool" where
  "terms_match t p =
     (tm_min_window_ms t = gp_min_window_ms p \<and> tm_max_window_ms t = gp_max_window_ms p
      \<and> tm_min_reserved_rate t = gp_min_reserved_rate p
      \<and> tm_min_topup_gap_ms t = gp_min_topup_gap_ms p)"

subsection \<open>Relations between the two sides\<close>

definition channel_mirrored :: "GrantState \<Rightarrow> ChannelBuyer \<Rightarrow> bool" where
  "channel_mirrored g c =
     (case grant_channel g (cb_id c) of
        None \<Rightarrow> False
      | Some ic \<Rightarrow> ic_signed ic = cb_cumulative c \<and> ic_capacity ic = cb_capacity c)"

definition mirrors :: "GrantState \<Rightarrow> Buyer \<Rightarrow> bool" where
  "mirrors g b =
     ((case b_active b of None \<Rightarrow> True | Some c \<Rightarrow> cb_exhausted c \<or> channel_mirrored g c)
      \<and> (case b_next b of None \<Rightarrow> True
         | Some n \<Rightarrow> channel_mirrored g n
             \<and> (case b_active b of None \<Rightarrow> True | Some a \<Rightarrow> cb_id a \<noteq> cb_id n)))"

definition in_step :: "GrantState \<Rightarrow> Buyer \<Rightarrow> bool" where
  "in_step g b =
     (grant_remaining g = b_remaining b \<and> gs_deadline g = b_deadline b
      \<and> gs_reserved_rate g = b_reserved b \<and> gs_second g = b_second b)"

subsection \<open>A mirrored purchase verifies\<close>

lemma clamp_window_in:
  assumes "tm_min_window_ms t \<le> tm_max_window_ms t"
  shows "tm_min_window_ms t \<le> clamp_window t w" "clamp_window t w \<le> tm_max_window_ms t"
  using assms by (auto simp: clamp_window_def Let_def max_def not_less)

lemma update_valid_mirrored:
  assumes "channel_mirrored g c" and "upd_channel_id u = cb_id c"
    and "cb_cumulative c < upd_cumulative u" and "upd_cumulative u \<le> cb_capacity c"
  shows "update_valid g u"
    and "update_increase g u = unat (upd_cumulative u) - unat (cb_cumulative c)"
  using assms
  by (auto simp: channel_mirrored_def update_valid_def update_increase_def split: option.splits)

lemma purchase_verifies:
  assumes m: "mirrors g b" and a: "b_active b = Some a"
    and fit: "legs_fit a (b_next b) (pu_first pu) (pu_second pu) (pu_grant pu)"
  shows "(\<forall>u \<in> set (purchase_updates sign pu). update_valid g u)
    \<and> distinct (map upd_channel_id (purchase_updates sign pu))
    \<and> (\<Sum>u\<leftarrow>purchase_updates sign pu. update_increase g u) = unat (pu_grant pu)
    \<and> map update_pair (purchase_updates sign pu) = purchase_ratchets pu"
proof -
  let ?u = "\<lambda>l. \<lparr>upd_channel_id = leg_channel_id l, upd_cumulative = leg_cumulative l,
    upd_signature = sign (leg_channel_id l) (leg_cumulative l)\<rparr>"
  have ups: "purchase_updates sign pu = map ?u (purchase_legs pu)"
    by (simp add: purchase_updates_def purchase_ratchets_def comp_def)
  have pairs: "map update_pair (purchase_updates sign pu) = purchase_ratchets pu"
    by (simp add: ups purchase_ratchets_def update_pair_def comp_def)
  have ma: "channel_mirrored g a"
    using m a fit by (auto simp: mirrors_def legs_fit_def cb_exhausted_def)
  have v1: "update_valid g (?u (pu_first pu))"
    "update_increase g (?u (pu_first pu))
      = unat (leg_cumulative (pu_first pu)) - unat (cb_cumulative a)"
    using update_valid_mirrored [OF ma, of "?u (pu_first pu)"] fit
    by (auto simp: legs_fit_def)
  show ?thesis
  proof (cases "pu_second pu")
    case None
    with fit v1 pairs show ?thesis
      by (simp add: ups purchase_legs_def legs_fit_def)
  next
    case (Some l)
    with fit obtain n where n: "b_next b = Some n" by (auto simp: legs_fit_def split: option.splits)
    with m a have mn: "channel_mirrored g n" and ne: "cb_id a \<noteq> cb_id n"
      by (auto simp: mirrors_def)
    have v2: "update_valid g (?u l)"
      "update_increase g (?u l) = unat (leg_cumulative l) - unat (cb_cumulative n)"
      using update_valid_mirrored [OF mn, of "?u l"] fit Some n
      by (auto simp: legs_fit_def)
    from fit Some n have ids: "leg_channel_id (pu_first pu) = cb_id a" "leg_channel_id l = cb_id n"
      and grant: "unat (pu_grant pu) = unat (leg_cumulative (pu_first pu)) - unat (cb_cumulative a)
        + (unat (leg_cumulative l) - unat (cb_cumulative n))"
      by (auto simp: legs_fit_def)
    have "purchase_updates sign pu = [?u (pu_first pu), ?u l]"
      using Some by (simp add: ups purchase_legs_def)
    with v1 v2 ne ids grant pairs show ?thesis by simp
  qed
qed

lemma accepted_grant:
  assumes "mirrors g b" and "b_active b = Some a"
    and "legs_fit a (b_next b) (pu_first pu) (pu_second pu) (pu_grant pu)"
    and "evaluate_topup g adm (purchase_updates sign pu) w r = VAccept rs grant"
  shows "rs = purchase_ratchets pu" and "grant = pu_grant pu"
proof -
  note v = purchase_verifies [OF assms(1-3), of sign]
  from assms(4) v show "rs = purchase_ratchets pu"
    by (simp add: evaluate_topup_accept_iff)
  from assms(4) v have "unat grant = min (unat (pu_grant pu)) 18446744073709551615"
    by (simp add: evaluate_topup_accept_iff)
  moreover have "min (unat (pu_grant pu)) 18446744073709551615 = unat (pu_grant pu)"
    by (rule min_absorb1) simp
  ultimately show "grant = pu_grant pu"
    by (simp add: u64_eq_nat)
qed

subsection \<open>Both counts move together\<close>

lemma in_step_take:
  assumes "in_step g b" and "grant_wf g"
  shows "in_step (fst (grant_take (g\<lparr>gs_second := s\<rparr>) w)) (buyer_take (b\<lparr>b_second := s\<rparr>) w)"
proof -
  let ?g = "g\<lparr>gs_second := s\<rparr>"
  have "unat (grant_remaining (fst (grant_take ?g w))) = unat (sat_sub (b_remaining b) w)"
    using grant_take_remaining [of ?g w] assms
    by (simp add: grant_wf_def in_step_def unat_sat_sub)
  then have rem: "grant_remaining (fst (grant_take ?g w)) = sat_sub (b_remaining b) w"
    by (simp add: u64_eq_nat)
  with assms(1) show ?thesis
    using grant_take_rate [of ?g w] by (simp add: in_step_def)
qed

lemma second_read_starting: "second_read (starting now) moved now rate
    = ((starting now)\<lparr>sec_moved := moved\<rparr>, moved)"
  by (simp add: second_read_open whole_seconds_def starting_def)

lemma grant_draw_second:
  "grant_draw g moved now =
     (let (s, w) = second_read (case gs_second g of None \<Rightarrow> starting now | Some s \<Rightarrow> s)
        moved now (gs_reserved_rate g)
      in grant_take (g\<lparr>gs_second := Some s\<rparr>) w)"
  by (cases "gs_second g")
     (simp_all add: grant_draw_def Let_def second_read_starting split: prod.splits)

lemma in_step_draw:
  assumes st: "in_step g b" and wf: "grant_wf g" and live: "now < gs_deadline g"
  shows "in_step (fst (grant_draw g moved now)) (buyer_draw b moved now)"
proof -
  obtain s w where sw: "second_read (case gs_second g of None \<Rightarrow> starting now | Some s \<Rightarrow> s)
      moved now (gs_reserved_rate g) = (s, w)" by force
  have "grant_draw g moved now = grant_take (g\<lparr>gs_second := Some s\<rparr>) w"
    by (simp add: grant_draw_second sw)
  moreover have "buyer_draw b moved now = buyer_take (b\<lparr>b_second := Some s\<rparr>) w"
    using st live sw by (simp add: buyer_draw_def in_step_def Let_def)
  ultimately show ?thesis
    using in_step_take [OF st wf, of "Some s" w] by simp
qed

lemma grant_before_live:
  assumes "now < gs_deadline g"
  shows "grant_before_grant g rs r now
    = grant_split_second (g\<lparr>gs_channels := apply_ratchets rs (gs_channels g)\<rparr>) r now"
  using assms by (simp add: grant_before_grant_def grant_expire_if_due_def)

lemma grant_split_remaining:
  assumes "grant_wf g"
  shows "unat (grant_remaining (grant_split_second g r now))
    = unat (grant_remaining g) - unat (split_owed (gs_second g) (gs_reserved_rate g) r now)"
  using assms grant_take_remaining [of "g\<lparr>gs_second := None\<rparr>"]
  by (auto simp: grant_split_second_def Let_def split_owed_def grant_wf_def split: option.splits)

lemma grant_apply_second:
  assumes "now < gs_deadline g \<or> gs_second g = None"
  shows "gs_second (grant_apply g rs grant w r now)
    = Some (split_second (gs_second g) (gs_reserved_rate g) r now)"
  using assms
  by (auto simp: grant_apply_def Let_def grant_split_second_def grant_expire_if_due_def
      split_second_def split: option.splits)

lemma grant_before_remaining:
  assumes wf: "grant_wf g" and "now < gs_deadline g \<or> gs_second g = None"
  shows "unat (grant_remaining (grant_before_grant g rs r now))
    = (if now \<ge> gs_deadline g then 0 else unat (grant_remaining g)
        - unat (split_owed (gs_second g) (gs_reserved_rate g) r now))"
proof (cases "now < gs_deadline g")
  case True
  then show ?thesis
    using grant_split_remaining [OF grant_wf_ratchets [OF wf], of rs r now]
    by (simp add: grant_before_live)
next
  case False
  with assms show ?thesis
    by (auto simp: grant_before_grant_def grant_expire_if_due_def grant_split_second_def Let_def
        grant_remaining_def grant_wf_def sat_sub_def)
qed

lemma in_step_purchase:
  assumes st: "in_step g b" and wf: "grant_wf g"
    and live: "now < gs_deadline g \<or> gs_second g = None"
    and fits: "unat (gs_authorized g) + unat (pu_grant pu) < 2 ^ 64"
  shows "in_step (grant_apply g rs (pu_grant pu) (pu_window_ms pu) (pu_reserved_rate pu) now)
    (fst (buyer_record b pu now))"
proof -
  let ?g = "grant_apply g rs (pu_grant pu) (pu_window_ms pu) (pu_reserved_rate pu) now"
  have eq: "gs_second g = b_second b" "gs_reserved_rate g = b_reserved b"
    "gs_deadline g = b_deadline b" "grant_remaining g = b_remaining b"
    using st by (simp_all add: in_step_def)
  have "unat (grant_remaining g) \<le> unat (gs_authorized g)"
    by (simp add: unat_grant_remaining)
  then have "unat (b_remaining b) + unat (pu_grant pu) < 2 ^ 64"
    using fits eq by simp
  then have "unat (grant_remaining ?g) = unat (b_remaining (fst (buyer_record b pu now)))"
    using grant_apply_exact [OF wf fits] grant_before_remaining [OF wf live]
    by (simp add: eq unat_sat_add unat_sat_sub)
  then have "grant_remaining ?g = b_remaining (fst (buyer_record b pu now))"
    by (simp only: u64_eq_nat)
  then show ?thesis
    using grant_apply_second [OF live] by (simp add: in_step_def eq)
qed

subsection \<open>The channels stay mirrored\<close>

text \<open>The provider applies an accepted purchase and closes every channel it filled.\<close>

definition provider_purchase ::
  "GrantState \<Rightarrow> (ChannelId \<times> u64) list \<Rightarrow> u64 \<Rightarrow> u64 \<Rightarrow> u64 \<Rightarrow> Millis \<Rightarrow> GrantState" where
  "provider_purchase g rs grant w r now =
     (let g' = grant_apply g rs grant w r now
      in fst (grant_close_all g' (grant_exhausted_channels g')))"

lemma find_not_exhausted:
  "distinct (map ic_id cs) \<Longrightarrow>
    find (\<lambda>c. ic_id c = i) (filter (\<lambda>c. ic_id c \<notin> ic_id ` {x \<in> set cs. ic_exhausted x}) cs)
    = (case find (\<lambda>c. ic_id c = i) cs of None \<Rightarrow> None
       | Some c \<Rightarrow> if ic_exhausted c then None else Some c)"
proof -
  assume d: "distinct (map ic_id cs)"
  have "filter (\<lambda>c. ic_id c \<notin> ic_id ` {x \<in> set cs. ic_exhausted x}) cs
    = filter (\<lambda>c. \<not> ic_exhausted c) cs"
    using d by (intro filter_cong) (auto simp: distinct_map inj_on_def)
  moreover have "find (\<lambda>c. ic_id c = i) (filter (\<lambda>c. \<not> ic_exhausted c) cs)
    = (case find (\<lambda>c. ic_id c = i) cs of None \<Rightarrow> None
       | Some c \<Rightarrow> if ic_exhausted c then None else Some c)"
    using d by (induction cs) (auto simp: find_key_None image_iff dest!: find_in_set split: option.splits)
  ultimately show ?thesis by simp
qed

lemma grant_channel_close_exhausted:
  assumes "grant_wf g"
  shows "grant_channel (fst (grant_close_all g (grant_exhausted_channels g))) i
    = (case grant_channel g i of None \<Rightarrow> None | Some c \<Rightarrow> if ic_exhausted c then None else Some c)"
  using find_not_exhausted [OF grant_wf_ids [OF assms]]
  by (simp add: grant_channel_def grant_close_all_channels [OF assms] grant_exhausted_channels_def)

lemma mirrored_after_purchase:
  assumes wf: "grant_wf g" and d: "distinct (map fst rs)" and m: "channel_mirrored g c"
    and c': "c' = (case map_of rs (cb_id c) of None \<Rightarrow> c | Some v \<Rightarrow> c\<lparr>cb_cumulative := v\<rparr>)"
    and usable: "\<not> cb_exhausted c'"
  shows "channel_mirrored (provider_purchase g rs grant w r now) c'"
proof -
  let ?g = "grant_apply g rs grant w r now"
  from m obtain ic where ic: "grant_channel g (cb_id c) = Some ic"
    "ic_signed ic = cb_cumulative c" "ic_capacity ic = cb_capacity c"
    by (auto simp: channel_mirrored_def split: option.splits)
  have "grant_channel ?g (cb_id c) = Some (case map_of rs (cb_id c) of None \<Rightarrow> ic
      | Some v \<Rightarrow> ic\<lparr>ic_signed := v, ic_failures := 0\<rparr>)"
    by (simp add: grant_channel_apply [OF d] ic)
  then show ?thesis
    using usable ic
    by (cases "map_of rs (cb_id c)")
       (auto simp: c' channel_mirrored_def provider_purchase_def Let_def ic_exhausted_def
         cb_exhausted_def grant_channel_close_exhausted [OF grant_apply_wf [OF wf]])
qed

lemma purchase_ratchets_distinct:
  assumes "mirrors g b" "b_active b = Some a"
    and "legs_fit a (b_next b) (pu_first pu) (pu_second pu) (pu_grant pu)"
  shows "distinct (map fst (purchase_ratchets pu))"
proof -
  have "map fst (purchase_ratchets pu) = map upd_channel_id (purchase_updates (\<lambda>_ _. Signature []) pu)"
    by (simp add: purchase_updates_def comp_def split_beta)
  with purchase_verifies [OF assms, of "\<lambda>_ _. Signature []"] show ?thesis by simp
qed

lemma mirrors_purchase:
  assumes m: "mirrors g b" and bwf: "buyer_wf b" and gwf: "grant_wf g" and a: "b_active b = Some a"
    and fit: "legs_fit a (b_next b) (pu_first pu) (pu_second pu) (pu_grant pu)"
  shows "mirrors (provider_purchase g (purchase_ratchets pu) grant w r now)
    (fst (buyer_record b pu now))" (is "mirrors ?g ?b")
proof -
  let ?rs = "purchase_ratchets pu"
  let ?a' = "a\<lparr>cb_cumulative := leg_cumulative (pu_first pu)\<rparr>"
  note d = purchase_ratchets_distinct [OF m a fit]
  note keep = mirrored_after_purchase [OF gwf d]
  have ma: "channel_mirrored g a"
    using m a fit by (auto simp: mirrors_def legs_fit_def cb_exhausted_def)
  have rs_a: "map_of ?rs (cb_id a) = Some (leg_cumulative (pu_first pu))"
    using fit by (simp add: purchase_ratchets_def purchase_legs_def legs_fit_def)
  have act: "cb_exhausted ?a' \<or> channel_mirrored ?g ?a'"
    using keep [OF ma, of ?a'] rs_a by auto
  show ?thesis
  proof (cases "b_next b")
    case None
    with fit have "pu_second pu = None" by (auto simp: legs_fit_def split: option.splits)
    with None act a show ?thesis
      by (auto simp: buyer_record_eq retire_exhausted_def signed_active_def signed_next_def mirrors_def)
  next
    case (Some n)
    let ?n' = "case map_of ?rs (cb_id n) of None \<Rightarrow> n | Some v \<Rightarrow> n\<lparr>cb_cumulative := v\<rparr>"
    have mn: "channel_mirrored g n" and ne: "cb_id a \<noteq> cb_id n" and use: "cb_usable n"
      using m bwf a Some by (auto simp: mirrors_def buyer_wf_def pair_wf_def)
    have nxt: "cb_exhausted ?n' \<or> channel_mirrored ?g ?n'"
      using keep [OF mn refl] by blast
    show ?thesis
    proof (cases "pu_second pu")
      case None
      have "map_of ?rs (cb_id n) = None"
        using None fit ne by (simp add: purchase_ratchets_def purchase_legs_def legs_fit_def)
      with nxt use have "channel_mirrored ?g n"
        by (auto simp: cb_usable_def cb_exhausted_def)
      with None Some act a ne show ?thesis
        by (auto simp: buyer_record_eq retire_exhausted_def signed_active_def signed_next_def mirrors_def)
    next
      case l: (Some l)
      have "map_of ?rs (cb_id n) = Some (leg_cumulative l)" and "cb_exhausted ?a'"
        using l fit Some ne
        by (auto simp: purchase_ratchets_def purchase_legs_def legs_fit_def cb_exhausted_def)
      with l Some nxt a show ?thesis
        by (auto simp: buyer_record_eq retire_exhausted_def signed_active_def signed_next_def mirrors_def)
    qed
  qed
qed

subsection \<open>A sale as a state machine\<close>

text \<open>
  One provider and one payer, from nothing bought and no channel. A reading is drawn by both
  while the budget lasts; a purchase the payer decides and the provider accepts is committed by
  both; a replacement channel the payer funded is opened by the provider and confirmed. The
  overflow guard of a purchase is on the provider's lifetime total.
\<close>

inductive sale_step :: "GrantState \<times> Buyer \<Rightarrow> GrantState \<times> Buyer \<Rightarrow> bool" where
  reading: "now < gs_deadline g \<Longrightarrow>
    sale_step (g, b) (fst (grant_draw g moved now), buyer_draw b moved now)"
| purchase: "poll b policy demand now = Some pu \<Longrightarrow>
    evaluate_topup g adm (purchase_updates sign pu) (pu_window_ms pu) (pu_reserved_rate pu)
      = VAccept rs grant \<Longrightarrow>
    now < gs_deadline g \<or> gs_second g = None \<Longrightarrow>
    unat (gs_authorized g) + unat grant < 2 ^ 64 \<Longrightarrow>
    sale_step (g, b) (provider_purchase g rs grant (pu_window_ms pu) (pu_reserved_rate pu) now,
      fst (buyer_record b pu now))"
| open_channel: "b_next b = None \<Longrightarrow> b_pending b = None \<Longrightarrow> grant_channel g i = None \<Longrightarrow>
    0 < capacity \<Longrightarrow>
    sale_step (g, b) (grant_open_channel g i capacity e, confirmed (funded b i capacity e') i)"

inductive sale_reach :: "GrantState \<times> Buyer \<Rightarrow> bool" where
  start: "sale_reach (grant_new, buyer_new)"
| step: "sale_reach s \<Longrightarrow> sale_step s t \<Longrightarrow> sale_reach t"

definition sale_inv :: "GrantState \<times> Buyer \<Rightarrow> bool" where
  "sale_inv s = (grant_wf (fst s) \<and> buyer_wf (snd s) \<and> in_step (fst s) (snd s)
     \<and> mirrors (fst s) (snd s))"

lemma mirrors_channels:
  assumes "b_active b' = b_active b" "b_next b' = b_next b" "gs_channels g' = gs_channels g"
  shows "mirrors g' b' = mirrors g b"
proof -
  have "channel_mirrored g' c = channel_mirrored g c" for c
    using assms by (simp add: channel_mirrored_def grant_channel_def)
  then show ?thesis using assms by (simp add: mirrors_def cong: option.case_cong)
qed

lemma buyer_draw_channels [simp]:
  "b_active (buyer_draw b moved now) = b_active b" "b_next (buyer_draw b moved now) = b_next b"
  by (simp_all add: buyer_draw_def Let_def split: prod.splits)

lemma grant_draw_channels [simp]: "gs_channels (fst (grant_draw g moved now)) = gs_channels g"
  by (simp add: grant_draw_second split: prod.splits)

lemma grant_channel_open:
  "grant_channel g i = None \<Longrightarrow> grant_channel (grant_open_channel g i capacity e) j
    = (if j = i then Some (ic_new i capacity e) else grant_channel g j)"
  by (auto simp: grant_channel_def grant_open_channel_def ic_new_def find_append_key
      split: option.splits)

lemma sale_inv_open:
  assumes inv: "sale_inv (g, b)" and none: "b_next b = None" "b_pending b = None"
    and new: "grant_channel g i = None" and pos: "0 < capacity"
  shows "sale_inv (grant_open_channel g i capacity e, confirmed (funded b i capacity e') i)"
proof -
  note ch = grant_channel_open [OF new, of capacity e]
  have keep: "channel_mirrored g c \<Longrightarrow> cb_id c \<noteq> i \<and> channel_mirrored (grant_open_channel g i capacity e) c" for c
    using new by (auto simp: channel_mirrored_def ch split: option.splits)
  have fresh: "channel_mirrored (grant_open_channel g i capacity e) (cb_new i capacity e')"
    by (simp add: channel_mirrored_def ch cb_new_def ic_new_def)
  have wf: "grant_wf (grant_open_channel g i capacity e)"
    "buyer_wf (confirmed (funded b i capacity e') i)"
    using inv pos by (simp_all add: sale_inv_def grant_open_channel_wf confirmed_wf funded_wf)
  have "in_step (grant_open_channel g i capacity e) (confirmed (funded b i capacity e') i)"
    using inv by (auto simp: sale_inv_def in_step_def confirmed_def funded_def Let_def
        grant_open_channel_def split: option.splits)
  moreover have "mirrors (grant_open_channel g i capacity e) (confirmed (funded b i capacity e') i)"
    using inv none keep fresh
    by (auto simp: sale_inv_def mirrors_def confirmed_def funded_def Let_def cb_new_def
        split: option.splits)
  ultimately show ?thesis using wf by (simp add: sale_inv_def)
qed

lemma sale_inv_step: "sale_step s t \<Longrightarrow> sale_inv s \<Longrightarrow> sale_inv t"
proof (induction rule: sale_step.induct)
  case (reading now g b moved)
  then show ?case
    using mirrors_channels [of "buyer_draw b moved now" b "fst (grant_draw g moved now)" g]
    by (simp add: sale_inv_def grant_draw_wf buyer_draw_wf in_step_draw)
next
  case (purchase b policy demand now pu g adm sign rs grant)
  from purchase.prems have inv: "grant_wf g" "buyer_wf b" "in_step g b" "mirrors g b"
    by (simp_all add: sale_inv_def)
  from poll_fit [OF inv(2) purchase.hyps(1)] obtain a where a: "b_active b = Some a"
    and fit: "legs_fit a (b_next b) (pu_first pu) (pu_second pu) (pu_grant pu)" by blast
  note acc = accepted_grant [OF inv(4) a fit purchase.hyps(2)]
  have "in_step (provider_purchase g rs grant (pu_window_ms pu) (pu_reserved_rate pu) now)
      (fst (buyer_record b pu now))"
    using in_step_purchase [OF inv(3,1) purchase.hyps(3), of pu rs] purchase.hyps(4)
    by (simp add: acc provider_purchase_def Let_def in_step_def)
  moreover have "grant_wf (provider_purchase g rs grant (pu_window_ms pu) (pu_reserved_rate pu) now)"
    by (simp add: provider_purchase_def Let_def grant_close_all_wf grant_apply_wf inv)
  ultimately show ?case
    using mirrors_purchase [OF inv(4,2,1) a fit] buyer_record_wf [OF inv(2) a fit]
    by (simp add: sale_inv_def acc)
next
  case (open_channel b g i capacity e e')
  then show ?case by (intro sale_inv_open)
qed

lemma sale_reach_inv: "sale_reach s \<Longrightarrow> sale_inv s"
proof (induction rule: sale_reach.induct)
  case start
  show ?case
    by (simp add: sale_inv_def in_step_def mirrors_def)
       (simp add: buyer_new_def grant_new_def grant_remaining_def)
next
  case (step s t)
  then show ?case by (blast intro: sale_inv_step)
qed

subsection \<open>Undoing a refused purchase\<close>

text \<open>
  The one purchase whose refusal is not recognised: it fills the channel in use exactly, on that
  channel alone, while a replacement waits. Recording it moves the payer onto the replacement,
  whose total the refusal does not name.
\<close>

definition exact_fill :: "Buyer \<Rightarrow> Purchase \<Rightarrow> bool" where
  "exact_fill b pu =
     (pu_second pu = None \<and> b_next b \<noteq> None
      \<and> (case b_active b of None \<Rightarrow> False
         | Some a \<Rightarrow> leg_cumulative (pu_first pu) = cb_capacity a))"

lemma recorded_channels:
  assumes wf: "buyer_wf b" and a: "b_active b = Some a"
    and fit: "legs_fit a (b_next b) (pu_first pu) (pu_second pu) (pu_grant pu)"
    and no: "\<not> exact_fill b pu"
  shows "holds_refused (purchase_ratchets pu) (b_active (fst (buyer_record b pu now)))"
  using fit a no
  by (cases "pu_second pu"; cases "b_next b")
     (auto simp: buyer_record_eq retire_exhausted_def signed_active_def signed_next_def
       holds_refused_def purchase_ratchets_def purchase_legs_def legs_fit_def exact_fill_def
       cb_exhausted_def)

lemma sat_sub_sat_add: "unat x + unat g < 2 ^ 64 \<Longrightarrow> sat_sub (sat_add x g) g = x"
  by (simp add: u64_eq_nat unat_sat_sub unat_sat_add)

lemma record_reject_prior:
  assumes "holds_refused rs (b_active b)" and "b_prior b = Some p"
  shows "b_active (record_reject b rs reason m now h) = pr_active p"
    and "b_next (record_reject b rs reason m now h) = pr_next p"
    and "b_remaining (record_reject b rs reason m now h) = sat_sub (b_remaining b) (pr_grant p)"
    and "b_deadline (record_reject b rs reason m now h) = pr_deadline p"
    and "b_reserved (record_reject b rs reason m now h) = pr_reserved p"
    and "b_started (record_reject b rs reason m now h) = pr_started p"
    and "b_pending (record_reject b rs reason m now h) = b_pending b"
  using assms by (simp_all add: record_reject_def Let_def)

subsection \<open>Properties\<close>



text \<open>C36: When the provider refuses the payer's latest purchase, the payer puts its channels, its
  deadline, its reserved rate and its count of the budget back to what they were before it, less
  what the change of rate had already drawn, provided the purchase did not fill the channel in
  use exactly while a replacement was waiting.\<close>

theorem refused_purchase_undone:
  assumes wf: "buyer_wf b" and poll: "poll b policy demand now = Some pu"
    and no: "\<not> exact_fill b pu" and fits: "unat (b_remaining b) + unat (pu_grant pu) < 2 ^ 64"
    and b': "b' = record_reject (fst (buyer_record b pu now)) (purchase_ratchets pu) reason m now' h"
  shows "b_active b' = b_active b \<and> b_next b' = b_next b \<and> b_deadline b' = b_deadline b
    \<and> b_reserved b' = b_reserved b \<and> b_started b' = b_started b
    \<and> b_remaining b' = sat_sub (remaining_at b now)
        (split_owed (b_second b) (b_reserved b) (pu_reserved_rate pu) now)"
proof -
  from poll_fit [OF wf poll] obtain a where a: "b_active b = Some a"
    and fit: "legs_fit a (b_next b) (pu_first pu) (pu_second pu) (pu_grant pu)" by blast
  note undo = record_reject_prior [OF recorded_channels [OF wf a fit no, of now], of "prior_of b pu"]
  have "unat (sat_sub (b_remaining b) w) + unat (pu_grant pu) < 2 ^ 64" for w
    using fits by (simp add: unat_sat_sub)
  then show ?thesis
    using fits by (simp add: b' undo prior_of_def remaining_at_def sat_sub_sat_add)
qed

text \<open>A purchase that fills the channel in use exactly while a replacement waits is not undone
  when it is refused: the payer stays on the replacement and keeps counting the budget and the
  reserved rate that the provider never granted.\<close>

lemma exact_fill_refusal_not_undone:
  assumes wf: "buyer_wf b" and poll: "poll b policy demand now = Some pu"
    and ex: "exact_fill b pu" and a: "b_active b = Some a" and n: "b_next b = Some n"
    and ids: "cb_id a \<noteq> cb_id n"
    and b': "b' = record_reject (fst (buyer_record b pu now)) (purchase_ratchets pu) reason m now' h"
  shows "b_active b' = Some n \<and> b_next b' = None \<and> b_reserved b' = pu_reserved_rate pu
    \<and> b_remaining b' = b_remaining (fst (buyer_record b pu now))"
proof -
  let ?b = "fst (buyer_record b pu now)"
  from ex a have l: "pu_second pu = None" "leg_cumulative (pu_first pu) = cb_capacity a"
    by (simp_all add: exact_fill_def)
  from poll_fit [OF wf poll] a have "leg_channel_id (pu_first pu) = cb_id a"
    by (auto simp: legs_fit_def)
  with l have rs: "purchase_ratchets pu = [(cb_id a, cb_capacity a)]"
    by (simp add: purchase_ratchets_def purchase_legs_def)
  have act: "b_active ?b = Some n" "b_next ?b = None"
    using a n l by (simp_all add: buyer_record_eq retire_exhausted_def signed_active_def
        signed_next_def cb_exhausted_def)
  with rs ids show ?thesis
    by (simp add: b' record_reject_def Let_def holds_refused_def)
qed

text \<open>A replacement channel the provider confirms between a purchase and that purchase's refusal
  is dropped by the payer: undoing the purchase restores the channels as they stood before the
  confirmation, and the confirmed channel is then neither in use, waiting nor pending.\<close>

lemma refusal_drops_confirmed_replacement:
  assumes wf: "buyer_wf b" and poll: "poll b policy demand now = Some pu"
    and none: "b_next b = None" and pend: "b_pending b = Some c"
    and a: "b_active b = Some a" and room: "leg_cumulative (pu_first pu) < cb_capacity a"
    and b1: "b1 = confirmed (fst (buyer_record b pu now)) j"
    and b2: "b2 = record_reject b1 (purchase_ratchets pu) reason m now' h"
  shows "b_next b1 = Some (c\<lparr>cb_id := j\<rparr>) \<and> b_next b2 = None \<and> b_pending b2 = None
    \<and> b_active b2 = Some a"
proof -
  let ?b = "fst (buyer_record b pu now)"
  from poll_fit [OF wf poll] a
  have fit: "legs_fit a (b_next b) (pu_first pu) (pu_second pu) (pu_grant pu)" by auto
  then have l: "pu_second pu = None" using none by (auto simp: legs_fit_def split: option.splits)
  have act: "b_active ?b = Some (a\<lparr>cb_cumulative := leg_cumulative (pu_first pu)\<rparr>)" "b_next ?b = None"
    using a none l room by (simp_all add: buyer_record_eq retire_exhausted_def signed_active_def
        signed_next_def cb_exhausted_def not_le)
  have b1': "b1 = ?b\<lparr>b_pending := None, b_next := Some (c\<lparr>cb_id := j\<rparr>)\<rparr>"
    using act room pend by (simp add: b1 confirmed_def Let_def cb_exhausted_def not_le)
  have "holds_refused (purchase_ratchets pu) (b_active b1)"
    using act fit by (simp add: b1' holds_refused_def purchase_ratchets_def purchase_legs_def legs_fit_def)
  then show ?thesis
    using record_reject_prior [of "purchase_ratchets pu" b1 "prior_of b pu" reason m now' h] none a
    by (simp add: b2 b1' prior_of_def)
qed

subsection \<open>Witnesses\<close>

definition ex_id :: ChannelId where
  "ex_id = ChannelId [1]"

definition ex_terms :: Terms where
  "ex_terms = \<lparr>tm_min_window_ms = 1000, tm_max_window_ms = 2592000000, tm_min_reserved_rate = 0,
     tm_min_topup_gap_ms = 1000, tm_from_payer_weight = 1\<rparr>"

definition ex_demand :: Demand where
  "ex_demand = \<lparr>dm_observed_rate = 10, dm_terms = ex_terms\<rparr>"

definition ex_adm :: Admission where
  "ex_adm = \<lparr>adm_policy = GrantPolicy_default, adm_reserved_elsewhere = 0\<rparr>"

definition ex_g :: GrantState where
  "ex_g = grant_open_channel grant_new ex_id 1000 None"

definition ex_b :: Buyer where
  "ex_b = confirmed (funded buyer_new ex_id 1000 None) ex_id"

definition ex_purchase :: Purchase where
  "ex_purchase =
     \<lparr>pu_first = \<lparr>leg_channel_id = ex_id, leg_cumulative = 120\<rparr>, pu_second = None,
      pu_window_ms = 10000, pu_reserved_rate = 12, pu_grant = 120, pu_trigger = FirstPurchase\<rparr>"

lemma ex_reach: "sale_reach (ex_g, ex_b)"
  unfolding ex_g_def ex_b_def
  by (rule sale_reach.step [OF sale_reach.start], rule sale_step.open_channel)
     (simp_all add: buyer_new_def grant_new_def grant_channel_def)

lemma ex_b_wf: "buyer_wf ex_b"
  using sale_reach_inv [OF ex_reach] by (simp add: sale_inv_def)

lemmas poll_eval = poll_def wanted_reserved_rate_def fit_rate_def poll_trigger_def poll_legs_def
  clamp_window_def budget_for_def units_in_def remaining_at_def lead_within_def resume_rate_def
  buyer_cap_def cb_headroom_def clamp_u64_def sat_sub_def Let_def

lemma ex_poll: "poll ex_b BuyerPolicy_default ex_demand 0 = Some ex_purchase"
  by (simp add: poll_eval ex_b_def ex_demand_def ex_terms_def BuyerPolicy_default_def
      ex_purchase_def confirmed_def funded_def buyer_new_def cb_new_def)



theorem refused_purchase_undone_witness:
  "b_active (record_reject (fst (buyer_record ex_b ex_purchase 0)) [(ex_id, 120)] OutOfRange 0 5 0)
    = b_active ex_b"
  using refused_purchase_undone [OF ex_b_wf ex_poll _ _ refl, of OutOfRange 0 5 0]
  by (simp add: exact_fill_def ex_purchase_def purchase_ratchets_def purchase_legs_def ex_b_def
      confirmed_def funded_def buyer_new_def)

definition ex_active :: "u64 \<Rightarrow> ChannelBuyer" where
  "ex_active cum = (cb_new ex_id 1000 None)\<lparr>cb_cumulative := cum\<rparr>"

definition ex_replacement :: ChannelBuyer where
  "ex_replacement = cb_new (ChannelId [2]) 5000 None"

definition ex_full :: Buyer where
  "ex_full = buyer_new\<lparr>b_active := Some (ex_active 880), b_next := Some ex_replacement\<rparr>"

definition ex_full_purchase :: Purchase where
  "ex_full_purchase = ex_purchase\<lparr>pu_first := \<lparr>leg_channel_id = ex_id, leg_cumulative = 1000\<rparr>\<rparr>"

definition ex_pending :: Buyer where
  "ex_pending = buyer_new\<lparr>b_active := Some (ex_active 0), b_pending := Some ex_replacement\<rparr>"

lemmas ex_eval = ex_full_def ex_full_purchase_def ex_pending_def ex_active_def ex_replacement_def
  ex_id_def cb_new_def buyer_new_def ex_demand_def ex_terms_def BuyerPolicy_default_def ex_purchase_def

lemma ex_full_poll: "poll ex_full BuyerPolicy_default ex_demand 0 = Some ex_full_purchase"
  by (simp add: poll_eval ex_eval)

lemma ex_pending_poll: "poll ex_pending BuyerPolicy_default ex_demand 0 = Some ex_purchase"
  by (simp add: poll_eval ex_eval)

lemma ex_full_wf: "buyer_wf ex_full" "buyer_wf ex_pending"
  by (simp_all add: buyer_wf_def pair_wf_def cb_usable_def ex_eval)

lemma exact_fill_refusal_not_undone_witness:
  "b_remaining (record_reject (fst (buyer_record ex_full ex_full_purchase 0))
      (purchase_ratchets ex_full_purchase) RateExceedsCapacity 0 5 0) = 120"
  using exact_fill_refusal_not_undone [OF ex_full_wf(1) ex_full_poll, of "ex_active 880" ex_replacement,
      OF _ _ _ _ refl, of RateExceedsCapacity 0 5 0]
  by (simp add: exact_fill_def ex_eval split_owed_def)

lemma refusal_drops_confirmed_replacement_witness:
  "b_next (record_reject (confirmed (fst (buyer_record ex_pending ex_purchase 0)) (ChannelId [2]))
      (purchase_ratchets ex_purchase) RateExceedsCapacity 0 5 0) = None"
  using refusal_drops_confirmed_replacement [OF ex_full_wf(2) ex_pending_poll,
      of ex_replacement "ex_active 0", OF _ _ _ _ refl refl, of "ChannelId [2]" RateExceedsCapacity 0 5 0]
  by (simp add: ex_eval)

end
