(* ===== verification/Btree_Map.thy ===== *)
theory Btree_Map
  imports Prelude
begin

text \<open>
  The ordered map of the Rust standard library, as far as the session state machine uses it
  (\<open>get\<close>, \<open>insert\<close>, \<open>remove\<close>, and iteration in key order): an association list kept in
  strictly increasing key order. The locale \<open>keyed_store\<close> is what a client relies on; it is
  interpreted below on the list operations, and the session's lemmas use the interpretation.
\<close>

type_synonym ('k, 'v) btreemap = "('k \<times> 'v) list"

abbreviation bt_get :: "('k, 'v) btreemap \<Rightarrow> 'k \<Rightarrow> 'v option" where
  "bt_get m \<equiv> map_of m"

fun bt_insert :: "'k::linorder \<Rightarrow> 'v \<Rightarrow> ('k, 'v) btreemap \<Rightarrow> ('k, 'v) btreemap" where
  "bt_insert k v [] = [(k, v)]"
| "bt_insert k v ((k', v') # m) =
     (if k < k' then (k, v) # (k', v') # m
      else if k = k' then (k, v) # m
      else (k', v') # bt_insert k v m)"

definition bt_remove :: "'k \<Rightarrow> ('k, 'v) btreemap \<Rightarrow> ('k, 'v) btreemap" where
  "bt_remove k m = filter (\<lambda>(k', _). k' \<noteq> k) m"

definition bt_keys :: "('k, 'v) btreemap \<Rightarrow> 'k list" where
  "bt_keys m = map fst m"

definition bt_wf :: "('k::linorder, 'v) btreemap \<Rightarrow> bool" where
  "bt_wf m = sorted_wrt (<) (map fst m)"

text \<open>A sum over the entries, and over every entry but one key's.\<close>

definition bt_sum :: "('k \<Rightarrow> 'v \<Rightarrow> nat) \<Rightarrow> ('k, 'v) btreemap \<Rightarrow> nat" where
  "bt_sum f m = sum_list (map (\<lambda>(k, v). f k v) m)"

subsection \<open>What a client relies on\<close>

locale keyed_store =
  fixes get :: "'m \<Rightarrow> 'k \<Rightarrow> 'v option"
    and insert :: "'k \<Rightarrow> 'v \<Rightarrow> 'm \<Rightarrow> 'm"
    and remove :: "'k \<Rightarrow> 'm \<Rightarrow> 'm"
    and keys :: "'m \<Rightarrow> 'k list"
    and wf :: "'m \<Rightarrow> bool"
    and total :: "('k \<Rightarrow> 'v \<Rightarrow> nat) \<Rightarrow> 'm \<Rightarrow> nat"
  assumes get_insert: "get (insert k v m) = (get m)(k \<mapsto> v)"
    and get_remove: "get (remove k m) = (get m)(k := None)"
    and wf_insert: "wf m \<Longrightarrow> wf (insert k v m)"
    and wf_remove: "wf m \<Longrightarrow> wf (remove k m)"
    and distinct_keys: "wf m \<Longrightarrow> distinct (keys m)"
    and set_keys: "set (keys m) = dom (get m)"
    and total_insert: "wf m \<Longrightarrow> total f (insert k v m) = total f (remove k m) + f k v"
    and total_split: "wf m \<Longrightarrow>
      total f m = total f (remove k m) + (case get m k of None \<Rightarrow> 0 | Some v \<Rightarrow> f k v)"
begin

lemma get_insert_same: "get (insert k v m) k = Some v"
  by (simp add: get_insert)

lemma get_insert_other: "k \<noteq> k' \<Longrightarrow> get (insert k v m) k' = get m k'"
  by (simp add: get_insert)

text \<open>Replacing an entry by one that weighs no more makes no total larger.\<close>

lemma total_insert_le:
  assumes "wf m" and "f k v \<le> (case get m k of None \<Rightarrow> 0 | Some w \<Rightarrow> f k w)"
  shows "total f (insert k v m) \<le> total f m"
  using assms by (simp add: total_insert total_split [of m f k])

lemma total_remove_le: "wf m \<Longrightarrow> total f (remove k m) \<le> total f m"
  using total_split [of m f k] by simp

end

subsection \<open>The list operations keep it\<close>

lemma map_of_bt_insert: "map_of (bt_insert k v m) = (map_of m)(k \<mapsto> v)"
  by (induction k v m rule: bt_insert.induct) (auto simp: fun_eq_iff)

lemma map_of_bt_remove: "map_of (bt_remove k m) = (map_of m)(k := None)"
  by (induction m) (auto simp: bt_remove_def fun_eq_iff)

lemma keys_bt_insert: "set (map fst (bt_insert k v m)) = insert k (set (map fst m))"
  by (induction k v m rule: bt_insert.induct) auto

lemma bt_wf_insert: "bt_wf m \<Longrightarrow> bt_wf (bt_insert k v m)"
proof (induction k v m rule: bt_insert.induct)
  case (2 k v k' v' m)
  have "\<forall>x \<in> set (map fst (bt_insert k v m)). x = k \<or> x \<in> set (map fst m)"
    unfolding keys_bt_insert by blast
  with 2 show ?case
    by (force simp: bt_wf_def)
qed (simp add: bt_wf_def)

lemma bt_wf_remove: "bt_wf m \<Longrightarrow> bt_wf (bt_remove k m)"
  by (induction m) (auto simp: bt_wf_def bt_remove_def)

lemma bt_wf_distinct: "bt_wf m \<Longrightarrow> distinct (bt_keys m)"
  by (simp add: bt_wf_def bt_keys_def strict_sorted_iff)

lemma bt_remove_absent: "k \<notin> fst ` set m \<Longrightarrow> bt_remove k m = m"
  by (induction m) (auto simp: bt_remove_def)

lemma bt_wf_tail_absent: "bt_wf ((k, v) # m) \<Longrightarrow> k \<notin> fst ` set m"
  by (auto simp: bt_wf_def)

lemma bt_sum_split:
  "bt_wf m \<Longrightarrow>
    bt_sum f m = bt_sum f (bt_remove k m) + (case bt_get m k of None \<Rightarrow> 0 | Some v \<Rightarrow> f k v)"
proof (induction m)
  case (Cons e m)
  obtain k' v' where e: "e = (k', v')" by (cases e)
  from Cons.prems have wf: "bt_wf m" by (simp add: bt_wf_def)
  have "k' = k \<Longrightarrow> bt_remove k m = m"
    using bt_wf_tail_absent [of k' v' m] Cons.prems e by (simp add: bt_remove_absent)
  with Cons.IH [OF wf] show ?case
    by (auto simp: e bt_sum_def bt_remove_def)
qed (simp add: bt_sum_def bt_remove_def)

lemma bt_remove_insert: "bt_remove k (bt_insert k v m) = bt_remove k m"
  by (induction k v m rule: bt_insert.induct) (auto simp: bt_remove_def)

lemma bt_sum_insert:
  "bt_wf m \<Longrightarrow> bt_sum f (bt_insert k v m) = bt_sum f (bt_remove k m) + f k v"
  using bt_sum_split [OF bt_wf_insert, of m f k v k]
  by (simp add: map_of_bt_insert bt_remove_insert)

interpretation bt: keyed_store map_of bt_insert bt_remove bt_keys bt_wf bt_sum
proof unfold_locales
  show "set (bt_keys m) = dom (map_of m)" for m :: "('a \<times> 'b) list"
    by (simp add: bt_keys_def dom_map_of_conv_image_fst)
qed (simp_all add: map_of_bt_insert map_of_bt_remove bt_wf_insert bt_wf_remove bt_wf_distinct
    bt_sum_insert bt_sum_split [symmetric])

lemmas bt_simps [simp] = map_of_bt_insert map_of_bt_remove bt_wf_insert bt_wf_remove

lemma bt_wf_Nil [simp]: "bt_wf []"
  by (simp add: bt_wf_def)

lemma bt_get_mem: "bt_wf m \<Longrightarrow> (k, v) \<in> set m \<longleftrightarrow> bt_get m k = Some v"
  using bt_wf_distinct [of m] by (simp add: bt_keys_def map_of_eq_Some_iff)

end
