(* ===== verification/Access_Level.thy ===== *)
theory Access_Level
  imports Prelude
begin

text \<open>
  The delivery gate of \<open>crates/tollgate-core/src/access.rs\<close>: the level a peer is at, and what an
  enforcer does for it at that level and the rate core shaped it to.
\<close>

datatype AccessLevel = AccessNone | AccessActive | AccessFree

definition delivery_allowed :: "AccessLevel \<Rightarrow> bool" where
  "delivery_allowed a = (a = AccessActive \<or> a = AccessFree)"

definition carried :: "AccessLevel \<Rightarrow> u64 \<Rightarrow> bool" where
  "carried a rate = (a = AccessFree \<or> rate > 0)"

definition metered :: "AccessLevel \<Rightarrow> bool" where
  "metered a = (a = AccessActive)"

definition advertise :: "AccessLevel \<Rightarrow> u64 \<Rightarrow> bool" where
  "advertise a rate = carried a rate"

end
