(* ===== verification/Meter.thy ===== *)
theory Meter
  imports Prelude
begin

text \<open>
  Cumulative counters of one link and the meter that turns readings into growth
  (\<open>crates/tollgate-core/src/meter.rs\<close>).
\<close>

record Counters =
  to_payer :: u64
  from_payer :: u64

definition counters_zero :: Counters where
  "counters_zero = \<lparr>to_payer = 0, from_payer = 0\<rparr>"

definition delta_since :: "Counters \<Rightarrow> Counters \<Rightarrow> Counters" where
  "delta_since self earlier =
     \<lparr>to_payer = sat_sub (to_payer self) (to_payer earlier),
      from_payer = sat_sub (from_payer self) (from_payer earlier)\<rparr>"

definition swapped :: "Counters \<Rightarrow> Counters" where
  "swapped self = \<lparr>to_payer = from_payer self, from_payer = to_payer self\<rparr>"

definition weighted :: "Counters \<Rightarrow> u16 \<Rightarrow> u64" where
  "weighted self from_payer_weight =
     clamp_u64 (unat (to_payer self) + unat (from_payer self) * unat from_payer_weight)"

record Meter =
  meter_last :: Counters

definition meter_new :: Meter where
  "meter_new = \<lparr>meter_last = counters_zero\<rparr>"

definition observe :: "Meter \<Rightarrow> Counters \<Rightarrow> Meter \<times> Counters" where
  "observe self now = (\<lparr>meter_last = now\<rparr>, delta_since now (meter_last self))"

definition totals :: "Meter \<Rightarrow> Counters" where
  "totals self = meter_last self"

subsection \<open>Readings telescope\<close>

text \<open>The growth a run of readings reports.\<close>

fun observe_all :: "Meter \<Rightarrow> Counters list \<Rightarrow> Counters list" where
  "observe_all m [] = []"
| "observe_all m (c # cs) = (let (m', d) = observe m c in d # observe_all m' cs)"

lemma observe_all_telescope:
  assumes "sorted (map (\<lambda>c. unat (to_payer c)) (meter_last m # cs))"
  shows "sum_list (map (\<lambda>c. unat (to_payer c)) (observe_all m cs))
    = unat (to_payer (last (meter_last m # cs))) - unat (to_payer (meter_last m))"
  using assms
proof (induction cs arbitrary: m)
  case (Cons c cs)
  let ?m = "\<lparr>meter_last = c\<rparr>"
  have IH: "sum_list (map (\<lambda>c. unat (to_payer c)) (observe_all ?m cs))
    = unat (to_payer (last (c # cs))) - unat (to_payer c)"
    using Cons.IH [of ?m] Cons.prems by simp
  have "last (c # cs) \<in> set (c # cs)"
    by (rule last_in_set) simp
  with Cons.prems have "unat (to_payer (meter_last m)) \<le> unat (to_payer c)"
    and "unat (to_payer c) \<le> unat (to_payer (last (c # cs)))"
    by auto
  with IH show ?case
    by (simp add: observe_def delta_since_def u64_nat)
qed simp

lemma weighted_code [code]:
  "weighted c w = clamp_int (uint (to_payer c) + uint (from_payer c) * uint w)"
  by (simp add: weighted_def clamp_u64_int)

lemma swapped_swapped [simp]: "swapped (swapped c) = c"
  by (simp add: swapped_def)

lemma unat_weighted: "unat (weighted c w) =
  min (unat (to_payer c) + unat (from_payer c) * unat w) 18446744073709551615"
  by (simp add: weighted_def u64_nat)

end
