(* ===== verification/Session_State.thy ===== *)
theory Session_State
  imports Btree_Map Access_Level Meter Admission Buying
begin

text \<open>
  The events a host reports, the actions core answers with, and everything a node keeps about one
  peer (\<open>crates/tollgate-core/src/event.rs\<close>, \<open>action.rs\<close> and \<open>session/state.rs\<close>), with the table
  of peers (\<open>struct Sessions\<close> of \<open>session/core.rs\<close>).
\<close>

subsection \<open>Events and actions\<close>

datatype Event =
    PeerConnected PubKey "Budget option"
  | PeerDisconnected PubKey
  | MessageReceived PubKey Message
  | TopUpSignatureInvalid PubKey ChannelId
  | OutgoingChannelFunded PubKey u64 ChannelId u64 "Millis option" "u8 list"
  | OutgoingFundingFailed PubKey u64
  | IncomingFundingVerified PubKey ChannelId u64 "Millis option" string
  | IncomingFundingRejected PubKey ReasonCode
  | Metered PubKey Counters bool
  | DemandObserved PubKey u64
  | Tick

datatype Action =
    Send PubKey Message
  | SignAndSendTopUp PubKey "(ChannelId \<times> u64) list" u64 u64
  | RecordUpdates PubKey "ChannelUpdate list"
  | SetAccess PubKey AccessLevel
  | SetShapingRate PubKey u64
  | FundChannel PubKey u64 string u64
  | VerifyFunding PubKey "u8 list"
  | SettleChannel PubKey ChannelId "Millis option"
  | ReclaimChannel PubKey ChannelId u64 "Millis option"
  | SaveBudget PubKey Budget
  | DropPeer PubKey

subsection \<open>One peer\<close>

datatype Phase = Opening | Establishing | Established | Closing

record PeerOffer =
  po_accepted_mints :: "string list"
  po_unit :: string
  po_terms :: Terms
  po_no_charge :: bool

record PeerSession =
  ps_peer :: PubKey
  ps_phase :: Phase
  ps_access :: AccessLevel
  ps_policy :: PeerPolicy
  ps_offer :: "PeerOffer option"
  ps_offer_sent :: "Offer option"
  ps_grant :: GrantState
  ps_weight :: u16
  ps_meter :: Meter
  ps_budget_live :: bool
  ps_balance :: "(Balance \<times> Millis) option"
  ps_refused_terms :: bool
  ps_buyer :: Buyer
  ps_demand :: u64
  ps_upload_rate :: u64
  ps_last_meter_at :: Millis
  ps_applied_rate :: "u64 option"
  ps_last_seen :: Millis
  ps_last_sent :: Millis
  ps_kept_by_peer :: bool

definition peer_session_new :: "PubKey \<Rightarrow> PeerPolicy \<Rightarrow> Millis \<Rightarrow> PeerSession" where
  "peer_session_new peer policy now =
     \<lparr>ps_peer = peer, ps_phase = Opening, ps_access = AccessNone, ps_policy = policy,
      ps_offer = None, ps_offer_sent = None, ps_grant = grant_new,
      ps_weight = (case pp_from_payer_weight policy of Some w \<Rightarrow> w | None \<Rightarrow> 1),
      ps_meter = meter_new, ps_budget_live = False, ps_balance = None,
      ps_refused_terms = False, ps_buyer = buyer_new, ps_demand = 0, ps_upload_rate = 0,
      ps_last_meter_at = now, ps_applied_rate = None, ps_last_seen = now, ps_last_sent = now,
      ps_kept_by_peer = False\<rparr>"

definition resume :: "PeerSession \<Rightarrow> PeerPolicy \<Rightarrow> Millis \<Rightarrow> PeerSession" where
  "resume ps policy now =
     (peer_session_new (ps_peer ps) policy now)
       \<lparr>ps_grant := grant_restart (ps_grant ps) now, ps_buyer := buyer_restart (ps_buyer ps)\<rparr>"

definition paying :: "PeerSession \<Rightarrow> Millis \<Rightarrow> bool" where
  "paying ps now = grant_is_live (ps_grant ps) now"

subsection \<open>All peers\<close>

record Parked =
  pk_session :: PeerSession
  pk_since :: Millis

record Sessions =
  ss_local :: PubKey
  ss_node :: NodePolicy
  ss_buyer_policy :: BuyerPolicy
  ss_peers :: "(PubKey, PeerSession) btreemap"
  ss_parked :: "(PubKey, Parked) btreemap"
  ss_overrides :: "(PubKey, PeerPolicy) btreemap"
  ss_next_request :: u64

definition sessions_new :: "PubKey \<Rightarrow> NodePolicy \<Rightarrow> BuyerPolicy \<Rightarrow> Sessions" where
  "sessions_new local node buyer_policy =
     \<lparr>ss_local = local, ss_node = node, ss_buyer_policy = buyer_policy, ss_peers = [],
      ss_parked = [], ss_overrides = [], ss_next_request = 1\<rparr>"

subsection \<open>Handlers as functions of the state\<close>

text \<open>
  A handler takes the state and gives the new one with the actions it pushed. \<open>and_then\<close> runs one
  after another, \<open>on_session\<close> runs a function of one peer's session, if the peer is there.
\<close>

definition and_then ::
  "('s \<Rightarrow> 's \<times> 'a list) \<Rightarrow> ('s \<Rightarrow> 's \<times> 'a list) \<Rightarrow> 's \<Rightarrow> 's \<times> 'a list" where
  "and_then f g s = (let (s1, out1) = f s; (s2, out2) = g s1 in (s2, out1 @ out2))"

definition push :: "'a list \<Rightarrow> 's \<Rightarrow> 's \<times> 'a list" where
  "push out s = (s, out)"

definition on_session ::
  "PubKey \<Rightarrow> (PeerSession \<Rightarrow> PeerSession \<times> Action list) \<Rightarrow> Sessions \<Rightarrow> Sessions \<times> Action list" where
  "on_session peer f s =
     (case bt_get (ss_peers s) peer of
        None \<Rightarrow> (s, [])
      | Some ps \<Rightarrow> let (ps', out) = f ps in (s\<lparr>ss_peers := bt_insert peer ps' (ss_peers s)\<rparr>, out))"

definition update_session :: "PubKey \<Rightarrow> (PeerSession \<Rightarrow> PeerSession) \<Rightarrow> Sessions \<Rightarrow> Sessions" where
  "update_session peer f s =
     (case bt_get (ss_peers s) peer of
        None \<Rightarrow> s
      | Some ps \<Rightarrow> s\<lparr>ss_peers := bt_insert peer (f ps) (ss_peers s)\<rparr>)"

definition on_parked ::
  "PubKey \<Rightarrow> (PeerSession \<Rightarrow> PeerSession \<times> Action list) \<Rightarrow> Sessions \<Rightarrow> Sessions \<times> Action list" where
  "on_parked peer f s =
     (case bt_get (ss_parked s) peer of
        None \<Rightarrow> (s, [])
      | Some p \<Rightarrow>
          let (ps', out) = f (pk_session p)
          in (s\<lparr>ss_parked := bt_insert peer (p\<lparr>pk_session := ps'\<rparr>) (ss_parked s)\<rparr>, out))"

text \<open>
  A loop over a list of keys, which is also what a loop over the entries of an ordered map is:
  its keys in order, each entry changed in place.
\<close>

fun for_each :: "('k \<Rightarrow> 's \<Rightarrow> 's \<times> 'a list) \<Rightarrow> 'k list \<Rightarrow> 's \<Rightarrow> 's \<times> 'a list" where
  "for_each f [] s = (s, [])"
| "for_each f (k # ks) s = and_then (f k) (for_each f ks) s"

end
