(* ===== verification/Session.thy ===== *)
theory Session
  imports Session_State
begin

text \<open>
  The per-peer message lifecycle: events in, actions out
  (\<open>crates/tollgate-core/src/session/core.rs\<close>). One definition per method of \<open>Sessions\<close>, in an
  order that lets each use the ones it calls.
\<close>

subsection \<open>Small helpers\<close>

definition balance_of :: "PeerSession \<Rightarrow> Millis \<Rightarrow> Balance" where
  "balance_of ps now =
     (let budget = grant_budget (ps_grant ps) now
      in \<lparr>bal_remaining = bud_remaining budget,
          bal_expires_in_ms = budget_expires_in_ms budget now,
          bal_reserved_rate = gs_reserved_rate (ps_grant ps)\<rparr>)"

definition refused_updates :: "TopUp \<Rightarrow> RefusedUpdate list" where
  "refused_updates t =
     map (\<lambda>u. \<lparr>ref_channel_id = upd_channel_id u, ref_cumulative = upd_cumulative u\<rparr>)
       (topup_updates t)"

fun not_increasing_from ::
  "GrantState \<Rightarrow> ChannelUpdate list \<Rightarrow> ChannelId list \<Rightarrow> ChannelId list \<Rightarrow> ChannelId list" where
  "not_increasing_from g [] seen failed = failed"
| "not_increasing_from g (u # us) seen failed =
     (case grant_channel g (upd_channel_id u) of
        None \<Rightarrow> not_increasing_from g us seen failed
      | Some channel \<Rightarrow>
          let repeated = (upd_channel_id u \<in> set seen);
              seen = seen @ [upd_channel_id u];
              failed = (if (repeated \<or> upd_cumulative u \<le> ic_signed channel)
                           \<and> ic_id channel \<notin> set failed
                        then failed @ [ic_id channel] else failed)
          in not_increasing_from g us seen failed)"

definition not_increasing :: "GrantState \<Rightarrow> ChannelUpdate list \<Rightarrow> ChannelId list" where
  "not_increasing g updates = not_increasing_from g updates [] []"

definition settle_actions :: "PubKey \<Rightarrow> (ChannelId \<times> Millis option) list \<Rightarrow> Action list" where
  "settle_actions peer settled = map (\<lambda>(i, e). SettleChannel peer i e) settled"

text \<open>Close the channels named in one session, and have the host settle each.\<close>

definition close_and_settle ::
  "PubKey \<Rightarrow> PeerSession \<Rightarrow> ChannelId list \<Rightarrow> PeerSession \<times> Action list" where
  "close_and_settle peer ps is =
     (let (g, settled) = grant_close_all (ps_grant ps) is
      in (ps\<lparr>ps_grant := g\<rparr>, settle_actions peer settled))"

definition discard :: "PubKey \<Rightarrow> PeerSession \<Rightarrow> PeerSession \<times> Action list" where
  "discard peer ps = close_and_settle peer ps (map ic_id (gs_channels (ps_grant ps)))"

definition save_budget :: "PubKey \<Rightarrow> PeerSession \<Rightarrow> Millis \<Rightarrow> Action list" where
  "save_budget peer ps now =
     (if pp_no_charge (ps_policy ps) then [] else [SaveBudget peer (grant_budget (ps_grant ps) now)])"

definition settle_expiring_in ::
  "PubKey \<Rightarrow> Millis \<Rightarrow> u64 \<Rightarrow> PeerSession \<Rightarrow> PeerSession \<times> Action list" where
  "settle_expiring_in peer now lead_ms ps =
     close_and_settle peer ps (grant_expiring_channels (ps_grant ps) now lead_ms)"

definition settle_expiring :: "PubKey \<Rightarrow> Millis \<Rightarrow> Sessions \<Rightarrow> Sessions \<times> Action list" where
  "settle_expiring peer now s =
     on_session peer (settle_expiring_in peer now (settle_lead_ms (ss_node s))) s"

definition resume_grace_ms :: "Sessions \<Rightarrow> u64" where
  "resume_grace_ms s = np_stale_timeout_ms (ss_node s)"

definition expiry_of :: "Sessions \<Rightarrow> PubKey \<Rightarrow> ChannelId \<Rightarrow> Millis option" where
  "expiry_of s peer i =
     (case bt_get (ss_peers s) peer of
        None \<Rightarrow> None
      | Some ps \<Rightarrow>
          (case grant_channel (ps_grant ps) i of
             Some channel \<Rightarrow> ic_expires_at channel
           | None \<Rightarrow>
               (case find (\<lambda>c. cb_id c = i)
                       (List.map_filter id [b_active (ps_buyer ps), b_next (ps_buyer ps)]) of
                  None \<Rightarrow> None | Some c \<Rightarrow> cb_expires_at c)))"

subsection \<open>Gate and shaper\<close>

definition access_for :: "PeerSession \<Rightarrow> Millis \<Rightarrow> AccessLevel" where
  "access_for ps now =
     (if pp_no_charge (ps_policy ps) then AccessFree
      else if gs_channels (ps_grant ps) \<noteq> [] \<or> grant_is_live (ps_grant ps) now then AccessActive
      else AccessNone)"

definition refresh_session ::
  "NodePolicy \<Rightarrow> PubKey \<Rightarrow> Millis \<Rightarrow> PeerSession \<Rightarrow> PeerSession \<times> Action list" where
  "refresh_session node peer now ps =
     (let burst = peer_burst (ps_policy ps) node;
          access = access_for ps now;
          (ps, out1) = (if access \<noteq> ps_access ps
                        then (ps\<lparr>ps_access := access\<rparr>, [SetAccess peer access]) else (ps, []));
          live = grant_is_live (ps_grant ps) now;
          out2 = (if ps_budget_live ps \<and> \<not> live \<and> access \<noteq> AccessFree
                  then [Send peer (MBalance (balance_of ps now)), SaveBudget peer Budget_NONE]
                  else []);
          ps = ps\<lparr>ps_budget_live := live\<rparr>;
          rate = (if access = AccessFree then U64_MAX
                  else grant_shaping_rate (ps_grant ps) now burst (np_minimum_flow node)
                         (np_tick_ms node));
          (ps, out3) = (if ps_applied_rate ps \<noteq> Some rate
                        then (ps\<lparr>ps_applied_rate := Some rate\<rparr>, [SetShapingRate peer rate])
                        else (ps, []))
      in (ps, out1 @ out2 @ out3))"

definition refresh :: "PubKey \<Rightarrow> Millis \<Rightarrow> Sessions \<Rightarrow> Sessions \<times> Action list" where
  "refresh peer now s = on_session peer (refresh_session (ss_node s) peer now) s"

definition reject :: "PubKey \<Rightarrow> ReasonCode \<Rightarrow> Sessions \<Rightarrow> Sessions \<times> Action list" where
  "reject peer reason s =
     (update_session peer (\<lambda>ps. ps\<lparr>ps_phase := Closing\<rparr>) s,
      [Send peer (MDisconnect \<lparr>disc_reason = reason\<rparr>), DropPeer peer])"

subsection \<open>Admission across payers\<close>

definition reserved_elsewhere :: "Sessions \<Rightarrow> PubKey \<Rightarrow> u64" where
  "reserved_elsewhere s payer =
     foldl sat_add 0
       (map (\<lambda>(_, ps). gs_reserved_rate (ps_grant ps))
         (filter (\<lambda>(p, ps). p \<noteq> payer \<and> ps_phase ps \<noteq> Closing) (ss_peers s)))"

definition admission :: "Sessions \<Rightarrow> PubKey \<Rightarrow> Admission" where
  "admission s payer =
     \<lparr>adm_policy = np_grants (ss_node s), adm_reserved_elsewhere = reserved_elsewhere s payer\<rparr>"

definition too_soon :: "Sessions \<Rightarrow> PubKey \<Rightarrow> TopUp \<Rightarrow> Millis \<Rightarrow> Action option" where
  "too_soon s peer topup now =
     (case bt_get (ss_peers s) peer of
        None \<Rightarrow> None
      | Some ps \<Rightarrow>
          if \<not> grant_too_soon (ps_grant ps) now (gp_min_topup_gap_ms (np_grants (ss_node s)))
          then None
          else Some (Send peer (MTopUpReject
            \<lparr>rej_refused = refused_updates topup,
             rej_max_reserved_rate = rate_available (admission s peer),
             rej_reason = TooSoon\<rparr>)))"

subsection \<open>Buying from a peer\<close>

definition request_funding ::
  "PubKey \<Rightarrow> string \<Rightarrow> u64 \<Rightarrow> Millis \<Rightarrow> Sessions \<Rightarrow> Sessions \<times> Action list" where
  "request_funding peer mint_url capacity now s =
     (let request = ss_next_request s;
          s = s\<lparr>ss_next_request := ss_next_request s + 1\<rparr>;
          s = update_session peer
                (\<lambda>ps. ps\<lparr>ps_buyer := funding_requested (ps_buyer ps) request now\<rparr>) s
      in (s, [FundChannel peer request mint_url capacity]))"

definition poll_buyer_session ::
  "NodePolicy \<Rightarrow> BuyerPolicy \<Rightarrow> PubKey \<Rightarrow> Millis \<Rightarrow> PeerSession \<Rightarrow> PeerSession \<times> Action list" where
  "poll_buyer_session node policy peer now ps =
     (case ps_offer ps of
        None \<Rightarrow> (ps, [])
      | Some offer \<Rightarrow>
          if po_no_charge offer \<or> ps_refused_terms ps then (ps, [])
          else
            let buyer = fst (retire_expiring (ps_buyer ps) now (np_safety_margin_ms node)
                               (settle_lead_ms node));
                ps = ps\<lparr>ps_buyer := buyer\<rparr>;
                weighted_upload = sat_mul (ps_upload_rate ps)
                  (ucast (tm_from_payer_weight (po_terms offer)));
                demand = \<lparr>dm_observed_rate = sat_add (ps_demand ps) weighted_upload,
                          dm_terms = po_terms offer\<rparr>
            in case poll buyer policy demand now of
                 None \<Rightarrow> (ps, [])
               | Some purchase \<Rightarrow>
                   let drained = b_active buyer;
                       (buyer, retired) = buyer_record buyer purchase now;
                       legs = List.map_filter id [Some (pu_first purchase), pu_second purchase];
                       out1 = [SignAndSendTopUp peer
                                 (map (\<lambda>l. (leg_channel_id l, leg_cumulative l)) legs)
                                 (pu_window_ms purchase) (pu_reserved_rate purchase)];
                       out2 = (case retired of
                                 None \<Rightarrow> []
                               | Some i \<Rightarrow>
                                   [SettleChannel peer i
                                     (case drained of None \<Rightarrow> None
                                      | Some c \<Rightarrow> if cb_id c = i then cb_expires_at c else None)])
                   in (ps\<lparr>ps_buyer := buyer\<rparr>, out1 @ out2))"

definition poll_buyer :: "PubKey \<Rightarrow> Millis \<Rightarrow> Sessions \<Rightarrow> Sessions \<times> Action list" where
  "poll_buyer peer now s =
     on_session peer (poll_buyer_session (ss_node s) (ss_buyer_policy s) peer now) s"

definition poll_rollover :: "PubKey \<Rightarrow> Millis \<Rightarrow> Sessions \<Rightarrow> Sessions \<times> Action list" where
  "poll_rollover peer now s =
     (case bt_get (ss_peers s) peer of
        None \<Rightarrow> (s, [])
      | Some ps \<Rightarrow>
          (case ps_offer ps of
             None \<Rightarrow> (s, [])
           | Some offer \<Rightarrow>
               (case rollover_due (ps_buyer ps) (np_rollover_threshold_pct (ss_node s)) now
                       (np_safety_margin_ms (ss_node s)) of
                  None \<Rightarrow> (s, [])
                | Some reason \<Rightarrow>
                    (case b_active (ps_buyer ps) of
                       None \<Rightarrow> (s, [])
                     | Some active \<Rightarrow>
                         (case po_accepted_mints offer of
                            [] \<Rightarrow> (s, [])
                          | mint_url # _ \<Rightarrow>
                              let capacity = (case reason of
                                    RolloverCapacity \<Rightarrow> grown_capacity (ss_node s) (cb_capacity active)
                                  | RolloverExpiry \<Rightarrow> clamp_capacity (ss_node s) (cb_capacity active))
                              in request_funding peer mint_url capacity now s)))))"

definition poll_opening :: "PubKey \<Rightarrow> Millis \<Rightarrow> Sessions \<Rightarrow> Sessions \<times> Action list" where
  "poll_opening peer now s =
     (case bt_get (ss_peers s) peer of
        None \<Rightarrow> (s, [])
      | Some ps \<Rightarrow>
          if ps_phase ps = Closing then (s, [])
          else case ps_offer ps of
                 None \<Rightarrow> (s, [])
               | Some offer \<Rightarrow>
                   if po_no_charge offer \<or> ps_refused_terms ps \<or> \<not> buying (ss_buyer_policy s)
                   then (s, [])
                   else if b_active (ps_buyer ps) \<noteq> None \<or> b_next (ps_buyer ps) \<noteq> None
                           \<or> awaiting_confirmation (ps_buyer ps)
                           \<or> funding_in_flight (ps_buyer ps) now
                   then (s, [])
                   else case po_accepted_mints offer of
                          [] \<Rightarrow> (s, [])
                        | mint_url # _ \<Rightarrow>
                            request_funding peer mint_url (first_channel_capacity (ss_node s)) now s)"

end
