(* ===== verification/Session_Handlers.thy ===== *)
theory Session_Handlers
  imports Session
begin

text \<open>
  The handlers of \<open>crates/tollgate-core/src/session/core.rs\<close>: a peer connecting, going away and
  coming back, every message it may send, the meter, the tick, and \<open>Sessions::handle\<close>, which takes
  an event to the next state and the actions to carry out.
\<close>

subsection \<open>Keeping a quiet link alive\<close>

fun sent_to :: "Action \<Rightarrow> PubKey option" where
  "sent_to (Send peer msg) = Some peer"
| "sent_to (SignAndSendTopUp peer ratchets window rate) = Some peer"
| "sent_to _ = None"

fun note_sent :: "Action list \<Rightarrow> Millis \<Rightarrow> Sessions \<Rightarrow> Sessions" where
  "note_sent [] now s = s"
| "note_sent (a # as) now s =
     note_sent as now
       (case sent_to a of
          None \<Rightarrow> s
        | Some peer \<Rightarrow> update_session peer (\<lambda>ps. ps\<lparr>ps_last_sent := now\<rparr>) s)"

definition keep_alive_session ::
  "u64 \<Rightarrow> Millis \<Rightarrow> PubKey \<Rightarrow> PeerSession \<Rightarrow> PeerSession \<times> Action list" where
  "keep_alive_session interval now peer ps =
     (if ps_phase ps = Closing \<or> saturating_since now (ps_last_sent ps) < interval then (ps, [])
      else case ps_offer_sent ps of
             None \<Rightarrow> (ps, [])
           | Some offer \<Rightarrow> (ps\<lparr>ps_last_sent := now\<rparr>, [Send peer (MOffer offer)]))"

definition keep_alive :: "Millis \<Rightarrow> Sessions \<Rightarrow> Sessions \<times> Action list" where
  "keep_alive now s =
     (let interval = keepalive_interval_ms (ss_node s)
      in for_each (\<lambda>peer. on_session peer (keep_alive_session interval now peer))
           (bt_keys (ss_peers s)) s)"

subsection \<open>Going away and coming back\<close>

text \<open>A session given up for good: its budget is kept, its channels are settled.\<close>

definition give_up :: "PubKey \<Rightarrow> PeerSession \<Rightarrow> Millis \<Rightarrow> Action list" where
  "give_up peer ps now = save_budget peer ps now @ snd (discard peer ps)"

definition park :: "PubKey \<Rightarrow> Millis \<Rightarrow> Sessions \<Rightarrow> Sessions \<times> Action list" where
  "park peer now s =
     (case bt_get (ss_peers s) peer of
        None \<Rightarrow> (s, [])
      | Some ps \<Rightarrow>
          let s = s\<lparr>ss_peers := bt_remove peer (ss_peers s)\<rparr>;
              ps = ps\<lparr>ps_grant := grant_end_reservation (ps_grant ps)\<rparr>;
              out = save_budget peer ps now
          in if resume_grace_ms s = 0 then (s, out @ snd (discard peer ps))
             else (s\<lparr>ss_parked := bt_insert peer \<lparr>pk_session = ps, pk_since = now\<rparr> (ss_parked s)\<rparr>,
                   out))"

definition on_disconnected :: "PubKey \<Rightarrow> Millis \<Rightarrow> Sessions \<Rightarrow> Sessions \<times> Action list" where
  "on_disconnected peer now s =
     (case bt_get (ss_peers s) peer of
        None \<Rightarrow> (s, [])
      | Some ps \<Rightarrow>
          if ps_phase ps = Closing
          then (s\<lparr>ss_peers := bt_remove peer (ss_peers s)\<rparr>, give_up peer ps now)
          else park peer now s)"

text \<open>Let one held session go.\<close>

definition drop_parked :: "PubKey \<Rightarrow> Sessions \<Rightarrow> Sessions \<times> Action list" where
  "drop_parked peer s =
     (case bt_get (ss_parked s) peer of
        None \<Rightarrow> (s, [])
      | Some p \<Rightarrow> (s\<lparr>ss_parked := bt_remove peer (ss_parked s)\<rparr>, snd (discard peer (pk_session p))))"

definition expire_parked :: "Millis \<Rightarrow> Sessions \<Rightarrow> Sessions \<times> Action list" where
  "expire_parked now s =
     (let grace = resume_grace_ms s;
          expired = map fst (filter (\<lambda>(_, p). saturating_since now (pk_since p) > grace) (ss_parked s));
          lead_ms = settle_lead_ms (ss_node s)
      in and_then (for_each drop_parked expired)
           (\<lambda>s. for_each (\<lambda>peer. on_parked peer (settle_expiring_in peer now lead_ms))
                  (bt_keys (ss_parked s)) s) s)"

subsection \<open>Opening\<close>

definition send_offer :: "PubKey \<Rightarrow> Offer \<Rightarrow> Sessions \<Rightarrow> Sessions \<times> Action list" where
  "send_offer peer offer s =
     (update_session peer (\<lambda>ps. ps\<lparr>ps_offer_sent := Some offer\<rparr>) s, [Send peer (MOffer offer)])"

definition offer_for :: "Sessions \<Rightarrow> PeerPolicy \<Rightarrow> u16 \<Rightarrow> Offer" where
  "offer_for s policy weight =
     (let grants = np_grants (ss_node s)
      in \<lparr>offer_accepted_mints = np_accepted_mints (ss_node s), offer_unit = np_unit (ss_node s),
          offer_min_window_ms = gp_min_window_ms grants,
          offer_max_window_ms = gp_max_window_ms grants,
          offer_from_payer_weight = weight, offer_no_charge = pp_no_charge policy,
          offer_min_reserved_rate = gp_min_reserved_rate grants,
          offer_min_topup_gap_ms = gp_min_topup_gap_ms grants\<rparr>)"

text \<open>
  The session a new connection starts over, if one is still held: the live one, or the parked one
  when its grace has not run out. What is not taken up again is settled.
\<close>

definition take_kept ::
  "PubKey \<Rightarrow> Millis \<Rightarrow> Sessions \<Rightarrow> Sessions \<times> PeerSession option \<times> Action list" where
  "take_kept peer now s =
     (let live = bt_get (ss_peers s) peer;
          s = s\<lparr>ss_peers := bt_remove peer (ss_peers s)\<rparr>
      in if (case live of None \<Rightarrow> False | Some ps \<Rightarrow> ps_phase ps \<noteq> Closing) then (s, live, [])
         else
           let out1 = (case live of None \<Rightarrow> [] | Some ps \<Rightarrow> give_up peer ps now);
               held = bt_get (ss_parked s) peer;
               s = s\<lparr>ss_parked := bt_remove peer (ss_parked s)\<rparr>
           in case held of
                None \<Rightarrow> (s, None, out1)
              | Some p \<Rightarrow>
                  if saturating_since now (pk_since p) \<le> resume_grace_ms s
                  then (s, Some (pk_session p), out1)
                  else (s, None, out1 @ snd (discard peer (pk_session p))))"

text \<open>The session a connection starts with, from the one kept or from nothing.\<close>

definition starting_session ::
  "PubKey \<Rightarrow> PeerPolicy \<Rightarrow> NodePolicy \<Rightarrow> Budget option \<Rightarrow> PeerSession option \<Rightarrow> Millis
     \<Rightarrow> PeerSession \<times> Action list" where
  "starting_session peer policy node budget kept now =
     (let (ps, out) =
        (case kept of
           Some ps \<Rightarrow> settle_expiring_in peer now (settle_lead_ms node) (resume ps policy now)
         | None \<Rightarrow>
             (let ps = peer_session_new peer policy now
              in case budget of
                   None \<Rightarrow> (ps, [])
                 | Some b \<Rightarrow> (ps\<lparr>ps_grant := grant_restore (ps_grant ps) b now\<rparr>, [])))
      in (ps\<lparr>ps_weight := peer_weight policy node\<rparr>, out))"

definition open_balance :: "PubKey \<Rightarrow> PeerPolicy \<Rightarrow> Millis \<Rightarrow> Sessions \<Rightarrow> Sessions \<times> Action list" where
  "open_balance peer policy now s =
     (if pp_no_charge policy then (s, [])
      else on_session peer
             (\<lambda>ps. let ps = ps\<lparr>ps_budget_live := grant_is_live (ps_grant ps) now\<rparr>
                   in (ps, [Send peer (MBalance (balance_of ps now))])) s)"

definition on_connected ::
  "PubKey \<Rightarrow> Budget option \<Rightarrow> Millis \<Rightarrow> Sessions \<Rightarrow> Sessions \<times> Action list" where
  "on_connected peer budget now s =
     (let policy = (case bt_get (ss_overrides s) peer of Some p \<Rightarrow> p | None \<Rightarrow> PeerPolicy_default)
      in if pp_blocked policy
         then (s, [Send peer (MDisconnect \<lparr>disc_reason = OtherReason\<rparr>), DropPeer peer])
         else
           let (s, kept, out1) = take_kept peer now s;
               (ps, out2) = starting_session peer policy (ss_node s) budget kept now;
               held = map ic_id (gs_channels (ps_grant ps));
               s = s\<lparr>ss_peers := bt_insert peer ps (ss_peers s)\<rparr>;
               out3 = [SetAccess peer AccessNone,
                       Send peer (MAnnounce \<lparr>ann_version = PROTOCOL_VERSION, ann_pubkey = ss_local s,
                                             ann_unit = np_unit (ss_node s), ann_capabilities = 0\<rparr>)]
                      @ map (\<lambda>i. Send peer (MChannelReady \<lparr>ready_channel_id = i\<rparr>)) held
           in and_then (push (out1 @ out2 @ out3))
                (and_then (send_offer peer (offer_for s policy (peer_weight policy (ss_node s))))
                  (and_then (open_balance peer policy now) (refresh peer now))) s)"

definition on_announce :: "PubKey \<Rightarrow> Announce \<Rightarrow> Sessions \<Rightarrow> Sessions \<times> Action list" where
  "on_announce peer m s =
     (if ann_version m \<noteq> PROTOCOL_VERSION
      then (update_session peer (\<lambda>ps. ps\<lparr>ps_phase := Closing\<rparr>) s,
            [Send peer (MReject \<lparr>reject_type = msg_type_u8 MT_Announce,
                                 reject_reason = VersionUnsupported, reject_text = None\<rparr>),
             DropPeer peer])
      else if ann_unit m \<noteq> np_unit (ss_node s) then reject peer UnitNotAccepted s
      else (s, []))"

text \<open>What a peer's Offer leaves in its session, before it is decided whether to fund.\<close>

definition take_offer :: "Offer \<Rightarrow> PeerSession \<Rightarrow> PeerSession" where
  "take_offer m ps =
     (let weight = (case ps_offer ps of None \<Rightarrow> offer_from_payer_weight m
                    | Some o1 \<Rightarrow> tm_from_payer_weight (po_terms o1));
          ps = ps\<lparr>ps_offer := Some
                  \<lparr>po_accepted_mints = offer_accepted_mints m, po_unit = offer_unit m,
                   po_terms = \<lparr>tm_min_window_ms = offer_min_window_ms m,
                               tm_max_window_ms = offer_max_window_ms m,
                               tm_min_reserved_rate = offer_min_reserved_rate m,
                               tm_min_topup_gap_ms = offer_min_topup_gap_ms m,
                               tm_from_payer_weight = weight\<rparr>,
                   po_no_charge = offer_no_charge m\<rparr>\<rparr>
      in if ps_phase ps = Opening then ps\<lparr>ps_phase := Establishing\<rparr> else ps)"

text \<open>Refusing a weight above what we buy at.\<close>

definition check_weight ::
  "BuyerPolicy \<Rightarrow> PubKey \<Rightarrow> Offer \<Rightarrow> PeerSession \<Rightarrow> PeerSession \<times> Action list" where
  "check_weight policy peer m ps =
     (if \<not> offer_no_charge m \<and> \<not> accepts_weight policy (offer_from_payer_weight m)
      then (ps\<lparr>ps_refused_terms := True\<rparr>,
            [Send peer (MReject \<lparr>reject_type = msg_type_u8 MT_Offer,
                                 reject_reason = FromPayerWeightUnacceptable, reject_text = None\<rparr>)])
      else (ps, []))"

text \<open>The answer to an opening Offer when no kept channel is carried on with.\<close>

definition answer_offer :: "PubKey \<Rightarrow> Offer \<Rightarrow> bool \<Rightarrow> bool \<Rightarrow> Millis \<Rightarrow> Sessions \<Rightarrow> Sessions \<times> Action list" where
  "answer_offer peer m refused buys now s =
     (if refused then (s, [])
      else case offer_accepted_mints m of
             mint_url # _ \<Rightarrow>
               if buys then request_funding peer mint_url (first_channel_capacity (ss_node s)) now s
               else (s, [Send peer (MAccept \<lparr>acc_funding = []\<rparr>)])
           | [] \<Rightarrow> (s, [Send peer (MAccept \<lparr>acc_funding = []\<rparr>)]))"

definition on_offer :: "PubKey \<Rightarrow> Offer \<Rightarrow> Millis \<Rightarrow> Sessions \<Rightarrow> Sessions \<times> Action list" where
  "on_offer peer m now s =
     (case bt_get (ss_peers s) peer of
        None \<Rightarrow> (s, [])
      | Some ps0 \<Rightarrow>
          let was_established = (ps_offer ps0 \<noteq> None);
              ps = take_offer m ps0
          in if was_established
             then poll_opening peer now (update_session peer (\<lambda>_. ps) s)
             else
               let (ps, out) = check_weight (ss_buyer_policy s) peer m ps;
                   buys = (\<not> offer_no_charge m \<and> \<not> ps_refused_terms ps
                           \<and> buying (ss_buyer_policy s))
               in if b_active (ps_buyer ps) \<noteq> None \<and> ps_kept_by_peer ps \<and> buys
                  then let ps = ps\<lparr>ps_buyer := forget_pending (ps_buyer ps), ps_phase := Established\<rparr>
                       in and_then (push out) (and_then (refresh peer now) (poll_buyer peer now))
                            (update_session peer (\<lambda>_. ps) s)
                  else let ps = ps\<lparr>ps_buyer := start_over (ps_buyer ps)\<rparr>
                       in and_then (push out)
                            (and_then (answer_offer peer m (ps_refused_terms ps) buys now)
                              (refresh peer now))
                            (update_session peer (\<lambda>_. ps) s))"

definition on_outgoing_funded ::
  "PubKey \<Rightarrow> u8 list \<Rightarrow> Millis \<Rightarrow> Sessions \<Rightarrow> Sessions \<times> Action list" where
  "on_outgoing_funded peer funding now s =
     (case bt_get (ss_peers s) peer of
        None \<Rightarrow> (s, [])
      | Some ps \<Rightarrow>
          and_then (push [Send peer
             (case b_active (ps_buyer ps) of
                Some c \<Rightarrow> MRolloverInit \<lparr>ri_old_channel_id = cb_id c, ri_funding = funding\<rparr>
              | None \<Rightarrow> MAccept \<lparr>acc_funding = funding\<rparr>)])
            (refresh peer now) s)"

definition on_accept :: "PubKey \<Rightarrow> Accept \<Rightarrow> Millis \<Rightarrow> Sessions \<Rightarrow> Sessions \<times> Action list" where
  "on_accept peer m now =
     and_then (on_session peer (discard peer))
       (if acc_funding m = [] then refresh peer now else push [VerifyFunding peer (acc_funding m)])"

definition on_incoming_verified ::
  "PubKey \<Rightarrow> ChannelId \<Rightarrow> u64 \<Rightarrow> Millis option \<Rightarrow> Millis \<Rightarrow> Sessions \<Rightarrow> Sessions \<times> Action list" where
  "on_incoming_verified peer i capacity expires_at now s =
     (case bt_get (ss_peers s) peer of
        None \<Rightarrow> (s, [])
      | Some ps \<Rightarrow>
          let replacing = find (\<lambda>c. ic_id c \<noteq> i) (gs_channels (ps_grant ps));
              ps = ps\<lparr>ps_grant := grant_open_channel (ps_grant ps) i capacity expires_at,
                      ps_phase := Established\<rparr>
          in and_then (push [Send peer
               (case replacing of
                  Some c \<Rightarrow> MRolloverReady \<lparr>rr_old_channel_id = ic_id c, rr_new_channel_id = i\<rparr>
                | None \<Rightarrow> MChannelReady \<lparr>ready_channel_id = i\<rparr>)])
               (refresh peer now) (update_session peer (\<lambda>_. ps) s))"

subsection \<open>Payment\<close>

text \<open>Count a failure against each channel named, closing one that has failed too often.\<close>

fun fail_channels :: "PubKey \<Rightarrow> ChannelId list \<Rightarrow> PeerSession \<Rightarrow> PeerSession \<times> Action list" where
  "fail_channels peer [] ps = (ps, [])"
| "fail_channels peer (i # is) ps =
     (let (g, failures) = grant_record_failure (ps_grant ps) i;
          ps = ps\<lparr>ps_grant := g\<rparr>;
          (ps, out) =
            (if (case failures of None \<Rightarrow> False | Some n \<Rightarrow> n \<ge> MAX_VERIFICATION_FAILURES)
             then close_and_settle peer ps [i] else (ps, []));
          (ps, outs) = fail_channels peer is ps
      in (ps, out @ outs))"

definition on_unverified_topup ::
  "PubKey \<Rightarrow> ChannelId list \<Rightarrow> Millis \<Rightarrow> Sessions \<Rightarrow> Sessions \<times> Action list" where
  "on_unverified_topup peer channels now s =
     (case bt_get (ss_peers s) peer of
        None \<Rightarrow> (s, [])
      | Some _ \<Rightarrow>
          and_then (push [Send peer (MReject \<lparr>reject_type = msg_type_u8 MT_TopUp,
                                              reject_reason = GrantInvalid, reject_text = None\<rparr>)])
            (and_then (on_session peer (fail_channels peer channels)) (refresh peer now)) s)"

text \<open>A purchase admitted: applied, recorded, drained channels settled, the budget kept.\<close>

definition accept_topup ::
  "PubKey \<Rightarrow> TopUp \<Rightarrow> (ChannelId \<times> u64) list \<Rightarrow> u64 \<Rightarrow> Millis \<Rightarrow> PeerSession
     \<Rightarrow> PeerSession \<times> Action list" where
  "accept_topup peer m ratchets grant now ps =
     (let ps = ps\<lparr>ps_grant := grant_apply (ps_grant ps) ratchets grant (topup_window_ms m)
                              (topup_reserved_rate m) now\<rparr>;
          (ps, out) = close_and_settle peer ps (grant_exhausted_channels (ps_grant ps));
          saved = save_budget peer ps now;
          ps = ps\<lparr>ps_budget_live := grant_is_live (ps_grant ps) now\<rparr>
      in (ps, [RecordUpdates peer (topup_updates m)] @ out @ saved
              @ [Send peer (MBalance (balance_of ps now))]))"

definition on_topup :: "PubKey \<Rightarrow> TopUp \<Rightarrow> Millis \<Rightarrow> Sessions \<Rightarrow> Sessions \<times> Action list" where
  "on_topup peer m now s =
     (case too_soon s peer m now of
        Some refusal \<Rightarrow> (s, [refusal])
      | None \<Rightarrow>
          (case bt_get (ss_peers s) peer of
             None \<Rightarrow> (s, [])
           | Some ps \<Rightarrow>
               let adm = \<lparr>adm_policy = np_grants (ss_node s),
                          adm_reserved_elsewhere = reserved_elsewhere s peer\<rparr>;
                   g = grant_topup_checked (ps_grant ps) now;
                   s = update_session peer (\<lambda>ps. ps\<lparr>ps_grant := g\<rparr>) s
               in case evaluate_topup g adm (topup_updates m) (topup_window_ms m)
                         (topup_reserved_rate m) of
                    VAccept ratchets grant \<Rightarrow>
                      and_then (on_session peer (accept_topup peer m ratchets grant now))
                        (refresh peer now) s
                  | VReject reason max_reserved_rate \<Rightarrow>
                      if reason = GrantInvalid
                      then on_unverified_topup peer (not_increasing g (topup_updates m)) now s
                      else and_then (push [Send peer (MTopUpReject
                             \<lparr>rej_refused = refused_updates m,
                              rej_max_reserved_rate = max_reserved_rate, rej_reason = reason\<rparr>)])
                             (refresh peer now) s))"

definition metered_session :: "Counters \<Rightarrow> bool \<Rightarrow> Millis \<Rightarrow> PeerSession \<Rightarrow> PeerSession" where
  "metered_session counters is_carried now ps =
     (let (meter, grew) = observe (ps_meter ps) counters;
          ps = ps\<lparr>ps_meter := meter\<rparr>;
          elapsed = saturating_since now (ps_last_meter_at ps);
          ps = (if elapsed > 0
                then ps\<lparr>ps_upload_rate := rate_from (to_payer grew) elapsed, ps_last_meter_at := now\<rparr>
                else ps);
          ps = (if is_carried \<and> metered (ps_access ps)
                then ps\<lparr>ps_grant := fst (grant_draw (ps_grant ps) (weighted grew (ps_weight ps)) now)\<rparr>
                else ps\<lparr>ps_grant := fst (grant_pause (ps_grant ps))\<rparr>)
      in case ps_offer ps of
           None \<Rightarrow> ps
         | Some offer \<Rightarrow>
             if po_no_charge offer then ps
             else ps\<lparr>ps_buyer := buyer_draw (ps_buyer ps)
                       (weighted (swapped grew) (tm_from_payer_weight (po_terms offer))) now\<rparr>)"

definition on_metered :: "PubKey \<Rightarrow> Counters \<Rightarrow> bool \<Rightarrow> Millis \<Rightarrow> Sessions \<Rightarrow> Sessions" where
  "on_metered peer counters is_carried now s =
     update_session peer (metered_session counters is_carried now) s"

subsection \<open>Messages\<close>

definition on_channel_ready :: "PubKey \<Rightarrow> ChannelId \<Rightarrow> Millis \<Rightarrow> Sessions \<Rightarrow> Sessions \<times> Action list" where
  "on_channel_ready peer i now s =
     poll_buyer peer now
       (update_session peer
          (\<lambda>ps. let b = (if is_active (ps_buyer ps) i then ps_buyer ps else confirmed (ps_buyer ps) i)
                in ps\<lparr>ps_buyer := b, ps_kept_by_peer := ps_kept_by_peer ps \<or> is_active b i\<rparr>) s)"

definition on_topup_reject ::
  "PubKey \<Rightarrow> TopUpReject \<Rightarrow> Millis \<Rightarrow> Sessions \<Rightarrow> Sessions \<times> Action list" where
  "on_topup_reject peer m now s =
     poll_buyer peer now
       (update_session peer
          (\<lambda>ps. ps\<lparr>ps_buyer := record_reject (ps_buyer ps)
                    (map (\<lambda>r. (ref_channel_id r, ref_cumulative r)) (rej_refused m))
                    (rej_reason m) (rej_max_reserved_rate m) now
                    (by_cap_hold_ms (ss_buyer_policy s))\<rparr>) s)"

fun on_message_from :: "PubKey \<Rightarrow> Message \<Rightarrow> Millis \<Rightarrow> Sessions \<Rightarrow> Sessions \<times> Action list" where
  "on_message_from peer (MAnnounce m) now s = on_announce peer m s"
| "on_message_from peer (MOffer m) now s = on_offer peer m now s"
| "on_message_from peer (MAccept m) now s = on_accept peer m now s"
| "on_message_from peer (MChannelReady m) now s = on_channel_ready peer (ready_channel_id m) now s"
| "on_message_from peer (MTopUp m) now s = on_topup peer m now s"
| "on_message_from peer (MTopUpReject m) now s = on_topup_reject peer m now s"
| "on_message_from peer (MBalance m) now s =
     (update_session peer
        (\<lambda>ps. ps\<lparr>ps_buyer := note_balance (ps_buyer ps) (bal_remaining m) (bal_expires_in_ms m) now,
                 ps_balance := Some (m, now)\<rparr>) s, [])"
| "on_message_from peer (MRolloverInit m) now s = (s, [VerifyFunding peer (ri_funding m)])"
| "on_message_from peer (MRolloverReady m) now s =
     poll_buyer peer now
       (update_session peer
          (\<lambda>ps. ps\<lparr>ps_buyer := confirmed (ps_buyer ps) (rr_new_channel_id m)\<rparr>) s)"
| "on_message_from peer (MChannelClose m) now s =
     (s, [Send peer (MCloseAck \<lparr>ack_channel_id = close_channel_id m,
                                ack_accepted_balance = close_final_balance m\<rparr>),
          SettleChannel peer (close_channel_id m) (expiry_of s peer (close_channel_id m))])"
| "on_message_from peer (MCloseAck m) now s =
     (s, [SettleChannel peer (ack_channel_id m) (expiry_of s peer (ack_channel_id m))])"
| "on_message_from peer (MReject m) now s = (s, [])"
| "on_message_from peer (MDisconnect m) now s =
     (update_session peer (\<lambda>ps. ps\<lparr>ps_phase := Closing\<rparr>) s, [DropPeer peer])"

definition on_message :: "PubKey \<Rightarrow> Message \<Rightarrow> Millis \<Rightarrow> Sessions \<Rightarrow> Sessions \<times> Action list" where
  "on_message peer msg now s =
     (case bt_get (ss_peers s) peer of
        None \<Rightarrow> (s, [])
      | Some _ \<Rightarrow>
          on_message_from peer msg now (update_session peer (\<lambda>ps. ps\<lparr>ps_last_seen := now\<rparr>) s))"

subsection \<open>Events\<close>

definition is_stale :: "Sessions \<Rightarrow> PubKey \<Rightarrow> Millis \<Rightarrow> bool" where
  "is_stale s peer now =
     (np_stale_timeout_ms (ss_node s) > 0
      \<and> (case bt_get (ss_peers s) peer of
           None \<Rightarrow> False
         | Some ps \<Rightarrow> saturating_since now (ps_last_seen ps) > np_stale_timeout_ms (ss_node s)))"

definition tick_peer :: "Millis \<Rightarrow> PubKey \<Rightarrow> Sessions \<Rightarrow> Sessions \<times> Action list" where
  "tick_peer now peer s =
     (if is_stale s peer now then and_then (park peer now) (push [DropPeer peer]) s
      else
        and_then (settle_expiring peer now)
          (and_then (refresh peer now)
            (and_then (poll_buyer peer now)
              (and_then (poll_rollover peer now) (poll_opening peer now))))
          (update_session peer
             (\<lambda>ps. ps\<lparr>ps_grant := fst (grant_expire_if_due (ps_grant ps) now)\<rparr>) s))"

definition on_tick :: "Millis \<Rightarrow> Sessions \<Rightarrow> Sessions \<times> Action list" where
  "on_tick now s =
     and_then (for_each (tick_peer now) (bt_keys (ss_peers s))) (expire_parked now) s"

text \<open>
  An answer to a funding request nobody is waiting for any more: the host gets the funds back, and
  nothing else happens.
\<close>

fun superseded :: "Sessions \<Rightarrow> Event \<Rightarrow> Action option" where
  "superseded s (OutgoingChannelFunded peer request i capacity expires_at funding) =
     (if (case bt_get (ss_peers s) peer of None \<Rightarrow> False | Some ps \<Rightarrow> answers (ps_buyer ps) request)
      then None else Some (ReclaimChannel peer i capacity expires_at))"
| "superseded s _ = None"

fun handle_event :: "Event \<Rightarrow> Millis \<Rightarrow> Sessions \<Rightarrow> Sessions \<times> Action list" where
  "handle_event (PeerConnected peer budget) now s = on_connected peer budget now s"
| "handle_event (PeerDisconnected peer) now s = on_disconnected peer now s"
| "handle_event (MessageReceived peer msg) now s = on_message peer msg now s"
| "handle_event (TopUpSignatureInvalid peer i) now s =
     on_unverified_topup peer [i] now
       (update_session peer
          (\<lambda>ps. ps\<lparr>ps_last_seen := now, ps_grant := grant_topup_checked (ps_grant ps) now\<rparr>) s)"
| "handle_event (OutgoingChannelFunded peer request i capacity expires_at funding) now s =
     on_outgoing_funded peer funding now
       (update_session peer
          (\<lambda>ps. ps\<lparr>ps_buyer := funded (ps_buyer ps) i capacity expires_at\<rparr>) s)"
| "handle_event (OutgoingFundingFailed peer request) now s =
     (update_session peer (\<lambda>ps. ps\<lparr>ps_buyer := funding_failed (ps_buyer ps) request\<rparr>) s, [])"
| "handle_event (IncomingFundingVerified peer i capacity expires_at mint_url) now s =
     (if mint_url \<in> set (np_accepted_mints (ss_node s))
      then on_incoming_verified peer i capacity expires_at now s
      else reject peer MintNotAccepted s)"
| "handle_event (IncomingFundingRejected peer reason) now s = reject peer reason s"
| "handle_event (Metered peer counters is_carried) now s =
     refresh peer now (on_metered peer counters is_carried now s)"
| "handle_event (DemandObserved peer rate) now s =
     poll_buyer peer now (update_session peer (\<lambda>ps. ps\<lparr>ps_demand := rate\<rparr>) s)"
| "handle_event Tick now s = on_tick now s"

definition handle :: "Event \<Rightarrow> Millis \<Rightarrow> Sessions \<Rightarrow> Sessions \<times> Action list" where
  "handle event now s =
     (case superseded s event of
        Some reclaim \<Rightarrow> (s, [reclaim])
      | None \<Rightarrow>
          let (s, out) = handle_event event now s;
              s = note_sent out now s
          in if event = Tick then and_then (push out) (keep_alive now) s else (s, out))"

subsection \<open>The operator\<close>

definition set_buyer_policy :: "BuyerPolicy \<Rightarrow> Sessions \<Rightarrow> Sessions" where
  "set_buyer_policy policy s = s\<lparr>ss_buyer_policy := policy\<rparr>"

definition set_peer_policy ::
  "PubKey \<Rightarrow> PeerPolicy \<Rightarrow> Millis \<Rightarrow> Sessions \<Rightarrow> Sessions \<times> Action list" where
  "set_peer_policy peer policy now s =
     (let s = s\<lparr>ss_overrides := bt_insert peer policy (ss_overrides s)\<rparr>
      in case bt_get (ss_peers s) peer of
           None \<Rightarrow> (s, [])
         | Some ps \<Rightarrow>
             let s = update_session peer (\<lambda>ps. ps\<lparr>ps_policy := policy\<rparr>) s
             in if ps_phase ps = Closing then (s, [])
                else
                  let revised = offer_for s policy (ps_weight ps);
                      (s, out) = and_then
                        (if ps_offer_sent ps \<noteq> None \<and> ps_offer_sent ps \<noteq> Some revised
                         then send_offer peer revised else push [])
                        (refresh peer now) s
                  in (note_sent out now s, out))"

definition close_session :: "Millis \<Rightarrow> PubKey \<Rightarrow> PeerSession \<Rightarrow> PeerSession \<times> Action list" where
  "close_session now peer ps =
     (let ps = ps\<lparr>ps_phase := Closing\<rparr>;
          saved = save_budget peer ps now;
          (ps, out) = discard peer ps
      in (ps, saved @ out @ [Send peer (MDisconnect \<lparr>disc_reason = OtherReason\<rparr>)]))"

definition shutdown :: "Millis \<Rightarrow> Sessions \<Rightarrow> Sessions \<times> Action list" where
  "shutdown now s =
     (let (s, out1) = for_each (\<lambda>peer. on_session peer (close_session now peer)) (bt_keys (ss_peers s)) s;
          parked = ss_parked s
      in (s\<lparr>ss_parked := []\<rparr>,
          out1 @ concat (map (\<lambda>(peer, p). give_up peer (pk_session p) now) parked)))"

definition forget :: "PubKey \<Rightarrow> Millis \<Rightarrow> Sessions \<Rightarrow> Sessions \<times> Action list" where
  "forget peer now s =
     (let out1 = (case bt_get (ss_peers s) peer of None \<Rightarrow> [] | Some ps \<Rightarrow> give_up peer ps now);
          s = s\<lparr>ss_peers := bt_remove peer (ss_peers s)\<rparr>;
          out2 = (case bt_get (ss_parked s) peer of
                    None \<Rightarrow> [] | Some p \<Rightarrow> give_up peer (pk_session p) now)
      in (s\<lparr>ss_parked := bt_remove peer (ss_parked s)\<rparr>, out1 @ out2))"

end
