(* ===== verification/Session_Steps.thy ===== *)
theory Session_Steps
  imports Session_Handlers
begin

text \<open>
  What core may do about one peer, as a step relation over the table of sessions, and that every
  handler of \<open>Session_Handlers\<close> is a sequence of such steps. The invariants of
  \<open>Session_Invariants\<close> are proved by rule induction over the steps, once each, and hold of
  \<open>handle\<close> through this simulation.
\<close>

subsection \<open>The steps\<close>

fun action_peer :: "Action \<Rightarrow> PubKey" where
  "action_peer (Send p _) = p"
| "action_peer (SignAndSendTopUp p _ _ _) = p"
| "action_peer (RecordUpdates p _) = p"
| "action_peer (SetAccess p _) = p"
| "action_peer (SetShapingRate p _) = p"
| "action_peer (FundChannel p _ _ _) = p"
| "action_peer (VerifyFunding p _) = p"
| "action_peer (SettleChannel p _ _) = p"
| "action_peer (ReclaimChannel p _ _ _) = p"
| "action_peer (SaveBudget p _) = p"
| "action_peer (DropPeer p) = p"

text \<open>An action for a peer that neither moves its gate or shaper nor records a purchase.\<close>

fun plain :: "Action \<Rightarrow> bool" where
  "plain (SetAccess _ _) = False"
| "plain (SetShapingRate _ _) = False"
| "plain (RecordUpdates _ _) = False"
| "plain _ = True"

definition plain_for :: "PubKey \<Rightarrow> Action list \<Rightarrow> bool" where
  "plain_for p out = (\<forall>a \<in> set out. action_peer a = p \<and> plain a)"

definition channel_ids :: "PeerSession \<Rightarrow> ChannelId set" where
  "channel_ids ps = ic_id ` set (gs_channels (ps_grant ps))"

text \<open>
  A change to one session that gives its peer nothing: no more budget and no larger reservation
  than it had, no channel lost, the gate, the shaper and the weight as they were, and a session
  that is ending still ending.
\<close>

definition calm_grant :: "GrantState \<Rightarrow> GrantState \<Rightarrow> bool" where
  "calm_grant g g' =
     ((grant_wf g \<longrightarrow> grant_wf g')
      \<and> gs_reserved_rate g' \<le> gs_reserved_rate g
      \<and> (grant_wf g \<longrightarrow> grant_remaining g' \<le> grant_remaining g)
      \<and> ic_id ` set (gs_channels g) \<subseteq> ic_id ` set (gs_channels g'))"

definition calm :: "PeerSession \<Rightarrow> PeerSession \<Rightarrow> bool" where
  "calm ps ps' =
     (calm_grant (ps_grant ps) (ps_grant ps')
      \<and> ps_peer ps' = ps_peer ps \<and> ps_access ps' = ps_access ps
      \<and> ps_applied_rate ps' = ps_applied_rate ps \<and> ps_weight ps' = ps_weight ps
      \<and> (ps_offer_sent ps \<noteq> None \<longrightarrow> ps_offer_sent ps' \<noteq> None)
      \<and> (ps_phase ps = Closing \<longrightarrow> ps_phase ps' = Closing))"

definition put_session :: "PubKey \<Rightarrow> PeerSession \<Rightarrow> Sessions \<Rightarrow> Sessions" where
  "put_session p ps s = s\<lparr>ss_peers := bt_insert p ps (ss_peers s)\<rparr>"

definition same_tables :: "Sessions \<Rightarrow> Sessions \<Rightarrow> bool" where
  "same_tables s s' =
     (ss_peers s' = ss_peers s \<and> ss_parked s' = ss_parked s \<and> ss_node s' = ss_node s
      \<and> ss_local s' = ss_local s)"

text \<open>
  One step about the peer \<open>p\<close> at the time \<open>now\<close>. The flag says whether the step that takes an
  ending session back to \<open>Established\<close> is among them.
\<close>

inductive peer_step :: "bool \<Rightarrow> Millis \<Rightarrow> PubKey \<Rightarrow> Sessions \<Rightarrow> Sessions \<Rightarrow> Action list \<Rightarrow> bool"
  for rv now p where
  skip: "peer_step rv now p s s []"
| seq: "peer_step rv now p s s1 out1 \<Longrightarrow> peer_step rv now p s1 s2 out2
        \<Longrightarrow> peer_step rv now p s s2 (out1 @ out2)"
| tell: "plain_for p out \<Longrightarrow> peer_step rv now p s s out"
| table: "same_tables s s' \<Longrightarrow> peer_step rv now p s s' []"
| change: "bt_get (ss_peers s) p = Some ps \<Longrightarrow> calm ps ps'
           \<Longrightarrow> peer_step rv now p s (put_session p ps' s) []"
| close: "bt_get (ss_peers s) p = Some ps \<Longrightarrow> close_and_settle p ps is = (ps', out)
          \<Longrightarrow> peer_step rv now p s (put_session p ps' s) out"
| gate: "bt_get (ss_peers s) p = Some ps \<Longrightarrow> refresh_session (ss_node s) p now ps = (ps', out)
         \<Longrightarrow> peer_step rv now p s (put_session p ps' s) out"
| buy: "bt_get (ss_peers s) p = Some ps
        \<Longrightarrow> evaluate_topup (ps_grant ps) (admission s p) updates w r = VAccept ratchets grant
        \<Longrightarrow> ps' = ps\<lparr>ps_grant := grant_apply (ps_grant ps) ratchets grant w r now\<rparr>
        \<Longrightarrow> peer_step rv now p s (put_session p ps' s) [RecordUpdates p updates]"
| revive: "rv \<Longrightarrow> bt_get (ss_peers s) p = Some ps
           \<Longrightarrow> peer_step rv now p s (put_session p (ps\<lparr>ps_phase := Established\<rparr>) s) []"
| leave: "bt_get (ss_peers s) p = Some ps
          \<Longrightarrow> peer_step rv now p s (s\<lparr>ss_peers := bt_remove p (ss_peers s)\<rparr>) (give_up p ps now)"
| hold: "park p now s = (s', out) \<Longrightarrow> peer_step rv now p s s' out"
| let_go: "drop_parked p s = (s', out) \<Longrightarrow> peer_step rv now p s s' out"
| held_due: "on_parked p (settle_expiring_in p now lead_ms) s = (s', out)
             \<Longrightarrow> peer_step rv now p s s' out"

text \<open>A peer connecting: the session it starts with is in the table, and it has been sent an Offer.\<close>

definition connects ::
  "Millis \<Rightarrow> PubKey \<Rightarrow> Sessions \<Rightarrow> Sessions \<Rightarrow> Action list \<Rightarrow> bool" where
  "connects now p s s' out =
     (\<exists>policy budget s1 kept out1 ps out2 offer rest.
        take_kept p now s = (s1, kept, out1)
        \<and> starting_session p policy (ss_node s1) budget kept now = (ps, out2)
        \<and> s' = put_session p (ps\<lparr>ps_offer_sent := Some offer\<rparr>) s1
        \<and> plain_for p rest
        \<and> out = out1 @ out2 @ SetAccess p AccessNone # rest)"

lemma connectsI:
  "take_kept p now s = (s1, kept, out1)
    \<Longrightarrow> starting_session p policy (ss_node s1) budget kept now = (ps, out2) \<Longrightarrow> plain_for p rest
    \<Longrightarrow> connects now p s (put_session p (ps\<lparr>ps_offer_sent := Some offer\<rparr>) s1)
          (out1 @ out2 @ SetAccess p AccessNone # rest)"
  unfolding connects_def by blast

text \<open>What core does about all peers in turn.\<close>

inductive core_steps :: "bool \<Rightarrow> Millis \<Rightarrow> Sessions \<Rightarrow> Sessions \<Rightarrow> Action list \<Rightarrow> bool"
  for rv now where
  none: "core_steps rv now s s []"
| more: "core_steps rv now s s1 out1 \<Longrightarrow> peer_step rv now p s1 s2 out2
         \<Longrightarrow> core_steps rv now s s2 (out1 @ out2)"
| conn: "core_steps rv now s s1 out1 \<Longrightarrow> connects now p s1 s2 out2
         \<Longrightarrow> core_steps rv now s s2 (out1 @ out2)"

subsection \<open>Sequences of steps\<close>

text \<open>A handler about \<open>p\<close> that is a sequence of steps from every state.\<close>

definition stepwise ::
  "bool \<Rightarrow> Millis \<Rightarrow> PubKey \<Rightarrow> (Sessions \<Rightarrow> Sessions \<times> Action list) \<Rightarrow> bool" where
  "stepwise rv now p h = (\<forall>s. peer_step rv now p s (fst (h s)) (snd (h s)))"

lemma stepwiseD: "stepwise rv now p h \<Longrightarrow> peer_step rv now p s (fst (h s)) (snd (h s))"
  by (simp add: stepwise_def)

lemma and_then_fst_snd:
  "fst (and_then f g s) = fst (g (fst (f s)))"
  "snd (and_then f g s) = snd (f s) @ snd (g (fst (f s)))"
  by (simp_all add: and_then_def split: prod.splits)

lemma stepwise_and_then [intro]:
  "stepwise rv now p f \<Longrightarrow> stepwise rv now p g \<Longrightarrow> stepwise rv now p (and_then f g)"
  unfolding stepwise_def and_then_fst_snd by (blast intro: peer_step.seq)

lemma stepwise_push: "plain_for p out \<Longrightarrow> stepwise rv now p (push out)"
  by (simp add: stepwise_def push_def peer_step.tell)

lemma stepwise_none [intro]: "(\<And>s. h s = (s, [])) \<Longrightarrow> stepwise rv now p h"
  by (simp add: stepwise_def peer_step.skip)

lemma put_session_get [simp]: "bt_get (ss_peers (put_session p ps s)) p = Some ps"
  by (simp add: put_session_def)

lemma put_session_node [simp]:
  "ss_node (put_session p ps s) = ss_node s" "ss_parked (put_session p ps s) = ss_parked s"
  "ss_buyer_policy (put_session p ps s) = ss_buyer_policy s"
  "ss_local (put_session p ps s) = ss_local s"
  by (simp_all add: put_session_def)

lemma bt_insert_insert [simp]: "bt_insert k v (bt_insert k w m) = bt_insert k v m"
  by (induction k w m rule: bt_insert.induct) auto

lemma put_session_put [simp]: "put_session p ps (put_session p ps1 s) = put_session p ps s"
  by (simp add: put_session_def)

text \<open>A function of one session, as a handler.\<close>

lemma on_session_eq:
  "on_session p f s =
     (case bt_get (ss_peers s) p of
        None \<Rightarrow> (s, []) | Some ps \<Rightarrow> (put_session p (fst (f ps)) s, snd (f ps)))"
  by (simp add: on_session_def put_session_def case_prod_beta Let_def split: option.split)

lemma update_session_eq:
  "update_session p f s =
     (case bt_get (ss_peers s) p of None \<Rightarrow> s | Some ps \<Rightarrow> put_session p (f ps) s)"
  by (simp add: update_session_def put_session_def split: option.split)

lemma step_on_session:
  assumes "\<And>ps. bt_get (ss_peers s) p = Some ps
    \<Longrightarrow> peer_step rv now p s (put_session p (fst (f ps)) s) (snd (f ps))"
  shows "peer_step rv now p s (fst (on_session p f s)) (snd (on_session p f s))"
  using assms unfolding on_session_eq by (auto simp: peer_step.skip split: option.splits)

lemma step_calm:
  assumes "\<And>ps. calm ps (fst (f ps))" and "\<And>ps. plain_for p (snd (f ps))"
  shows "peer_step rv now p s (fst (on_session p f s)) (snd (on_session p f s))"
proof (rule step_on_session)
  fix ps assume "bt_get (ss_peers s) p = Some ps"
  from peer_step.seq [OF peer_step.change [OF this assms(1)] peer_step.tell [OF assms(2)]]
  show "peer_step rv now p s (put_session p (fst (f ps)) s) (snd (f ps))" by simp
qed

lemma step_update:
  assumes "\<And>ps. bt_get (ss_peers s) p = Some ps \<Longrightarrow> calm ps (f ps)"
  shows "peer_step rv now p s (update_session p f s) []"
  using assms unfolding update_session_eq
  by (auto simp: peer_step.skip intro: peer_step.change split: option.splits)

lemma step_then:
  "peer_step rv now p s s1 [] \<Longrightarrow> peer_step rv now p s1 s2 out \<Longrightarrow> peer_step rv now p s s2 out"
  using peer_step.seq [of rv now p s s1 "[]" s2 out] by simp

lemma calm_grant_refl [simp]: "calm_grant g g"
  by (simp add: calm_grant_def)

lemma calm_refl [simp]: "calm ps ps"
  by (simp add: calm_def)


subsection \<open>What leaves a session no better off\<close>

lemma calm_take: "calm_grant g (fst (grant_take (g\<lparr>gs_second := x\<rparr>) w))"
  using grant_take_bound [of "g\<lparr>gs_second := x\<rparr>" w]
  by (auto simp: calm_grant_def grant_take_wf grant_take_rate word_le_nat_alt)

lemma update_first_ids:
  "(\<And>c. ic_id (f c) = ic_id c) \<Longrightarrow> ic_id ` set (update_first P f cs) = ic_id ` set cs"
  using arg_cong [OF map_update_first [of P ic_id f cs], of set] by simp

lemma calm_grant_checked [simp]: "calm_grant g (grant_topup_checked g now)"
  by (simp add: calm_grant_def grant_topup_checked_def)

lemma calm_grant_expire [simp]: "calm_grant g (fst (grant_expire_if_due g now))"
  using grant_expire_le [of g now]
  by (simp add: calm_grant_def grant_expire_wf word_le_nat_alt)
     (simp add: grant_expire_if_due_def Let_def)

lemma calm_grant_failure [simp]: "calm_grant g (fst (grant_record_failure g i))"
  by (simp add: calm_grant_def grant_record_failure_wf)
     (simp add: grant_record_failure_def Let_def update_first_ids split: option.splits)

lemma calm_grant_open [simp]: "calm_grant g (grant_open_channel g i c e)"
  by (simp add: calm_grant_def grant_open_channel_wf)
     (auto simp: grant_open_channel_def update_first_ids split: option.splits)

lemma calm_grant_draw [simp]: "calm_grant g (fst (grant_draw g moved now))"
  using grant_draw_eq [of g moved now] calm_take by auto

lemma calm_grant_pause [simp]: "calm_grant g (fst (grant_pause g))"
  by (simp add: grant_pause_eq calm_take split: option.splits)

lemma calm_updates [simp]:
  "calm ps (ps\<lparr>ps_buyer := b\<rparr>)" "calm ps (ps\<lparr>ps_last_seen := t\<rparr>)"
  "calm ps (ps\<lparr>ps_last_sent := t\<rparr>)" "calm ps (ps\<lparr>ps_demand := d\<rparr>)"
  "calm ps (ps\<lparr>ps_policy := pol\<rparr>)" "calm ps (ps\<lparr>ps_phase := Closing\<rparr>)"
  "calm ps (ps\<lparr>ps_offer_sent := Some offer\<rparr>)" "calm ps (ps\<lparr>ps_budget_live := l\<rparr>)"
  "calm ps (ps\<lparr>ps_buyer := b, ps_kept_by_peer := k\<rparr>)"
  "calm ps (ps\<lparr>ps_buyer := b, ps_balance := bal\<rparr>)"
  "calm ps (ps\<lparr>ps_grant := g\<rparr>) = calm_grant (ps_grant ps) g"
  "calm ps (ps\<lparr>ps_last_seen := t, ps_grant := g\<rparr>) = calm_grant (ps_grant ps) g"
  by (simp_all add: calm_def)

lemma calm_trans: "calm a b \<Longrightarrow> calm b c \<Longrightarrow> calm a c"
  by (auto simp: calm_def calm_grant_def)

lemma plain_for_simps [simp]:
  "plain_for p []"
  "plain_for p (a # out) = (action_peer a = p \<and> plain a \<and> plain_for p out)"
  "plain_for p (out1 @ out2) = (plain_for p out1 \<and> plain_for p out2)"
  by (auto simp: plain_for_def)

lemma plain_for_map [simp]:
  "plain_for p (map f xs) = (\<forall>x \<in> set xs. action_peer (f x) = p \<and> plain (f x))"
  by (auto simp: plain_for_def)

lemma plain_settle [simp]: "plain_for p (settle_actions p xs)"
  by (auto simp: settle_actions_def)

lemma plain_save [simp]: "plain_for p (save_budget p ps now)"
  by (simp add: save_budget_def)

subsection \<open>Every handler is a sequence of steps\<close>

lemma stepwise_refresh: "stepwise rv now p (refresh p now)"
  unfolding stepwise_def refresh_def on_session_eq
  by (auto simp: peer_step.skip intro!: peer_step.gate split: option.splits)

lemma step_close:
  "peer_step rv now p s (fst (on_session p (\<lambda>ps. close_and_settle p ps (f ps)) s))
     (snd (on_session p (\<lambda>ps. close_and_settle p ps (f ps)) s))"
  by (rule step_on_session) (auto intro!: peer_step.close)

lemma stepwise_settle_expiring: "stepwise rv now p (settle_expiring p now)"
  unfolding stepwise_def settle_expiring_def settle_expiring_in_def [abs_def]
  by (intro allI step_close)

lemma stepwise_discard: "stepwise rv now p (on_session p (discard p))"
  unfolding stepwise_def discard_def [abs_def] by (intro allI step_close)

lemma poll_buyer_session_calm:
  "calm ps (fst (poll_buyer_session node policy p now ps))"
  "plain_for p (snd (poll_buyer_session node policy p now ps))"
  by (auto simp: poll_buyer_session_def Let_def split: option.splits prod.splits)

lemma stepwise_poll_buyer: "stepwise rv now p (poll_buyer p now)"
  unfolding stepwise_def poll_buyer_def by (intro allI step_calm poll_buyer_session_calm)

lemma step_request_funding:
  "peer_step rv now p s (fst (request_funding p m c now s)) (snd (request_funding p m c now s))"
proof -
  let ?s = "s\<lparr>ss_next_request := ss_next_request s + 1\<rparr>"
  have "peer_step rv now p s ?s []"
    by (rule peer_step.table) (simp add: same_tables_def)
  moreover have "peer_step rv now p ?s (fst (request_funding p m c now s)) []"
    unfolding request_funding_def Let_def fst_conv by (rule step_update) simp
  moreover have "peer_step rv now p s' s' (snd (request_funding p m c now s))" for s'
    by (rule peer_step.tell) (simp add: request_funding_def Let_def)
  ultimately show ?thesis by (blast intro: step_then)
qed

lemma stepwise_poll_rollover: "stepwise rv now p (poll_rollover p now)"
  unfolding stepwise_def poll_rollover_def
  by (auto simp: peer_step.skip step_request_funding Let_def split: option.splits list.splits)

lemma stepwise_poll_opening: "stepwise rv now p (poll_opening p now)"
  unfolding stepwise_def poll_opening_def
  by (auto simp: peer_step.skip step_request_funding split: option.splits list.splits)

text \<open>A quiet update, and then a handler.\<close>

lemma step_update_then:
  assumes "\<And>ps. bt_get (ss_peers s) p = Some ps \<Longrightarrow> calm ps (f ps)" and "stepwise rv now p h"
  shows "peer_step rv now p s (fst (h (update_session p f s))) (snd (h (update_session p f s)))"
  using step_then [OF step_update [of s p f] stepwiseD [OF assms(2)]] assms(1) by blast

lemma stepwise_update_then:
  "(\<And>ps. calm ps (f ps)) \<Longrightarrow> stepwise rv now p h \<Longrightarrow> stepwise rv now p (\<lambda>s. h (update_session p f s))"
  unfolding stepwise_def by (metis step_update_then stepwise_def)

lemma step_update_tell:
  "(\<And>ps. calm ps (f ps)) \<Longrightarrow> plain_for p out \<Longrightarrow> peer_step rv now p s (update_session p f s) out"
  by (blast intro: step_then step_update peer_step.tell)

lemma stepwise_reject: "stepwise rv now p (reject p reason)"
  by (simp add: stepwise_def reject_def step_update_tell)

lemma stepwise_send_offer: "stepwise rv now p (send_offer p offer)"
  by (simp add: stepwise_def send_offer_def step_update_tell)

lemma stepwise_on_announce: "stepwise rv now p (on_announce p m)"
  using stepwise_reject [of rv now p UnitNotAccepted]
  by (simp add: stepwise_def on_announce_def step_update_tell peer_step.skip)

lemma take_offer_calm [simp]: "calm ps (take_offer m ps)"
  by (simp add: take_offer_def calm_def Let_def)

lemma check_weight_calm [simp]:
  "calm ps (fst (check_weight policy p m ps))" "plain_for p (snd (check_weight policy p m ps))"
  by (simp_all add: check_weight_def calm_def)

lemma stepwise_answer_offer: "stepwise rv now p (answer_offer p m refused buys now)"
  by (auto simp: stepwise_def answer_offer_def peer_step.skip step_request_funding
      intro!: peer_step.tell split: list.splits)

text \<open>The two places that take a session to \<open>Established\<close>, whatever phase it is in.\<close>

lemma step_establish:
  assumes get: "bt_get (ss_peers s) p = Some ps" and "calm ps (ps'\<lparr>ps_phase := Closing\<rparr>)"
    and "rv \<or> ps_phase ps \<noteq> Closing"
  shows "peer_step rv now p s (put_session p (ps'\<lparr>ps_phase := Established\<rparr>) s) []"
proof (cases "ps_phase ps = Closing")
  case True
  let ?closing = "ps'\<lparr>ps_phase := Closing\<rparr>"
  have "peer_step rv now p s (put_session p ?closing s) []"
    by (rule peer_step.change [OF get assms(2)])
  moreover have "peer_step rv now p (put_session p ?closing s)
      (put_session p (?closing\<lparr>ps_phase := Established\<rparr>) (put_session p ?closing s)) []"
    by (rule peer_step.revive) (use True assms(3) in simp_all)
  ultimately show ?thesis by (auto intro: step_then)
next
  case False
  then have "calm ps (ps'\<lparr>ps_phase := Established\<rparr>)" using assms(2) by (simp add: calm_def)
  with get show ?thesis by (rule peer_step.change)
qed

lemma step_put_then:
  "peer_step rv now p s (put_session p ps s) [] \<Longrightarrow> stepwise rv now p h
    \<Longrightarrow> peer_step rv now p s (fst (h (put_session p ps s))) (snd (h (put_session p ps s)))"
  by (blast intro: step_then stepwiseD)

lemma update_session_const:
  "bt_get (ss_peers s) p = Some ps \<Longrightarrow> update_session p (\<lambda>_. x) s = put_session p x s"
  by (simp add: update_session_eq)

definition closing :: "Sessions \<Rightarrow> PubKey \<Rightarrow> bool" where
  "closing s p = (case bt_get (ss_peers s) p of None \<Rightarrow> False | Some ps \<Rightarrow> ps_phase ps = Closing)"

lemma step_on_offer:
  assumes "rv \<or> \<not> closing s p"
  shows "peer_step rv now p s (fst (on_offer p m now s)) (snd (on_offer p m now s))"
proof (cases "bt_get (ss_peers s) p")
  case None
  then show ?thesis by (simp add: on_offer_def peer_step.skip)
next
  case (Some ps0)
  let ?ps1 = "take_offer m ps0"
  let ?ps = "fst (check_weight (ss_buyer_policy s) p m ?ps1)"
    and ?out = "snd (check_weight (ss_buyer_policy s) p m ?ps1)"
  have calm: "calm ps0 ?ps" by (rule calm_trans [OF take_offer_calm check_weight_calm(1)])
  have carry: "peer_step rv now p s
      (put_session p (?ps\<lparr>ps_buyer := b, ps_phase := Established\<rparr>) s) []" for b
    by (rule step_establish [OF Some])
       (use calm assms Some in \<open>auto simp: calm_def closing_def\<close>)
  have over: "peer_step rv now p s (put_session p (?ps\<lparr>ps_buyer := b\<rparr>) s) []" for b
    by (rule peer_step.change [OF Some]) (use calm in \<open>simp add: calm_def\<close>)
  note steps = stepwise_and_then stepwise_push stepwise_refresh stepwise_poll_buyer
    stepwise_answer_offer check_weight_calm
  show ?thesis
    unfolding on_offer_def Some option.case Let_def case_prod_beta update_session_const [OF Some]
    by (auto intro!: step_put_then carry over steps peer_step.change [OF Some] stepwise_poll_opening)
qed

lemma stepwise_on_outgoing_funded: "stepwise rv now p (on_outgoing_funded p funding now)"
  unfolding stepwise_def on_outgoing_funded_def
  by (auto simp: peer_step.skip split: option.splits
      intro!: stepwiseD [of _ _ _ "and_then (push _) (refresh p now)"] stepwise_push stepwise_refresh)

lemma stepwise_on_accept: "stepwise rv now p (on_accept p m now)"
  by (auto simp: on_accept_def intro!: stepwise_discard stepwise_refresh stepwise_push)

lemma step_on_incoming_verified:
  assumes "rv \<or> \<not> closing s p"
  shows "peer_step rv now p s (fst (on_incoming_verified p i c e now s))
    (snd (on_incoming_verified p i c e now s))"
proof (cases "bt_get (ss_peers s) p")
  case None
  then show ?thesis by (simp add: on_incoming_verified_def peer_step.skip)
next
  case (Some ps)
  have "peer_step rv now p s (put_session p (ps\<lparr>ps_grant := grant_open_channel (ps_grant ps) i c e,
      ps_phase := Established\<rparr>) s) []"
    by (rule step_establish [OF Some]) (use assms Some in \<open>auto simp: calm_def closing_def\<close>)
  then show ?thesis
    unfolding on_incoming_verified_def Some option.case Let_def update_session_const [OF Some]
    by (rule step_put_then)
       (auto intro!: stepwise_and_then stepwise_push stepwise_refresh split: option.splits)
qed

lemma step_fail_channels:
  "peer_step rv now p s (put_session p ps s) out
    \<Longrightarrow> peer_step rv now p s (put_session p (fst (fail_channels p is ps)) s)
          (out @ snd (fail_channels p is ps))"
proof (induction "is" arbitrary: ps out)
  case (Cons i "is")
  let ?g = "fst (grant_record_failure (ps_grant ps) i)"
  let ?ps = "ps\<lparr>ps_grant := ?g\<rparr>"
  have 1: "peer_step rv now p s (put_session p ?ps s) out"
    using peer_step.seq [OF Cons.prems peer_step.change [of "put_session p ps s" p ps ?ps rv now]]
    by simp
  have 2: "peer_step rv now p s (put_session p (fst (close_and_settle p ?ps [i])) s)
      (out @ snd (close_and_settle p ?ps [i]))"
    using peer_step.seq [OF 1 peer_step.close [of "put_session p ?ps s" p ?ps "[i]"]]
    by (cases "close_and_settle p ?ps [i]") simp
  show ?case
    using Cons.IH [OF 1] Cons.IH [OF 2] by (simp add: Let_def case_prod_beta)
qed simp

lemma stepwise_fail_channels: "stepwise rv now p (on_session p (fail_channels p is))"
proof (unfold stepwise_def, intro allI step_on_session)
  fix s :: Sessions and ps
  assume get: "bt_get (ss_peers s) p = Some ps"
  show "peer_step rv now p s (put_session p (fst (fail_channels p is ps)) s)
      (snd (fail_channels p is ps))"
    using step_fail_channels [OF peer_step.change [OF get calm_refl]] by simp
qed

lemma stepwise_on_unverified_topup: "stepwise rv now p (on_unverified_topup p is now)"
  unfolding stepwise_def on_unverified_topup_def
  by (auto simp: peer_step.skip split: option.splits
      intro!: stepwiseD [of _ _ _ "and_then (push _) _"] stepwise_and_then stepwise_push
        stepwise_refresh stepwise_fail_channels)

subsection \<open>Purchases\<close>

lemma reserved_elsewhere_remove:
  "reserved_elsewhere s p =
     foldl sat_add 0 (map (\<lambda>(_, ps). gs_reserved_rate (ps_grant ps))
       (filter (\<lambda>(_, ps). ps_phase ps \<noteq> Closing) (bt_remove p (ss_peers s))))"
  by (simp add: reserved_elsewhere_def bt_remove_def case_prod_unfold conj_commute)

lemma reserved_elsewhere_put [simp]: "reserved_elsewhere (put_session p ps s) p = reserved_elsewhere s p"
  by (simp add: reserved_elsewhere_remove put_session_def bt_remove_insert)

lemma admission_put [simp]: "admission (put_session p ps s) p = admission s p"
  by (simp add: admission_def)

lemma step_accept_topup:
  assumes get: "bt_get (ss_peers s) p = Some ps"
    and ok: "evaluate_topup (ps_grant ps) (admission s p) (topup_updates m) (topup_window_ms m)
      (topup_reserved_rate m) = VAccept ratchets grant"
  shows "peer_step rv now p s (put_session p (fst (accept_topup p m ratchets grant now ps)) s)
    (snd (accept_topup p m ratchets grant now ps))"
proof -
  let ?ps1 = "ps\<lparr>ps_grant := grant_apply (ps_grant ps) ratchets grant (topup_window_ms m)
    (topup_reserved_rate m) now\<rparr>"
  obtain ps2 out where closed:
    "close_and_settle p ?ps1 (grant_exhausted_channels (ps_grant ?ps1)) = (ps2, out)" by force
  let ?ps3 = "ps2\<lparr>ps_budget_live := grant_is_live (ps_grant ps2) now\<rparr>"
  let ?told = "save_budget p ps2 now @ [Send p (MBalance (balance_of ?ps3 now))]"
  have "peer_step rv now p s (put_session p ?ps1 s) [RecordUpdates p (topup_updates m)]"
    by (rule peer_step.buy [OF get ok]) simp
  moreover have "peer_step rv now p (put_session p ?ps1 s) (put_session p ps2 s) out"
    using peer_step.close [of "put_session p ?ps1 s" p ?ps1, OF _ closed] by simp
  moreover have "peer_step rv now p (put_session p ps2 s) (put_session p ?ps3 s) ?told"
    using step_then [OF peer_step.change [of "put_session p ps2 s" p ps2 ?ps3]
        peer_step.tell [of p ?told]] by simp
  ultimately have "peer_step rv now p s (put_session p ?ps3 s)
      ([RecordUpdates p (topup_updates m)] @ out @ ?told)"
    by (blast intro: peer_step.seq)
  then show ?thesis using closed by (simp add: accept_topup_def Let_def)
qed

lemma stepwise_on_topup: "stepwise rv now p (on_topup p m now)"
  unfolding stepwise_def
proof
  fix s
  show "peer_step rv now p s (fst (on_topup p m now s)) (snd (on_topup p m now s))"
  proof (cases "too_soon s p m now")
    case (Some refusal)
    then show ?thesis
      by (auto simp: on_topup_def too_soon_def split: option.splits if_splits intro!: peer_step.tell)
  next
    case notsoon: None
    show ?thesis
    proof (cases "bt_get (ss_peers s) p")
      case None
      with notsoon show ?thesis by (simp add: on_topup_def peer_step.skip)
    next
      case (Some ps)
      let ?ps = "ps\<lparr>ps_grant := grant_topup_checked (ps_grant ps) now\<rparr>"
      let ?v = "evaluate_topup (ps_grant ?ps) (admission s p) (topup_updates m)
        (topup_window_ms m) (topup_reserved_rate m)"
      have checked: "peer_step rv now p s (put_session p ?ps s) []"
        by (rule peer_step.change [OF Some]) simp
      note eq = on_topup_def notsoon option.case Some Let_def update_session_eq
      show ?thesis
      proof (cases ?v)
        case (VAccept ratchets grant)
        let ?s = "put_session p (fst (accept_topup p m ratchets grant now ?ps)) s"
        have "peer_step rv now p s ?s (snd (accept_topup p m ratchets grant now ?ps))"
          using step_then [OF checked step_accept_topup [of _ p ?ps]] VAccept by simp
        from peer_step.seq [OF this stepwiseD [OF stepwise_refresh]] VAccept show ?thesis
          by (simp add: eq admission_def and_then_fst_snd on_session_eq)
      next
        case (VReject reason cap)
        then show ?thesis
          by (auto simp: eq admission_def intro!: step_put_then [OF checked] stepwise_and_then
              stepwise_push stepwise_refresh stepwise_on_unverified_topup)
      qed
    qed
  qed
qed

subsection \<open>Messages and events\<close>

lemma metered_session_calm: "calm ps (metered_session counters c now ps)"
  by (simp add: metered_session_def Let_def calm_def case_prod_beta split: option.splits)

lemma step_on_message_from:
  assumes "rv \<or> \<not> closing s p \<or> msg_type msg \<noteq> MT_Offer"
  shows "peer_step rv now p s (fst (on_message_from p msg now s)) (snd (on_message_from p msg now s))"
  using assms
  by (cases msg)
     (auto simp: on_channel_ready_def on_topup_reject_def Let_def peer_step.skip
       intro!: stepwiseD [OF stepwise_on_announce] step_on_offer stepwiseD [OF stepwise_on_accept]
         stepwiseD [OF stepwise_on_topup] step_update_then stepwise_poll_buyer step_update_tell
         peer_step.tell)

lemma closing_update:
  "(\<And>ps. ps_phase (f ps) = ps_phase ps) \<Longrightarrow> closing (update_session p f s) q = closing s q"
  by (auto simp: closing_def update_session_eq put_session_def split: option.splits)

lemma step_on_message:
  assumes "rv \<or> \<not> closing s p \<or> msg_type msg \<noteq> MT_Offer"
  shows "peer_step rv now p s (fst (on_message p msg now s)) (snd (on_message p msg now s))"
proof (cases "bt_get (ss_peers s) p")
  case (Some ps)
  let ?s = "update_session p (\<lambda>ps. ps\<lparr>ps_last_seen := now\<rparr>) s"
  have "peer_step rv now p s ?s []" by (rule step_update) simp
  moreover have "peer_step rv now p ?s (fst (on_message_from p msg now ?s))
      (snd (on_message_from p msg now ?s))"
    by (rule step_on_message_from) (use assms in \<open>simp add: closing_update\<close>)
  ultimately show ?thesis using Some by (auto simp: on_message_def intro: step_then)
qed (simp add: on_message_def peer_step.skip)

lemma stepwise_on_disconnected: "stepwise rv now p (on_disconnected p now)"
  unfolding stepwise_def on_disconnected_def
  by (auto simp: peer_step.skip intro: peer_step.leave peer_step.hold [OF prod.collapse [symmetric]]
      split: option.splits)

lemma stepwise_tick_peer: "stepwise rv now p (tick_peer now p)"
proof -
  have "stepwise rv now p (and_then (park p now) (push [DropPeer p]))"
    by (intro stepwise_and_then stepwise_push) (auto simp: stepwise_def intro: peer_step.hold)
  moreover have "stepwise rv now p (and_then (settle_expiring p now) (and_then (refresh p now)
      (and_then (poll_buyer p now) (and_then (poll_rollover p now) (poll_opening p now)))))"
    by (intro stepwise_and_then stepwise_settle_expiring stepwise_refresh stepwise_poll_buyer
        stepwise_poll_rollover stepwise_poll_opening)
  ultimately show ?thesis
    unfolding stepwise_def tick_peer_def by (auto intro!: step_update_then simp: stepwise_def)
qed

text \<open>The event is about one peer, or it is the tick.\<close>

fun event_peer :: "Event \<Rightarrow> PubKey option" where
  "event_peer (PeerConnected p _) = Some p"
| "event_peer (PeerDisconnected p) = Some p"
| "event_peer (MessageReceived p _) = Some p"
| "event_peer (TopUpSignatureInvalid p _) = Some p"
| "event_peer (OutgoingChannelFunded p _ _ _ _ _) = Some p"
| "event_peer (OutgoingFundingFailed p _) = Some p"
| "event_peer (IncomingFundingVerified p _ _ _ _) = Some p"
| "event_peer (IncomingFundingRejected p _) = Some p"
| "event_peer (Metered p _ _) = Some p"
| "event_peer (DemandObserved p _) = Some p"
| "event_peer Tick = None"

text \<open>
  An event that takes a session which is ending back to \<open>Established\<close>: funding verified after the
  peer said Disconnect, or its Offer.
\<close>

fun revives :: "Sessions \<Rightarrow> Event \<Rightarrow> bool" where
  "revives s (IncomingFundingVerified p i c e mint) = closing s p"
| "revives s (MessageReceived p msg) = (closing s p \<and> msg_type msg = MT_Offer)"
| "revives s _ = False"

lemma step_metered:
  "peer_step rv now p s (fst (refresh p now (on_metered p counters c now s)))
     (snd (refresh p now (on_metered p counters c now s)))"
  unfolding on_metered_def by (rule step_update_then [OF metered_session_calm stepwise_refresh])

lemma step_handle_event:
  assumes "event_peer event = Some p" and "\<forall>b. event \<noteq> PeerConnected p b"
    and "rv \<or> \<not> revives s event"
  shows "peer_step rv now p s (fst (handle_event event now s)) (snd (handle_event event now s))"
  using assms
  by (cases event)
     (auto intro!: stepwiseD [OF stepwise_on_disconnected] step_on_message step_metered
       step_update_then step_update_tell step_on_incoming_verified stepwiseD [OF stepwise_reject]
       stepwise_on_unverified_topup stepwise_on_outgoing_funded stepwise_poll_buyer)

subsection \<open>Connecting\<close>

lemma open_balance_stepwise: "stepwise rv now p (open_balance p policy now)"
  unfolding stepwise_def open_balance_def
  by (auto simp: peer_step.skip Let_def intro!: step_calm)

definition override_of :: "Sessions \<Rightarrow> PubKey \<Rightarrow> PeerPolicy" where
  "override_of s p = (case bt_get (ss_overrides s) p of Some q \<Rightarrow> q | None \<Rightarrow> PeerPolicy_default)"

lemma on_connected_steps:
  "(\<exists>s1 out1 out2. connects now p s s1 out1 \<and> peer_step rv now p s1 (fst (on_connected p budget now s)) out2
      \<and> snd (on_connected p budget now s) = out1 @ out2)
   \<or> (pp_blocked (override_of s p) \<and> fst (on_connected p budget now s) = s
      \<and> plain_for p (snd (on_connected p budget now s)))"
proof (cases "pp_blocked (override_of s p)")
  case True
  then show ?thesis by (simp add: on_connected_def override_of_def)
next
  case False
  let ?policy = "override_of s p"
  obtain s1 kept out1 where kept: "take_kept p now s = (s1, kept, out1)"
    by (metis prod_cases3)
  obtain ps out2 where start:
    "starting_session p ?policy (ss_node s1) budget kept now = (ps, out2)" by force
  let ?s2 = "put_session p ps s1"
  let ?offer = "offer_for ?s2 ?policy (peer_weight ?policy (ss_node ?s2))"
  let ?s3 = "put_session p (ps\<lparr>ps_offer_sent := Some ?offer\<rparr>) s1"
  let ?rest = "Send p (MAnnounce \<lparr>ann_version = PROTOCOL_VERSION, ann_pubkey = ss_local s1,
      ann_unit = np_unit (ss_node s1), ann_capabilities = 0\<rparr>)
    # map (\<lambda>i. Send p (MChannelReady \<lparr>ready_channel_id = i\<rparr>)) (map ic_id (gs_channels (ps_grant ps)))
    @ [Send p (MOffer ?offer)]"
  let ?h = "and_then (open_balance p ?policy now) (refresh p now)"
  have "connects now p s ?s3 (out1 @ out2 @ SetAccess p AccessNone # ?rest)"
    by (rule connectsI [OF kept start]) simp
  moreover have "peer_step rv now p ?s3 (fst (?h ?s3)) (snd (?h ?s3))"
    by (intro stepwiseD stepwise_and_then open_balance_stepwise stepwise_refresh)
  moreover have "on_connected p budget now s
      = (fst (?h ?s3), (out1 @ out2 @ SetAccess p AccessNone # ?rest) @ snd (?h ?s3))"
    using False kept start
    by (simp add: on_connected_def override_of_def [symmetric] and_then_def push_def send_offer_def
        put_session_def [symmetric] update_session_eq case_prod_unfold Let_def)
  ultimately show ?thesis by (metis fst_conv snd_conv)
qed

subsection \<open>The whole of \<open>handle\<close>\<close>

lemma core_one: "peer_step rv now p s s' out \<Longrightarrow> core_steps rv now s s' out"
  using core_steps.more [OF core_steps.none] by simp

lemma core_trans:
  "core_steps rv now s1 s2 out2 \<Longrightarrow> core_steps rv now s s1 out1 \<Longrightarrow> core_steps rv now s s2 (out1 @ out2)"
proof (induction rule: core_steps.induct)
  case (more s s1 o1 p s2 o2)
  then show ?case using core_steps.more [of rv now _ s1 "out1 @ o1" p s2 o2] by simp
next
  case (conn s s1 o1 p s2 o2)
  then show ?case using core_steps.conn [of rv now _ s1 "out1 @ o1" p s2 o2] by simp
qed simp

lemma core_for_each:
  assumes "\<And>k s. peer_step rv now k s (fst (f k s)) (snd (f k s))"
  shows "core_steps rv now s (fst (for_each f ks s)) (snd (for_each f ks s))"
proof (induction ks arbitrary: s)
  case (Cons k ks)
  from core_trans [OF Cons.IH core_one [OF assms]] show ?case by (simp add: and_then_fst_snd)
qed (simp add: core_steps.none)

lemma core_silent:
  "core_steps rv now s s1 out \<Longrightarrow> core_steps rv now s1 s2 [] \<Longrightarrow> core_steps rv now s s2 out"
  using core_trans [of rv now s1 s2 "[]" s out] by simp

lemma core_note_sent: "core_steps rv now s (note_sent as now s) []"
proof (induction "as" arbitrary: s)
  case (Cons a "as")
  let ?s = "case sent_to a of None \<Rightarrow> s | Some q \<Rightarrow> update_session q (\<lambda>ps. ps\<lparr>ps_last_sent := now\<rparr>) s"
  have "core_steps rv now s ?s []"
    by (auto split: option.splits intro: core_steps.none intro!: core_one [OF step_update])
  from core_silent [OF this Cons.IH] show ?case by simp
qed (simp add: core_steps.none)

lemma keep_alive_session_calm:
  "calm ps (fst (keep_alive_session i now p ps))" "plain_for p (snd (keep_alive_session i now p ps))"
  by (simp_all add: keep_alive_session_def split: option.splits)

lemma core_keep_alive: "core_steps rv now s (fst (keep_alive now s)) (snd (keep_alive now s))"
  unfolding keep_alive_def Let_def
  by (intro core_for_each step_calm keep_alive_session_calm)

lemma core_expire_parked: "core_steps rv now s (fst (expire_parked now s)) (snd (expire_parked now s))"
  unfolding expire_parked_def Let_def and_then_fst_snd
  by (rule core_trans [OF core_for_each core_for_each])
     (auto intro: peer_step.held_due [OF prod.collapse [symmetric]]
       peer_step.let_go [OF prod.collapse [symmetric]])

lemma core_tick: "core_steps rv now s (fst (on_tick now s)) (snd (on_tick now s))"
  unfolding on_tick_def and_then_fst_snd
  by (rule core_trans [OF core_expire_parked core_for_each]) (rule stepwiseD [OF stepwise_tick_peer])

lemma core_connected:
  "core_steps rv now s (fst (on_connected p budget now s)) (snd (on_connected p budget now s))"
  using on_connected_steps [of now p s rv budget]
proof (elim disjE exE conjE)
  fix s1 out1 out2
  assume "connects now p s s1 out1" "peer_step rv now p s1 (fst (on_connected p budget now s)) out2"
    "snd (on_connected p budget now s) = out1 @ out2"
  then show ?thesis
    using core_steps.more [OF core_steps.conn [OF core_steps.none]] by simp
qed (auto intro: core_one peer_step.tell)

lemma core_handle_event:
  assumes "rv \<or> \<not> revives s event"
  shows "core_steps rv now s (fst (handle_event event now s)) (snd (handle_event event now s))"
proof (cases "event_peer event")
  case None
  then show ?thesis by (cases event) (simp_all add: core_tick)
next
  case (Some p)
  then show ?thesis
    using step_handle_event [OF Some _ assms, of now]
    by (cases "\<exists>b. event = PeerConnected p b") (auto intro: core_connected core_one)
qed

text \<open>\<open>handle\<close> does nothing but what the steps allow.\<close>

lemma handle_core_steps:
  assumes "rv \<or> \<not> revives s event"
  shows "core_steps rv now s (fst (handle event now s)) (snd (handle event now s))"
proof (cases "superseded s event")
  case None
  let ?s1 = "fst (handle_event event now s)" and ?out = "snd (handle_event event now s)"
  have "core_steps rv now s (note_sent ?out now ?s1) ?out"
    using core_silent [OF core_handle_event [OF assms] core_note_sent] .
  from this core_trans [OF core_keep_alive this] None show ?thesis
    by (cases "event = Tick") (simp_all add: handle_def case_prod_beta Let_def and_then_fst_snd push_def)
next
  case (Some reclaim)
  then have "plain_for (action_peer reclaim) [reclaim]"
    by (cases event) (auto split: if_splits)
  from core_one [OF peer_step.tell [OF this]] Some show ?thesis by (simp add: handle_def)
qed

text \<open>Nor do the operator's own operations.\<close>

lemma core_set_buyer_policy: "core_steps rv now s (set_buyer_policy policy s) []"
  by (rule core_one [OF peer_step.table]) (simp add: set_buyer_policy_def same_tables_def)

lemma core_set_peer_policy:
  "core_steps rv now s (fst (set_peer_policy p policy now s)) (snd (set_peer_policy p policy now s))"
proof -
  let ?s1 = "s\<lparr>ss_overrides := bt_insert p policy (ss_overrides s)\<rparr>"
  let ?s2 = "update_session p (\<lambda>ps. ps\<lparr>ps_policy := policy\<rparr>) ?s1"
  have 1: "peer_step rv now p s ?s1 []"
    by (rule peer_step.table) (simp add: same_tables_def)
  have 2: "peer_step rv now p s ?s2 []"
    by (rule step_then [OF 1 step_update]) simp
  have 3: "core_steps rv now s (note_sent (snd (h ?s2)) now (fst (h ?s2))) (snd (h ?s2))"
    if "stepwise rv now p h" for h
    using core_silent [OF core_one [OF step_then [OF 2 stepwiseD [OF that]]] core_note_sent] .
  have 4: "stepwise rv now p (and_then (if b then send_offer p offer else push []) (refresh p now))"
    for b offer
    by (intro stepwise_and_then stepwise_refresh) (simp add: stepwise_send_offer stepwise_push)
  show ?thesis
    using core_one [OF 1] core_one [OF 2] 3 [OF 4]
    by (simp add: set_peer_policy_def Let_def case_prod_beta split: option.splits)
qed

lemma core_forget: "core_steps rv now s (fst (forget p now s)) (snd (forget p now s))"
proof -
  let ?out1 = "case bt_get (ss_peers s) p of None \<Rightarrow> [] | Some ps \<Rightarrow> give_up p ps now"
  let ?s1 = "s\<lparr>ss_peers := bt_remove p (ss_peers s)\<rparr>"
  let ?saved = "case bt_get (ss_parked s) p of None \<Rightarrow> [] | Some pk \<Rightarrow> save_budget p (pk_session pk) now"
  have 1: "peer_step rv now p s ?s1 ?out1"
  proof (cases "bt_get (ss_peers s) p")
    case None
    then have "?s1 = s" by (simp add: bt_remove_absent map_of_eq_None_iff)
    with None show ?thesis by (simp add: peer_step.skip)
  next
    case (Some ps)
    then show ?thesis using peer_step.leave [OF Some] by simp
  qed
  have 2: "peer_step rv now p ?s1 ?s1 ?saved"
    by (rule peer_step.tell) (simp split: option.split)
  have 3: "peer_step rv now p ?s1 (fst (drop_parked p ?s1)) (snd (drop_parked p ?s1))"
    by (rule peer_step.let_go) simp
  have "forget p now s = (fst (drop_parked p ?s1), ?out1 @ ?saved @ snd (drop_parked p ?s1))"
    by (cases "bt_get (ss_parked s) p")
       (simp_all add: forget_def drop_parked_def Let_def give_up_def bt_remove_absent
         map_of_eq_None_iff [THEN iffD1])
  with core_one [OF peer_step.seq [OF 1 peer_step.seq [OF 2 3]]] show ?thesis by simp
qed

end
