(* ===== verification/Session_Invariants.thy ===== *)
theory Session_Invariants
  imports Session_Steps
begin

text \<open>
  The invariants of the table of sessions, each proved over the steps of \<open>Session_Steps\<close> and so
  holding of \<open>handle\<close> (\<open>crates/tollgate-core/src/session/core.rs\<close>): peers do not interfere, the
  table is well formed, what is reserved fits the capacity, the host's gate and shaper are what
  core holds them to be, no channel a peer paid on is dropped without being settled, and the
  weight a peer is drawn at is fixed for its session.
\<close>

subsection \<open>One peer's event leaves the others alone\<close>

definition untouched :: "PubKey \<Rightarrow> Sessions \<Rightarrow> Sessions \<Rightarrow> bool" where
  "untouched q s s' =
     (bt_get (ss_peers s') q = bt_get (ss_peers s) q
      \<and> bt_get (ss_parked s') q = bt_get (ss_parked s) q)"

lemma close_and_settle_eq:
  "fst (close_and_settle p ps is) = ps\<lparr>ps_grant := fst (grant_close_all (ps_grant ps) is)\<rparr>"
  "snd (close_and_settle p ps is) = settle_actions p (snd (grant_close_all (ps_grant ps) is))"
  by (simp_all add: close_and_settle_def case_prod_beta)

lemma plain_close [simp]: "plain_for p (snd (close_and_settle p ps is))"
  by (simp add: close_and_settle_eq)

lemma plain_discard [simp]: "plain_for p (snd (discard p ps))"
  by (simp add: discard_def)

lemma plain_give_up [simp]: "plain_for p (give_up p ps now)"
  by (simp add: give_up_def)

lemma plain_settle_expiring [simp]: "plain_for p (snd (settle_expiring_in p now l ps))"
  by (simp add: settle_expiring_in_def)

lemma park_plain: "park p now s = (s', out) \<Longrightarrow> plain_for p out"
  by (auto simp: park_def Let_def split: option.splits if_splits)

lemma drop_parked_plain: "drop_parked p s = (s', out) \<Longrightarrow> plain_for p out"
  by (auto simp: drop_parked_def split: option.splits)

lemma on_parked_due_plain:
  "on_parked p (settle_expiring_in p now l) s = (s', out) \<Longrightarrow> plain_for p out"
  by (auto simp: on_parked_def case_prod_beta split: option.splits)

lemmas parked_plain = park_plain drop_parked_plain on_parked_due_plain

lemma plain_for_peer: "plain_for p out \<Longrightarrow> a \<in> set out \<Longrightarrow> action_peer a = p"
  by (simp add: plain_for_def)

lemma refresh_session_peer:
  "a \<in> set (snd (refresh_session node p now ps)) \<Longrightarrow> action_peer a = p"
  by (auto simp: refresh_session_def Let_def split: if_splits)

lemma put_session_untouched [simp]: "q \<noteq> p \<Longrightarrow> untouched q s (put_session p ps s)"
  by (simp add: untouched_def put_session_def)

lemma table_untouched:
  "same_tables s s' \<Longrightarrow> untouched q s s'"
  "q \<noteq> p \<Longrightarrow> untouched q s (s\<lparr>ss_peers := bt_remove p (ss_peers s)\<rparr>)"
  "q \<noteq> p \<Longrightarrow> park p now s = (s', out) \<Longrightarrow> untouched q s s'"
  "q \<noteq> p \<Longrightarrow> drop_parked p s = (s', out) \<Longrightarrow> untouched q s s'"
  "q \<noteq> p \<Longrightarrow> on_parked p f s = (s', out) \<Longrightarrow> untouched q s s'"
  by (auto simp: untouched_def same_tables_def park_def drop_parked_def on_parked_def Let_def
      split: option.splits if_splits prod.splits)

lemma untouched_trans: "untouched q s s1 \<Longrightarrow> untouched q s1 s2 \<Longrightarrow> untouched q s s2"
  by (simp add: untouched_def)

lemma peer_step_untouched: "peer_step rv now p s s' out \<Longrightarrow> q \<noteq> p \<Longrightarrow> untouched q s s'"
  by (induction rule: peer_step.induct)
     (auto intro: table_untouched untouched_trans simp: untouched_def [of q s s for s])

lemma peer_step_actions: "peer_step rv now p s s' out \<Longrightarrow> a \<in> set out \<Longrightarrow> action_peer a = p"
proof (induction rule: peer_step.induct)
  case (close s ps "is" ps' out)
  then show ?case using plain_close [of p ps "is"] by (auto dest: plain_for_peer)
next
  case (gate s ps ps' out)
  then show ?case using refresh_session_peer [of a "ss_node s" p now ps] by simp
qed (auto dest: plain_for_peer parked_plain intro: plain_for_peer [OF plain_give_up])

lemma peer_step_node: "peer_step rv now p s s' out \<Longrightarrow> ss_node s' = ss_node s \<and> ss_local s' = ss_local s"
  by (induction rule: peer_step.induct)
     (auto simp: same_tables_def park_def drop_parked_def on_parked_def Let_def
       split: option.splits if_splits prod.splits)

lemma take_kept_frame:
  assumes "take_kept p now s = (s1, kept, out)"
  shows "ss_node s1 = ss_node s" "ss_local s1 = ss_local s"
    "ss_peers s1 = bt_remove p (ss_peers s)" "q \<noteq> p \<Longrightarrow> untouched q s s1" "plain_for p out"
  using assms
  by (auto simp: take_kept_def Let_def untouched_def split: if_splits option.splits)

lemma starting_session_plain:
  "starting_session p policy node budget kept now = (ps, out) \<Longrightarrow> plain_for p out"
  using plain_settle_expiring [of p now "settle_lead_ms node" "resume (the kept) policy now"]
  by (auto simp: starting_session_def Let_def case_prod_beta split: option.splits)

lemma connects_local:
  assumes "connects now p s s' out"
  shows "q \<noteq> p \<Longrightarrow> untouched q s s'" "a \<in> set out \<Longrightarrow> action_peer a = p"
    "ss_node s' = ss_node s \<and> ss_local s' = ss_local s"
proof -
  from assms obtain policy budget s1 kept out1 ps out2 offer rest where
    1: "take_kept p now s = (s1, kept, out1)"
    and 2: "starting_session p policy (ss_node s1) budget kept now = (ps, out2)"
    and 3: "s' = put_session p (ps\<lparr>ps_offer_sent := Some offer\<rparr>) s1" "plain_for p rest"
      "out = out1 @ out2 @ SetAccess p AccessNone # rest"
    unfolding connects_def by blast
  note facts = take_kept_frame [OF 1] starting_session_plain [OF 2] 3
  show "q \<noteq> p \<Longrightarrow> untouched q s s'"
    using untouched_trans [OF take_kept_frame(4) [OF 1] put_session_untouched] 3(1) by blast
  show "a \<in> set out \<Longrightarrow> action_peer a = p"
    using facts by (auto dest: plain_for_peer)
  show "ss_node s' = ss_node s \<and> ss_local s' = ss_local s"
    using facts by simp
qed

lemma core_steps_node: "core_steps rv now s s' out \<Longrightarrow> ss_node s' = ss_node s \<and> ss_local s' = ss_local s"
  by (induction rule: core_steps.induct) (auto dest: peer_step_node connects_local(3))

subsection \<open>The table is well formed\<close>

definition session_wf :: "PubKey \<Rightarrow> PeerSession \<Rightarrow> bool" where
  "session_wf p ps = (ps_peer ps = p \<and> grant_wf (ps_grant ps) \<and> ps_offer_sent ps \<noteq> None)"

text \<open>
  A peer is in the table at most once, live or held, every session has been sent an Offer, and a
  session that is held sets nothing aside.
\<close>

definition sessions_wf :: "Sessions \<Rightarrow> bool" where
  "sessions_wf s =
     (bt_wf (ss_peers s) \<and> bt_wf (ss_parked s)
      \<and> (\<forall>p ps. bt_get (ss_peers s) p = Some ps \<longrightarrow> session_wf p ps \<and> bt_get (ss_parked s) p = None)
      \<and> (\<forall>p pk. bt_get (ss_parked s) p = Some pk \<longrightarrow>
           session_wf p (pk_session pk) \<and> gs_reserved_rate (ps_grant (pk_session pk)) = 0))"

lemma sessions_wf_put:
  "sessions_wf s \<Longrightarrow> session_wf p ps \<Longrightarrow> bt_get (ss_parked s) p = None \<Longrightarrow> sessions_wf (put_session p ps s)"
  by (auto simp: sessions_wf_def put_session_def)

lemma sessions_wf_get:
  "sessions_wf s \<Longrightarrow> bt_get (ss_peers s) p = Some ps \<Longrightarrow> session_wf p ps \<and> bt_get (ss_parked s) p = None"
  by (auto simp: sessions_wf_def)

lemma sessions_wf_replace:
  "sessions_wf s \<Longrightarrow> bt_get (ss_peers s) p = Some ps \<Longrightarrow> (session_wf p ps \<Longrightarrow> session_wf p ps')
    \<Longrightarrow> sessions_wf (put_session p ps' s)"
  by (simp add: sessions_wf_put sessions_wf_get)

lemma sessions_wf_remove:
  "sessions_wf s \<Longrightarrow> sessions_wf (s\<lparr>ss_peers := bt_remove p (ss_peers s)\<rparr>)"
  "sessions_wf s \<Longrightarrow> sessions_wf (s\<lparr>ss_parked := bt_remove p (ss_parked s)\<rparr>)"
  "sessions_wf s \<Longrightarrow>
    sessions_wf (s\<lparr>ss_peers := bt_remove p (ss_peers s), ss_parked := bt_remove p (ss_parked s)\<rparr>)"
  by (auto simp: sessions_wf_def)

lemma calm_wf: "calm ps ps' \<Longrightarrow> session_wf p ps \<Longrightarrow> session_wf p ps'"
  by (auto simp: calm_def calm_grant_def session_wf_def)

lemma close_wf: "session_wf p ps \<Longrightarrow> session_wf p (fst (close_and_settle q ps is))"
  by (simp add: close_and_settle_eq session_wf_def grant_close_all_wf)

text \<open>What \<open>refresh\<close> leaves in a session, and what it tells the host.\<close>

definition refresh_rate :: "NodePolicy \<Rightarrow> PeerSession \<Rightarrow> Millis \<Rightarrow> u64" where
  "refresh_rate node ps now =
     (if access_for ps now = AccessFree then U64_MAX
      else grant_shaping_rate (ps_grant ps) now (peer_burst (ps_policy ps) node)
             (np_minimum_flow node) (np_tick_ms node))"

lemma same_field:
  "ps_access ps = a \<Longrightarrow> ps\<lparr>ps_access := a\<rparr> = ps"
  "ps_applied_rate ps = r \<Longrightarrow> ps\<lparr>ps_applied_rate := r\<rparr> = ps"
  by (cases ps; simp)+

lemma balance_of_access [simp]: "balance_of (ps\<lparr>ps_access := a\<rparr>) now = balance_of ps now"
  by (simp add: balance_of_def)

lemma refresh_session_eq:
  "refresh_session node p now ps =
     (ps\<lparr>ps_access := access_for ps now, ps_budget_live := grant_is_live (ps_grant ps) now,
         ps_applied_rate := Some (refresh_rate node ps now)\<rparr>,
      (if access_for ps now \<noteq> ps_access ps then [SetAccess p (access_for ps now)] else [])
      @ (if ps_budget_live ps \<and> \<not> grant_is_live (ps_grant ps) now \<and> access_for ps now \<noteq> AccessFree
         then [Send p (MBalance (balance_of ps now)), SaveBudget p Budget_NONE] else [])
      @ (if ps_applied_rate ps \<noteq> Some (refresh_rate node ps now)
         then [SetShapingRate p (refresh_rate node ps now)] else []))"
proof -
  let ?a = "access_for ps now" and ?l = "grant_is_live (ps_grant ps) now"
  let ?r = "Some (refresh_rate node ps now)"
  have access: "(if ?a \<noteq> ps_access ps then (ps\<lparr>ps_access := ?a\<rparr>, [SetAccess p ?a]) else (ps, []))
      = (ps\<lparr>ps_access := ?a\<rparr>, if ?a \<noteq> ps_access ps then [SetAccess p ?a] else [])"
    by (simp add: same_field)
  have rate: "(if ps_applied_rate x \<noteq> r then (x\<lparr>ps_applied_rate := r\<rparr>, out) else (x, []))
      = (x\<lparr>ps_applied_rate := r\<rparr>, if ps_applied_rate x \<noteq> r then out else [])" for x r and out :: "Action list"
    by (simp add: same_field)
  show ?thesis
    unfolding refresh_session_def access Let_def prod.case rate
    by (simp add: refresh_rate_def)
qed

lemma refresh_session_frame [simp]:
  "ps_peer (fst (refresh_session node p now ps)) = ps_peer ps"
  "ps_grant (fst (refresh_session node p now ps)) = ps_grant ps"
  "ps_offer_sent (fst (refresh_session node p now ps)) = ps_offer_sent ps"
  "ps_phase (fst (refresh_session node p now ps)) = ps_phase ps"
  "ps_weight (fst (refresh_session node p now ps)) = ps_weight ps"
  by (simp_all add: refresh_session_eq)

lemma sessions_wf_hold:
  assumes "sessions_wf s" "session_wf p (pk_session pk)"
    "gs_reserved_rate (ps_grant (pk_session pk)) = 0" "bt_get (ss_peers s) p = None"
  shows "sessions_wf (s\<lparr>ss_parked := bt_insert p pk (ss_parked s)\<rparr>)"
  using assms by (auto simp: sessions_wf_def)

lemma sessions_wf_held:
  "sessions_wf s \<Longrightarrow> bt_get (ss_parked s) p = Some pk
    \<Longrightarrow> session_wf p (pk_session pk) \<and> gs_reserved_rate (ps_grant (pk_session pk)) = 0
      \<and> bt_get (ss_peers s) p = None"
  by (cases "bt_get (ss_peers s) p") (auto simp: sessions_wf_def)

lemma park_wf:
  assumes "sessions_wf s" "park p now s = (s', out)"
  shows "sessions_wf s'"
proof (cases "bt_get (ss_peers s) p")
  case (Some ps)
  let ?s = "s\<lparr>ss_peers := bt_remove p (ss_peers s)\<rparr>"
    and ?ps = "ps\<lparr>ps_grant := grant_end_reservation (ps_grant ps)\<rparr>"
  have wf: "sessions_wf ?s" by (rule sessions_wf_remove(1) [OF assms(1)])
  moreover have "session_wf p ?ps" "gs_reserved_rate (ps_grant ?ps) = 0"
    using sessions_wf_get [OF assms(1) Some]
    by (simp_all add: session_wf_def grant_end_reservation_wf grant_end_reservation_def grant_pause_wf)
  ultimately have "sessions_wf (?s\<lparr>ss_parked :=
      bt_insert p \<lparr>pk_session = ?ps, pk_since = now\<rparr> (ss_parked ?s)\<rparr>)"
    by (intro sessions_wf_hold) simp_all
  with assms(2) wf Some show ?thesis by (auto simp: park_def Let_def split: if_splits)
qed (use assms in \<open>simp add: park_def\<close>)

lemma close_frame [simp]:
  "ps_peer (fst (close_and_settle q ps is)) = ps_peer ps"
  "ps_phase (fst (close_and_settle q ps is)) = ps_phase ps"
  "ps_access (fst (close_and_settle q ps is)) = ps_access ps"
  "ps_applied_rate (fst (close_and_settle q ps is)) = ps_applied_rate ps"
  "ps_weight (fst (close_and_settle q ps is)) = ps_weight ps"
  "gs_reserved_rate (ps_grant (fst (close_and_settle q ps is))) = gs_reserved_rate (ps_grant ps)"
  "grant_remaining (ps_grant (fst (close_and_settle q ps is))) = grant_remaining (ps_grant ps)"
  by (simp_all add: close_and_settle_eq)

lemma on_parked_wf:
  assumes "sessions_wf s" "on_parked p (settle_expiring_in p now l) s = (s', out)"
  shows "sessions_wf s'"
proof (cases "bt_get (ss_parked s) p")
  case (Some pk)
  with sessions_wf_held [OF assms(1) Some]
  have "sessions_wf (s\<lparr>ss_parked := bt_insert p (pk\<lparr>pk_session :=
      fst (settle_expiring_in p now l (pk_session pk))\<rparr>) (ss_parked s)\<rparr>)"
    by (intro sessions_wf_hold) (simp_all add: assms(1) settle_expiring_in_def close_wf)
  with assms(2) Some show ?thesis by (simp add: on_parked_def case_prod_beta)
qed (use assms in \<open>simp add: on_parked_def\<close>)

lemma same_tables_wf: "same_tables s s' \<Longrightarrow> sessions_wf s' = sessions_wf s"
  by (simp add: same_tables_def sessions_wf_def)

lemma peer_step_wf: "peer_step rv now p s s' out \<Longrightarrow> sessions_wf s \<Longrightarrow> sessions_wf s'"
proof (induction rule: peer_step.induct)
  case (change s ps ps')
  then show ?case by (blast intro: sessions_wf_replace calm_wf)
next
  case (close s ps "is" ps' out)
  then show ?case using close_wf [of p ps p "is"] by (auto intro: sessions_wf_replace)
next
  case (gate s ps ps' out)
  then show ?case
    using refresh_session_frame [of "ss_node s" p now ps]
    by (auto simp: session_wf_def intro: sessions_wf_replace)
next
  case (buy s ps updates w r ratchets grant ps')
  then show ?case by (auto simp: session_wf_def grant_apply_wf intro: sessions_wf_replace)
next
  case (revive s ps)
  then show ?case by (auto simp: session_wf_def intro: sessions_wf_replace)
next
  case (leave s ps)
  then show ?case by (simp add: sessions_wf_remove)
next
  case (let_go s s' out)
  then show ?case by (auto simp: drop_parked_def sessions_wf_remove split: option.splits)
qed (auto simp: same_tables_wf intro: park_wf on_parked_wf)

lemma take_kept_wf:
  assumes "sessions_wf s" and "take_kept p now s = (s1, kept, out)"
  shows "sessions_wf s1" "bt_get (ss_parked s1) p = None"
    "kept = Some ps \<Longrightarrow> session_wf p ps"
  using assms sessions_wf_get [OF assms(1)] sessions_wf_held [OF assms(1)]
  by (auto simp: take_kept_def Let_def sessions_wf_remove split: if_splits option.splits)

lemma grant_new_channels: "gs_channels grant_new = []"
  by (simp add: grant_new_def)

lemma starting_session_wf:
  assumes "starting_session p policy node budget kept now = (ps, out)"
    and "\<And>k. kept = Some k \<Longrightarrow> session_wf p k"
  shows "session_wf p (ps\<lparr>ps_offer_sent := Some offer\<rparr>)"
  using assms
  by (auto simp: starting_session_def settle_expiring_in_def Let_def session_wf_def resume_def
      peer_session_new_def close_and_settle_eq grant_close_all_wf grant_restart_wf grant_restore_wf
      grant_new_channels case_prod_beta split: option.splits)

lemma connects_wf:
  assumes "connects now p s s' out" and wf: "sessions_wf s"
  shows "sessions_wf s'"
proof -
  from assms(1) obtain policy budget s1 kept out1 ps out2 offer where
    1: "take_kept p now s = (s1, kept, out1)"
    and 2: "starting_session p policy (ss_node s1) budget kept now = (ps, out2)"
    and 3: "s' = put_session p (ps\<lparr>ps_offer_sent := Some offer\<rparr>) s1"
    unfolding connects_def by blast
  show ?thesis
    unfolding 3 using take_kept_wf [OF wf 1] starting_session_wf [OF 2] by (simp add: sessions_wf_put)
qed

lemma core_steps_wf: "core_steps rv now s s' out \<Longrightarrow> sessions_wf s \<Longrightarrow> sessions_wf s'"
  by (induction rule: core_steps.induct) (auto intro: peer_step_wf connects_wf)

subsection \<open>What is reserved fits the capacity\<close>

definition live_reserved :: "PubKey \<Rightarrow> PeerSession \<Rightarrow> nat" where
  "live_reserved p ps = (if ps_phase ps = Closing then 0 else unat (gs_reserved_rate (ps_grant ps)))"

definition total_reserved :: "Sessions \<Rightarrow> nat" where
  "total_reserved s = bt_sum live_reserved (ss_peers s)"

definition within_capacity :: "Sessions \<Rightarrow> bool" where
  "within_capacity s =
     (case gp_max_rate (np_grants (ss_node s)) of None \<Rightarrow> True | Some m \<Rightarrow> total_reserved s \<le> unat m)"

lemma unat_foldl_sat_add:
  "unat (foldl sat_add a xs) = min (unat a + sum_list (map unat xs)) 18446744073709551615"
proof (induction xs arbitrary: a)
  case Nil
  have "unat a \<le> 18446744073709551615" by (rule unat_u64_le)
  then show ?case by simp
qed (simp add: unat_sat_add)

lemma sum_live_reserved:
  "sum_list (map unat (map (\<lambda>(_, ps). gs_reserved_rate (ps_grant ps))
     (filter (\<lambda>(_, ps). ps_phase ps \<noteq> Closing) m))) = bt_sum live_reserved m"
  by (induction m) (auto simp: bt_sum_def live_reserved_def)

lemma unat_reserved_elsewhere:
  "unat (reserved_elsewhere s p)
    = min (bt_sum live_reserved (bt_remove p (ss_peers s))) 18446744073709551615"
  unfolding reserved_elsewhere_remove unat_foldl_sat_add sum_live_reserved by simp

lemma total_reserved_put:
  "bt_wf (ss_peers s) \<Longrightarrow>
    total_reserved (put_session p ps s) = bt_sum live_reserved (bt_remove p (ss_peers s)) + live_reserved p ps"
  by (simp add: total_reserved_def put_session_def bt.total_insert)

lemma total_reserved_get:
  "bt_wf (ss_peers s) \<Longrightarrow> bt_get (ss_peers s) p = Some ps \<Longrightarrow>
    total_reserved s = bt_sum live_reserved (bt_remove p (ss_peers s)) + live_reserved p ps"
  using bt.total_split [of "ss_peers s" live_reserved p] by (simp add: total_reserved_def)

lemma within_capacity_le:
  "ss_node s' = ss_node s \<Longrightarrow> total_reserved s' \<le> total_reserved s \<Longrightarrow> within_capacity s \<Longrightarrow> within_capacity s'"
  by (auto simp: within_capacity_def split: option.splits)

lemma within_capacity_put:
  assumes "sessions_wf s" "bt_get (ss_peers s) p = Some ps" "live_reserved p ps' \<le> live_reserved p ps"
    and "within_capacity s"
  shows "within_capacity (put_session p ps' s)"
proof (rule within_capacity_le [OF _ _ assms(4)])
  have "bt_wf (ss_peers s)" using assms(1) by (simp add: sessions_wf_def)
  with assms(2,3) show "total_reserved (put_session p ps' s) \<le> total_reserved s"
    by (simp add: total_reserved_put total_reserved_get)
qed simp

lemma within_capacity_remove:
  "sessions_wf s \<Longrightarrow> within_capacity s \<Longrightarrow> within_capacity (s\<lparr>ss_peers := bt_remove p (ss_peers s)\<rparr>)"
  using bt.total_remove_le [of "ss_peers s" live_reserved p]
  by (auto simp: within_capacity_def total_reserved_def sessions_wf_def split: option.splits)

lemma within_capacity_tables:
  "ss_peers s' = ss_peers s \<Longrightarrow> ss_node s' = ss_node s \<Longrightarrow> within_capacity s' = within_capacity s"
  by (simp add: within_capacity_def total_reserved_def split: option.splits)

lemma held_frame:
  "drop_parked p s = (s', out) \<Longrightarrow> ss_peers s' = ss_peers s \<and> ss_node s' = ss_node s"
  "on_parked p f s = (s', out) \<Longrightarrow> ss_peers s' = ss_peers s \<and> ss_node s' = ss_node s"
  by (auto simp: drop_parked_def on_parked_def case_prod_beta split: option.splits)

lemma park_peers: "park p now s = (s', out) \<Longrightarrow> ss_peers s' = bt_remove p (ss_peers s) \<or> s' = s"
  by (auto simp: park_def Let_def split: option.splits if_splits)

text \<open>A purchase that raises the reservation is admitted only up to what is available.\<close>

lemma evaluate_topup_rate:
  "evaluate_topup g adm us w r = VAccept rs grant \<Longrightarrow> r \<le> gs_reserved_rate g \<or> r \<le> rate_available adm"
  by (auto simp: evaluate_topup_def Let_def split: if_splits sum.splits prod.splits)

lemma buy_within_capacity:
  assumes wf: "sessions_wf s" and get: "bt_get (ss_peers s) p = Some ps"
    and ok: "evaluate_topup (ps_grant ps) (admission s p) us w r = VAccept rs grant"
    and cap: "within_capacity s" and ps': "ps' = ps\<lparr>ps_grant := grant_apply (ps_grant ps) rs grant w r now\<rparr>"
  shows "within_capacity (put_session p ps' s)"
proof (cases "live_reserved p ps' \<le> live_reserved p ps")
  case True
  then show ?thesis by (rule within_capacity_put [OF wf get _ cap])
next
  case False
  let ?others = "bt_sum live_reserved (bt_remove p (ss_peers s))"
  from False have open_phase: "ps_phase ps \<noteq> Closing" and more: "gs_reserved_rate (ps_grant ps) < r"
    by (auto simp: live_reserved_def ps' word_less_nat_alt split: if_splits)
  from wf have bt: "bt_wf (ss_peers s)" by (simp add: sessions_wf_def)
  show ?thesis
  proof (cases "gp_max_rate (np_grants (ss_node s))")
    case (Some m)
    from evaluate_topup_rate [OF ok] more have "r \<le> rate_available (admission s p)" by auto
    then have "unat r \<le> unat m - min ?others 18446744073709551615"
      using Some by (simp add: rate_available_def admission_def word_le_nat_alt u64_nat
          unat_reserved_elsewhere)
    moreover have "?others \<le> unat m"
      using cap Some total_reserved_get [OF bt get] by (simp add: within_capacity_def)
    moreover have "unat m \<le> 18446744073709551615" by (rule unat_u64_le)
    ultimately have "?others + unat r \<le> unat m" by simp
    then show ?thesis
      using Some open_phase by (simp add: within_capacity_def total_reserved_put [OF bt] live_reserved_def ps')
  qed (simp add: within_capacity_def)
qed

lemma peer_step_capacity:
  "peer_step False now p s s' out \<Longrightarrow> sessions_wf s \<Longrightarrow> within_capacity s \<Longrightarrow> within_capacity s'"
proof (induction rule: peer_step.induct)
  case (seq s s1 out1 s2 out2)
  then show ?case using peer_step_wf by blast
next
  case (change s ps ps')
  then show ?case
    by (intro within_capacity_put [of s p ps])
       (auto simp: live_reserved_def calm_def calm_grant_def word_le_nat_alt)
next
  case (close s ps "is" ps' out)
  then show ?case
    using close_frame [of p ps "is"]
    by (intro within_capacity_put [of s p ps]) (simp_all add: live_reserved_def)
next
  case (gate s ps ps' out)
  then show ?case
    using refresh_session_frame [of "ss_node s" p now ps]
    by (intro within_capacity_put [of s p ps]) (simp_all add: live_reserved_def)
next
  case (buy s ps updates w r ratchets grant ps')
  then show ?case by (blast intro: buy_within_capacity)
next
  case (leave s ps)
  then show ?case by (simp add: within_capacity_remove)
next
  case (hold s s' out)
  then have "ss_node s' = ss_node s" using peer_step_node [OF peer_step.hold] by blast
  with park_peers [OF hold(1)] show ?case
    using hold(2,3) within_capacity_remove [of s p]
      within_capacity_tables [of s' "s\<lparr>ss_peers := bt_remove p (ss_peers s)\<rparr>"] by auto
next
  case (table s s')
  then show ?case using within_capacity_tables [of s' s] by (simp add: same_tables_def)
next
  case (let_go s s' out)
  then show ?case using within_capacity_tables [of s' s] held_frame(1) [OF let_go(1)] by simp
next
  case (held_due lead_ms s s' out)
  then show ?case using within_capacity_tables [of s' s] held_frame(2) [OF held_due(1)] by simp
qed simp_all

lemma grant_restart_rate [simp]: "gs_reserved_rate (grant_restart g now) = 0"
  by (simp add: grant_restart_eq grant_restore_def Let_def)

lemma starting_session_reserves_nothing:
  "starting_session p policy node budget kept now = (ps, out) \<Longrightarrow> gs_reserved_rate (ps_grant ps) = 0"
  by (auto simp: starting_session_def settle_expiring_in_def Let_def resume_def peer_session_new_def
      close_and_settle_eq grant_restore_def grant_new_def case_prod_beta split: option.splits)

lemma connects_capacity:
  assumes "connects now p s s' out" and "sessions_wf s" and "within_capacity s"
  shows "within_capacity s'"
proof -
  from assms(1) obtain policy budget s1 kept out1 ps out2 offer where
    1: "take_kept p now s = (s1, kept, out1)"
    and 2: "starting_session p policy (ss_node s1) budget kept now = (ps, out2)"
    and 3: "s' = put_session p (ps\<lparr>ps_offer_sent := Some offer\<rparr>) s1"
    unfolding connects_def by blast
  have bt: "bt_wf (ss_peers s)" "bt_wf (ss_peers s1)"
    using assms(2) take_kept_frame(3) [OF 1] by (simp_all add: sessions_wf_def)
  have "total_reserved s' = bt_sum live_reserved (bt_remove p (ss_peers s1))"
    using bt(2) starting_session_reserves_nothing [OF 2]
    by (simp add: 3 total_reserved_put live_reserved_def)
  also have "\<dots> \<le> total_reserved s"
    using bt.total_remove_le [OF bt(2), of live_reserved p]
      bt.total_remove_le [OF bt(1), of live_reserved p]
    by (simp add: total_reserved_def take_kept_frame(3) [OF 1])
  finally show ?thesis
    using within_capacity_le [OF _ _ assms(3)] connects_local(3) [OF assms(1)] by simp
qed

lemma core_steps_capacity:
  "core_steps False now s s' out \<Longrightarrow> sessions_wf s \<Longrightarrow> within_capacity s \<Longrightarrow> within_capacity s'"
proof (induction rule: core_steps.induct)
  case (more s s1 out1 p s2 out2)
  then show ?case using core_steps_wf [OF more(1)] peer_step_capacity by blast
next
  case (conn s s1 out1 p s2 out2)
  then show ?case using core_steps_wf [OF conn(1)] connects_capacity by blast
qed

subsection \<open>The host's gate and shaper follow core's record of them\<close>

text \<open>What the host holds in force once it has carried the actions out in order.\<close>

fun enforce :: "Action \<Rightarrow> (PubKey \<rightharpoonup> AccessLevel) \<times> (PubKey \<rightharpoonup> u64)
    \<Rightarrow> (PubKey \<rightharpoonup> AccessLevel) \<times> (PubKey \<rightharpoonup> u64)" where
  "enforce (SetAccess p access) (gates, rates) = (gates(p \<mapsto> access), rates)"
| "enforce (SetShapingRate p rate) (gates, rates) = (gates, rates(p \<mapsto> rate))"
| "enforce _ h = h"

definition enforce_all where
  "enforce_all out h = fold enforce out h"

lemma enforce_all_simps [simp]:
  "enforce_all [] h = h"
  "enforce_all (a # out) h = enforce_all out (enforce a h)"
  "enforce_all (out1 @ out2) h = enforce_all out2 (enforce_all out1 h)"
  by (simp_all add: enforce_all_def)

lemma enforce_plain: "plain a \<Longrightarrow> enforce a h = h"
  by (cases h; cases a) simp_all

lemma enforce_all_plain: "plain_for p out \<Longrightarrow> enforce_all out h = h"
  by (induction out arbitrary: h) (simp_all add: enforce_plain)

definition enforced :: "Sessions \<Rightarrow> (PubKey \<rightharpoonup> AccessLevel) \<times> (PubKey \<rightharpoonup> u64) \<Rightarrow> bool" where
  "enforced s h =
     (\<forall>p ps. bt_get (ss_peers s) p = Some ps \<longrightarrow>
        fst h p = Some (ps_access ps) \<and> (ps_applied_rate ps \<noteq> None \<longrightarrow> snd h p = ps_applied_rate ps))"

lemma enforced_put:
  assumes "enforced s h" "fst h' p = Some (ps_access ps)"
    "ps_applied_rate ps \<noteq> None \<Longrightarrow> snd h' p = ps_applied_rate ps"
    "\<And>q. q \<noteq> p \<Longrightarrow> fst h' q = fst h q \<and> snd h' q = snd h q"
  shows "enforced (put_session p ps s) h'"
  using assms by (auto simp: enforced_def put_session_def split: if_splits)

lemma enforced_keep:
  assumes "enforced s h" "bt_get (ss_peers s) p = Some ps"
    "ps_access ps' = ps_access ps" "ps_applied_rate ps' = ps_applied_rate ps"
  shows "enforced (put_session p ps' s) h"
  using assms by (auto simp: enforced_def put_session_def split: if_splits)

lemma enforced_subset:
  "enforced s h \<Longrightarrow> map_of (ss_peers s') \<subseteq>\<^sub>m map_of (ss_peers s) \<Longrightarrow> enforced s' h"
  by (auto simp: enforced_def map_le_def dom_def)

lemma enforced_refresh:
  assumes "enforced s h" "bt_get (ss_peers s) p = Some ps" "refresh_session node p now ps = (ps', out)"
  shows "enforced (put_session p ps' s) (enforce_all out h)"
proof (rule enforced_put [OF assms(1)])
  obtain gates rates where h: "h = (gates, rates)" by (cases h)
  have old: "gates p = Some (ps_access ps)" "ps_applied_rate ps \<noteq> None \<Longrightarrow> rates p = ps_applied_rate ps"
    using assms(1,2) by (auto simp: enforced_def h)
  note eq = assms(3) [unfolded refresh_session_eq, THEN sym]
  show "fst (enforce_all out h) p = Some (ps_access ps')"
    using eq old by (auto simp: h)
  show "ps_applied_rate ps' \<noteq> None \<Longrightarrow> snd (enforce_all out h) p = ps_applied_rate ps'"
    using eq old by (auto simp: h)
  show "q \<noteq> p \<Longrightarrow> fst (enforce_all out h) q = fst h q \<and> snd (enforce_all out h) q = snd h q" for q
    using eq by (auto simp: h)
qed

lemma map_le_remove: "(map_of m)(k := None) \<subseteq>\<^sub>m map_of m"
  by (simp add: map_le_def)

lemma peer_step_enforced:
  "peer_step rv now p s s' out \<Longrightarrow> enforced s h \<Longrightarrow> enforced s' (enforce_all out h)"
proof (induction arbitrary: h rule: peer_step.induct)
  case (change s ps ps')
  then show ?case by (simp add: enforced_keep [of s h p ps] calm_def)
next
  case (close s ps "is" ps' out)
  then show ?case
    using close_frame [of p ps "is"] enforce_all_plain [OF plain_close [of p ps "is"]]
    by (simp add: enforced_keep [of s h p ps])
next
  case (buy s ps updates w r ratchets grant ps')
  then show ?case by (cases h) (simp add: enforced_keep [of s _ p ps])
next
  case (leave s ps)
  then show ?case
    using enforced_subset [of s h "s\<lparr>ss_peers := bt_remove p (ss_peers s)\<rparr>"]
    by (simp add: enforce_all_plain [OF plain_give_up] map_le_remove)
next
  case (hold s s' out)
  then show ?case
    using enforce_all_plain [OF park_plain [OF hold(1)], of h] park_peers [OF hold(1)]
      enforced_subset [of s h s'] by (auto simp: map_le_remove)
next
  case (let_go s s' out)
  then show ?case
    using enforce_all_plain [OF drop_parked_plain [OF let_go(1)], of h] held_frame(1) [OF let_go(1)]
    by (simp add: enforced_def)
next
  case (held_due lead_ms s s' out)
  then show ?case
    using enforce_all_plain [OF on_parked_due_plain [OF held_due(1)], of h]
      held_frame(2) [OF held_due(1)] by (simp add: enforced_def)
next
  case (table s s')
  then show ?case by (simp add: enforced_def same_tables_def)
qed (auto simp: enforced_refresh enforce_all_plain intro: enforced_keep)

lemma starting_session_gate:
  "starting_session p policy node budget kept now = (ps, out)
    \<Longrightarrow> ps_access ps = AccessNone \<and> ps_applied_rate ps = None"
  by (auto simp: starting_session_def settle_expiring_in_def Let_def resume_def peer_session_new_def
      close_and_settle_eq case_prod_beta split: option.splits)

lemma connects_enforced:
  assumes "connects now p s s' out" and "enforced s h"
  shows "enforced s' (enforce_all out h)"
proof -
  from assms(1) obtain policy budget s1 kept out1 ps out2 offer rest where
    1: "take_kept p now s = (s1, kept, out1)"
    and 2: "starting_session p policy (ss_node s1) budget kept now = (ps, out2)"
    and 3: "s' = put_session p (ps\<lparr>ps_offer_sent := Some offer\<rparr>) s1"
    and out: "plain_for p rest" "out = out1 @ out2 @ SetAccess p AccessNone # rest"
    unfolding connects_def by blast
  obtain gates rates where h: "h = (gates, rates)" by (cases h)
  have "enforce_all out h = (gates(p \<mapsto> AccessNone), rates)"
    using out enforce_all_plain [OF take_kept_frame(5) [OF 1]]
      enforce_all_plain [OF starting_session_plain [OF 2]] by (simp add: h enforce_all_plain)
  moreover have "enforced s1 h"
    using enforced_subset [OF assms(2), of s1] by (simp add: take_kept_frame(3) [OF 1] map_le_remove)
  ultimately show ?thesis
    unfolding 3 using starting_session_gate [OF 2]
    by (intro enforced_put [of s1 h]) (simp_all add: h)
qed

lemma core_steps_enforced:
  "core_steps rv now s s' out \<Longrightarrow> enforced s h \<Longrightarrow> enforced s' (enforce_all out h)"
  by (induction rule: core_steps.induct) (simp_all add: peer_step_enforced connects_enforced)

subsection \<open>No channel a peer paid on is dropped without being settled\<close>

definition held_channels :: "Sessions \<Rightarrow> PubKey \<Rightarrow> ChannelId set" where
  "held_channels s p =
     (case bt_get (ss_peers s) p of None \<Rightarrow> {} | Some ps \<Rightarrow> channel_ids ps)
     \<union> (case bt_get (ss_parked s) p of None \<Rightarrow> {} | Some pk \<Rightarrow> channel_ids (pk_session pk))"

definition settled_channels :: "PubKey \<Rightarrow> Action list \<Rightarrow> ChannelId set" where
  "settled_channels p out = {i. \<exists>e. SettleChannel p i e \<in> set out}"

lemma settled_append [simp]:
  "settled_channels p (out1 @ out2) = settled_channels p out1 \<union> settled_channels p out2"
  by (auto simp: settled_channels_def)

lemma settled_actions [simp]: "settled_channels p (settle_actions p xs) = fst ` set xs"
  by (force simp: settled_channels_def settle_actions_def)

lemma remove_first_keeps: "x \<in> set xs \<Longrightarrow> \<not> P x \<Longrightarrow> x \<in> set (remove_first P xs)"
  by (induction xs) auto

lemma grant_close_all_keeps:
  "c \<in> set (gs_channels g) \<Longrightarrow> ic_id c \<notin> set is \<Longrightarrow> c \<in> set (gs_channels (fst (grant_close_all g is)))"
proof (induction "is" arbitrary: g)
  case (Cons i "is")
  then show ?case
    by (simp add: case_prod_beta Let_def grant_close_channel_channels remove_first_keeps)
qed simp

lemma close_conserves:
  "channel_ids ps \<subseteq> channel_ids (fst (close_and_settle p ps is))
     \<union> settled_channels p (snd (close_and_settle p ps is))"
proof
  fix i assume "i \<in> channel_ids ps"
  then obtain c where c: "c \<in> set (gs_channels (ps_grant ps))" "i = ic_id c"
    by (auto simp: channel_ids_def)
  have "fst ` set (snd (grant_close_all (ps_grant ps) is)) = set is"
    using arg_cong [OF grant_close_all_ids, of set] by simp
  with c show "i \<in> channel_ids (fst (close_and_settle p ps is))
      \<union> settled_channels p (snd (close_and_settle p ps is))"
    using grant_close_all_keeps [of c "ps_grant ps" "is"]
    by (auto simp: close_and_settle_eq channel_ids_def)
qed

lemma discard_settles: "channel_ids ps \<subseteq> settled_channels p (snd (discard p ps))"
proof -
  have "fst ` set (snd (grant_close_all g is)) = set is" for g "is"
    using arg_cong [OF grant_close_all_ids, of set] by simp
  then show ?thesis by (simp add: discard_def close_and_settle_eq channel_ids_def)
qed

lemma give_up_settles: "channel_ids ps \<subseteq> settled_channels p (give_up p ps now)"
  using discard_settles [of ps p] by (auto simp: give_up_def)

lemma held_put [simp]: "bt_get (ss_parked s) p = None \<Longrightarrow> held_channels (put_session p ps s) p = channel_ids ps"
  by (simp add: held_channels_def put_session_def)

lemma held_get: "bt_get (ss_peers s) p = Some ps \<Longrightarrow> bt_get (ss_parked s) p = None
    \<Longrightarrow> held_channels s p = channel_ids ps"
  by (simp add: held_channels_def)

definition conserves :: "PubKey \<Rightarrow> Sessions \<Rightarrow> Sessions \<Rightarrow> Action list \<Rightarrow> bool" where
  "conserves p s s' out = (held_channels s p \<subseteq> held_channels s' p \<union> settled_channels p out)"

lemma conserves_replace:
  assumes "sessions_wf s" "bt_get (ss_peers s) p = Some ps"
    and "channel_ids ps \<subseteq> channel_ids ps' \<union> settled_channels p out"
  shows "conserves p s (put_session p ps' s) out"
  using sessions_wf_get [OF assms(1,2)] assms(2,3) by (simp add: conserves_def held_get)

lemma end_reservation_channels [simp]: "gs_channels (grant_end_reservation g) = gs_channels g"
  by (simp add: grant_end_reservation_def grant_pause_eq split: option.splits)

lemma park_conserves: "sessions_wf s \<Longrightarrow> park p now s = (s', out) \<Longrightarrow> conserves p s s' out"
proof (cases "bt_get (ss_peers s) p")
  case (Some ps)
  assume wf: "sessions_wf s" and park: "park p now s = (s', out)"
  let ?ps = "ps\<lparr>ps_grant := grant_end_reservation (ps_grant ps)\<rparr>"
  have ids: "channel_ids ?ps = channel_ids ps" by (simp add: channel_ids_def)
  have "held_channels s p = channel_ids ps"
    using Some sessions_wf_get [OF wf Some] by (simp add: held_get)
  then show ?thesis
    using park Some ids discard_settles [of ?ps p]
    by (auto simp: park_def Let_def conserves_def held_channels_def split: if_splits)
qed (simp add: park_def conserves_def)

lemma drop_parked_conserves: "drop_parked p s = (s', out) \<Longrightarrow> conserves p s s' out"
  using discard_settles
  by (fastforce simp: drop_parked_def conserves_def held_channels_def split: option.splits)

lemma on_parked_conserves:
  "on_parked p (settle_expiring_in p now l) s = (s', out) \<Longrightarrow> conserves p s s' out"
proof (cases "bt_get (ss_parked s) p")
  case (Some pk)
  assume "on_parked p (settle_expiring_in p now l) s = (s', out)"
  with Some close_conserves [of "pk_session pk" p
      "grant_expiring_channels (ps_grant (pk_session pk)) now l"]
  show ?thesis
    by (auto simp: on_parked_def settle_expiring_in_def conserves_def held_channels_def case_prod_beta)
qed (auto simp: on_parked_def conserves_def)

lemma peer_step_conserves:
  "peer_step rv now p s s' out \<Longrightarrow> sessions_wf s \<Longrightarrow> conserves p s s' out"
proof (induction rule: peer_step.induct)
  case (seq s s1 out1 s2 out2)
  then show ?case using peer_step_wf [OF seq(1)] by (auto simp: conserves_def)
next
  case (change s ps ps')
  then show ?case
    by (intro conserves_replace) (auto simp: calm_def calm_grant_def channel_ids_def)
next
  case (close s ps "is" ps' out)
  then show ?case using close_conserves [of ps p "is"] by (intro conserves_replace) auto
next
  case (gate s ps ps' out)
  then show ?case
    using refresh_session_frame(2) [of "ss_node s" p now ps]
    by (intro conserves_replace) (auto simp: channel_ids_def)
next
  case (buy s ps updates w r ratchets grant ps')
  have "ic_id ` set (apply_ratchets ratchets cs) = ic_id ` set cs" for cs
    by (metis apply_ratchets_ids list.set_map)
  with buy show ?case by (intro conserves_replace) (auto simp: channel_ids_def)
next
  case (revive s ps)
  then show ?case by (intro conserves_replace) (auto simp: channel_ids_def)
next
  case (leave s ps)
  then show ?case
    using sessions_wf_get [OF leave(2,1)] give_up_settles [of ps p now]
    by (auto simp: conserves_def held_get held_channels_def)
next
  case (table s s')
  then show ?case by (simp add: conserves_def held_channels_def same_tables_def)
next
  case (hold s s' out)
  then show ?case by (blast intro: park_conserves)
next
  case (let_go s s' out)
  then show ?case by (blast intro: drop_parked_conserves)
next
  case (held_due lead_ms s s' out)
  then show ?case by (blast intro: on_parked_conserves)
qed (simp_all add: conserves_def)

lemma peer_step_conserves_all:
  assumes "peer_step rv now p s s' out" "sessions_wf s"
  shows "conserves q s s' out"
proof (cases "q = p")
  case False
  then show ?thesis
    using peer_step_untouched [OF assms(1)]
    by (simp add: conserves_def held_channels_def untouched_def)
qed (use peer_step_conserves [OF assms] in simp)

lemma restart_ids [simp]: "ic_id ` set (gs_channels (grant_restart g now)) = ic_id ` set (gs_channels g)"
  by (simp add: grant_restart_eq grant_restore_def Let_def image_image)

text \<open>What the connecting peer left behind is taken up again or settled.\<close>

lemma take_kept_conserves:
  assumes "sessions_wf s" "take_kept p now s = (s1, kept, out)"
  shows "held_channels s p \<subseteq> (case kept of None \<Rightarrow> {} | Some ps \<Rightarrow> channel_ids ps) \<union> settled_channels p out"
proof (cases "bt_get (ss_peers s) p")
  case (Some ps)
  have "held_channels s p = channel_ids ps" "bt_get (ss_parked s) p = None"
    using Some sessions_wf_get [OF assms(1) Some] by (simp_all add: held_get)
  then show ?thesis
    using assms(2) Some give_up_settles [of ps p now]
    by (auto simp: take_kept_def Let_def split: if_splits option.splits)
next
  case None
  show ?thesis
  proof (cases "bt_get (ss_parked s) p")
    case (Some pk)
    then show ?thesis
      using assms(2) None discard_settles [of "pk_session pk" p]
      by (auto simp: take_kept_def Let_def held_channels_def split: if_splits)
  qed (use None in \<open>simp add: held_channels_def\<close>)
qed

lemma starting_session_conserves:
  assumes "starting_session p policy node budget kept now = (ps, out)"
  shows "(case kept of None \<Rightarrow> {} | Some k \<Rightarrow> channel_ids k)
    \<subseteq> channel_ids (ps\<lparr>ps_offer_sent := Some offer\<rparr>) \<union> settled_channels p out"
proof (cases kept)
  case (Some k)
  let ?r = "resume k policy now"
  have "channel_ids k = channel_ids ?r"
    by (simp add: channel_ids_def resume_def)
  then show ?thesis
    using assms Some close_conserves [of ?r p
        "grant_expiring_channels (ps_grant ?r) now (settle_lead_ms node)"]
    by (auto simp: starting_session_def settle_expiring_in_def Let_def case_prod_beta channel_ids_def)
qed simp

lemma connects_conserves:
  assumes "connects now p s s' out" and wf: "sessions_wf s"
  shows "conserves q s s' out"
proof (cases "q = p")
  case True
  from assms(1) obtain policy budget s1 kept out1 ps out2 offer rest where
    1: "take_kept p now s = (s1, kept, out1)"
    and 2: "starting_session p policy (ss_node s1) budget kept now = (ps, out2)"
    and 3: "s' = put_session p (ps\<lparr>ps_offer_sent := Some offer\<rparr>) s1"
    and out: "out = out1 @ out2 @ SetAccess p AccessNone # rest"
    unfolding connects_def by blast
  have "held_channels s' p = channel_ids (ps\<lparr>ps_offer_sent := Some offer\<rparr>)"
    using take_kept_wf(2) [OF wf 1] by (simp add: 3)
  with True out show ?thesis
    using take_kept_conserves [OF wf 1] starting_session_conserves [OF 2, of offer]
    by (auto simp: conserves_def)
next
  case False
  then show ?thesis
    using connects_local(1) [OF assms(1)] by (simp add: conserves_def held_channels_def untouched_def)
qed

lemma core_steps_conserves:
  "core_steps rv now s s' out \<Longrightarrow> sessions_wf s \<Longrightarrow> conserves q s s' out"
proof (induction rule: core_steps.induct)
  case (more s s1 out1 p s2 out2)
  then show ?case
    using peer_step_conserves_all [OF more(2) core_steps_wf [OF more(1)], of q]
    by (auto simp: conserves_def)
next
  case (conn s s1 out1 p s2 out2)
  then show ?case
    using connects_conserves [OF conn(2) core_steps_wf [OF conn(1)], of q]
    by (auto simp: conserves_def)
qed (simp add: conserves_def)

subsection \<open>The weight is fixed for a session\<close>

definition same_weight :: "PubKey \<Rightarrow> Sessions \<Rightarrow> Sessions \<Rightarrow> bool" where
  "same_weight p s s' =
     (case bt_get (ss_peers s') p of
        None \<Rightarrow> True
      | Some ps' \<Rightarrow> (case bt_get (ss_peers s) p of None \<Rightarrow> False | Some ps \<Rightarrow> ps_weight ps' = ps_weight ps))"

lemma same_weight_put:
  "bt_get (ss_peers s) p = Some ps \<Longrightarrow> ps_weight ps' = ps_weight ps \<Longrightarrow> same_weight p s (put_session p ps' s)"
  by (simp add: same_weight_def)

lemma peer_step_weight: "peer_step rv now p s s' out \<Longrightarrow> same_weight p s s'"
proof (induction rule: peer_step.induct)
  case (seq s s1 out1 s2 out2)
  then show ?case by (auto simp: same_weight_def split: option.splits)
next
  case (close s ps "is" ps' out)
  then show ?case using close_frame(5) [of p ps "is"] by (intro same_weight_put) auto
next
  case (gate s ps ps' out)
  then show ?case
    using refresh_session_frame(5) [of "ss_node s" p now ps] by (intro same_weight_put) auto
next
  case (hold s s' out)
  then show ?case
    using park_peers [OF hold(1)] by (auto simp: same_weight_def split: option.splits)
next
  case (let_go s s' out)
  then show ?case
    using held_frame(1) [OF let_go(1)] by (auto simp: same_weight_def split: option.splits)
next
  case (held_due lead_ms s s' out)
  then show ?case
    using held_frame(2) [OF held_due(1)] by (auto simp: same_weight_def split: option.splits)
next
  case (change s ps ps')
  then show ?case by (intro same_weight_put) (auto simp: calm_def)
qed (auto simp: same_weight_def same_tables_def split: option.splits)

end
