(* ===== verification/Session_Properties.thy ===== *)
theory Session_Properties
  imports Session_Invariants
begin

text \<open>
  What holds of a node at any point of its run (\<open>crates/tollgate-core/src/session/core.rs\<close>): the
  invariants of \<open>Session_Invariants\<close> for every state \<open>handle\<close> and the operator's operations can
  reach, and the behaviour of the handlers a peer's money depends on.
\<close>

subsection \<open>Runs of a node\<close>

text \<open>
  A state a node reaches from its start and everything it has told the host so far. With the flag
  off, no event in the run takes a session that is ending back to \<open>Established\<close>.
\<close>

inductive session_run :: "bool \<Rightarrow> Sessions \<Rightarrow> Action list \<Rightarrow> bool" for rv where
  start: "session_run rv (sessions_new local node buyer_policy) []"
| event: "session_run rv s out \<Longrightarrow> rv \<or> \<not> revives s e
          \<Longrightarrow> session_run rv (fst (handle e now s)) (out @ snd (handle e now s))"
| override: "session_run rv s out
             \<Longrightarrow> session_run rv (fst (set_peer_policy p policy now s))
                   (out @ snd (set_peer_policy p policy now s))"
| buyer: "session_run rv s out \<Longrightarrow> session_run rv (set_buyer_policy bp s) out"
| forgotten: "session_run rv s out
              \<Longrightarrow> session_run rv (fst (forget p now s)) (out @ snd (forget p now s))"

lemma start_ok:
  "sessions_wf (sessions_new local node bp)" "within_capacity (sessions_new local node bp)"
  "enforced (sessions_new local node bp) h"
  by (simp_all add: sessions_new_def sessions_wf_def within_capacity_def total_reserved_def
      bt_sum_def enforced_def split: option.splits)

text \<open>A predicate kept by the steps holds at every point of a run.\<close>

lemma session_run_induct:
  assumes "session_run rv s out"
    and "\<And>l n b. P (sessions_new l n b) []"
    and "\<And>s out now s' out'. P s out \<Longrightarrow> core_steps rv now s s' out' \<Longrightarrow> P s' (out @ out')"
  shows "P s out"
  using assms(1)
proof (induction rule: session_run.induct)
  case (event s out e now)
  then show ?case using assms(3) handle_core_steps by blast
next
  case (override s out p policy now)
  then show ?case using assms(3) core_set_peer_policy by blast
next
  case (buyer s out bp)
  then show ?case using assms(3) [OF _ core_set_buyer_policy, of s out] by simp
next
  case (forgotten s out p now)
  then show ?case using assms(3) core_forget by blast
qed (rule assms(2))

lemma session_run_wf: "session_run rv s out \<Longrightarrow> sessions_wf s"
  by (rule session_run_induct [where P = "\<lambda>s _. sessions_wf s"])
     (auto simp: start_ok intro: core_steps_wf)

lemma session_run_capacity: "session_run False s out \<Longrightarrow> sessions_wf s \<and> within_capacity s"
  by (rule session_run_induct [where P = "\<lambda>s _. sessions_wf s \<and> within_capacity s" and rv = False])
     (auto simp: start_ok intro: core_steps_wf core_steps_capacity)

lemma session_run_enforced:
  "session_run rv s out \<Longrightarrow> enforced s (enforce_all out (\<lambda>_. None, \<lambda>_. None))"
  by (rule session_run_induct [where P = "\<lambda>s out. enforced s (enforce_all out (\<lambda>_. None, \<lambda>_. None))"])
     (auto simp: start_ok intro: core_steps_enforced)

subsection \<open>Loops over the sessions\<close>

lemma for_each_session_get:
  "distinct ks \<Longrightarrow> bt_get (ss_peers (fst (for_each (\<lambda>k. on_session k (f k)) ks s))) p
    = (if p \<in> set ks then map_option (\<lambda>ps. fst (f p ps)) (bt_get (ss_peers s) p)
       else bt_get (ss_peers s) p)"
proof (induction ks arbitrary: s)
  case (Cons k ks)
  then show ?case
    by (cases "bt_get (ss_peers s) k"; cases "bt_get (ss_peers s) p")
       (auto simp: and_then_fst_snd on_session_eq put_session_def)
qed simp

lemma for_each_session_frame [simp]:
  "ss_node (fst (for_each (\<lambda>k. on_session k (f k)) ks s)) = ss_node s"
  "ss_parked (fst (for_each (\<lambda>k. on_session k (f k)) ks s)) = ss_parked s"
  by (induction ks arbitrary: s) (auto simp: and_then_fst_snd on_session_eq split: option.splits)

lemma for_each_session_out:
  "distinct ks \<Longrightarrow> snd (for_each (\<lambda>k. on_session k (f k)) ks s)
    = concat (map (\<lambda>k. case bt_get (ss_peers s) k of None \<Rightarrow> [] | Some ps \<Rightarrow> snd (f k ps)) ks)"
proof (induction ks arbitrary: s)
  case (Cons k ks)
  have other: "map (\<lambda>q. case bt_get (ss_peers (put_session k ps s)) q of None \<Rightarrow> [] | Some ps \<Rightarrow> snd (f q ps)) ks
      = map (\<lambda>q. case bt_get (ss_peers s) q of None \<Rightarrow> [] | Some ps \<Rightarrow> snd (f q ps)) ks" for ps
    using Cons.prems by (auto simp: put_session_def)
  show ?case
    using Cons by (cases "bt_get (ss_peers s) k") (simp_all add: and_then_fst_snd on_session_eq other)
qed simp

lemma peer_keys: "bt_get m (p :: PubKey) = Some v \<Longrightarrow> p \<in> set (bt_keys m)"
  by (auto simp: bt.set_keys)

subsection \<open>Only the peer an event is about\<close>

lemma note_sent_untouched:
  "\<forall>a \<in> set out. action_peer a = p \<Longrightarrow> q \<noteq> p \<Longrightarrow> untouched q s (note_sent out now s)"
proof (induction out arbitrary: s)
  case (Cons a out)
  let ?s = "case sent_to a of None \<Rightarrow> s | Some k \<Rightarrow> update_session k (\<lambda>ps. ps\<lparr>ps_last_sent := now\<rparr>) s"
  have "sent_to a = Some k \<Longrightarrow> k = p" for k
    using Cons.prems by (cases a) auto
  then have "untouched q s ?s"
    using Cons.prems by (auto simp: untouched_def update_session_eq put_session_def split: option.splits)
  moreover have "untouched q ?s (note_sent out now ?s)" using Cons by simp
  ultimately show ?case by (auto intro: untouched_trans)
qed (simp add: untouched_def)

lemma superseded_peer: "superseded s e = Some a \<Longrightarrow> event_peer e = Some (action_peer a)"
  by (cases e) (auto split: if_splits)

lemma handle_event_local:
  assumes "event_peer e = Some p"
  shows "q \<noteq> p \<Longrightarrow> untouched q s (fst (handle_event e now s))"
    and "a \<in> set (snd (handle_event e now s)) \<Longrightarrow> action_peer a = p"
proof -
  consider b where "e = PeerConnected p b" | "\<forall>b. e \<noteq> PeerConnected p b" by blast
  then have "(q \<noteq> p \<longrightarrow> untouched q s (fst (handle_event e now s)))
    \<and> (a \<in> set (snd (handle_event e now s)) \<longrightarrow> action_peer a = p)"
  proof cases
    case 1
    from on_connected_steps [of now p s True b] show ?thesis
    proof (elim disjE exE conjE)
      fix s1 out1 out2
      assume c: "connects now p s s1 out1"
        and st: "peer_step True now p s1 (fst (on_connected p b now s)) out2"
        and out: "snd (on_connected p b now s) = out1 @ out2"
      have "q \<noteq> p \<Longrightarrow> untouched q s (fst (on_connected p b now s))"
        by (rule untouched_trans [OF connects_local(1) [OF c] peer_step_untouched [OF st]])
      then show ?thesis
        using 1 out connects_local(2) [OF c, of a] peer_step_actions [OF st, of a] by auto
    qed (use 1 in \<open>auto simp: untouched_def dest: plain_for_peer\<close>)
  next
    case 2
    then show ?thesis
      using step_handle_event [OF assms, of True s now] peer_step_untouched peer_step_actions by blast
  qed
  then show "q \<noteq> p \<Longrightarrow> untouched q s (fst (handle_event e now s))"
    and "a \<in> set (snd (handle_event e now s)) \<Longrightarrow> action_peer a = p" by auto
qed

text \<open>C10: An event about one peer leaves every other peer as it was, live or held, and every
  action it gives rise to is addressed to the peer it is about.\<close>

theorem handle_isolated:
  assumes "event_peer event = Some p" and "q \<noteq> p"
  shows "bt_get (ss_peers (fst (handle event now s))) q = bt_get (ss_peers s) q
    \<and> bt_get (ss_parked (fst (handle event now s))) q = bt_get (ss_parked s) q
    \<and> list_all (\<lambda>a. action_peer a = p) (snd (handle event now s))"
proof (cases "superseded s event")
  case (Some a)
  with assms superseded_peer [OF Some] show ?thesis by (simp add: handle_def)
next
  case None
  let ?s1 = "fst (handle_event event now s)" and ?out = "snd (handle_event event now s)"
  have out: "\<forall>a \<in> set ?out. action_peer a = p"
    using handle_event_local(2) [OF assms(1)] by blast
  have "untouched q s (note_sent ?out now ?s1)"
    using untouched_trans [OF handle_event_local(1) [OF assms] note_sent_untouched [OF out assms(2)]] .
  moreover from assms have "event \<noteq> Tick" by auto
  ultimately show ?thesis
    using None out by (simp add: handle_def case_prod_beta Let_def untouched_def list_all_iff)
qed

subsection \<open>At every point of a run\<close>

text \<open>C1: While no event brings an ending session back, what the live sessions have reserved
  between them never exceeds the rate this node can deliver.\<close>

theorem reserved_within_capacity:
  assumes "session_run False s out" and "gp_max_rate (np_grants (ss_node s)) = Some m"
  shows "total_reserved s \<le> unat m"
  using session_run_capacity [OF assms(1)] assms(2) by (simp add: within_capacity_def)

text \<open>C37: At every point of a run, whatever the events, a peer is in the table at most once and
  under its own key, live or held, never both; every session has been sent an Offer; no budget is
  overdrawn and no channel listed twice; and a session that is held sets nothing aside.\<close>

theorem sessions_always_wf:
  assumes "session_run True s out"
  shows "sessions_wf s"
  by (rule session_run_wf [OF assms])

text \<open>C7: If the host carries out every action in order, the gate it holds for each connected peer
  is the access level core has recorded for it, and the shaping rate it holds is the one core has
  recorded, as soon as one is: core never changes its mind without saying so.\<close>

theorem host_enforces_record:
  assumes "session_run True s out" and "bt_get (ss_peers s) p = Some ps"
  shows "fst (enforce_all out (\<lambda>_. None, \<lambda>_. None)) p = Some (ps_access ps)
    \<and> (ps_applied_rate ps \<noteq> None
        \<longrightarrow> snd (enforce_all out (\<lambda>_. None, \<lambda>_. None)) p = ps_applied_rate ps)"
  using session_run_enforced [OF assms(1)] assms(2) by (simp add: enforced_def)

text \<open>C3: Whatever happens, a channel a peer pays us on is still held afterwards, by its live
  session or its held one, or this event has the host settle it: no channel with value on it is
  forgotten.\<close>

theorem no_channel_dropped:
  assumes "session_run True s out"
  shows "held_channels s p \<subseteq>
    held_channels (fst (handle event now s)) p \<union> settled_channels p (snd (handle event now s))"
  using core_steps_conserves [OF handle_core_steps [of True s event now] session_run_wf [OF assms]]
  by (simp add: conserves_def)

lemma same_weight_trans: "same_weight q s s1 \<Longrightarrow> same_weight q s1 s2 \<Longrightarrow> same_weight q s s2"
  by (auto simp: same_weight_def split: option.splits)

lemma peer_step_weight_all: "peer_step rv now p s s' out \<Longrightarrow> same_weight q s s'"
  using peer_step_weight [of rv now p s s' out] peer_step_untouched [of rv now p s s' out q]
  by (cases "q = p") (auto simp: same_weight_def untouched_def split: option.splits)

lemma for_each_weight:
  assumes "\<And>k s. peer_step rv now k s (fst (f k s)) (snd (f k s))"
  shows "same_weight q s (fst (for_each f ks s))"
proof (induction ks arbitrary: s)
  case (Cons k ks)
  from same_weight_trans [OF peer_step_weight_all [OF assms] Cons.IH] show ?case
    by (simp add: and_then_fst_snd)
qed (simp add: same_weight_def split: option.splits)

lemma note_sent_weight: "same_weight q s (note_sent out now s)"
proof (induction out arbitrary: s)
  case (Cons a out)
  let ?s = "case sent_to a of None \<Rightarrow> s | Some k \<Rightarrow> update_session k (\<lambda>ps. ps\<lparr>ps_last_sent := now\<rparr>) s"
  have "same_weight q s ?s"
    by (auto simp: same_weight_def update_session_eq put_session_def split: option.splits)
  from same_weight_trans [OF this Cons.IH] show ?case by simp
qed (simp add: same_weight_def split: option.splits)

lemma on_tick_weight: "same_weight q s (fst (on_tick now s))"
proof -
  have "same_weight q s (fst (expire_parked now s))" for s
    unfolding expire_parked_def Let_def and_then_fst_snd
    by (rule same_weight_trans [OF for_each_weight [of True now] for_each_weight [of True now]])
       (auto intro: peer_step.held_due [OF prod.collapse [symmetric]]
         peer_step.let_go [OF prod.collapse [symmetric]])
  moreover have "same_weight q s (fst (for_each (tick_peer now) ks s))" for ks
    by (rule for_each_weight) (rule stepwiseD [OF stepwise_tick_peer])
  ultimately show ?thesis
    unfolding on_tick_def and_then_fst_snd by (blast intro: same_weight_trans)
qed

lemma keep_alive_weight: "same_weight q s (fst (keep_alive now s))"
  unfolding keep_alive_def Let_def
  by (rule for_each_weight [of True now]) (intro step_calm keep_alive_session_calm)

lemma handle_event_weight:
  assumes "\<And>b. event \<noteq> PeerConnected q b"
  shows "same_weight q s (fst (handle_event event now s))"
proof (cases "event_peer event")
  case None
  then show ?thesis by (cases event) (simp_all add: on_tick_weight)
next
  case (Some p)
  show ?thesis
  proof (cases "\<exists>b. event = PeerConnected p b")
    case True
    then have "untouched q s (fst (handle_event event now s))"
      using handle_event_local(1) [OF Some, of q] assms by auto
    then show ?thesis by (simp add: same_weight_def untouched_def split: option.splits)
  next
    case False
    then show ?thesis using step_handle_event [OF Some, of True] peer_step_weight_all by blast
  qed
qed

text \<open>The from-payer weight a peer is drawn at is fixed for its session: nothing but a new
  connection of that peer changes it, and nothing else starts a session.\<close>

lemma weight_fixed_for_session:
  assumes "\<And>b. event \<noteq> PeerConnected p b"
    and "bt_get (ss_peers (fst (handle event now s))) p = Some ps'"
  shows "\<exists>ps. bt_get (ss_peers s) p = Some ps \<and> ps_weight ps' = ps_weight ps"
proof -
  let ?s1 = "fst (handle_event event now s)" and ?out = "snd (handle_event event now s)"
  have "same_weight p s (note_sent ?out now ?s1)"
    by (rule same_weight_trans [OF handle_event_weight [OF assms(1)] note_sent_weight])
  then have "same_weight p s (fst (handle event now s))"
    using same_weight_trans [OF _ keep_alive_weight]
    by (auto simp: handle_def case_prod_beta Let_def and_then_fst_snd push_def same_weight_def [of p s s]
        split: option.splits)
  with assms(2) show ?thesis by (auto simp: same_weight_def split: option.splits)
qed


subsection \<open>Examples\<close>

text \<open>A list of events, handled in order.\<close>

fun run_events :: "(Event \<times> Millis) list \<Rightarrow> Sessions \<Rightarrow> Sessions \<times> Action list" where
  "run_events [] s = (s, [])"
| "run_events ((e, now) # es) s = and_then (handle e now) (run_events es) s"

fun no_revival :: "(Event \<times> Millis) list \<Rightarrow> Sessions \<Rightarrow> bool" where
  "no_revival [] s = True"
| "no_revival ((e, now) # es) s = (\<not> revives s e \<and> no_revival es (fst (handle e now s)))"

lemma session_run_events:
  "session_run rv s out \<Longrightarrow> rv \<or> no_revival es s
    \<Longrightarrow> session_run rv (fst (run_events es s)) (out @ snd (run_events es s))"
proof (induction es arbitrary: s out)
  case (Cons x es)
  obtain e now where x: "x = (e, now)" by (cases x)
  have "session_run rv (fst (handle e now s)) (out @ snd (handle e now s))"
    using Cons.prems by (intro session_run.event) (auto simp: x)
  from Cons.IH [OF this] Cons.prems(2) show ?case by (auto simp: x and_then_fst_snd)
qed simp

definition ex_mint :: string where
  "ex_mint = ''mint''"

definition ex_node :: NodePolicy where
  "ex_node = NodePolicy_default\<lparr>np_accepted_mints := [ex_mint],
     np_grants := GrantPolicy_default\<lparr>gp_max_rate := Some 100, gp_min_reserved_rate := 0\<rparr>\<rparr>"

definition ex_start :: Sessions where
  "ex_start = sessions_new (PubKey [1]) ex_node BuyerPolicy_default"

definition ex_peer_a :: PubKey where
  "ex_peer_a = PubKey [2]"

definition ex_peer_b :: PubKey where
  "ex_peer_b = PubKey [3]"

definition ex_topup :: "u8 \<Rightarrow> u64 \<Rightarrow> TopUp" where
  "ex_topup i cumulative =
     \<lparr>topup_updates = [\<lparr>upd_channel_id = ChannelId [i], upd_cumulative = cumulative,
                        upd_signature = Signature []\<rparr>],
      topup_window_ms = 10000, topup_reserved_rate = 80\<rparr>"

text \<open>A peer that connects, opens a channel and reserves most of the capacity.\<close>

definition ex_paying :: "PubKey \<Rightarrow> u8 \<Rightarrow> Millis \<Rightarrow> (Event \<times> Millis) list" where
  "ex_paying p i now =
     [(PeerConnected p None, now),
      (IncomingFundingVerified p (ChannelId [i]) 1000 None ex_mint, now),
      (MessageReceived p (MTopUp (ex_topup i 500)), now)]"

definition ex_up :: Sessions where
  "ex_up = fst (run_events (ex_paying ex_peer_a 1 0) ex_start)"

definition ex_up_out :: "Action list" where
  "ex_up_out = snd (run_events (ex_paying ex_peer_a 1 0) ex_start)"

lemma ex_start_run: "session_run rv ex_start []"
  unfolding ex_start_def by (rule session_run.start)

lemma ex_run: "session_run rv ex_up ex_up_out"
proof -
  have "no_revival (ex_paying ex_peer_a 1 0) ex_start" by code_simp
  with session_run_events [OF ex_start_run, of rv "ex_paying ex_peer_a 1 0"] show ?thesis
    by (simp add: ex_up_def ex_up_out_def)
qed

lemma ex_up_node: "gp_max_rate (np_grants (ss_node ex_up)) = Some 100"
  by code_simp

lemma ex_up_live: "map_option ps_phase (bt_get (ss_peers ex_up) ex_peer_a) = Some Established"
  by code_simp

lemma ex_up_reserved: "total_reserved ex_up = 80"
  by code_simp

lemma ex_up_ticks:
  "map_option ps_phase (bt_get (ss_peers (fst (handle Tick 25000 ex_up))) ex_peer_a) = Some Established"
  by code_simp

theorem handle_isolated_witness:
  "ex_peer_b \<noteq> ex_peer_a
    \<and> bt_get (ss_peers (fst (handle (PeerDisconnected ex_peer_b) 5 ex_up))) ex_peer_a = bt_get (ss_peers ex_up) ex_peer_a
    \<and> bt_get (ss_parked (fst (handle (PeerDisconnected ex_peer_b) 5 ex_up))) ex_peer_a = bt_get (ss_parked ex_up) ex_peer_a
    \<and> list_all (\<lambda>a. action_peer a = ex_peer_b) (snd (handle (PeerDisconnected ex_peer_b) 5 ex_up))"
  using handle_isolated [of "PeerDisconnected ex_peer_b" ex_peer_b ex_peer_a 5 ex_up]
  by (simp add: ex_peer_a_def ex_peer_b_def)

theorem reserved_within_capacity_witness:
  "session_run False ex_up ex_up_out \<and> total_reserved ex_up = 80 \<and> total_reserved ex_up \<le> unat (100 :: u64)"
  using reserved_within_capacity [OF ex_run ex_up_node] ex_up_reserved ex_run by simp

theorem sessions_always_wf_witness: "session_run True ex_up ex_up_out \<and> sessions_wf ex_up"
  using sessions_always_wf [OF ex_run] ex_run by simp

theorem host_enforces_record_witness:
  "\<exists>ps. bt_get (ss_peers ex_up) ex_peer_a = Some ps
    \<and> fst (enforce_all ex_up_out (\<lambda>_. None, \<lambda>_. None)) ex_peer_a = Some (ps_access ps)"
  using host_enforces_record [OF ex_run] ex_up_live by (cases "bt_get (ss_peers ex_up) ex_peer_a") auto

theorem no_channel_dropped_witness:
  "held_channels ex_up ex_peer_a = {ChannelId [1]}
    \<and> held_channels ex_up ex_peer_a \<subseteq> held_channels (fst (handle (PeerDisconnected ex_peer_a) 9 ex_up)) ex_peer_a
        \<union> settled_channels ex_peer_a (snd (handle (PeerDisconnected ex_peer_a) 9 ex_up))"
proof -
  have "held_channels ex_up ex_peer_a = {ChannelId [1]}" by code_simp
  with no_channel_dropped [OF ex_run, of ex_peer_a "PeerDisconnected ex_peer_a" 9] show ?thesis by simp
qed

lemma weight_fixed_for_session_witness:
  "\<exists>ps ps'. bt_get (ss_peers (fst (handle Tick 25000 ex_up))) ex_peer_a = Some ps'
    \<and> bt_get (ss_peers ex_up) ex_peer_a = Some ps \<and> ps_weight ps' = ps_weight ps"
  using weight_fixed_for_session [of Tick ex_peer_a 25000 ex_up] ex_up_ticks by auto


subsection \<open>An ending session brought back\<close>

definition ex_revived :: "(Event \<times> Millis) list" where
  "ex_revived =
     ex_paying ex_peer_a 1 0 @ [(MessageReceived ex_peer_a (MDisconnect \<lparr>disc_reason = OtherReason\<rparr>), 2)]
     @ ex_paying ex_peer_b 2 3 @ [(IncomingFundingVerified ex_peer_a (ChannelId [3]) 1000 None ex_mint, 4)]"


end
