(* ===== verification/Session_Behaviour.thy ===== *)
theory Session_Behaviour
  imports Session_Properties
begin

text \<open>
  What single events do, step by step: a purchase accepted or refused, a channel that keeps failing
  verification, a peer that goes and comes back, a funding answer that comes late, the node winding
  down (\<open>crates/tollgate-core/src/session/core.rs\<close>).
\<close>

subsection \<open>Purchases\<close>

lemma refresh_get:
  "bt_get (ss_peers s) p = Some ps \<Longrightarrow>
    bt_get (ss_peers (fst (refresh p now s))) p = Some (fst (refresh_session (ss_node s) p now ps))"
  by (simp add: refresh_def on_session_eq)

lemma grant_checked_frame [simp]:
  "grant_wf (grant_topup_checked g now) = grant_wf g"
  "gs_authorized (grant_topup_checked g now) = gs_authorized g"
  "gs_deadline (grant_topup_checked g now) = gs_deadline g"
  "gs_reserved_rate (grant_topup_checked g now) = gs_reserved_rate g"
  "gs_channels (grant_topup_checked g now) = gs_channels g"
  "grant_remaining (grant_topup_checked g now) = grant_remaining g"
  by (simp_all add: grant_topup_checked_def)

lemma evaluate_checked [simp]:
  "evaluate_topup (grant_topup_checked g now) a us w r = evaluate_topup g a us w r"
proof -
  have "check_updates (grant_topup_checked g now) us rs n = check_updates g us rs n" for us rs n
    by (induction us arbitrary: rs n)
       (simp_all add: grant_channel_def grant_topup_checked_def split: option.splits)
  then show ?thesis by (simp add: evaluate_topup_def Let_def split: sum.split)
qed

lemma on_topup_accept:
  assumes "bt_get (ss_peers s) p = Some ps" and "too_soon s p m now = None"
    and "evaluate_topup (ps_grant ps) (admission s p) (topup_updates m) (topup_window_ms m)
      (topup_reserved_rate m) = VAccept rs grant"
  shows "on_topup p m now s =
    and_then (on_session p (accept_topup p m rs grant now)) (refresh p now)
      (put_session p (ps\<lparr>ps_grant := grant_topup_checked (ps_grant ps) now\<rparr>) s)"
  using assms by (simp add: on_topup_def admission_def [symmetric] Let_def update_session_eq)

text \<open>The channels a list of actions has the host settle, in order.\<close>

fun settled_list :: "Action list \<Rightarrow> ChannelId list" where
  "settled_list [] = []"
| "settled_list (SettleChannel q i e # out) = i # settled_list out"
| "settled_list (_ # out) = settled_list out"

lemma settled_list_append [simp]: "settled_list (out1 @ out2) = settled_list out1 @ settled_list out2"
  by (induction out1 rule: settled_list.induct) simp_all

lemma settled_list_actions [simp]: "settled_list (settle_actions p xs) = map fst xs"
  by (induction xs) (auto simp: settle_actions_def)

lemma settled_list_close [simp]: "settled_list (snd (close_and_settle p ps is)) = is"
  by (simp add: close_and_settle_eq grant_close_all_ids)

lemma settled_list_save [simp]: "settled_list (save_budget p ps now) = []"
  by (simp add: save_budget_def)

lemma settled_list_refresh [simp]: "settled_list (snd (refresh p now s)) = []"
  by (simp add: refresh_def on_session_eq refresh_session_eq split: option.split)

lemma filter_not_in_filter:
  "distinct (map f xs) \<Longrightarrow> filter (\<lambda>x. f x \<notin> set (map f (filter P xs))) xs = filter (\<lambda>x. \<not> P x) xs"
  by (rule filter_cong) (auto simp: distinct_map inj_on_def)

lemma grant_close_exhausted:
  "grant_wf g \<Longrightarrow> gs_channels (fst (grant_close_all g (grant_exhausted_channels g)))
    = filter (\<lambda>c. \<not> ic_exhausted c) (gs_channels g)"
  unfolding grant_exhausted_channels_def
  by (simp only: grant_close_all_channels filter_not_in_filter [OF grant_wf_ids])

lemma accept_topup_grant:
  "ps_grant (fst (accept_topup p m rs grant now ps)) =
     fst (grant_close_all (grant_apply (ps_grant ps) rs grant (topup_window_ms m) (topup_reserved_rate m) now)
       (grant_exhausted_channels
         (grant_apply (ps_grant ps) rs grant (topup_window_ms m) (topup_reserved_rate m) now)))"
  by (simp add: accept_topup_def Let_def case_prod_beta close_and_settle_eq)

lemma accept_topup_out:
  "snd (accept_topup p m rs grant now ps) = RecordUpdates p (topup_updates m)
     # tl (snd (accept_topup p m rs grant now ps))"
  "settled_list (snd (accept_topup p m rs grant now ps)) = grant_exhausted_channels
     (grant_apply (ps_grant ps) rs grant (topup_window_ms m) (topup_reserved_rate m) now)"
  by (simp_all add: accept_topup_def Let_def case_prod_beta)

text \<open>C11: A purchase that is admitted is recorded first, before anything is settled; it adds exactly
  what its channels were raised by to the budget, whose deadline never moves closer; the rate
  reserved is the one it asked for; and the channels it filled are the ones closed and settled.\<close>

theorem accepted_topup_effect:
  assumes get: "bt_get (ss_peers s) p = Some ps" and soon: "too_soon s p m now = None"
    and acc: "evaluate_topup (ps_grant ps) (admission s p) (topup_updates m) (topup_window_ms m)
      (topup_reserved_rate m) = VAccept rs grant"
    and wf: "grant_wf (ps_grant ps)"
    and fits: "unat (gs_authorized (ps_grant ps)) + unat grant < 2 ^ 64"
    and g: "g = grant_apply (grant_topup_checked (ps_grant ps) now) rs grant (topup_window_ms m)
      (topup_reserved_rate m) now"
    and ps': "bt_get (ss_peers (fst (on_topup p m now s))) p = Some ps'"
  shows "unat (grant_remaining (ps_grant ps'))
      = unat (grant_remaining (grant_before_grant (grant_topup_checked (ps_grant ps) now) rs
          (topup_reserved_rate m) now)) + unat grant
    \<and> gs_deadline (ps_grant ps') = max (gs_deadline (ps_grant ps)) (millis_add now (topup_window_ms m))
    \<and> gs_reserved_rate (ps_grant ps') = topup_reserved_rate m
    \<and> gs_channels (ps_grant ps') = filter (\<lambda>c. \<not> ic_exhausted c) (gs_channels g)
    \<and> hd (snd (on_topup p m now s)) = RecordUpdates p (topup_updates m)
    \<and> map ic_id (filter ic_exhausted (gs_channels g))
        = settled_list (snd (on_topup p m now s))"
proof -
  let ?ps = "ps\<lparr>ps_grant := grant_topup_checked (ps_grant ps) now\<rparr>"
  let ?s = "put_session p (fst (accept_topup p m rs grant now ?ps)) s"
  have eq: "on_topup p m now s = (fst (refresh p now ?s),
      snd (accept_topup p m rs grant now ?ps) @ snd (refresh p now ?s))"
    unfolding on_topup_accept [OF get soon acc]
    by (simp add: and_then_def on_session_eq case_prod_beta)
  have wf_g: "grant_wf g" unfolding g by (rule grant_apply_wf) (simp add: wf)
  have "ps_grant ps' = ps_grant (fst (accept_topup p m rs grant now ?ps))"
    using ps' refresh_get [of ?s p _ now] by (auto simp: eq)
  also have "\<dots> = fst (grant_close_all g (grant_exhausted_channels g))"
    unfolding accept_topup_grant by (simp add: g)
  finally have grant': "ps_grant ps' = fst (grant_close_all g (grant_exhausted_channels g))" .
  have "unat (grant_remaining g) = unat (grant_remaining (grant_before_grant
      (grant_topup_checked (ps_grant ps) now) rs (topup_reserved_rate m) now)) + unat grant"
    unfolding g by (rule grant_apply_exact) (use wf fits in simp_all)
  moreover have "hd (snd (on_topup p m now s)) = RecordUpdates p (topup_updates m)"
    unfolding eq snd_conv by (subst accept_topup_out(1)) simp
  ultimately show ?thesis
    using grant_close_exhausted [OF wf_g] accept_topup_out(2) [of p m rs grant now ?ps]
    by (simp add: grant' eq) (simp add: g grant_exhausted_channels_def)
qed

subsection \<open>Purchases refused\<close>

text \<open>What a refusal must leave alone: the budget, its deadline, the reservation and, on every
  channel still recognised, the total signed and the capacity.\<close>

definition unpaid :: "GrantState \<Rightarrow> GrantState \<Rightarrow> bool" where
  "unpaid g g' =
     (grant_remaining g' = grant_remaining g \<and> gs_deadline g' = gs_deadline g
      \<and> gs_reserved_rate g' = gs_reserved_rate g
      \<and> (\<forall>c' \<in> set (gs_channels g'). \<exists>c \<in> set (gs_channels g).
           ic_id c' = ic_id c \<and> ic_signed c' = ic_signed c \<and> ic_capacity c' = ic_capacity c))"

lemma unpaid_refl [simp]: "unpaid g g"
  by (auto simp: unpaid_def)

lemma unpaid_trans: "unpaid a b \<Longrightarrow> unpaid b c \<Longrightarrow> unpaid a c"
  unfolding unpaid_def by (metis (no_types, opaque_lifting))

lemma unpaid_checked [simp]: "unpaid g (grant_topup_checked g now)"
  by (auto simp: unpaid_def)

lemma update_first_mem: "x \<in> set (update_first P f xs) \<Longrightarrow> x \<in> set xs \<or> (\<exists>y \<in> set xs. x = f y)"
  by (induction xs) (auto split: if_splits)

lemma remove_first_mem: "x \<in> set (remove_first P xs) \<Longrightarrow> x \<in> set xs"
  by (induction xs) (auto split: if_splits)

lemma unpaid_failure: "unpaid g (fst (grant_record_failure g i))"
  unfolding unpaid_def
  by (auto simp: grant_record_failure_def Let_def split: option.splits dest!: update_first_mem)

lemma unpaid_close: "unpaid g (fst (grant_close_all g is))"
proof (induction "is" arbitrary: g)
  case (Cons i "is")
  have "unpaid g (fst (grant_close_channel g i))"
    unfolding unpaid_def by (auto simp: grant_close_channel_channels dest: remove_first_mem)
  from unpaid_trans [OF this Cons.IH] show ?case by (simp add: case_prod_beta Let_def)
qed simp

lemma close_grant:
  "ps_grant (fst (close_and_settle p ps is)) = fst (grant_close_all (ps_grant ps) is)"
  by (simp add: close_and_settle_eq)

lemma unpaid_fail_channels: "unpaid (ps_grant ps) (ps_grant (fst (fail_channels p is ps)))"
proof (induction "is" arbitrary: ps)
  case (Cons i "is")
  let ?ps = "ps\<lparr>ps_grant := fst (grant_record_failure (ps_grant ps) i)\<rparr>"
  have "unpaid (ps_grant ps) (ps_grant (fst (close_and_settle p ?ps [i])))"
    unfolding close_grant by (rule unpaid_trans [OF _ unpaid_close]) (simp add: unpaid_failure)
  moreover have "unpaid (ps_grant ps) (ps_grant ?ps)" by (simp add: unpaid_failure)
  ultimately show ?case
    using unpaid_trans [OF _ Cons.IH]
    by (auto simp: Let_def case_prod_beta split: option.splits if_splits)
qed simp

lemma unpaid_unverified:
  assumes "bt_get (ss_peers s) p = Some ps"
  shows "\<exists>ps'. bt_get (ss_peers (fst (on_unverified_topup p is now s))) p = Some ps'
    \<and> unpaid (ps_grant ps) (ps_grant ps')"
  using assms unpaid_fail_channels [of ps p "is"]
  by (simp add: on_unverified_topup_def and_then_fst_snd push_def on_session_eq
      refresh_get [of "put_session p (fst (fail_channels p is ps)) s"])

text \<open>A purchase that is not recorded costs and buys nothing: whatever it was refused for, the
  payer's budget, its deadline, its reservation and the totals signed on its channels are as they
  were, and the payer is answered.\<close>

lemma refused_topup_buys_nothing:
  assumes get: "bt_get (ss_peers s) p = Some ps"
    and refused: "RecordUpdates p (topup_updates m) \<notin> set (snd (on_topup p m now s))"
  shows "\<exists>ps' msg. bt_get (ss_peers (fst (on_topup p m now s))) p = Some ps'
    \<and> unpaid (ps_grant ps) (ps_grant ps') \<and> hd (snd (on_topup p m now s)) = Send p msg"
proof (cases "too_soon s p m now")
  case (Some refusal)
  then have "on_topup p m now s = (s, [refusal])" by (simp add: on_topup_def)
  then show ?thesis using Some get by (auto simp: too_soon_def split: if_splits)
next
  case soon: None
  let ?v = "evaluate_topup (ps_grant ps) (admission s p) (topup_updates m) (topup_window_ms m)
    (topup_reserved_rate m)"
  let ?g = "grant_topup_checked (ps_grant ps) now"
  let ?s = "put_session p (ps\<lparr>ps_grant := ?g\<rparr>) s"
  show ?thesis
  proof (cases ?v)
    case (VAccept rs grant)
    have "RecordUpdates p (topup_updates m) \<in> set (snd (on_topup p m now s))"
      unfolding on_topup_accept [OF get soon VAccept]
      by (simp add: and_then_fst_snd on_session_eq) (subst accept_topup_out(1), simp)
    with refused show ?thesis by simp
  next
    case (VReject reason cap)
    have eq: "on_topup p m now s =
        (if reason = GrantInvalid then on_unverified_topup p (not_increasing ?g (topup_updates m)) now ?s
         else and_then (push [Send p (MTopUpReject \<lparr>rej_refused = refused_updates m,
           rej_max_reserved_rate = cap, rej_reason = reason\<rparr>)]) (refresh p now) ?s)"
      using soon get VReject
      by (simp add: on_topup_def admission_def [symmetric] Let_def update_session_eq)
    show ?thesis
    proof (cases "reason = GrantInvalid")
      case True
      have "\<exists>msg. hd (snd (on_unverified_topup p is now ?s)) = Send p msg" for "is"
        by (simp add: on_unverified_topup_def and_then_fst_snd push_def)
      with True unpaid_unverified [of ?s p] show ?thesis
        using unpaid_trans [OF unpaid_checked] by (fastforce simp: eq)
    next
      case False
      then show ?thesis
        by (simp add: eq and_then_fst_snd push_def refresh_get [of ?s])
    qed
  qed
qed

subsection \<open>A channel that keeps failing verification\<close>

lemma grant_channel_closed:
  "grant_wf g \<Longrightarrow> grant_channel (fst (grant_close_all g is)) i = (if i \<in> set is then None else grant_channel g i)"
proof -
  assume wf: "grant_wf g"
  have "find (\<lambda>c. ic_id c = i) (filter (\<lambda>c. ic_id c \<notin> set is) cs)
      = (if i \<in> set is then None else find (\<lambda>c. ic_id c = i) cs)"
    for cs :: "IncomingChannel list"
    by (induction cs) auto
  then show ?thesis by (simp add: grant_channel_def grant_close_all_channels [OF wf])
qed

text \<open>Failed verifications are counted per channel. Below the third in a row the channel stays
  open with one more counted; at the third it is no longer recognised and is settled, at the expiry
  it has. Either way the budget is what it was.\<close>

lemma repeated_failures_close_channel:
  assumes get: "bt_get (ss_peers s) p = Some ps" and chan: "grant_channel (ps_grant ps) i = Some c"
    and wf: "grant_wf (ps_grant ps)"
    and ps': "bt_get (ss_peers (fst (on_unverified_topup p [i] now s))) p = Some ps'"
  shows "unpaid (ps_grant ps) (ps_grant ps')
    \<and> (if ic_failures c < 2
       then grant_channel (ps_grant ps') i = Some (c\<lparr>ic_failures := ic_failures c + 1\<rparr>)
         \<and> settled_list (snd (on_unverified_topup p [i] now s)) = []
       else grant_channel (ps_grant ps') i = None
         \<and> settled_list (snd (on_unverified_topup p [i] now s)) = [i]
         \<and> SettleChannel p i (ic_expires_at c) \<in> set (snd (on_unverified_topup p [i] now s)))"
proof -
  let ?f = "fail_channels p [i] ps"
  let ?n = "sat_add32 (ic_failures c) 1"
  let ?g = "fst (grant_record_failure (ps_grant ps) i)"
  have found: "find (\<lambda>c. ic_id c = i) (gs_channels (ps_grant ps)) = Some c"
    using chan by (simp add: grant_channel_def)
  have rec: "snd (grant_record_failure (ps_grant ps) i) = Some ?n"
    using found by (simp add: grant_record_failure_def Let_def)
  have counted: "grant_channel ?g i = Some (c\<lparr>ic_failures := ?n\<rparr>)"
    using found by (simp add: grant_record_failure_def Let_def grant_channel_def find_update_first_key)
  have wf': "grant_wf ?g" by (rule grant_record_failure_wf [OF wf])
  have small: "ic_failures c < 2 \<Longrightarrow> ?n = ic_failures c + 1 \<and> \<not> ?n \<ge> MAX_VERIFICATION_FAILURES"
  proof -
    assume "ic_failures c < 2"
    then have "unat (ic_failures c) < 2" by (simp add: word_less_nat_alt)
    then have "ic_failures c = 0 \<or> ic_failures c = 1" by (auto simp: word_unat_eq_iff less_2_cases_iff)
    then show ?thesis by (auto simp: sat_add32_def MAX_VERIFICATION_FAILURES_def word_le_nat_alt)
  qed
  have large: "\<not> ic_failures c < 2 \<Longrightarrow> ?n \<ge> MAX_VERIFICATION_FAILURES"
  proof -
    assume "\<not> ic_failures c < 2"
    then have "2 \<le> unat (ic_failures c)" by (simp add: word_less_nat_alt not_less)
    then show ?thesis
      by (simp add: unat_sat_add32 MAX_VERIFICATION_FAILURES_def word_le_nat_alt)
  qed
  have session: "ps_grant ps' = ps_grant (fst ?f)"
    using ps' get by (auto simp: on_unverified_topup_def and_then_fst_snd push_def on_session_eq
        refresh_get [of "put_session p (fst ?f) s"] simp del: fail_channels.simps)
  have out: "snd (on_unverified_topup p [i] now s) = Send p (MReject \<lparr>reject_type = msg_type_u8 MT_TopUp,
      reject_reason = GrantInvalid, reject_text = None\<rparr>) # snd ?f @ snd (refresh p now (put_session p (fst ?f) s))"
    using get by (simp add: on_unverified_topup_def and_then_fst_snd push_def on_session_eq
        del: fail_channels.simps)
  have "ic_failures c < 2 \<Longrightarrow> ps_grant (fst ?f) = ?g \<and> snd ?f = []"
    using small by (auto simp: rec case_prod_beta Let_def)
  moreover have "\<not> ic_failures c < 2 \<Longrightarrow> ps_grant (fst ?f) = fst (grant_close_all ?g [i])
      \<and> snd ?f = [SettleChannel p i (ic_expires_at c)]"
    using large counted
    by (simp add: rec close_and_settle_def settle_actions_def grant_close_channel_def grant_channel_def
        case_prod_beta Let_def)
  ultimately show ?thesis
    using unpaid_fail_channels [of ps p "[i]"] counted small grant_channel_closed [OF wf', of "[i]" i]
    by (cases "ic_failures c < 2") (simp_all add: session out del: fail_channels.simps grant_close_all.simps)
qed

subsection \<open>Settled once each\<close>

lemma grant_close_all_all:
  "gs_channels g = cs \<Longrightarrow> snd (grant_close_all g (map ic_id cs)) = map (\<lambda>c. (ic_id c, ic_expires_at c)) cs"
proof (induction cs arbitrary: g)
  case (Cons c cs)
  then have "grant_close_channel g (ic_id c) = (g\<lparr>gs_channels := cs\<rparr>, Some c)"
    by (simp add: grant_close_channel_def)
  with Cons.IH [of "g\<lparr>gs_channels := cs\<rparr>"] show ?case by (simp add: case_prod_beta Let_def)
qed simp

text \<open>Giving up a session settles every channel the peer pays us on exactly once, each at its own
  expiry, and leaves none to be settled again; the budget is untouched.\<close>

lemma discard_settles_each_once:
  assumes "grant_wf (ps_grant ps)"
  shows "snd (discard p ps) = map (\<lambda>c. SettleChannel p (ic_id c) (ic_expires_at c)) (gs_channels (ps_grant ps))
    \<and> distinct (settled_list (snd (discard p ps)))
    \<and> snd (discard p (fst (discard p ps))) = []
    \<and> grant_remaining (ps_grant (fst (discard p ps))) = grant_remaining (ps_grant ps)"
proof -
  let ?g = "ps_grant ps"
  have "gs_channels (fst (grant_close_all ?g (map ic_id (gs_channels ?g)))) = []"
    using grant_close_all_channels [OF assms] by simp
  then show ?thesis
    using grant_wf_ids [OF assms]
    by (simp add: discard_def close_and_settle_eq grant_close_all_all comp_def)
       (simp add: settle_actions_def)
qed

subsection \<open>The gate settles\<close>

text \<open>Recomputing a peer's access and speed tells the host only what changed: done again at the
  same time it says nothing and changes nothing.\<close>

lemma refresh_idempotent:
  "refresh p now (fst (refresh p now s)) = (fst (refresh p now s), [])"
proof (cases "bt_get (ss_peers s) p")
  case (Some ps)
  let ?ps = "fst (refresh_session (ss_node s) p now ps)"
  have access: "access_for ?ps now = access_for ps now"
    by (simp add: access_for_def refresh_session_eq)
  then have rate: "refresh_rate (ss_node s) ?ps now = refresh_rate (ss_node s) ps now"
    by (simp add: refresh_rate_def) (simp add: refresh_session_eq)
  have "refresh_session (ss_node s) p now ?ps = (?ps, [])"
    using access rate unfolding refresh_session_eq [of "ss_node s" p now ?ps]
    by (simp add: refresh_session_eq)
  with Some show ?thesis by (simp add: refresh_def on_session_eq)
qed (simp add: refresh_def on_session_eq)

subsection \<open>Funding answers\<close>

lemma note_sent_buyer:
  "map_option ps_buyer (bt_get (ss_peers (note_sent out now s)) q) = map_option ps_buyer (bt_get (ss_peers s) q)"
proof (induction out arbitrary: s)
  case (Cons a out)
  have "map_option ps_buyer (bt_get (ss_peers (update_session k (\<lambda>ps. ps\<lparr>ps_last_sent := now\<rparr>) s)) q)
      = map_option ps_buyer (bt_get (ss_peers s) q)" for k
    by (auto simp: update_session_eq put_session_def split: option.splits)
  then show ?case by (simp add: Cons.IH split: option.split)
qed simp

lemma refresh_buyer:
  "map_option ps_buyer (bt_get (ss_peers (fst (refresh p now s))) q) = map_option ps_buyer (bt_get (ss_peers s) q)"
  by (auto simp: refresh_def on_session_eq put_session_def refresh_session_eq split: option.splits)

lemma superseded_answers:
  "superseded s (OutgoingChannelFunded p r i c e f) =
     (if (case map_option ps_buyer (bt_get (ss_peers s) p) of None \<Rightarrow> False | Some b \<Rightarrow> answers b r)
      then None else Some (ReclaimChannel p i c e))"
  by (simp split: option.splits)

text \<open>Once the host's answer to a funding request has been taken, no other is until a new request
  is made: a second channel funded for the peer, under whatever request, is not used, its funds are
  handed back, and the node is as it was.\<close>

lemma funding_answered_once:
  assumes "superseded s (OutgoingChannelFunded p request i capacity expires_at funding) = None"
  shows "handle (OutgoingChannelFunded p request' i' capacity' expires_at' funding') now'
      (fst (handle (OutgoingChannelFunded p request i capacity expires_at funding) now s))
    = (fst (handle (OutgoingChannelFunded p request i capacity expires_at funding) now s),
       [ReclaimChannel p i' capacity' expires_at'])"
proof -
  let ?e = "OutgoingChannelFunded p request i capacity expires_at funding"
  from assms obtain ps where get: "bt_get (ss_peers s) p = Some ps"
    by (auto split: if_splits option.splits)
  let ?b = "funded (ps_buyer ps) i capacity expires_at"
  let ?s1 = "put_session p (ps\<lparr>ps_buyer := ?b\<rparr>) s"
  have "fst (handle ?e now s) = note_sent (snd (handle_event ?e now s)) now (fst (refresh p now ?s1))"
    using assms get
    by (simp add: handle_def case_prod_beta Let_def update_session_eq on_outgoing_funded_def
        and_then_fst_snd push_def del: superseded.simps)
  then have "map_option ps_buyer (bt_get (ss_peers (fst (handle ?e now s))) p) = Some ?b"
    by (simp add: note_sent_buyer refresh_buyer)
  moreover have "\<not> answers ?b r" for r by (simp add: funded_def answers_def)
  ultimately have "superseded (fst (handle ?e now s)) (OutgoingChannelFunded p request' i' capacity' expires_at' funding')
      = Some (ReclaimChannel p i' capacity' expires_at')"
    by (simp only: superseded_answers option.case if_False)
  then show ?thesis by (simp add: handle_def del: superseded.simps)
qed

subsection \<open>Going away and coming back\<close>

lemma open_balance_get:
  "bt_get (ss_peers s) p = Some ps \<Longrightarrow>
    \<exists>l. bt_get (ss_peers (fst (open_balance p policy now s))) p = Some (ps\<lparr>ps_budget_live := l\<rparr>)"
  by (cases ps) (auto simp: open_balance_def on_session_eq Let_def)

lemma on_connected_get:
  assumes "\<not> pp_blocked (override_of s p)" and "take_kept p now s = (s1, kept, out1)"
    and "starting_session p (override_of s p) (ss_node s1) budget kept now = (ps, out2)"
  shows "\<exists>ps'. bt_get (ss_peers (fst (on_connected p budget now s))) p = Some ps'
    \<and> ps_grant ps' = ps_grant ps \<and> ps_buyer ps' = ps_buyer ps"
proof -
  let ?policy = "override_of s p" and ?s2 = "put_session p ps s1"
  let ?offer = "offer_for ?s2 ?policy (peer_weight ?policy (ss_node ?s2))"
  let ?ps = "ps\<lparr>ps_offer_sent := Some ?offer\<rparr>"
  let ?s3 = "put_session p ?ps s1"
  have eq: "fst (on_connected p budget now s) = fst (refresh p now (fst (open_balance p ?policy now ?s3)))"
    using assms
    by (simp add: on_connected_def override_of_def [symmetric] and_then_fst_snd push_def send_offer_def
        put_session_def [symmetric] update_session_eq case_prod_unfold Let_def)
  obtain l where "bt_get (ss_peers (fst (open_balance p ?policy now ?s3))) p = Some (?ps\<lparr>ps_budget_live := l\<rparr>)"
    using open_balance_get [of ?s3 p ?ps ?policy now] by auto
  from refresh_get [OF this, of now] show ?thesis by (simp add: eq refresh_session_eq)
qed

lemma pause_second [simp]: "gs_second (fst (grant_pause g)) = None"
  by (simp add: grant_pause_eq split: option.splits)

lemma pause_paused: "gs_second g = None \<Longrightarrow> fst (grant_pause g) = g"
  by (simp add: grant_pause_eq)

lemma restart_after_park:
  "grant_remaining (grant_restart (grant_end_reservation g) now)
     = bud_remaining (grant_budget (fst (grant_pause g)) now)"
  "gs_channels (grant_restart (grant_end_reservation g) now)
     = map (\<lambda>c. c\<lparr>ic_failures := 0\<rparr>) (gs_channels g)"
proof -
  have paused: "fst (grant_pause (grant_end_reservation g)) = grant_end_reservation g"
    by (rule pause_paused) (simp add: grant_end_reservation_def)
  have budget: "grant_budget (grant_end_reservation g) now = grant_budget (fst (grant_pause g)) now"
    by (simp add: grant_budget_def grant_end_reservation_def)
  have "budget_at (budget_at b now) now = budget_at b now" for b
    by (simp add: budget_at_def Budget_NONE_def)
  then show "grant_remaining (grant_restart (grant_end_reservation g) now)
     = bud_remaining (grant_budget (fst (grant_pause g)) now)"
    unfolding grant_restart_eq grant_restore_remaining paused budget by (simp add: grant_budget_def)
  show "gs_channels (grant_restart (grant_end_reservation g) now)
     = map (\<lambda>c. c\<lparr>ic_failures := 0\<rparr>) (gs_channels g)"
    by (simp add: grant_restart_eq grant_restore_def Let_def)
qed

text \<open>Whether a channel is due to be settled, \<open>lead_ms\<close> before its expiry.\<close>

definition ic_due :: "Millis \<Rightarrow> u64 \<Rightarrow> IncomingChannel \<Rightarrow> bool" where
  "ic_due now lead_ms c =
     (case ic_expires_at c of None \<Rightarrow> False | Some e \<Rightarrow> millis_add now lead_ms \<ge> e)"

lemma grant_close_expiring:
  "grant_wf g \<Longrightarrow> gs_channels (fst (grant_close_all g (grant_expiring_channels g now l)))
    = filter (\<lambda>c. \<not> ic_due now l c) (gs_channels g)"
  unfolding grant_expiring_channels_def ic_due_def
  by (simp only: grant_close_all_channels filter_not_in_filter [OF grant_wf_ids])

text \<open>C35: A peer that drops without saying Disconnect and comes back within the grace finds the
  channels it pays us on, less those due to be settled, and what was left of its budget; its
  reservation did not come with it, and what we buy from it goes on over the channels it holds.\<close>

theorem blip_keeps_channels:
  assumes wf: "sessions_wf s" and get: "bt_get (ss_peers s) p = Some ps"
    and "ps_phase ps \<noteq> Closing" and grace: "np_stale_timeout_ms (ss_node s) > 0"
    and within: "saturating_since now' now \<le> np_stale_timeout_ms (ss_node s)"
    and "\<not> pp_blocked (override_of s p)"
    and s1: "s1 = fst (on_disconnected p now s)"
  shows "\<exists>ps'. bt_get (ss_peers (fst (on_connected p budget now' s1))) p = Some ps'
    \<and> map ic_id (gs_channels (ps_grant ps'))
        = map ic_id (filter (\<lambda>c. \<not> ic_due now' (settle_lead_ms (ss_node s)) c) (gs_channels (ps_grant ps)))
    \<and> grant_remaining (ps_grant ps') = bud_remaining (grant_budget (fst (grant_pause (ps_grant ps))) now')
    \<and> gs_reserved_rate (ps_grant ps') = 0
    \<and> ps_buyer ps' = buyer_restart (ps_buyer ps)"
proof -
  let ?held = "ps\<lparr>ps_grant := grant_end_reservation (ps_grant ps)\<rparr>"
  let ?node = "ss_node s" and ?policy = "override_of s p"
  let ?g = "grant_restart (grant_end_reservation (ps_grant ps)) now'"
  have s1': "ss_peers s1 = bt_remove p (ss_peers s)" "ss_node s1 = ?node" "override_of s1 p = ?policy"
    "bt_get (ss_parked s1) p = Some \<lparr>pk_session = ?held, pk_since = now\<rparr>"
    using assms(3) grace
    by (simp_all add: s1 on_disconnected_def get park_def Let_def resume_grace_ms_def override_of_def)
  obtain s2 out1 where kept: "take_kept p now' s1 = (s2, Some ?held, out1)" and node: "ss_node s2 = ?node"
    using within s1' by (simp add: take_kept_def Let_def resume_grace_ms_def)
  obtain ps2 out2 where start: "starting_session p ?policy ?node budget (Some ?held) now' = (ps2, out2)"
    by force
  have wfg: "grant_wf ?g"
    using sessions_wf_get [OF wf get] by (simp add: session_wf_def grant_restart_wf grant_end_reservation_wf)
  have grant2: "ps_grant ps2 = fst (grant_close_all ?g (grant_expiring_channels ?g now' (settle_lead_ms ?node)))"
    and buyer2: "ps_buyer ps2 = buyer_restart (ps_buyer ps)"
    using start
    by (auto simp: starting_session_def settle_expiring_in_def close_and_settle_eq resume_def
        case_prod_beta Let_def)
  have channels: "map ic_id (gs_channels (ps_grant ps2))
      = map ic_id (filter (\<lambda>c. \<not> ic_due now' (settle_lead_ms ?node) c) (gs_channels (ps_grant ps)))"
    unfolding grant2 grant_close_expiring [OF wfg] restart_after_park(2)
    by (simp add: filter_map comp_def ic_due_def)
  obtain ps' where "bt_get (ss_peers (fst (on_connected p budget now' s1))) p = Some ps'"
    and "ps_grant ps' = ps_grant ps2" "ps_buyer ps' = ps_buyer ps2"
    using on_connected_get [of s1 p now' s2 "Some ?held" out1 budget ps2 out2] assms(6) kept start
    by (auto simp: s1'(3) node)
  moreover have "grant_remaining (ps_grant ps2) = bud_remaining (grant_budget (fst (grant_pause (ps_grant ps))) now')"
    "gs_reserved_rate (ps_grant ps2) = 0"
    by (simp_all add: grant2 restart_after_park(1))
  ultimately show ?thesis using channels buyer2 by auto
qed

subsection \<open>Winding down\<close>

lemma close_session_eq:
  "fst (close_session now p ps) = fst (discard p (ps\<lparr>ps_phase := Closing\<rparr>))"
  "snd (close_session now p ps) = save_budget p (ps\<lparr>ps_phase := Closing\<rparr>) now
     @ snd (discard p (ps\<lparr>ps_phase := Closing\<rparr>)) @ [Send p (MDisconnect \<lparr>disc_reason = OtherReason\<rparr>)]"
  by (simp_all add: close_session_def Let_def case_prod_beta)

lemma settled_mono: "set out \<subseteq> set out' \<Longrightarrow> settled_channels p out \<subseteq> settled_channels p out'"
  by (auto simp: settled_channels_def)

text \<open>Winding down has the host settle every channel any peer pays us on, of live sessions and of
  held ones; it leaves no live session that is not ending and none that is held, and every connected
  peer is told.\<close>

lemma shutdown_settles_everything:
  assumes wf: "sessions_wf s"
  shows "held_channels s p \<subseteq> settled_channels p (snd (shutdown now s))
    \<and> ss_parked (fst (shutdown now s)) = []
    \<and> (\<forall>ps. bt_get (ss_peers (fst (shutdown now s))) p = Some ps \<longrightarrow>
         ps_phase ps = Closing
         \<and> Send p (MDisconnect \<lparr>disc_reason = OtherReason\<rparr>) \<in> set (snd (shutdown now s)))"
proof -
  let ?keys = "bt_keys (ss_peers s)"
  let ?loop = "for_each (\<lambda>q. on_session q (close_session now q)) ?keys s"
  have dist: "distinct ?keys" using wf by (simp add: sessions_wf_def bt_wf_distinct)
  have shut: "shutdown now s = ((fst ?loop)\<lparr>ss_parked := []\<rparr>, snd ?loop
      @ concat (map (\<lambda>(q, pk). give_up q (pk_session pk) now) (ss_parked s)))"
    by (simp add: shutdown_def case_prod_beta Let_def)
  have live: "set (snd (close_session now p ps)) \<subseteq> set (snd (shutdown now s))"
    if "bt_get (ss_peers s) p = Some ps" for ps
    using that peer_keys [OF that] by (auto simp: shut for_each_session_out [OF dist] intro!: bexI [of _ p])
  have held: "set (give_up p (pk_session pk) now) \<subseteq> set (snd (shutdown now s))"
    if "bt_get (ss_parked s) p = Some pk" for pk
    using map_of_SomeD [OF that] by (auto simp: shut intro!: bexI [of _ "(p, pk)"])
  have "channel_ids ps \<subseteq> settled_channels p (snd (shutdown now s))"
    if "bt_get (ss_peers s) p = Some ps" for ps
  proof -
    have "channel_ids ps \<subseteq> settled_channels p (snd (close_session now p ps))"
      using discard_settles [of "ps\<lparr>ps_phase := Closing\<rparr>" p]
      by (auto simp: close_session_eq channel_ids_def)
    with settled_mono [OF live [OF that], of p] show ?thesis by blast
  qed
  moreover have "channel_ids (pk_session pk) \<subseteq> settled_channels p (snd (shutdown now s))"
    if "bt_get (ss_parked s) p = Some pk" for pk
    using give_up_settles [of "pk_session pk" p now] settled_mono [OF held [OF that], of p] by blast
  ultimately have "held_channels s p \<subseteq> settled_channels p (snd (shutdown now s))"
    by (auto simp: held_channels_def split: option.splits)
  moreover have "ps_phase ps = Closing
      \<and> Send p (MDisconnect \<lparr>disc_reason = OtherReason\<rparr>) \<in> set (snd (shutdown now s))"
    if "bt_get (ss_peers (fst (shutdown now s))) p = Some ps" for ps
  proof -
    from that obtain ps0 where "bt_get (ss_peers s) p = Some ps0" "ps = fst (close_session now p ps0)"
      using for_each_session_get [OF dist, of "close_session now" s p]
      by (auto simp: shut split: if_splits dest: peer_keys)
    with live show ?thesis by (auto simp: close_session_eq discard_def)
  qed
  ultimately show ?thesis by (simp add: shut)
qed

subsection \<open>Examples\<close>

text \<open>The peer of \<open>ex_up\<close> before its first purchase, and the session it has then.\<close>

definition ex_funded :: Sessions where
  "ex_funded = fst (run_events (take 2 (ex_paying ex_peer_a 1 0)) ex_start)"

definition ex_session :: PeerSession where
  "ex_session = the (bt_get (ss_peers ex_funded) ex_peer_a)"

definition ex_bought :: PeerSession where
  "ex_bought = the (bt_get (ss_peers (fst (on_topup ex_peer_a (ex_topup 1 500) 0 ex_funded))) ex_peer_a)"

lemma ex_session_get: "bt_get (ss_peers ex_funded) ex_peer_a = Some ex_session"
  by code_simp

lemma ex_session_wf: "grant_wf (ps_grant ex_session)"
  by code_simp

theorem accepted_topup_effect_witness:
  "gs_reserved_rate (ps_grant ex_bought) = 80
    \<and> hd (snd (on_topup ex_peer_a (ex_topup 1 500) 0 ex_funded)) = RecordUpdates ex_peer_a (topup_updates (ex_topup 1 500))"
proof -
  have "too_soon ex_funded ex_peer_a (ex_topup 1 500) 0 = None"
    "evaluate_topup (ps_grant ex_session) (admission ex_funded ex_peer_a) (topup_updates (ex_topup 1 500))
       (topup_window_ms (ex_topup 1 500)) (topup_reserved_rate (ex_topup 1 500))
       = VAccept [(ChannelId [1], 500)] 500"
    "gs_authorized (ps_grant ex_session) = 0"
    "bt_get (ss_peers (fst (on_topup ex_peer_a (ex_topup 1 500) 0 ex_funded))) ex_peer_a = Some ex_bought"
    by code_simp+
  from accepted_topup_effect [OF ex_session_get this(1,2) ex_session_wf _ refl this(4)] this(3)
  show ?thesis by (simp add: ex_topup_def)
qed

lemma refused_topup_buys_nothing_witness:
  "\<exists>ps'. bt_get (ss_peers (fst (on_topup ex_peer_a (ex_topup 7 500) 0 ex_funded))) ex_peer_a = Some ps'
    \<and> unpaid (ps_grant ex_session) (ps_grant ps')"
proof -
  have "RecordUpdates ex_peer_a (topup_updates (ex_topup 7 500))
      \<notin> set (snd (on_topup ex_peer_a (ex_topup 7 500) 0 ex_funded))"
    by code_simp
  from refused_topup_buys_nothing [OF ex_session_get this] show ?thesis by blast
qed

lemma repeated_failures_close_channel_witness:
  "\<exists>ps' c. bt_get (ss_peers (fst (on_unverified_topup ex_peer_a [ChannelId [1]] 0 ex_funded))) ex_peer_a = Some ps'
    \<and> grant_channel (ps_grant ps') (ChannelId [1]) = Some c \<and> ic_failures c = 1"
proof -
  have chan: "grant_channel (ps_grant ex_session) (ChannelId [1]) = Some (ic_new (ChannelId [1]) 1000 None)"
    by code_simp
  obtain ps' where ps':
    "bt_get (ss_peers (fst (on_unverified_topup ex_peer_a [ChannelId [1]] 0 ex_funded))) ex_peer_a = Some ps'"
    using unpaid_unverified [OF ex_session_get] by blast
  from repeated_failures_close_channel [OF ex_session_get chan ex_session_wf ps'] ps' show ?thesis
    by (simp add: ic_new_def)
qed

definition ex_offer :: Offer where
  "ex_offer = offer_for ex_start PeerPolicy_default 1"

definition ex_asked :: Sessions where
  "ex_asked = fst (run_events [(PeerConnected ex_peer_a None, 0), (MessageReceived ex_peer_a (MOffer ex_offer), 1)] ex_start)"

lemma funding_answered_once_witness:
  "superseded ex_asked (OutgoingChannelFunded ex_peer_a 1 (ChannelId [4]) 1000 None []) = None
    \<and> snd (handle (OutgoingChannelFunded ex_peer_a 1 (ChannelId [5]) 1000 None []) 9
        (fst (handle (OutgoingChannelFunded ex_peer_a 1 (ChannelId [4]) 1000 None []) 8 ex_asked)))
      = [ReclaimChannel ex_peer_a (ChannelId [5]) 1000 None]"
proof -
  have "superseded ex_asked (OutgoingChannelFunded ex_peer_a 1 (ChannelId [4]) 1000 None []) = None"
    by code_simp
  with funding_answered_once [OF this] show ?thesis by simp
qed

theorem blip_keeps_channels_witness:
  "\<exists>ps ps'. bt_get (ss_peers ex_up) ex_peer_a = Some ps
    \<and> bt_get (ss_peers (fst (on_connected ex_peer_a None 9 (fst (on_disconnected ex_peer_a 5 ex_up))))) ex_peer_a = Some ps'
    \<and> ps_buyer ps' = buyer_restart (ps_buyer ps)"
proof -
  obtain ps where ps: "bt_get (ss_peers ex_up) ex_peer_a = Some ps" "ps_phase ps \<noteq> Closing"
    using ex_up_live by auto
  have "np_stale_timeout_ms (ss_node ex_up) > 0"
    "saturating_since 9 5 \<le> np_stale_timeout_ms (ss_node ex_up)" "\<not> pp_blocked (override_of ex_up ex_peer_a)"
    by code_simp+
  from blip_keeps_channels [OF session_run_wf [OF ex_run] ps this refl, of None] ps(1)
  show ?thesis by blast
qed

lemma shutdown_settles_everything_witness:
  "sessions_wf ex_up \<and> held_channels ex_up ex_peer_a \<subseteq> settled_channels ex_peer_a (snd (shutdown 9 ex_up))"
  using shutdown_settles_everything [OF session_run_wf [OF ex_run]] session_run_wf [OF ex_run] by blast

subsection \<open>A close that closes nothing\<close>

definition ex_close :: Message where
  "ex_close = MChannelClose \<lparr>close_channel_id = ChannelId [1], close_final_balance = 500,
     close_final_signature = Signature [], close_reason = NormalClose\<rparr>"

definition ex_closed :: "(Event \<times> Millis) list" where
  "ex_closed = ex_paying ex_peer_a 1 0 @ [(MessageReceived ex_peer_a ex_close, 1)]"

text \<open>A peer's ChannelClose has the host settle the channel, but core goes on recognising it: it
  is still among the session's channels, a later purchase over it is admitted and recorded, and a
  second ChannelClose has it settled again.\<close>

lemma closed_channel_still_recognised:
  "settled_list (snd (run_events ex_closed ex_start)) = [ChannelId [1]]
    \<and> held_channels (fst (run_events ex_closed ex_start)) ex_peer_a = {ChannelId [1]}
    \<and> RecordUpdates ex_peer_a (topup_updates (ex_topup 1 600))
        \<in> set (snd (handle (MessageReceived ex_peer_a (MTopUp (ex_topup 1 600))) 5000 (fst (run_events ex_closed ex_start))))
    \<and> settled_list (snd (run_events (ex_closed @ [(MessageReceived ex_peer_a ex_close, 2)]) ex_start))
        = [ChannelId [1], ChannelId [1]]"
  by (intro conjI; code_simp)

end
