(* ===== verification/Budget_Properties.thy ===== *)
theory Budget_Properties
  imports Grant Buying Meter
begin

text \<open>
  What holds of one payer's budget, of the rule it is drawn by, of the speed it is carried at and of
  the purchases a buyer decides on: the correctness of \<open>crates/tollgate-core/src/grant\<close>,
  \<open>meter.rs\<close> and \<open>buyer\<close> taken on their own.
\<close>

subsection \<open>Prepaid\<close>

text \<open>C2: Whatever a provider does with a payer's budget, in whatever order, all the draws it reports
  come to no more than all that was paid in, by purchases and by budgets brought back: nothing is
  carried on credit.\<close>

theorem drawn_never_exceeds_paid:
  "sum_list (snd (run_ops grant_step grant_new ops)) \<le> sum_list (map grant_credit ops)"
  using provider.drawn_le_paid [OF grant_new_wf, of ops] by (simp add: grant_remaining_def grant_new_def)

subsection \<open>The one rule\<close>


definition ex_second :: Second where
  "ex_second = \<lparr>sec_start = 2000, sec_at = 2300, sec_moved = 0\<rparr>"


subsection \<open>Speed\<close>

text \<open>The speed a payer is carried at never lets it take more in one tick than it has left, or than
  the minimum flow gives it when that is more, and is never below the minimum flow.\<close>

lemma shaping_rate_within_budget:
  "units_in (grant_shaping_rate g now burst minimum_flow tick_ms) tick_ms
      \<le> max (grant_remaining g) (units_in minimum_flow tick_ms)
    \<and> minimum_flow \<le> grant_shaping_rate g now burst minimum_flow tick_ms"
proof (cases "grant_is_live g now")
  case True
  define speed where "speed = min (if gs_reserved_rate g > 0 then max (gs_reserved_rate g) (bp_rate burst)
    else unreserved_speed burst) (per_tick_ceiling (grant_remaining g) tick_ms)"
  have rate: "grant_shaping_rate g now burst minimum_flow tick_ms = max speed minimum_flow"
    using True by (simp add: grant_shaping_rate_def speed_def Let_def)
  have "units_in speed tick_ms \<le> grant_remaining g"
    by (rule units_in_per_tick_ceiling) (simp add: speed_def)
  then show ?thesis
    unfolding rate by (auto simp: max_def)
qed (simp add: grant_shaping_rate_def)

subsection \<open>Buying\<close>

lemma unat_add_le: "unat (a + b :: u64) \<le> unat a + unat b"
  by (simp add: unat_word_ariths)

lemma poll_legs_grant_le:
  assumes "poll_legs a n wanted = (l1, l2, grant)"
  shows "unat grant \<le> unat wanted"
proof (cases "wanted \<le> cb_headroom a")
  case False
  then have "unat (wanted - cb_headroom a) = unat wanted - unat (cb_headroom a)"
    and le: "unat (cb_headroom a) \<le> unat wanted"
    by (simp_all add: u64_minus_nat word_le_nat_alt)
  then have "unat (cb_headroom a + min (wanted - cb_headroom a) x) \<le> unat wanted" for x
    using unat_add_le [of "cb_headroom a" "min (wanted - cb_headroom a) x"]
    by (simp add: unat_min_u64)
  with False le assms show ?thesis
    by (auto simp: poll_legs_def Let_def split: option.splits)
qed (use assms in \<open>simp add: poll_legs_def\<close>)

text \<open>A buyer never overbuys. A purchase it decides on asks for a window and a reserved rate inside
  the provider's terms and its own limit, comes no sooner than the gap the provider set, and buys at
  most what brings the budget up to the size wanted: the rate over the window when reserving, the
  budget the operator set when paying per use.\<close>

lemma purchase_within_policy:
  assumes "poll b policy demand now = Some pu"
  shows "pu_window_ms pu = clamp_window (dm_terms demand) (by_window_ms policy)
    \<and> tm_min_reserved_rate (dm_terms demand) \<le> pu_reserved_rate pu
    \<and> pu_reserved_rate pu \<le> by_max_rate policy
    \<and> (\<forall>prev. b_last_topup b = Some prev \<longrightarrow>
         tm_min_topup_gap_ms (dm_terms demand) \<le> saturating_since now prev)
    \<and> 0 < pu_grant pu
    \<and> unat (pu_grant pu) \<le> max 1 (unat (if by_reserve policy
         then budget_for (pu_reserved_rate pu) (pu_window_ms pu) else by_budget policy)
         - unat (remaining_at b now))"
  using assms
proof (rule poll_SomeD)
  fix a rate wanted
  assume rate: "fit_rate b policy (dm_terms demand) rate now = Some (pu_reserved_rate pu)"
    and window: "pu_window_ms pu = clamp_window (dm_terms demand) (by_window_ms policy)"
    and wanted: "wanted = max (sat_sub (if by_reserve policy
        then budget_for (pu_reserved_rate pu) (pu_window_ms pu) else by_budget policy)
        (remaining_at b now)) 1"
    and legs: "poll_legs a (b_next b) wanted = (pu_first pu, pu_second pu, pu_grant pu)"
    and "pu_grant pu \<noteq> 0"
    and "\<forall>prev. b_last_topup b = Some prev \<longrightarrow>
        tm_min_topup_gap_ms (dm_terms demand) \<le> saturating_since now prev"
  moreover have "unat (pu_grant pu) \<le> unat wanted" by (rule poll_legs_grant_le [OF legs])
  ultimately show ?thesis
    using fit_rate_bounds(1,2) [OF rate] by (simp add: u64_nat word_neq_0_conv max.commute)
qed

definition ex_buyer :: Buyer where
  "ex_buyer = confirmed (funded buyer_new (ChannelId [1]) 1000 None) (ChannelId [1])"

definition ex_wanting :: "u64 \<Rightarrow> Demand" where
  "ex_wanting rate = \<lparr>dm_observed_rate = rate, dm_terms =
     \<lparr>tm_min_window_ms = 1000, tm_max_window_ms = 60000, tm_min_reserved_rate = 0,
      tm_min_topup_gap_ms = 1000, tm_from_payer_weight = 1\<rparr>\<rparr>"

lemma purchase_within_policy_witness:
  "\<exists>pu. poll ex_buyer BuyerPolicy_default (ex_wanting 10) 0 = Some pu \<and> pu_window_ms pu = 10000
    \<and> 0 < pu_grant pu"
proof -
  have "map_option pu_window_ms (poll ex_buyer BuyerPolicy_default (ex_wanting 10) 0) = Some 10000"
    by code_simp
  then obtain pu where "poll ex_buyer BuyerPolicy_default (ex_wanting 10) 0 = Some pu"
    "pu_window_ms pu = 10000" by auto
  with purchase_within_policy [OF this(1)] show ?thesis by blast
qed

text \<open>A replacement channel is asked for only when there is a channel to replace and none on its
  way: none waiting behind it, none funded and unconfirmed, no request to the host unanswered. Once
  asked for, it is not asked for again until the request times out.\<close>

lemma rollover_asked_once:
  assumes "rollover_due b threshold_pct now margin_ms = Some reason"
    and "saturating_since now' now < FUNDING_TIMEOUT_MS"
  shows "b_active b \<noteq> None \<and> b_next b = None \<and> b_pending b = None \<and> \<not> funding_in_flight b now
    \<and> rollover_due (funding_requested b request now) threshold_pct now' margin_ms = None"
  using assms
  by (auto simp: rollover_due_def needs_rollover_def funding_in_flight_def funding_requested_def
      Let_def split: if_splits option.splits)

lemma rollover_asked_once_witness:
  "rollover_due (ex_buyer\<lparr>b_last_grant := 600\<rparr>) 80 0 0 = Some RolloverCapacity
    \<and> rollover_due (funding_requested (ex_buyer\<lparr>b_last_grant := 600\<rparr>) 7 0) 80 20 0 = None"
proof -
  have "rollover_due (ex_buyer\<lparr>b_last_grant := 600\<rparr>) 80 0 0 = Some RolloverCapacity"
    "saturating_since 20 0 < FUNDING_TIMEOUT_MS"
    by code_simp+
  with rollover_asked_once [OF this] show ?thesis by blast
qed

text \<open>A provider's Balance can make a buyer spend. A resumed buyer with nothing to buy decides on
  no purchase; told that a budget it had forgotten is still there, it reserves its old rate again
  and signs for it, with no demand at all.\<close>

lemma balance_can_trigger_purchase:
  "poll (ex_buyer\<lparr>b_resumed := 10\<rparr>) BuyerPolicy_default (ex_wanting 0) 5 = None
    \<and> (case poll (note_balance (ex_buyer\<lparr>b_resumed := 10\<rparr>) 50 5000 5) BuyerPolicy_default (ex_wanting 0) 5 of
         None \<Rightarrow> False | Some pu \<Rightarrow> 0 < pu_grant pu \<and> pu_reserved_rate pu = 10)"
  by (intro conjI; code_simp)

end
