(* ===== verification/Cbor.thy ===== *)
theory Cbor
  imports Prelude
begin

text \<open>
  The CBOR library the wire formats are written against, \<open>minicbor\<close>, as a parameter: the operations of
  its \<open>Encoder\<close> and \<open>Decoder\<close> the codecs call, as a record of functions, and what they promise, as
  the locale \<open>cbor_lib\<close>. An encoder operation gives the bytes it appends; a decoder operation takes
  the bytes not yet read and gives a value and the bytes left, or nothing where it fails. At the end
  the promises are discharged for the encoding of RFC 8949.
\<close>

record Cbor_Lib =
  enc_map :: "u64 \<Rightarrow> u8 list"
  enc_array :: "u64 \<Rightarrow> u8 list"
  enc_u8 :: "u8 \<Rightarrow> u8 list"
  enc_u16 :: "u16 \<Rightarrow> u8 list"
  enc_u32 :: "u32 \<Rightarrow> u8 list"
  enc_u64 :: "u64 \<Rightarrow> u8 list"
  enc_bytes :: "u8 list \<Rightarrow> u8 list"
  enc_str :: "string \<Rightarrow> u8 list"
  enc_bool :: "bool \<Rightarrow> u8 list"
  enc_null :: "u8 list"
  utf8 :: "string \<Rightarrow> bool"
  dec_map :: "u8 list \<Rightarrow> (u64 option \<times> u8 list) option"
  dec_array :: "u8 list \<Rightarrow> (u64 option \<times> u8 list) option"
  dec_u8 :: "u8 list \<Rightarrow> (u8 \<times> u8 list) option"
  dec_u16 :: "u8 list \<Rightarrow> (u16 \<times> u8 list) option"
  dec_u32 :: "u8 list \<Rightarrow> (u32 \<times> u8 list) option"
  dec_u64 :: "u8 list \<Rightarrow> (u64 \<times> u8 list) option"
  dec_bytes :: "u8 list \<Rightarrow> (u8 list \<times> u8 list) option"
  dec_str :: "u8 list \<Rightarrow> (string \<times> u8 list) option"
  dec_bool :: "u8 list \<Rightarrow> (bool \<times> u8 list) option"
  dec_null :: "u8 list \<Rightarrow> u8 list option"
  dec_skip :: "u8 list \<Rightarrow> u8 list option"
  dec_is_null :: "u8 list \<Rightarrow> bool option"

text \<open>Lengths that fit the 64 bits a CBOR head can carry, which every length in memory does.\<close>

definition fits_u64 :: "'a list \<Rightarrow> bool" where
  "fits_u64 xs = (length xs < 2 ^ 64)"

text \<open>Text of seven-bit characters, which is UTF-8 as it stands.\<close>

definition ascii :: "string \<Rightarrow> bool" where
  "ascii s = list_all (\<lambda>ch. of_char ch < (128 :: nat)) s"

text \<open>An encoded value a decoder can pass over, leaving what follows it.\<close>

definition skippable :: "Cbor_Lib \<Rightarrow> u8 list \<Rightarrow> bool" where
  "skippable c v = (\<forall>r. dec_skip c (v @ r) = Some r)"

locale cbor_lib =
  fixes c :: Cbor_Lib
  assumes map_back: "dec_map c (enc_map c n @ r) = Some (Some n, r)"
    and array_back: "dec_array c (enc_array c n @ r) = Some (Some n, r)"
    and u8_back: "dec_u8 c (enc_u8 c v1 @ r) = Some (v1, r)"
    and u16_back: "dec_u16 c (enc_u16 c v2 @ r) = Some (v2, r)"
    and u32_back: "dec_u32 c (enc_u32 c v4 @ r) = Some (v4, r)"
    and u64_back: "dec_u64 c (enc_u64 c v8 @ r) = Some (v8, r)"
    and bytes_back: "fits_u64 bs \<Longrightarrow> dec_bytes c (enc_bytes c bs @ r) = Some (bs, r)"
    and str_back: "utf8 c s \<Longrightarrow> fits_u64 s \<Longrightarrow> dec_str c (enc_str c s @ r) = Some (s, r)"
    and bool_back: "dec_bool c (enc_bool c b @ r) = Some (b, r)"
    and null_back: "dec_null c (enc_null c @ r) = Some r"
    and ascii_utf8: "ascii s \<Longrightarrow> utf8 c s"
    and skip_u8: "skippable c (enc_u8 c v1)"
    and skip_u16: "skippable c (enc_u16 c v2)"
    and skip_u32: "skippable c (enc_u32 c v4)"
    and skip_u64: "skippable c (enc_u64 c v8)"
    and skip_bytes: "fits_u64 bs \<Longrightarrow> skippable c (enc_bytes c bs)"
    and skip_str: "utf8 c s \<Longrightarrow> fits_u64 s \<Longrightarrow> skippable c (enc_str c s)"
    and skip_bool: "skippable c (enc_bool c b)"
    and skip_null: "skippable c (enc_null c)"
    and skip_array: "fits_u64 vs \<Longrightarrow> list_all (skippable c) vs \<Longrightarrow>
      skippable c (enc_array c (of_nat (length vs)) @ concat vs)"
    and len_map: "length (enc_map c n) \<le> 9"
    and len_array: "length (enc_array c n) \<le> 9"
    and len_u8: "length (enc_u8 c v1) \<le> 2"
    and len_u64: "length (enc_u64 c v8) \<le> 9"
    and len_bytes: "length (enc_bytes c bs) \<le> 9 + length bs"
    and len_bool: "length (enc_bool c b) \<le> 1"
    and len_null: "length (enc_null c) \<le> 1"
    and null_type: "dec_is_null c (enc_null c @ r) = Some True"
    and str_type: "fits_u64 s \<Longrightarrow> dec_is_null c (enc_str c s @ r) = Some False"
    and u64_type: "dec_is_null c (enc_u64 c v8 @ r) = Some False"
begin

lemmas backs = map_back array_back u8_back u16_back u32_back u64_back bytes_back str_back bool_back
  null_back null_type str_type u64_type

text \<open>The same at the end of the input.\<close>

lemmas ends = backs [where r = "[]", simplified append_Nil2]

lemmas lens = len_map len_array len_u8 len_u64 len_bytes len_bool len_null

lemmas skips = skip_u8 skip_u16 skip_u32 skip_u64 skip_bytes skip_str skip_bool skip_null skip_array

end

subsection \<open>RFC 8949\<close>

text \<open>Big-endian bytes.\<close>

fun be_bytes :: "nat \<Rightarrow> nat \<Rightarrow> u8 list" where
  "be_bytes 0 v = []"
| "be_bytes (Suc n) v = be_bytes n (v div 256) @ [of_nat (v mod 256)]"

definition be_value :: "u8 list \<Rightarrow> nat" where
  "be_value bs = foldl (\<lambda>a b. a * 256 + unat b) 0 bs"

lemma length_be_bytes [simp]: "length (be_bytes n v) = n"
  by (induction n arbitrary: v) simp_all

lemma be_value_bytes: "be_value (be_bytes n v) = v mod 256 ^ n"
proof (induction n arbitrary: v)
  case (Suc n)
  have "v mod (256 * 256 ^ n) = 256 * (v div 256 mod 256 ^ n) + v mod 256"
    by (simp add: mod_mult2_eq)
  with Suc show ?case
    by (simp add: be_value_def unat_of_nat take_bit_eq_mod mult.commute)
qed (simp add: be_value_def)

text \<open>An item's head: its major type and its argument, in the shortest form.\<close>

definition head :: "nat \<Rightarrow> nat \<Rightarrow> u8 list" where
  "head major v =
     (if v < 24 then [of_nat (major * 32 + v)]
      else if v < 256 then of_nat (major * 32 + 24) # be_bytes 1 v
      else if v < 65536 then of_nat (major * 32 + 25) # be_bytes 2 v
      else if v < 4294967296 then of_nat (major * 32 + 26) # be_bytes 4 v
      else of_nat (major * 32 + 27) # be_bytes 8 v)"

definition read_arg :: "nat \<Rightarrow> nat \<Rightarrow> u8 list \<Rightarrow> (nat \<times> nat option \<times> u8 list) option" where
  "read_arg major n d =
     (if length d < n then None else Some (major, Some (be_value (take n d)), drop n d))"

fun read_head :: "u8 list \<Rightarrow> (nat \<times> nat option \<times> u8 list) option" where
  "read_head [] = None"
| "read_head (b # d) =
     (let major = unat b div 32; info = unat b mod 32
      in if info < 24 then Some (major, Some info, d)
         else if info = 24 then read_arg major 1 d
         else if info = 25 then read_arg major 2 d
         else if info = 26 then read_arg major 4 d
         else if info = 27 then read_arg major 8 d
         else if info = 31 then Some (major, None, d)
         else None)"

lemma unat_head_byte: "major < 8 \<Longrightarrow> info < 32 \<Longrightarrow> unat (of_nat (major * 32 + info) :: u8) = major * 32 + info"
  by (simp add: unat_of_nat take_bit_eq_mod del: of_nat_add of_nat_mult)

lemma read_arg_back: "v < 256 ^ n \<Longrightarrow> read_arg major n (be_bytes n v @ r) = Some (major, Some v, r)"
  by (simp add: read_arg_def be_value_bytes)

lemma read_head_byte:
  assumes "major < 8" "info < 32"
  shows "read_head (of_nat (major * 32 + info) # d) =
     (if info < 24 then Some (major, Some info, d)
      else if info = 24 then read_arg major 1 d
      else if info = 25 then read_arg major 2 d
      else if info = 26 then read_arg major 4 d
      else if info = 27 then read_arg major 8 d
      else if info = 31 then Some (major, None, d)
      else None)"
proof -
  have "unat (of_nat (major * 32 + info) :: u8) div 32 = major"
    "unat (of_nat (major * 32 + info) :: u8) mod 32 = info"
    unfolding unat_head_byte [OF assms] using assms by simp_all
  then show ?thesis by (simp only: read_head.simps Let_def)
qed

lemma read_head_back:
  assumes "major < 8" "v < 2 ^ 64"
  shows "read_head (head major v @ r) = Some (major, Some v, r)"
  using assms read_head_byte [OF assms(1)]
  by (simp add: head_def read_arg_back del: read_head.simps be_bytes.simps One_nat_def
      of_nat_add of_nat_mult)

text \<open>Reading one value of each kind.\<close>

definition read_uint :: "nat \<Rightarrow> u8 list \<Rightarrow> (nat \<times> u8 list) option" where
  "read_uint bits d =
     (case read_head d of
        Some (major, Some v, r) \<Rightarrow> if major = 0 \<and> v < 2 ^ bits then Some (v, r) else None
      | _ \<Rightarrow> None)"

definition read_len :: "nat \<Rightarrow> u8 list \<Rightarrow> (u64 option \<times> u8 list) option" where
  "read_len want d =
     (case read_head d of
        None \<Rightarrow> None
      | Some (major, v, r) \<Rightarrow> if major = want then Some (map_option of_nat v, r) else None)"

definition read_blob :: "nat \<Rightarrow> u8 list \<Rightarrow> (u8 list \<times> u8 list) option" where
  "read_blob want d =
     (case read_head d of
        Some (major, Some v, r) \<Rightarrow>
          if major = want \<and> v \<le> length r then Some (take v r, drop v r) else None
      | _ \<Rightarrow> None)"

definition str_bytes :: "string \<Rightarrow> u8 list" where
  "str_bytes s = map (\<lambda>ch. of_nat (of_char ch)) s"

definition bytes_str :: "u8 list \<Rightarrow> string" where
  "bytes_str bs = map (\<lambda>b. char_of (unat b)) bs"

definition read_str :: "u8 list \<Rightarrow> (string \<times> u8 list) option" where
  "read_str d =
     (case read_blob 3 d of
        Some (bs, r) \<Rightarrow> if ascii (bytes_str bs) then Some (bytes_str bs, r) else None
      | None \<Rightarrow> None)"

fun read_bool :: "u8 list \<Rightarrow> (bool \<times> u8 list) option" where
  "read_bool [] = None"
| "read_bool (b # d) = (if b = 0xF5 then Some (True, d) else if b = 0xF4 then Some (False, d) else None)"

fun read_null :: "u8 list \<Rightarrow> u8 list option" where
  "read_null [] = None"
| "read_null (b # d) = (if b = 0xF6 then Some d else None)"

fun read_is_null :: "u8 list \<Rightarrow> bool option" where
  "read_is_null [] = None"
| "read_is_null (b # d) = Some (b = 0xF6)"

lemma read_head_length: "read_head d = Some (major, v, r) \<Longrightarrow> length r < length d"
  by (cases d) (auto simp: Let_def read_arg_def split: if_splits)

text \<open>Skipping \<open>k\<close> items, whatever they hold.\<close>

function skip_items :: "nat \<Rightarrow> u8 list \<Rightarrow> u8 list option" where
  "skip_items 0 d = Some d"
| "skip_items (Suc k) d =
     (case read_head d of
        None \<Rightarrow> None
      | Some (major, v, r) \<Rightarrow>
          (case v of
             None \<Rightarrow> None
           | Some n \<Rightarrow>
               if major = 2 \<or> major = 3
               then (if n \<le> length r then skip_items k (drop n r) else None)
               else if major = 4 then skip_items (k + n) r
               else if major = 5 then skip_items (k + 2 * n) r
               else if major = 6 then skip_items (Suc k) r
               else skip_items k r))"
  by pat_completeness auto

termination
  by (relation "measure (\<lambda>(k, d). length d)") (auto dest: read_head_length)

definition rfc8949 :: Cbor_Lib where
  "rfc8949 =
     \<lparr>enc_map = (\<lambda>n. head 5 (unat n)), enc_array = (\<lambda>n. head 4 (unat n)),
      enc_u8 = (\<lambda>v. head 0 (unat v)), enc_u16 = (\<lambda>v. head 0 (unat v)),
      enc_u32 = (\<lambda>v. head 0 (unat v)), enc_u64 = (\<lambda>v. head 0 (unat v)),
      enc_bytes = (\<lambda>bs. head 2 (length bs) @ bs),
      enc_str = (\<lambda>s. head 3 (length s) @ str_bytes s),
      enc_bool = (\<lambda>b. [if b then 0xF5 else 0xF4]), enc_null = [0xF6], utf8 = ascii,
      dec_map = read_len 5, dec_array = read_len 4,
      dec_u8 = (\<lambda>d. map_option (\<lambda>(v, r). (of_nat v, r)) (read_uint 8 d)),
      dec_u16 = (\<lambda>d. map_option (\<lambda>(v, r). (of_nat v, r)) (read_uint 16 d)),
      dec_u32 = (\<lambda>d. map_option (\<lambda>(v, r). (of_nat v, r)) (read_uint 32 d)),
      dec_u64 = (\<lambda>d. map_option (\<lambda>(v, r). (of_nat v, r)) (read_uint 64 d)),
      dec_bytes = read_blob 2, dec_str = read_str, dec_bool = read_bool, dec_null = read_null,
      dec_skip = skip_items 1, dec_is_null = read_is_null\<rparr>"

lemma read_uint_back: "v < 2 ^ bits \<Longrightarrow> bits \<le> 64 \<Longrightarrow> read_uint bits (head 0 v @ r) = Some (v, r)"
  using read_head_back [of 0 v r] power_increasing [of bits 64 "2 :: nat"]
  by (simp add: read_uint_def)

lemma read_blob_back:
  "m < 8 \<Longrightarrow> length bs < 2 ^ 64 \<Longrightarrow> read_blob m (head m (length bs) @ bs @ r) = Some (bs, r)"
  using read_head_back [of m "length bs" "bs @ r"] by (simp add: read_blob_def)

lemma length_str_bytes [simp]: "length (str_bytes s) = length s"
  by (simp add: str_bytes_def)

lemma bytes_str_bytes [simp]: "bytes_str (str_bytes s) = s"
proof -
  have "char_of (unat (of_nat (of_char ch) :: u8)) = ch" for ch
    by (simp add: unat_of_nat take_bit_eq_mod)
  then show ?thesis by (simp add: bytes_str_def str_bytes_def comp_def)
qed

lemma length_head: "length (head major v) \<le> 9"
  by (simp add: head_def)

lemma length_head_short: "v < 256 \<Longrightarrow> length (head major v) \<le> 2"
  by (simp add: head_def)

lemma head_not_null:
  assumes "major < 4"
  shows "read_is_null (head major v @ r) = Some False"
proof -
  have "(of_nat (major * 32 + info) :: u8) \<noteq> 0xF6" if "info < 32" for info
    using unat_head_byte [of major info] assms that by (auto simp del: of_nat_add of_nat_mult)
  then show ?thesis by (auto simp add: head_def simp del: of_nat_add of_nat_mult be_bytes.simps)
qed

lemma read_str_back: "ascii s \<Longrightarrow> length s < 2 ^ 64 \<Longrightarrow> read_str (head 3 (length s) @ str_bytes s @ r) = Some (s, r)"
  using read_blob_back [of 3 "str_bytes s" r] by (simp add: read_str_def)

lemma unat_lt_2_64: "LENGTH('a) \<le> 64 \<Longrightarrow> unat (w :: 'a :: len word) < 2 ^ 64"
  using unsigned_less [of w, where 'a = nat] power_increasing [of "LENGTH('a)" 64 "2 :: nat"]
  by linarith

lemma read_uint_word:
  "LENGTH('a) \<le> 64 \<Longrightarrow>
     read_uint LENGTH('a) (head 0 (unat (w :: 'a :: len word)) @ r) = Some (unat w, r)"
  by (rule read_uint_back) (auto simp: unsigned_less)

lemma skip_uint: "LENGTH('a) \<le> 64 \<Longrightarrow> skip_items 1 (head 0 (unat (w :: 'a :: len word)) @ r) = Some r"
  using read_head_back [of 0 "unat w" r] unat_lt_2_64 [of w] by simp

lemma skip_blob:
  "m = 2 \<or> m = 3 \<Longrightarrow> length bs < 2 ^ 64 \<Longrightarrow> skip_items 1 (head m (length bs) @ bs @ r) = Some r"
  using read_head_back [of m "length bs" "bs @ r"] by auto

lemma skip_items_add: "skip_items (j + k) d = Option.bind (skip_items j d) (skip_items k)"
proof (induction j d rule: skip_items.induct)
  case (2 j d)
  show ?case
  proof (cases "read_head d")
    case (Some h)
    then obtain major v r where "read_head d = Some (major, v, r)"
      by (cases h rule: prod_cases3) simp
    with 2 show ?thesis by (cases v) (simp_all add: ac_simps)
  qed simp
qed simp

lemma skip_items_concat:
  "\<forall>v\<in>set vs. \<forall>r. skip_items 1 (v @ r) = Some r \<Longrightarrow> skip_items (length vs) (concat vs @ r) = Some r"
proof (induction vs)
  case (Cons v vs)
  have "skip_items (length (v # vs)) (concat (v # vs) @ r) =
      Option.bind (skip_items 1 (v @ concat vs @ r)) (skip_items (length vs))"
    using skip_items_add [of 1 "length vs" "v @ concat vs @ r"] by (simp del: skip_items.simps)
  with Cons show ?case by (simp del: skip_items.simps)
qed simp

interpretation rfc: cbor_lib rfc8949
proof unfold_locales
  show "dec_map rfc8949 (enc_map rfc8949 n @ r) = Some (Some n, r)" for n r
    using read_head_back [of 5 "unat n" r] unat_lt_2_64 [of n] by (simp add: rfc8949_def read_len_def)
  show "dec_array rfc8949 (enc_array rfc8949 n @ r) = Some (Some n, r)" for n r
    using read_head_back [of 4 "unat n" r] unat_lt_2_64 [of n] by (simp add: rfc8949_def read_len_def)
  show "dec_u8 rfc8949 (enc_u8 rfc8949 v @ r) = Some (v, r)" for v r
    using read_uint_word [of v r] by (simp add: rfc8949_def)
  show "dec_u16 rfc8949 (enc_u16 rfc8949 v @ r) = Some (v, r)" for v r
    using read_uint_word [of v r] by (simp add: rfc8949_def)
  show "dec_u32 rfc8949 (enc_u32 rfc8949 v @ r) = Some (v, r)" for v r
    using read_uint_word [of v r] by (simp add: rfc8949_def)
  show "dec_u64 rfc8949 (enc_u64 rfc8949 v @ r) = Some (v, r)" for v r
    using read_uint_word [of v r] by (simp add: rfc8949_def)
  show "dec_bytes rfc8949 (enc_bytes rfc8949 bs @ r) = Some (bs, r)" if "fits_u64 bs" for bs r
    using that read_blob_back [of 2 bs r] by (simp add: rfc8949_def fits_u64_def)
  show "dec_str rfc8949 (enc_str rfc8949 s @ r) = Some (s, r)" if "utf8 rfc8949 s" "fits_u64 s" for s r
    using that read_str_back [of s r] by (simp add: rfc8949_def fits_u64_def)
  show "dec_bool rfc8949 (enc_bool rfc8949 b @ r) = Some (b, r)" for b r
    by (simp add: rfc8949_def)
  show "dec_null rfc8949 (enc_null rfc8949 @ r) = Some r" for r
    by (simp add: rfc8949_def)
  show "utf8 rfc8949 s" if "ascii s" for s
    using that by (simp add: rfc8949_def)
  show "skippable rfc8949 (enc_u8 rfc8949 v)" for v
    using skip_uint [of v] by (simp add: rfc8949_def skippable_def)
  show "skippable rfc8949 (enc_u16 rfc8949 v)" for v
    using skip_uint [of v] by (simp add: rfc8949_def skippable_def)
  show "skippable rfc8949 (enc_u32 rfc8949 v)" for v
    using skip_uint [of v] by (simp add: rfc8949_def skippable_def)
  show "skippable rfc8949 (enc_u64 rfc8949 v)" for v
    using skip_uint [of v] by (simp add: rfc8949_def skippable_def)
  show "skippable rfc8949 (enc_bytes rfc8949 bs)" if "fits_u64 bs" for bs
    using that skip_blob [of 2 bs] by (simp add: rfc8949_def skippable_def fits_u64_def)
  show "skippable rfc8949 (enc_str rfc8949 s)" if "fits_u64 s" for s
    using that skip_blob [of 3 "str_bytes s"] by (simp add: rfc8949_def skippable_def fits_u64_def)
  show "skippable rfc8949 (enc_bool rfc8949 b)" for b
    by (simp add: rfc8949_def skippable_def)
  show "skippable rfc8949 (enc_null rfc8949)"
    by (simp add: rfc8949_def skippable_def)
  show "skippable rfc8949 (enc_array rfc8949 (of_nat (length vs)) @ concat vs)"
    if "fits_u64 vs" "list_all (skippable rfc8949) vs" for vs
  proof -
    have n: "unat (of_nat (length vs) :: u64) = length vs"
      using that(1) by (simp add: fits_u64_def unat_of_nat take_bit_eq_mod)
    have "skip_items (length vs) (concat vs @ r) = Some r" for r
      using that(2) by (intro skip_items_concat) (simp add: list_all_iff skippable_def rfc8949_def)
    then show ?thesis
      using read_head_back [of 4 "length vs"] that(1)
      by (simp add: rfc8949_def skippable_def n fits_u64_def)
  qed
  show "length (enc_map rfc8949 n) \<le> 9" "length (enc_array rfc8949 n) \<le> 9" for n
    by (simp_all add: rfc8949_def length_head)
  show "length (enc_u8 rfc8949 v) \<le> 2" for v
    using unsigned_less [of v, where 'a = nat] by (simp add: rfc8949_def length_head_short)
  show "length (enc_u64 rfc8949 v) \<le> 9" for v
    by (simp add: rfc8949_def length_head)
  show "length (enc_bytes rfc8949 bs) \<le> 9 + length bs" for bs
    by (simp add: rfc8949_def length_head)
  show "length (enc_bool rfc8949 b) \<le> 1" for b
    by (simp add: rfc8949_def)
  show "length (enc_null rfc8949) \<le> 1"
    by (simp add: rfc8949_def)
  show "dec_is_null rfc8949 (enc_null rfc8949 @ r) = Some True" for r
    by (simp add: rfc8949_def)
  show "dec_is_null rfc8949 (enc_str rfc8949 s @ r) = Some False" for s r
    by (simp add: rfc8949_def head_not_null)
  show "dec_is_null rfc8949 (enc_u64 rfc8949 v @ r) = Some False" for v r
    by (simp add: rfc8949_def head_not_null)
qed

end
