(* ===== verification/Decoder.thy ===== *)
theory Decoder
  imports Cbor
begin

text \<open>
  What the two message codecs share: a decoder as a function from the bytes left to a value and the
  bytes left after it, or a failure, and the two passes over a map, the scan for the type under key
  \<open>0\<close> and the loop over the pairs. A failure is an error of the codec, or a panic.

  The lemmas say what the passes do on a map whose fields stand in any order.
\<close>

datatype 'e Failure = Err 'e | Panic

type_synonym ('e, 'a) decoder = "u8 list \<Rightarrow> 'e Failure + ('a \<times> u8 list)"

definition lib :: "'e \<Rightarrow> (u8 list \<Rightarrow> ('a \<times> u8 list) option) \<Rightarrow> ('e, 'a) decoder" where
  "lib e rd d = (case rd d of None \<Rightarrow> Inl (Err e) | Some x \<Rightarrow> Inr x)"

definition fail :: "'e \<Rightarrow> ('e, 'a) decoder" where
  "fail e d = Inl (Err e)"

definition give :: "'a \<Rightarrow> ('e, 'a) decoder" where
  "give v d = Inr (v, d)"

definition read_then :: "('e, 'a) decoder \<Rightarrow> ('a \<Rightarrow> ('e, 'b) decoder) \<Rightarrow> ('e, 'b) decoder" where
  "read_then rd f d = (case rd d of Inl e \<Rightarrow> Inl e | Inr (v, r) \<Rightarrow> f v r)"

definition store :: "('e, 'a) decoder \<Rightarrow> ('a \<Rightarrow> 'b) \<Rightarrow> ('e, 'b) decoder" where
  "store rd f = read_then rd (\<lambda>v. give (f v))"

definition skip_value :: "'e \<Rightarrow> Cbor_Lib \<Rightarrow> 's \<Rightarrow> ('e, 's) decoder" where
  "skip_value e c s d = (case dec_skip c d of None \<Rightarrow> Inl (Err e) | Some r \<Rightarrow> Inr (s, r))"

text \<open>\<open>for _ in 0..n { list.push(..) }\<close>\<close>

fun read_many :: "nat \<Rightarrow> ('e, 'a) decoder \<Rightarrow> ('e, 'a list) decoder" where
  "read_many 0 rd = give []"
| "read_many (Suc n) rd = read_then rd (\<lambda>x. store (read_many n rd) (\<lambda>xs. x # xs))"

text \<open>\<open>for _ in 0..pairs { match d.u8()? { .. } }\<close>\<close>

fun each_pair :: "'e \<Rightarrow> Cbor_Lib \<Rightarrow> (u8 \<Rightarrow> 's \<Rightarrow> ('e, 's) decoder) \<Rightarrow> nat \<Rightarrow> 's \<Rightarrow> ('e, 's) decoder" where
  "each_pair e c field 0 s = give s"
| "each_pair e c field (Suc n) s =
     read_then (lib e (dec_u8 c)) (\<lambda>key. read_then (field key s) (each_pair e c field n))"

text \<open>The first pass, until key \<open>0\<close> turns up.\<close>

fun scan_pairs :: "'e \<Rightarrow> 'e \<Rightarrow> Cbor_Lib \<Rightarrow> nat \<Rightarrow> ('e, u8) decoder" where
  "scan_pairs e miss c 0 = fail miss"
| "scan_pairs e miss c (Suc n) =
     read_then (lib e (dec_u8 c)) (\<lambda>key.
       if key = 0 then lib e (dec_u8 c)
       else read_then (skip_value e c ()) (\<lambda>_. scan_pairs e miss c n))"

lemmas decoder_defs = lib_def fail_def give_def read_then_def store_def skip_value_def

text \<open>A map's pairs as they stand on the wire.\<close>

definition put_fields :: "Cbor_Lib \<Rightarrow> (u8 \<times> u8 list) list \<Rightarrow> u8 list" where
  "put_fields c fs = concat (map (\<lambda>(k, v). enc_u8 c k @ v) fs)"

lemma put_fields_simps [simp]:
  "put_fields c [] = []"
  "put_fields c (f # fs) = enc_u8 c (fst f) @ snd f @ put_fields c fs"
  by (simp_all add: put_fields_def split: prod.split)

lemma read_many_back:
  assumes "\<And>x r. x \<in> set xs \<Longrightarrow> rd (put x @ r) = Inr (x, r)"
  shows "read_many (length xs) rd (concat (map put xs) @ r) = Inr (xs, r)"
  using assms by (induction xs arbitrary: r) (auto simp: decoder_defs)

lemma read_many_all:
  assumes "\<And>d x r. rd d = Inr (x, r) \<Longrightarrow> P x"
  shows "read_many n rd d = Inr (xs, r) \<Longrightarrow> length xs = n \<and> list_all P xs"
  using assms
  by (induction n arbitrary: d xs r) (auto simp: decoder_defs split: sum.splits prod.splits)

text \<open>What every field keeps, the loop keeps.\<close>

lemma each_pair_keeps:
  assumes "\<And>key s d s' r. I s \<Longrightarrow> field key s d = Inr (s', r) \<Longrightarrow> I s'"
  shows "I s \<Longrightarrow> each_pair e c field n s d = Inr (s', r) \<Longrightarrow> I s'"
proof (induction n arbitrary: s d)
  case (Suc n)
  then obtain key d1 s1 d2
    where "field key s d1 = Inr (s1, d2)" "each_pair e c field n s1 d2 = Inr (s', r)"
    by (auto simp: decoder_defs split: sum.splits prod.splits option.splits)
  with Suc.prems(1) show ?case by (blast intro: Suc.IH assms)
qed (simp add: decoder_defs)

context cbor_lib
begin

lemma scan_pairs_back:
  assumes "list_all (\<lambda>(k, v). (k = 0 \<longrightarrow> v = enc_u8 c tag) \<and> skippable c v) fs"
    and "(0, enc_u8 c tag) \<in> set fs"
  shows "\<exists>r'. scan_pairs e miss c (length fs) (put_fields c fs @ r) = Inr (tag, r')"
  using assms
  by (induction fs arbitrary: r) (auto simp: decoder_defs u8_back skippable_def split: prod.splits)

lemma each_pair_back:
  assumes "\<And>k v s r. (k, v) \<in> set fs \<Longrightarrow> field k s (v @ r) = Inr (act k s, r)"
  shows "each_pair e c field (length fs) s (put_fields c fs @ r) = Inr (fold (\<lambda>f. act (fst f)) fs s, r)"
  using assms by (induction fs arbitrary: s) (auto simp: decoder_defs u8_back)

end

text \<open>A slot of the loop's state that key \<open>i\<close> fills with \<open>v\<close>.\<close>

definition fill :: "u8 \<Rightarrow> 'a \<Rightarrow> u8 \<Rightarrow> 'a option \<Rightarrow> 'a option" where
  "fill i v k s = (if k = i then Some v else s)"

lemma fold_fill: "fold (\<lambda>f. fill i v (fst f)) fs s = (if i \<in> fst ` set fs then Some v else s)"
  by (induction fs arbitrary: s) (auto simp: fill_def)

text \<open>A state of several slots is filled slot by slot.\<close>

lemma fold_map_prod:
  "fold (\<lambda>f. map_prod (g f) (h f)) fs (a, b) = (fold g fs a, fold h fs b)"
  by (induction fs arbitrary: a b) simp_all

end
