(* ===== verification/Codec.thy ===== *)
theory Codec
  imports Wire_Types Decoder
begin

text \<open>
  The message codec of \<open>crates/tollgate-protocol/src/codec.rs\<close>: \<open>encode\<close>, the two passes of
  \<open>decode\<close>, and one decoder per message, over the CBOR operations \<open>c\<close>. An encoder writing to a
  vector cannot fail, so \<open>encode\<close> gives the bytes. Each \<open><message>_field\<close> is the \<open>match\<close> on one key
  in the loop of \<open>decode_<message>\<close>, over the tuple of that function's local options. A \<open>usize\<close> has
  64 bits.

  \<open>message_fields\<close> lists what a message puts in its map; the lemmas of the last part show that any
  arrangement of those fields, with unknown ones between them, decodes to the message.
\<close>

datatype CodecError =
    BadCbor
  | UnknownType u8
  | MissingType
  | MissingField u8 u8
  | BadLength u8 nat nat
  | IndefiniteLength
  | EmptyMintList
  | NoChannelUpdates
  | TooManyChannelUpdates nat

type_synonym 'a codec = "(CodecError, 'a) decoder"

subsection \<open>Encoding\<close>

definition encode :: "Cbor_Lib \<Rightarrow> Message \<Rightarrow> u8 list \<Rightarrow> u8 list" where
  "encode c msg out =
     out @ (let tag = msg_type_u8 (msg_type msg) in
     (case msg of
        MAnnounce m \<Rightarrow>
          enc_map c 5 @
          enc_u8 c 0 @ enc_u8 c tag @
          enc_u8 c 1 @ enc_u8 c (ann_version m) @
          enc_u8 c 2 @ enc_bytes c (pubkey_bytes (ann_pubkey m)) @
          enc_u8 c 3 @ enc_str c (ann_unit m) @
          enc_u8 c 4 @ enc_u32 c (ann_capabilities m)
      | MOffer m \<Rightarrow>
          enc_map c (if offer_no_charge m then 8 else 7) @
          enc_u8 c 0 @ enc_u8 c tag @
          enc_u8 c 1 @ enc_array c (of_nat (length (offer_accepted_mints m))) @
            concat (map (enc_str c) (offer_accepted_mints m)) @
          enc_u8 c 2 @ enc_str c (offer_unit m) @
          enc_u8 c 3 @ enc_array c 2 @ enc_u64 c (offer_min_window_ms m) @
            enc_u64 c (offer_max_window_ms m) @
          enc_u8 c 4 @ enc_u16 c (offer_from_payer_weight m) @
          (if offer_no_charge m then enc_u8 c 5 @ enc_bool c True else []) @
          enc_u8 c 6 @ enc_u64 c (offer_min_reserved_rate m) @
          enc_u8 c 7 @ enc_u64 c (offer_min_topup_gap_ms m)
      | MAccept m \<Rightarrow>
          enc_map c 2 @
          enc_u8 c 0 @ enc_u8 c tag @
          enc_u8 c 1 @ enc_bytes c (acc_funding m)
      | MChannelReady m \<Rightarrow>
          enc_map c 2 @
          enc_u8 c 0 @ enc_u8 c tag @
          enc_u8 c 1 @ enc_bytes c (channel_id_bytes (ready_channel_id m))
      | MTopUp m \<Rightarrow>
          enc_map c 4 @
          enc_u8 c 0 @ enc_u8 c tag @
          enc_u8 c 1 @ enc_array c (of_nat (length (topup_updates m))) @
            concat (map (\<lambda>u. enc_array c 3 @ enc_bytes c (channel_id_bytes (upd_channel_id u)) @
              enc_u64 c (upd_cumulative u) @ enc_bytes c (signature_bytes (upd_signature u)))
              (topup_updates m)) @
          enc_u8 c 2 @ enc_u64 c (topup_window_ms m) @
          enc_u8 c 3 @ enc_u64 c (topup_reserved_rate m)
      | MTopUpReject m \<Rightarrow>
          enc_map c 4 @
          enc_u8 c 0 @ enc_u8 c tag @
          enc_u8 c 1 @ enc_array c (of_nat (length (rej_refused m))) @
            concat (map (\<lambda>r. enc_array c 2 @ enc_bytes c (channel_id_bytes (ref_channel_id r)) @
              enc_u64 c (ref_cumulative r)) (rej_refused m)) @
          enc_u8 c 2 @ enc_u64 c (rej_max_reserved_rate m) @
          enc_u8 c 3 @ enc_u8 c (reason_u8 (rej_reason m))
      | MRolloverInit m \<Rightarrow>
          enc_map c 3 @
          enc_u8 c 0 @ enc_u8 c tag @
          enc_u8 c 1 @ enc_bytes c (channel_id_bytes (ri_old_channel_id m)) @
          enc_u8 c 2 @ enc_bytes c (ri_funding m)
      | MRolloverReady m \<Rightarrow>
          enc_map c 3 @
          enc_u8 c 0 @ enc_u8 c tag @
          enc_u8 c 1 @ enc_bytes c (channel_id_bytes (rr_old_channel_id m)) @
          enc_u8 c 2 @ enc_bytes c (channel_id_bytes (rr_new_channel_id m))
      | MChannelClose m \<Rightarrow>
          enc_map c 5 @
          enc_u8 c 0 @ enc_u8 c tag @
          enc_u8 c 1 @ enc_bytes c (channel_id_bytes (close_channel_id m)) @
          enc_u8 c 2 @ enc_u64 c (close_final_balance m) @
          enc_u8 c 3 @ enc_bytes c (signature_bytes (close_final_signature m)) @
          enc_u8 c 4 @ enc_u8 c (close_reason_u8 (close_reason m))
      | MCloseAck m \<Rightarrow>
          enc_map c 3 @
          enc_u8 c 0 @ enc_u8 c tag @
          enc_u8 c 1 @ enc_bytes c (channel_id_bytes (ack_channel_id m)) @
          enc_u8 c 2 @ enc_u64 c (ack_accepted_balance m)
      | MReject m \<Rightarrow>
          enc_map c 4 @
          enc_u8 c 0 @ enc_u8 c tag @
          enc_u8 c 1 @ enc_u8 c (reject_type m) @
          enc_u8 c 2 @ enc_u8 c (reason_u8 (reject_reason m)) @
          enc_u8 c 3 @ (case reject_text m of Some t \<Rightarrow> enc_str c t | None \<Rightarrow> enc_null c)
      | MDisconnect m \<Rightarrow>
          enc_map c 2 @
          enc_u8 c 0 @ enc_u8 c tag @
          enc_u8 c 1 @ enc_u8 c (reason_u8 (disc_reason m))
      | MBalance m \<Rightarrow>
          enc_map c 4 @
          enc_u8 c 0 @ enc_u8 c tag @
          enc_u8 c 1 @ enc_u64 c (bal_remaining m) @
          enc_u8 c 2 @ enc_u64 c (bal_expires_in_ms m) @
          enc_u8 c 3 @ enc_u64 c (bal_reserved_rate m)))"

subsection \<open>The shared steps of decoding\<close>

definition cbor :: "(u8 list \<Rightarrow> ('a \<times> u8 list) option) \<Rightarrow> 'a codec" where
  "cbor = lib BadCbor"

definition skip :: "Cbor_Lib \<Rightarrow> 's \<Rightarrow> 's codec" where
  "skip = skip_value BadCbor"

definition definite :: "(u8 list \<Rightarrow> (u64 option \<times> u8 list) option) \<Rightarrow> u64 codec" where
  "definite rd = read_then (cbor rd) (\<lambda>n. case n of None \<Rightarrow> fail IndefiniteLength | Some n \<Rightarrow> give n)"

definition map_len :: "Cbor_Lib \<Rightarrow> u64 codec" where
  "map_len c = definite (dec_map c)"

definition scan_type :: "Cbor_Lib \<Rightarrow> u8 codec" where
  "scan_type c = read_then (map_len c) (\<lambda>pairs. scan_pairs BadCbor MissingType c (unat pairs))"

definition fixed :: "Cbor_Lib \<Rightarrow> nat \<Rightarrow> u8 \<Rightarrow> u8 list codec" where
  "fixed c n key =
     read_then (cbor (dec_bytes c)) (\<lambda>bs.
       if length bs = n then give bs else fail (BadLength key n (length bs)))"

definition missing :: "MsgType \<Rightarrow> u8 \<Rightarrow> 'a codec" where
  "missing msg key = fail (MissingField (msg_type_u8 msg) key)"

definition needed :: "MsgType \<Rightarrow> u8 \<Rightarrow> 'a option \<Rightarrow> ('a \<Rightarrow> 'b codec) \<Rightarrow> 'b codec" where
  "needed msg key v f = (case v of Some v \<Rightarrow> f v | None \<Rightarrow> missing msg key)"

definition pairs_loop :: "Cbor_Lib \<Rightarrow> (u8 \<Rightarrow> 's \<Rightarrow> 's codec) \<Rightarrow> u64 \<Rightarrow> 's \<Rightarrow> 's codec" where
  "pairs_loop c field pairs = each_pair BadCbor c field (unat pairs)"

text \<open>
  \<open>Vec::with_capacity(n)\<close> panics when the bytes asked for exceed \<open>isize::MAX\<close>; \<open>sz\<close> is the size of
  an element. An allocation the machine cannot serve is outside the model.
\<close>

definition with_capacity :: "nat \<Rightarrow> u64 \<Rightarrow> 'a codec \<Rightarrow> 'a codec" where
  "with_capacity sz n rd d = (if unat n * sz > 2 ^ 63 - 1 then Inl Panic else rd d)"

definition STRING_SIZE :: nat where
  "STRING_SIZE = 24"

subsection \<open>One decoder per message\<close>

definition announce_field ::
  "Cbor_Lib \<Rightarrow> u8 \<Rightarrow> u8 option \<times> PubKey option \<times> string option \<times> u32 option \<Rightarrow>
   (u8 option \<times> PubKey option \<times> string option \<times> u32 option) codec" where
  "announce_field c key = (\<lambda>(version, pubkey, unit, capabilities).
     if key = 0 then skip c (version, pubkey, unit, capabilities)
     else if key = 1 then store (cbor (dec_u8 c)) (\<lambda>v. (Some v, pubkey, unit, capabilities))
     else if key = 2 then store (fixed c 33 2) (\<lambda>b. (version, Some (PubKey b), unit, capabilities))
     else if key = 3 then store (cbor (dec_str c)) (\<lambda>s. (version, pubkey, Some s, capabilities))
     else if key = 4 then store (cbor (dec_u32 c)) (\<lambda>v. (version, pubkey, unit, Some v))
     else skip c (version, pubkey, unit, capabilities))"

definition decode_announce :: "Cbor_Lib \<Rightarrow> u64 \<Rightarrow> Announce codec" where
  "decode_announce c pairs =
     read_then (pairs_loop c (announce_field c) pairs (None, None, None, None))
       (\<lambda>(version, pubkey, unit, capabilities).
         needed MT_Announce 1 version (\<lambda>version.
         needed MT_Announce 2 pubkey (\<lambda>pubkey.
         needed MT_Announce 3 unit (\<lambda>unit.
         give \<lparr>ann_version = version, ann_pubkey = pubkey, ann_unit = unit,
               ann_capabilities = (case capabilities of Some v \<Rightarrow> v | None \<Rightarrow> 0)\<rparr>))))"

type_synonym offer_slots =
  "string list option \<times> string option \<times> (u64 \<times> u64) option \<times> u16 option \<times> bool option \<times>
   u64 option \<times> u64 option"

definition read_mints :: "Cbor_Lib \<Rightarrow> string list codec" where
  "read_mints c =
     read_then (definite (dec_array c)) (\<lambda>n.
       with_capacity STRING_SIZE n (read_many (unat n) (cbor (dec_str c))))"

definition read_windows :: "Cbor_Lib \<Rightarrow> (u64 \<times> u64) codec" where
  "read_windows c =
     read_then (definite (dec_array c)) (\<lambda>n.
       if n \<noteq> 2 then fail (BadLength 3 2 (unat n))
       else read_then (cbor (dec_u64 c)) (\<lambda>lo. store (cbor (dec_u64 c)) (\<lambda>hi. (lo, hi))))"

definition offer_field :: "Cbor_Lib \<Rightarrow> u8 \<Rightarrow> offer_slots \<Rightarrow> offer_slots codec" where
  "offer_field c key = (\<lambda>(mints, unit, windows, weight, no_charge, min_rate, min_gap).
     if key = 0 then skip c (mints, unit, windows, weight, no_charge, min_rate, min_gap)
     else if key = 1 then
       store (read_mints c) (\<lambda>l. (Some l, unit, windows, weight, no_charge, min_rate, min_gap))
     else if key = 2 then
       store (cbor (dec_str c)) (\<lambda>s. (mints, Some s, windows, weight, no_charge, min_rate, min_gap))
     else if key = 3 then
       store (read_windows c) (\<lambda>w. (mints, unit, Some w, weight, no_charge, min_rate, min_gap))
     else if key = 4 then
       store (cbor (dec_u16 c)) (\<lambda>v. (mints, unit, windows, Some v, no_charge, min_rate, min_gap))
     else if key = 5 then
       store (cbor (dec_bool c)) (\<lambda>b. (mints, unit, windows, weight, Some b, min_rate, min_gap))
     else if key = 6 then
       store (cbor (dec_u64 c)) (\<lambda>v. (mints, unit, windows, weight, no_charge, Some v, min_gap))
     else if key = 7 then
       store (cbor (dec_u64 c)) (\<lambda>v. (mints, unit, windows, weight, no_charge, min_rate, Some v))
     else skip c (mints, unit, windows, weight, no_charge, min_rate, min_gap))"

definition decode_offer :: "Cbor_Lib \<Rightarrow> u64 \<Rightarrow> Offer codec" where
  "decode_offer c pairs =
     read_then (pairs_loop c (offer_field c) pairs (None, None, None, None, None, None, None))
       (\<lambda>(mints, unit, windows, weight, no_charge, min_rate, min_gap).
         needed MT_Offer 1 mints (\<lambda>accepted_mints.
         if accepted_mints = [] then fail EmptyMintList
         else needed MT_Offer 3 windows (\<lambda>(min_window_ms, max_window_ms).
         needed MT_Offer 2 unit (\<lambda>unit.
         give \<lparr>offer_accepted_mints = accepted_mints, offer_unit = unit,
               offer_min_window_ms = min_window_ms, offer_max_window_ms = max_window_ms,
               offer_from_payer_weight = (case weight of Some v \<Rightarrow> v | None \<Rightarrow> 1),
               offer_no_charge = (case no_charge of Some b \<Rightarrow> b | None \<Rightarrow> False),
               offer_min_reserved_rate = (case min_rate of Some v \<Rightarrow> v | None \<Rightarrow> 0),
               offer_min_topup_gap_ms = (case min_gap of Some v \<Rightarrow> v | None \<Rightarrow> 0)\<rparr>))))"

definition accept_field :: "Cbor_Lib \<Rightarrow> u8 \<Rightarrow> u8 list option \<Rightarrow> u8 list option codec" where
  "accept_field c key funding =
     (if key = 0 then skip c funding
      else if key = 1 then store (cbor (dec_bytes c)) (\<lambda>b. Some b)
      else skip c funding)"

definition decode_accept :: "Cbor_Lib \<Rightarrow> u64 \<Rightarrow> Accept codec" where
  "decode_accept c pairs =
     read_then (pairs_loop c (accept_field c) pairs None) (\<lambda>funding.
       give \<lparr>acc_funding = (case funding of Some b \<Rightarrow> b | None \<Rightarrow> [])\<rparr>)"

definition channel_ready_field ::
  "Cbor_Lib \<Rightarrow> u8 \<Rightarrow> ChannelId option \<Rightarrow> ChannelId option codec" where
  "channel_ready_field c key channel_id =
     (if key = 0 then skip c channel_id
      else if key = 1 then store (fixed c 32 1) (\<lambda>b. Some (ChannelId b))
      else skip c channel_id)"

definition decode_channel_ready :: "Cbor_Lib \<Rightarrow> u64 \<Rightarrow> ChannelReady codec" where
  "decode_channel_ready c pairs =
     read_then (pairs_loop c (channel_ready_field c) pairs None) (\<lambda>channel_id.
       needed MT_ChannelReady 1 channel_id (\<lambda>channel_id. give \<lparr>ready_channel_id = channel_id\<rparr>))"

definition read_update :: "Cbor_Lib \<Rightarrow> ChannelUpdate codec" where
  "read_update c =
     read_then (definite (dec_array c)) (\<lambda>fields.
       if fields \<noteq> 3 then fail (BadLength 1 3 (unat fields))
       else read_then (fixed c 32 1) (\<lambda>channel_id.
         read_then (cbor (dec_u64 c)) (\<lambda>cumulative.
         store (fixed c 64 1) (\<lambda>signature.
           \<lparr>upd_channel_id = ChannelId channel_id, upd_cumulative = cumulative,
            upd_signature = Signature signature\<rparr>))))"

definition read_updates :: "Cbor_Lib \<Rightarrow> ChannelUpdate list codec" where
  "read_updates c =
     read_then (definite (dec_array c)) (\<lambda>n.
       if unat n > MAX_CHANNEL_UPDATES then fail (TooManyChannelUpdates (unat n))
       else read_many (unat n) (read_update c))"

definition topup_field ::
  "Cbor_Lib \<Rightarrow> u8 \<Rightarrow> ChannelUpdate list option \<times> u64 option \<times> u64 option \<Rightarrow>
   (ChannelUpdate list option \<times> u64 option \<times> u64 option) codec" where
  "topup_field c key = (\<lambda>(updates, window_ms, reserved_rate).
     if key = 0 then skip c (updates, window_ms, reserved_rate)
     else if key = 1 then store (read_updates c) (\<lambda>l. (Some l, window_ms, reserved_rate))
     else if key = 2 then store (cbor (dec_u64 c)) (\<lambda>v. (updates, Some v, reserved_rate))
     else if key = 3 then store (cbor (dec_u64 c)) (\<lambda>v. (updates, window_ms, Some v))
     else skip c (updates, window_ms, reserved_rate))"

definition decode_topup :: "Cbor_Lib \<Rightarrow> u64 \<Rightarrow> TopUp codec" where
  "decode_topup c pairs =
     read_then (pairs_loop c (topup_field c) pairs (None, None, None))
       (\<lambda>(updates, window_ms, reserved_rate).
         needed MT_TopUp 1 updates (\<lambda>updates.
         if updates = [] then fail NoChannelUpdates
         else needed MT_TopUp 2 window_ms (\<lambda>window_ms.
         give \<lparr>topup_updates = updates, topup_window_ms = window_ms,
               topup_reserved_rate = (case reserved_rate of Some v \<Rightarrow> v | None \<Rightarrow> 0)\<rparr>)))"

definition read_refused_update :: "Cbor_Lib \<Rightarrow> RefusedUpdate codec" where
  "read_refused_update c =
     read_then (definite (dec_array c)) (\<lambda>fields.
       if fields \<noteq> 2 then fail (BadLength 1 2 (unat fields))
       else read_then (fixed c 32 1) (\<lambda>channel_id.
         store (cbor (dec_u64 c)) (\<lambda>cumulative.
           \<lparr>ref_channel_id = ChannelId channel_id, ref_cumulative = cumulative\<rparr>)))"

definition read_refused :: "Cbor_Lib \<Rightarrow> RefusedUpdate list codec" where
  "read_refused c =
     read_then (definite (dec_array c)) (\<lambda>n.
       if unat n > MAX_CHANNEL_UPDATES then fail (TooManyChannelUpdates (unat n))
       else read_many (unat n) (read_refused_update c))"

definition topup_reject_field ::
  "Cbor_Lib \<Rightarrow> u8 \<Rightarrow> RefusedUpdate list option \<times> u64 option \<times> ReasonCode option \<Rightarrow>
   (RefusedUpdate list option \<times> u64 option \<times> ReasonCode option) codec" where
  "topup_reject_field c key = (\<lambda>(refused, max_rate, reason).
     if key = 0 then skip c (refused, max_rate, reason)
     else if key = 1 then store (read_refused c) (\<lambda>l. (Some l, max_rate, reason))
     else if key = 2 then store (cbor (dec_u64 c)) (\<lambda>v. (refused, Some v, reason))
     else if key = 3 then store (cbor (dec_u8 c)) (\<lambda>v. (refused, max_rate, Some (reason_from_u8 v)))
     else skip c (refused, max_rate, reason))"

definition decode_topup_reject :: "Cbor_Lib \<Rightarrow> u64 \<Rightarrow> TopUpReject codec" where
  "decode_topup_reject c pairs =
     read_then (pairs_loop c (topup_reject_field c) pairs (None, None, None))
       (\<lambda>(refused, max_rate, reason).
         needed MT_TopUpReject 1 refused (\<lambda>refused.
         needed MT_TopUpReject 2 max_rate (\<lambda>max_rate.
         give \<lparr>rej_refused = refused, rej_max_reserved_rate = max_rate,
               rej_reason = (case reason of Some r \<Rightarrow> r | None \<Rightarrow> OtherReason)\<rparr>)))"

definition rollover_init_field ::
  "Cbor_Lib \<Rightarrow> u8 \<Rightarrow> ChannelId option \<times> u8 list option \<Rightarrow>
   (ChannelId option \<times> u8 list option) codec" where
  "rollover_init_field c key = (\<lambda>(old_channel_id, funding).
     if key = 0 then skip c (old_channel_id, funding)
     else if key = 1 then store (fixed c 32 1) (\<lambda>b. (Some (ChannelId b), funding))
     else if key = 2 then store (cbor (dec_bytes c)) (\<lambda>b. (old_channel_id, Some b))
     else skip c (old_channel_id, funding))"

definition decode_rollover_init :: "Cbor_Lib \<Rightarrow> u64 \<Rightarrow> RolloverInit codec" where
  "decode_rollover_init c pairs =
     read_then (pairs_loop c (rollover_init_field c) pairs (None, None))
       (\<lambda>(old_channel_id, funding).
         needed MT_RolloverInit 1 old_channel_id (\<lambda>old_channel_id.
         needed MT_RolloverInit 2 funding (\<lambda>funding.
         give \<lparr>ri_old_channel_id = old_channel_id, ri_funding = funding\<rparr>)))"

definition rollover_ready_field ::
  "Cbor_Lib \<Rightarrow> u8 \<Rightarrow> ChannelId option \<times> ChannelId option \<Rightarrow>
   (ChannelId option \<times> ChannelId option) codec" where
  "rollover_ready_field c key = (\<lambda>(old_channel_id, new_channel_id).
     if key = 0 then skip c (old_channel_id, new_channel_id)
     else if key = 1 then store (fixed c 32 1) (\<lambda>b. (Some (ChannelId b), new_channel_id))
     else if key = 2 then store (fixed c 32 2) (\<lambda>b. (old_channel_id, Some (ChannelId b)))
     else skip c (old_channel_id, new_channel_id))"

definition decode_rollover_ready :: "Cbor_Lib \<Rightarrow> u64 \<Rightarrow> RolloverReady codec" where
  "decode_rollover_ready c pairs =
     read_then (pairs_loop c (rollover_ready_field c) pairs (None, None))
       (\<lambda>(old_channel_id, new_channel_id).
         needed MT_RolloverReady 1 old_channel_id (\<lambda>old_channel_id.
         needed MT_RolloverReady 2 new_channel_id (\<lambda>new_channel_id.
         give \<lparr>rr_old_channel_id = old_channel_id, rr_new_channel_id = new_channel_id\<rparr>)))"

definition channel_close_field ::
  "Cbor_Lib \<Rightarrow> u8 \<Rightarrow> ChannelId option \<times> u64 option \<times> Signature option \<times> CloseReason option \<Rightarrow>
   (ChannelId option \<times> u64 option \<times> Signature option \<times> CloseReason option) codec" where
  "channel_close_field c key = (\<lambda>(channel_id, balance, signature, reason).
     if key = 0 then skip c (channel_id, balance, signature, reason)
     else if key = 1 then store (fixed c 32 1) (\<lambda>b. (Some (ChannelId b), balance, signature, reason))
     else if key = 2 then store (cbor (dec_u64 c)) (\<lambda>v. (channel_id, Some v, signature, reason))
     else if key = 3 then store (fixed c 64 3) (\<lambda>b. (channel_id, balance, Some (Signature b), reason))
     else if key = 4 then
       store (cbor (dec_u8 c)) (\<lambda>v. (channel_id, balance, signature, Some (close_reason_from_u8 v)))
     else skip c (channel_id, balance, signature, reason))"

definition decode_channel_close :: "Cbor_Lib \<Rightarrow> u64 \<Rightarrow> ChannelClose codec" where
  "decode_channel_close c pairs =
     read_then (pairs_loop c (channel_close_field c) pairs (None, None, None, None))
       (\<lambda>(channel_id, balance, signature, reason).
         needed MT_ChannelClose 1 channel_id (\<lambda>channel_id.
         needed MT_ChannelClose 2 balance (\<lambda>balance.
         needed MT_ChannelClose 3 signature (\<lambda>signature.
         give \<lparr>close_channel_id = channel_id, close_final_balance = balance,
               close_final_signature = signature,
               close_reason = (case reason of Some r \<Rightarrow> r | None \<Rightarrow> NormalClose)\<rparr>))))"

definition close_ack_field ::
  "Cbor_Lib \<Rightarrow> u8 \<Rightarrow> ChannelId option \<times> u64 option \<Rightarrow> (ChannelId option \<times> u64 option) codec" where
  "close_ack_field c key = (\<lambda>(channel_id, balance).
     if key = 0 then skip c (channel_id, balance)
     else if key = 1 then store (fixed c 32 1) (\<lambda>b. (Some (ChannelId b), balance))
     else if key = 2 then store (cbor (dec_u64 c)) (\<lambda>v. (channel_id, Some v))
     else skip c (channel_id, balance))"

definition decode_close_ack :: "Cbor_Lib \<Rightarrow> u64 \<Rightarrow> CloseAck codec" where
  "decode_close_ack c pairs =
     read_then (pairs_loop c (close_ack_field c) pairs (None, None))
       (\<lambda>(channel_id, balance).
         needed MT_CloseAck 1 channel_id (\<lambda>channel_id.
         needed MT_CloseAck 2 balance (\<lambda>balance.
         give \<lparr>ack_channel_id = channel_id, ack_accepted_balance = balance\<rparr>)))"

text \<open>The text of a \<open>Reject\<close>: a null leaves what was read before in place.\<close>

definition read_text :: "Cbor_Lib \<Rightarrow> string option \<Rightarrow> string option codec" where
  "read_text c text d =
     (case dec_is_null c d of
        None \<Rightarrow> Inl (Err BadCbor)
      | Some True \<Rightarrow> (case dec_null c d of None \<Rightarrow> Inl (Err BadCbor) | Some r \<Rightarrow> Inr (text, r))
      | Some False \<Rightarrow> store (cbor (dec_str c)) (\<lambda>s. Some s) d)"

definition reject_field ::
  "Cbor_Lib \<Rightarrow> u8 \<Rightarrow> u8 option \<times> ReasonCode option \<times> string option \<Rightarrow>
   (u8 option \<times> ReasonCode option \<times> string option) codec" where
  "reject_field c key = (\<lambda>(rejected_type, reason, text).
     if key = 0 then skip c (rejected_type, reason, text)
     else if key = 1 then store (cbor (dec_u8 c)) (\<lambda>v. (Some v, reason, text))
     else if key = 2 then store (cbor (dec_u8 c)) (\<lambda>v. (rejected_type, Some (reason_from_u8 v), text))
     else if key = 3 then store (read_text c text) (\<lambda>t. (rejected_type, reason, t))
     else skip c (rejected_type, reason, text))"

definition decode_reject :: "Cbor_Lib \<Rightarrow> u64 \<Rightarrow> Reject codec" where
  "decode_reject c pairs =
     read_then (pairs_loop c (reject_field c) pairs (None, None, None))
       (\<lambda>(rejected_type, reason, text).
         needed MT_Reject 1 rejected_type (\<lambda>rejected_type.
         give \<lparr>reject_type = rejected_type,
               reject_reason = (case reason of Some r \<Rightarrow> r | None \<Rightarrow> OtherReason),
               reject_text = text\<rparr>))"

definition disconnect_field :: "Cbor_Lib \<Rightarrow> u8 \<Rightarrow> ReasonCode option \<Rightarrow> ReasonCode option codec" where
  "disconnect_field c key reason =
     (if key = 0 then skip c reason
      else if key = 1 then store (cbor (dec_u8 c)) (\<lambda>v. Some (reason_from_u8 v))
      else skip c reason)"

definition decode_disconnect :: "Cbor_Lib \<Rightarrow> u64 \<Rightarrow> Disconnect codec" where
  "decode_disconnect c pairs =
     read_then (pairs_loop c (disconnect_field c) pairs None) (\<lambda>reason.
       give \<lparr>disc_reason = (case reason of Some r \<Rightarrow> r | None \<Rightarrow> OtherReason)\<rparr>)"

definition balance_field ::
  "Cbor_Lib \<Rightarrow> u8 \<Rightarrow> u64 option \<times> u64 option \<times> u64 option \<Rightarrow>
   (u64 option \<times> u64 option \<times> u64 option) codec" where
  "balance_field c key = (\<lambda>(remaining, expires_in_ms, reserved_rate).
     if key = 0 then skip c (remaining, expires_in_ms, reserved_rate)
     else if key = 1 then store (cbor (dec_u64 c)) (\<lambda>v. (Some v, expires_in_ms, reserved_rate))
     else if key = 2 then store (cbor (dec_u64 c)) (\<lambda>v. (remaining, Some v, reserved_rate))
     else if key = 3 then store (cbor (dec_u64 c)) (\<lambda>v. (remaining, expires_in_ms, Some v))
     else skip c (remaining, expires_in_ms, reserved_rate))"

definition decode_balance :: "Cbor_Lib \<Rightarrow> u64 \<Rightarrow> Balance codec" where
  "decode_balance c pairs =
     read_then (pairs_loop c (balance_field c) pairs (None, None, None))
       (\<lambda>(remaining, expires_in_ms, reserved_rate).
         needed MT_Balance 1 remaining (\<lambda>remaining.
         needed MT_Balance 2 expires_in_ms (\<lambda>expires_in_ms.
         needed MT_Balance 3 reserved_rate (\<lambda>reserved_rate.
         give \<lparr>bal_remaining = remaining, bal_expires_in_ms = expires_in_ms,
               bal_reserved_rate = reserved_rate\<rparr>))))"

subsection \<open>Decoding\<close>

definition decode_as :: "Cbor_Lib \<Rightarrow> MsgType \<Rightarrow> u64 \<Rightarrow> Message codec" where
  "decode_as c ty pairs =
     (case ty of
        MT_Announce \<Rightarrow> store (decode_announce c pairs) MAnnounce
      | MT_Offer \<Rightarrow> store (decode_offer c pairs) MOffer
      | MT_Accept \<Rightarrow> store (decode_accept c pairs) MAccept
      | MT_ChannelReady \<Rightarrow> store (decode_channel_ready c pairs) MChannelReady
      | MT_TopUp \<Rightarrow> store (decode_topup c pairs) MTopUp
      | MT_TopUpReject \<Rightarrow> store (decode_topup_reject c pairs) MTopUpReject
      | MT_RolloverInit \<Rightarrow> store (decode_rollover_init c pairs) MRolloverInit
      | MT_RolloverReady \<Rightarrow> store (decode_rollover_ready c pairs) MRolloverReady
      | MT_ChannelClose \<Rightarrow> store (decode_channel_close c pairs) MChannelClose
      | MT_CloseAck \<Rightarrow> store (decode_close_ack c pairs) MCloseAck
      | MT_Reject \<Rightarrow> store (decode_reject c pairs) MReject
      | MT_Disconnect \<Rightarrow> store (decode_disconnect c pairs) MDisconnect
      | MT_Balance \<Rightarrow> store (decode_balance c pairs) MBalance)"

definition decode :: "Cbor_Lib \<Rightarrow> u8 list \<Rightarrow> CodecError Failure + Message" where
  "decode c input =
     (case scan_type c input of
        Inl e \<Rightarrow> Inl e
      | Inr (tag, _) \<Rightarrow>
          (case msg_type_from_u8 tag of
             None \<Rightarrow> Inl (Err (UnknownType tag))
           | Some ty \<Rightarrow>
               (case read_then (map_len c) (decode_as c ty) input of
                  Inl e \<Rightarrow> Inl e
                | Inr (msg, _) \<Rightarrow> Inr msg)))"

end
