(* ===== verification/Codec_Properties.thy ===== *)
theory Codec_Properties
  imports Codec
begin

text \<open>
  Correctness of the message codec: a message's fields decode to the message in whatever order they
  stand and whatever unknown fields stand between them, so what \<open>encode\<close> writes is read back; what
  \<open>decode\<close> accepts is bounded; and where it panics.
\<close>

subsection \<open>A message as fields\<close>

definition update_item :: "Cbor_Lib \<Rightarrow> ChannelUpdate \<Rightarrow> u8 list" where
  "update_item c u = enc_array c 3 @ enc_bytes c (channel_id_bytes (upd_channel_id u)) @
     enc_u64 c (upd_cumulative u) @ enc_bytes c (signature_bytes (upd_signature u))"

definition refused_item :: "Cbor_Lib \<Rightarrow> RefusedUpdate \<Rightarrow> u8 list" where
  "refused_item c r = enc_array c 2 @ enc_bytes c (channel_id_bytes (ref_channel_id r)) @
     enc_u64 c (ref_cumulative r)"

definition payload_fields :: "Cbor_Lib \<Rightarrow> Message \<Rightarrow> (u8 \<times> u8 list) list" where
  "payload_fields c msg =
     (case msg of
        MAnnounce m \<Rightarrow>
          [(1, enc_u8 c (ann_version m)), (2, enc_bytes c (pubkey_bytes (ann_pubkey m))),
           (3, enc_str c (ann_unit m)), (4, enc_u32 c (ann_capabilities m))]
      | MOffer m \<Rightarrow>
          [(1, enc_array c (of_nat (length (offer_accepted_mints m))) @
              concat (map (enc_str c) (offer_accepted_mints m))),
           (2, enc_str c (offer_unit m)),
           (3, enc_array c 2 @ enc_u64 c (offer_min_window_ms m) @ enc_u64 c (offer_max_window_ms m)),
           (4, enc_u16 c (offer_from_payer_weight m))] @
          (if offer_no_charge m then [(5, enc_bool c True)] else []) @
          [(6, enc_u64 c (offer_min_reserved_rate m)), (7, enc_u64 c (offer_min_topup_gap_ms m))]
      | MAccept m \<Rightarrow> [(1, enc_bytes c (acc_funding m))]
      | MChannelReady m \<Rightarrow> [(1, enc_bytes c (channel_id_bytes (ready_channel_id m)))]
      | MTopUp m \<Rightarrow>
          [(1, enc_array c (of_nat (length (topup_updates m))) @
              concat (map (update_item c) (topup_updates m))),
           (2, enc_u64 c (topup_window_ms m)), (3, enc_u64 c (topup_reserved_rate m))]
      | MTopUpReject m \<Rightarrow>
          [(1, enc_array c (of_nat (length (rej_refused m))) @
              concat (map (refused_item c) (rej_refused m))),
           (2, enc_u64 c (rej_max_reserved_rate m)), (3, enc_u8 c (reason_u8 (rej_reason m)))]
      | MRolloverInit m \<Rightarrow>
          [(1, enc_bytes c (channel_id_bytes (ri_old_channel_id m))), (2, enc_bytes c (ri_funding m))]
      | MRolloverReady m \<Rightarrow>
          [(1, enc_bytes c (channel_id_bytes (rr_old_channel_id m))),
           (2, enc_bytes c (channel_id_bytes (rr_new_channel_id m)))]
      | MChannelClose m \<Rightarrow>
          [(1, enc_bytes c (channel_id_bytes (close_channel_id m))),
           (2, enc_u64 c (close_final_balance m)),
           (3, enc_bytes c (signature_bytes (close_final_signature m))),
           (4, enc_u8 c (close_reason_u8 (close_reason m)))]
      | MCloseAck m \<Rightarrow>
          [(1, enc_bytes c (channel_id_bytes (ack_channel_id m))),
           (2, enc_u64 c (ack_accepted_balance m))]
      | MReject m \<Rightarrow>
          [(1, enc_u8 c (reject_type m)), (2, enc_u8 c (reason_u8 (reject_reason m))),
           (3, case reject_text m of Some t \<Rightarrow> enc_str c t | None \<Rightarrow> enc_null c)]
      | MDisconnect m \<Rightarrow> [(1, enc_u8 c (reason_u8 (disc_reason m)))]
      | MBalance m \<Rightarrow>
          [(1, enc_u64 c (bal_remaining m)), (2, enc_u64 c (bal_expires_in_ms m)),
           (3, enc_u64 c (bal_reserved_rate m))])"

definition message_fields :: "Cbor_Lib \<Rightarrow> Message \<Rightarrow> (u8 \<times> u8 list) list" where
  "message_fields c m = (0, enc_u8 c (msg_type_u8 (msg_type m))) # payload_fields c m"

lemma encode_fields:
  "encode c m out =
     out @ enc_map c (of_nat (length (message_fields c m))) @ put_fields c (message_fields c m)"
  by (cases m)
    (auto simp: encode_def message_fields_def payload_fields_def update_item_def [abs_def]
      refused_item_def [abs_def])

text \<open>
  What the types of the source guarantee of a message, and the bounds the protocol puts on its lists:
  fixed widths, valid text, a mint in every Offer, at most eight updates in a purchase.
\<close>

definition wf_text :: "Cbor_Lib \<Rightarrow> string \<Rightarrow> bool" where
  "wf_text c s = (utf8 c s \<and> fits_u64 s)"

definition wf_message :: "Cbor_Lib \<Rightarrow> Message \<Rightarrow> bool" where
  "wf_message c msg =
     (case msg of
        MAnnounce m \<Rightarrow> wf_pubkey (ann_pubkey m) \<and> wf_text c (ann_unit m)
      | MOffer m \<Rightarrow> wf_text c (offer_unit m) \<and> list_all (wf_text c) (offer_accepted_mints m) \<and>
          offer_accepted_mints m \<noteq> [] \<and> length (offer_accepted_mints m) * STRING_SIZE < 2 ^ 63
      | MAccept m \<Rightarrow> fits_u64 (acc_funding m)
      | MChannelReady m \<Rightarrow> wf_channel_id (ready_channel_id m)
      | MTopUp m \<Rightarrow> topup_updates m \<noteq> [] \<and> length (topup_updates m) \<le> MAX_CHANNEL_UPDATES \<and>
          list_all (\<lambda>u. wf_channel_id (upd_channel_id u) \<and> wf_signature (upd_signature u))
            (topup_updates m)
      | MTopUpReject m \<Rightarrow> length (rej_refused m) \<le> MAX_CHANNEL_UPDATES \<and>
          list_all (\<lambda>r. wf_channel_id (ref_channel_id r)) (rej_refused m)
      | MRolloverInit m \<Rightarrow> wf_channel_id (ri_old_channel_id m) \<and> fits_u64 (ri_funding m)
      | MRolloverReady m \<Rightarrow> wf_channel_id (rr_old_channel_id m) \<and> wf_channel_id (rr_new_channel_id m)
      | MChannelClose m \<Rightarrow> wf_channel_id (close_channel_id m) \<and> wf_signature (close_final_signature m)
      | MCloseAck m \<Rightarrow> wf_channel_id (ack_channel_id m)
      | MReject m \<Rightarrow> pred_option (wf_text c) (reject_text m)
      | MDisconnect m \<Rightarrow> True
      | MBalance m \<Rightarrow> True)"

fun last_key :: "MsgType \<Rightarrow> u8" where
  "last_key MT_Announce = 4"
| "last_key MT_Offer = 7"
| "last_key MT_Accept = 1"
| "last_key MT_ChannelReady = 1"
| "last_key MT_TopUp = 3"
| "last_key MT_TopUpReject = 3"
| "last_key MT_RolloverInit = 2"
| "last_key MT_RolloverReady = 2"
| "last_key MT_ChannelClose = 4"
| "last_key MT_CloseAck = 2"
| "last_key MT_Reject = 3"
| "last_key MT_Disconnect = 1"
| "last_key MT_Balance = 3"

text \<open>
  The fields \<open>fs\<close> carry the message: its own are all there, in any order, and every other has a key
  this version does not know and a value that can be skipped.
\<close>

definition carries :: "Cbor_Lib \<Rightarrow> Message \<Rightarrow> (u8 \<times> u8 list) list \<Rightarrow> bool" where
  "carries c m fs =
     (set (message_fields c m) \<subseteq> set fs \<and>
      (\<forall>(k, v)\<in>set fs. (k, v) \<in> set (message_fields c m) \<or> last_key (msg_type m) < k \<and> skippable c v) \<and>
      fits_u64 fs)"

lemma carries_own: "carries c m (message_fields c m)"
proof -
  have "length (message_fields c m) \<le> 8"
    by (cases m) (auto simp: message_fields_def payload_fields_def)
  then show ?thesis by (auto simp: carries_def fits_u64_def)
qed

lemma carries_keys: "carries c m fs \<Longrightarrow> fst ` set (message_fields c m) \<subseteq> fst ` set fs"
  by (auto simp: carries_def)

lemma carries_field:
  "carries c m fs \<Longrightarrow> (k, v) \<in> set fs \<Longrightarrow>
     (k, v) \<in> set (message_fields c m) \<or> last_key (msg_type m) < k \<and> skippable c v"
  by (auto simp: carries_def)

lemma unat_length: "fits_u64 xs \<Longrightarrow> unat (of_nat (length xs) :: u64) = length xs"
  by (simp add: fits_u64_def unat_of_nat take_bit_eq_mod)

lemma fits_short: "length bs = n \<Longrightarrow> n < 65 \<Longrightarrow> fits_u64 bs"
  by (simp add: fits_u64_def)

text \<open>A null text fills nothing.\<close>

definition fill_some :: "u8 \<Rightarrow> 'b option \<Rightarrow> u8 \<Rightarrow> 'b option \<Rightarrow> 'b option" where
  "fill_some i v k s = (if k = i \<and> v \<noteq> None then v else s)"

lemma fold_fill_some:
  "fold (\<lambda>f. fill_some i v (fst f)) fs s = (if i \<in> fst ` set fs \<and> v \<noteq> None then v else s)"
  by (induction fs arbitrary: s) (auto simp: fill_some_def)

lemmas codec_defs = decoder_defs cbor_def skip_def definite_def map_len_def fixed_def missing_def
  needed_def pairs_loop_def

lemmas wf_defs = wf_message_def wf_pubkey_def wf_channel_id_def wf_signature_def wf_text_def

lemmas slot_simps = read_then_def give_def needed_def message_fields_def payload_fields_def
  fold_map_prod fold_fill

context cbor_lib
begin

lemma map_len_back: "map_len c (enc_map c n @ d) = Inr (n, d)"
  by (simp add: codec_defs map_back)

lemma array_len_back: "definite (dec_array c) (enc_array c n @ d) = Inr (n, d)"
  by (simp add: codec_defs array_back)

lemma fixed_back: "length bs = n \<Longrightarrow> n < 65 \<Longrightarrow> fixed c n k (enc_bytes c bs @ r) = Inr (bs, r)"
  by (simp add: codec_defs bytes_back fits_short)

lemma read_mints_back:
  assumes "list_all (wf_text c) xs" "length xs * STRING_SIZE < 2 ^ 63"
  shows "read_mints c (enc_array c (of_nat (length xs)) @ concat (map (enc_str c) xs) @ r) = Inr (xs, r)"
proof -
  have "fits_u64 xs" using assms(2) by (simp add: fits_u64_def STRING_SIZE_def)
  moreover have "read_many (length xs) (cbor (dec_str c)) (concat (map (enc_str c) xs) @ r) = Inr (xs, r)"
    using assms(1)
    by (intro read_many_back) (auto simp: cbor_def lib_def str_back wf_text_def list_all_iff)
  ultimately show ?thesis
    using assms(2) by (simp add: read_mints_def read_then_def array_len_back with_capacity_def unat_length)
qed

lemma read_windows_back: "read_windows c (enc_array c 2 @ enc_u64 c lo @ enc_u64 c hi @ r) = Inr ((lo, hi), r)"
  using array_len_back [of 2] by (simp add: read_windows_def read_then_def store_def give_def cbor_def
      lib_def u64_back)

lemma read_update_back:
  "wf_channel_id (upd_channel_id u) \<Longrightarrow> wf_signature (upd_signature u) \<Longrightarrow>
     read_update c (update_item c u @ r) = Inr (u, r)"
  using array_len_back [of 3]
  by (simp add: read_update_def update_item_def read_then_def store_def give_def cbor_def lib_def
      u64_back fixed_back wf_channel_id_def wf_signature_def)

lemma read_refused_update_back:
  "wf_channel_id (ref_channel_id u) \<Longrightarrow> read_refused_update c (refused_item c u @ r) = Inr (u, r)"
  using array_len_back [of 2]
  by (simp add: read_refused_update_def refused_item_def read_then_def store_def give_def cbor_def
      lib_def u64_back fixed_back wf_channel_id_def)

lemma read_updates_back:
  assumes "list_all (\<lambda>u. wf_channel_id (upd_channel_id u) \<and> wf_signature (upd_signature u)) xs"
    and "length xs \<le> MAX_CHANNEL_UPDATES"
  shows "read_updates c (enc_array c (of_nat (length xs)) @ concat (map (update_item c) xs) @ r) = Inr (xs, r)"
proof -
  have "fits_u64 xs" using assms(2) by (simp add: fits_u64_def MAX_CHANNEL_UPDATES_def)
  moreover have "read_many (length xs) (read_update c) (concat (map (update_item c) xs) @ r) = Inr (xs, r)"
    using assms(1) by (intro read_many_back) (auto simp: read_update_back list_all_iff)
  ultimately show ?thesis
    using assms(2) by (simp add: read_updates_def read_then_def array_len_back unat_length)
qed

lemma read_refused_back:
  assumes "list_all (\<lambda>r. wf_channel_id (ref_channel_id r)) xs" "length xs \<le> MAX_CHANNEL_UPDATES"
  shows "read_refused c (enc_array c (of_nat (length xs)) @ concat (map (refused_item c) xs) @ r) = Inr (xs, r)"
proof -
  have "fits_u64 xs" using assms(2) by (simp add: fits_u64_def MAX_CHANNEL_UPDATES_def)
  moreover have "read_many (length xs) (read_refused_update c) (concat (map (refused_item c) xs) @ r) = Inr (xs, r)"
    using assms(1) by (intro read_many_back) (auto simp: read_refused_update_back list_all_iff)
  ultimately show ?thesis
    using assms(2) by (simp add: read_refused_def read_then_def array_len_back unat_length)
qed

lemmas field_simps = codec_defs wf_defs message_fields_def payload_fields_def fill_def backs
  skippable_def fits_short skips [unfolded skippable_def]

lemma fields_loop:
  assumes "carries c m fs" "\<And>k v s r. (k, v) \<in> set fs \<Longrightarrow> field k s (v @ r) = Inr (act k s, r)"
  shows "pairs_loop c field (of_nat (length fs)) s (put_fields c fs) =
    Inr (fold (\<lambda>f. act (fst f)) fs s, [])"
  using each_pair_back [of fs field act BadCbor s "[]"] assms
  by (simp add: pairs_loop_def unat_length carries_def)

lemma announce_back:
  assumes "wf_message c (MAnnounce m)" "carries c (MAnnounce m) fs"
  shows "decode_announce c (of_nat (length fs)) (put_fields c fs) = Inr (m, [])"
proof -
  let ?act = "\<lambda>k. map_prod (fill 1 (ann_version m) k) (map_prod (fill 2 (ann_pubkey m) k)
    (map_prod (fill 3 (ann_unit m) k) (fill 4 (ann_capabilities m) k)))"
  have "announce_field c k s (v @ r) = Inr (?act k s, r)" if "(k, v) \<in> set fs" for k v s r
    using carries_field [OF assms(2) that] assms(1)
    by (cases s) (auto simp: announce_field_def field_simps)
  from fields_loop [where act = ?act and s = "(None, None, None, None)", OF assms(2) this] show ?thesis
    using carries_keys [OF assms(2)]
    by (simp add: decode_announce_def slot_simps)
qed

lemma accept_back:
  assumes "wf_message c (MAccept m)" "carries c (MAccept m) fs"
  shows "decode_accept c (of_nat (length fs)) (put_fields c fs) = Inr (m, [])"
proof -
  let ?act = "\<lambda>k. fill 1 (acc_funding m) k"
  have "accept_field c k s (v @ r) = Inr (?act k s, r)" if "(k, v) \<in> set fs" for k v s r
    using carries_field [OF assms(2) that] assms(1)
    by (auto simp: accept_field_def field_simps)
  from fields_loop [where act = ?act and s = "None", OF assms(2) this] show ?thesis
    using carries_keys [OF assms(2)]
    by (simp add: decode_accept_def slot_simps)
qed

lemma channel_ready_back:
  assumes "wf_message c (MChannelReady m)" "carries c (MChannelReady m) fs"
  shows "decode_channel_ready c (of_nat (length fs)) (put_fields c fs) = Inr (m, [])"
proof -
  let ?act = "\<lambda>k. fill 1 (ready_channel_id m) k"
  have "channel_ready_field c k s (v @ r) = Inr (?act k s, r)" if "(k, v) \<in> set fs" for k v s r
    using carries_field [OF assms(2) that] assms(1)
    by (auto simp: channel_ready_field_def field_simps)
  from fields_loop [where act = ?act and s = "None", OF assms(2) this] show ?thesis
    using carries_keys [OF assms(2)]
    by (simp add: decode_channel_ready_def slot_simps)
qed

lemma rollover_init_back:
  assumes "wf_message c (MRolloverInit m)" "carries c (MRolloverInit m) fs"
  shows "decode_rollover_init c (of_nat (length fs)) (put_fields c fs) = Inr (m, [])"
proof -
  let ?act = "\<lambda>k. map_prod (fill 1 (ri_old_channel_id m) k) (fill 2 (ri_funding m) k)"
  have "rollover_init_field c k s (v @ r) = Inr (?act k s, r)" if "(k, v) \<in> set fs" for k v s r
    using carries_field [OF assms(2) that] assms(1)
    by (cases s) (auto simp: rollover_init_field_def field_simps)
  from fields_loop [where act = ?act and s = "(None, None)", OF assms(2) this] show ?thesis
    using carries_keys [OF assms(2)]
    by (simp add: decode_rollover_init_def slot_simps)
qed

lemma rollover_ready_back:
  assumes "wf_message c (MRolloverReady m)" "carries c (MRolloverReady m) fs"
  shows "decode_rollover_ready c (of_nat (length fs)) (put_fields c fs) = Inr (m, [])"
proof -
  let ?act = "\<lambda>k. map_prod (fill 1 (rr_old_channel_id m) k) (fill 2 (rr_new_channel_id m) k)"
  have "rollover_ready_field c k s (v @ r) = Inr (?act k s, r)" if "(k, v) \<in> set fs" for k v s r
    using carries_field [OF assms(2) that] assms(1)
    by (cases s) (auto simp: rollover_ready_field_def field_simps)
  from fields_loop [where act = ?act and s = "(None, None)", OF assms(2) this] show ?thesis
    using carries_keys [OF assms(2)]
    by (simp add: decode_rollover_ready_def slot_simps)
qed

lemma channel_close_back:
  assumes "wf_message c (MChannelClose m)" "carries c (MChannelClose m) fs"
  shows "decode_channel_close c (of_nat (length fs)) (put_fields c fs) = Inr (m, [])"
proof -
  let ?act = "\<lambda>k. map_prod (fill 1 (close_channel_id m) k) (map_prod (fill 2 (close_final_balance m) k)
    (map_prod (fill 3 (close_final_signature m) k) (fill 4 (close_reason m) k)))"
  have "channel_close_field c k s (v @ r) = Inr (?act k s, r)" if "(k, v) \<in> set fs" for k v s r
    using carries_field [OF assms(2) that] assms(1)
    by (cases s) (auto simp: channel_close_field_def field_simps)
  from fields_loop [where act = ?act and s = "(None, None, None, None)", OF assms(2) this] show ?thesis
    using carries_keys [OF assms(2)]
    by (simp add: decode_channel_close_def slot_simps)
qed

lemma close_ack_back:
  assumes "wf_message c (MCloseAck m)" "carries c (MCloseAck m) fs"
  shows "decode_close_ack c (of_nat (length fs)) (put_fields c fs) = Inr (m, [])"
proof -
  let ?act = "\<lambda>k. map_prod (fill 1 (ack_channel_id m) k) (fill 2 (ack_accepted_balance m) k)"
  have "close_ack_field c k s (v @ r) = Inr (?act k s, r)" if "(k, v) \<in> set fs" for k v s r
    using carries_field [OF assms(2) that] assms(1)
    by (cases s) (auto simp: close_ack_field_def field_simps)
  from fields_loop [where act = ?act and s = "(None, None)", OF assms(2) this] show ?thesis
    using carries_keys [OF assms(2)]
    by (simp add: decode_close_ack_def slot_simps)
qed

lemma disconnect_back:
  assumes "wf_message c (MDisconnect m)" "carries c (MDisconnect m) fs"
  shows "decode_disconnect c (of_nat (length fs)) (put_fields c fs) = Inr (m, [])"
proof -
  let ?act = "\<lambda>k. fill 1 (disc_reason m) k"
  have "disconnect_field c k s (v @ r) = Inr (?act k s, r)" if "(k, v) \<in> set fs" for k v s r
    using carries_field [OF assms(2) that] assms(1)
    by (auto simp: disconnect_field_def field_simps)
  from fields_loop [where act = ?act and s = "None", OF assms(2) this] show ?thesis
    using carries_keys [OF assms(2)]
    by (simp add: decode_disconnect_def slot_simps)
qed

lemma balance_back:
  assumes "wf_message c (MBalance m)" "carries c (MBalance m) fs"
  shows "decode_balance c (of_nat (length fs)) (put_fields c fs) = Inr (m, [])"
proof -
  let ?act = "\<lambda>k. map_prod (fill 1 (bal_remaining m) k) (map_prod (fill 2 (bal_expires_in_ms m) k)
    (fill 3 (bal_reserved_rate m) k))"
  have "balance_field c k s (v @ r) = Inr (?act k s, r)" if "(k, v) \<in> set fs" for k v s r
    using carries_field [OF assms(2) that] assms(1)
    by (cases s) (auto simp: balance_field_def field_simps)
  from fields_loop [where act = ?act and s = "(None, None, None)", OF assms(2) this] show ?thesis
    using carries_keys [OF assms(2)]
    by (simp add: decode_balance_def slot_simps)
qed

lemma topup_back:
  assumes "wf_message c (MTopUp m)" "carries c (MTopUp m) fs"
  shows "decode_topup c (of_nat (length fs)) (put_fields c fs) = Inr (m, [])"
proof -
  let ?act = "\<lambda>k. map_prod (fill 1 (topup_updates m) k) (map_prod (fill 2 (topup_window_ms m) k)
    (fill 3 (topup_reserved_rate m) k))"
  have "topup_field c k s (v @ r) = Inr (?act k s, r)" if "(k, v) \<in> set fs" for k v s r
    using carries_field [OF assms(2) that] assms(1)
    by (cases s) (auto simp: topup_field_def field_simps read_updates_back)
  from fields_loop [where act = ?act and s = "(None, None, None)", OF assms(2) this] show ?thesis
    using carries_keys [OF assms(2)] assms(1)
    by (simp add: decode_topup_def slot_simps wf_message_def)
qed

lemma topup_reject_back:
  assumes "wf_message c (MTopUpReject m)" "carries c (MTopUpReject m) fs"
  shows "decode_topup_reject c (of_nat (length fs)) (put_fields c fs) = Inr (m, [])"
proof -
  let ?act = "\<lambda>k. map_prod (fill 1 (rej_refused m) k) (map_prod (fill 2 (rej_max_reserved_rate m) k)
    (fill 3 (rej_reason m) k))"
  have "topup_reject_field c k s (v @ r) = Inr (?act k s, r)" if "(k, v) \<in> set fs" for k v s r
    using carries_field [OF assms(2) that] assms(1)
    by (cases s) (auto simp: topup_reject_field_def field_simps read_refused_back)
  from fields_loop [where act = ?act and s = "(None, None, None)", OF assms(2) this] show ?thesis
    using carries_keys [OF assms(2)]
    by (simp add: decode_topup_reject_def slot_simps)
qed

lemma reject_back:
  assumes "wf_message c (MReject m)" "carries c (MReject m) fs"
  shows "decode_reject c (of_nat (length fs)) (put_fields c fs) = Inr (m, [])"
proof -
  let ?act = "\<lambda>k. map_prod (fill 1 (reject_type m) k) (map_prod (fill 2 (reject_reason m) k)
    (fill_some 3 (reject_text m) k))"
  have "reject_field c k s (v @ r) = Inr (?act k s, r)" if "(k, v) \<in> set fs" for k v s r
    using carries_field [OF assms(2) that] assms(1)
    by (cases s; cases "reject_text m")
      (auto simp: reject_field_def field_simps read_text_def fill_some_def)
  from fields_loop [where act = ?act and s = "(None, None, None)", OF assms(2) this] show ?thesis
    using carries_keys [OF assms(2)]
    by (simp add: decode_reject_def slot_simps fold_fill_some)
qed

lemma offer_no_charge_key:
  assumes "carries c (MOffer m) fs"
  shows "5 \<in> fst ` set fs \<longleftrightarrow> offer_no_charge m"
proof
  assume "5 \<in> fst ` set fs"
  then obtain v where "(5, v) \<in> set fs" by auto
  from carries_field [OF assms this] show "offer_no_charge m"
    by (auto simp: message_fields_def payload_fields_def split: if_splits)
next
  assume "offer_no_charge m"
  with carries_keys [OF assms] show "5 \<in> fst ` set fs"
    by (simp add: message_fields_def payload_fields_def)
qed

lemma offer_back:
  assumes "wf_message c (MOffer m)" "carries c (MOffer m) fs"
  shows "decode_offer c (of_nat (length fs)) (put_fields c fs) = Inr (m, [])"
proof -
  let ?act = "\<lambda>k. map_prod (fill 1 (offer_accepted_mints m) k) (map_prod (fill 2 (offer_unit m) k)
    (map_prod (fill 3 (offer_min_window_ms m, offer_max_window_ms m) k)
    (map_prod (fill 4 (offer_from_payer_weight m) k) (map_prod (fill 5 True k)
    (map_prod (fill 6 (offer_min_reserved_rate m) k) (fill 7 (offer_min_topup_gap_ms m) k))))))"
  have "offer_field c k s (v @ r) = Inr (?act k s, r)" if "(k, v) \<in> set fs" for k v s r
    using carries_field [OF assms(2) that] assms(1)
    by (cases s) (auto simp: offer_field_def field_simps read_mints_back read_windows_back split: if_splits)
  from fields_loop [where act = ?act and s = "(None, None, None, None, None, None, None)", OF assms(2) this] show ?thesis
    using carries_keys [OF assms(2)] offer_no_charge_key [OF assms(2)] assms(1)
    by (simp add: decode_offer_def slot_simps wf_message_def)
qed

lemma update_item_skippable:
  "wf_channel_id (upd_channel_id u) \<Longrightarrow> wf_signature (upd_signature u) \<Longrightarrow> skippable c (update_item c u)"
  using skip_array [of "[enc_bytes c (channel_id_bytes (upd_channel_id u)), enc_u64 c (upd_cumulative u),
    enc_bytes c (signature_bytes (upd_signature u))]"]
  by (simp add: update_item_def skips fits_short wf_channel_id_def wf_signature_def)

lemma refused_item_skippable:
  "wf_channel_id (ref_channel_id u) \<Longrightarrow> skippable c (refused_item c u)"
  using skip_array [of "[enc_bytes c (channel_id_bytes (ref_channel_id u)), enc_u64 c (ref_cumulative u)]"]
  by (simp add: refused_item_def skips fits_short wf_channel_id_def)

lemma windows_skippable: "skippable c (enc_array c 2 @ enc_u64 c lo @ enc_u64 c hi)"
  using skip_array [of "[enc_u64 c lo, enc_u64 c hi]"] by (simp add: skips) (simp add: fits_u64_def)

lemma array_skippable:
  "fits_u64 xs \<Longrightarrow> list_all (\<lambda>x. skippable c (put x)) xs \<Longrightarrow>
     skippable c (enc_array c (of_nat (length xs)) @ concat (map put xs))"
  using skip_array [of "map put xs"] by (simp add: fits_u64_def list.pred_map comp_def)

lemma field_skippable:
  assumes "wf_message c m" "(k, v) \<in> set (payload_fields c m)"
  shows "k \<noteq> 0 \<and> skippable c v"
proof (cases m)
  case (MOffer x)
  with assms have "fits_u64 (offer_accepted_mints x)"
    by (simp add: wf_message_def fits_u64_def STRING_SIZE_def)
  with MOffer assms show ?thesis
    by (auto simp: payload_fields_def wf_message_def wf_text_def skips windows_skippable list_all_iff
        intro!: array_skippable split: if_splits)
next
  case (MTopUp x)
  with assms have "fits_u64 (topup_updates x)"
    by (simp add: wf_message_def fits_u64_def MAX_CHANNEL_UPDATES_def)
  with MTopUp assms show ?thesis
    by (auto simp: payload_fields_def wf_message_def skips list_all_iff
        intro!: array_skippable update_item_skippable)
next
  case (MTopUpReject x)
  with assms have "fits_u64 (rej_refused x)"
    by (simp add: wf_message_def fits_u64_def MAX_CHANNEL_UPDATES_def)
  with MTopUpReject assms show ?thesis
    by (auto simp: payload_fields_def wf_message_def skips list_all_iff
        intro!: array_skippable refused_item_skippable)
next
  case (MReject x)
  with assms show ?thesis
    by (cases "reject_text x") (auto simp: payload_fields_def wf_defs skips)
qed (use assms in \<open>auto simp: payload_fields_def wf_defs skips fits_short\<close>)

lemma scan_type_back:
  assumes "wf_message c m" "carries c m fs"
  shows "\<exists>r. scan_type c (enc_map c (of_nat (length fs)) @ put_fields c fs) =
    Inr (msg_type_u8 (msg_type m), r)"
proof -
  let ?tag = "msg_type_u8 (msg_type m)"
  have "(k = 0 \<longrightarrow> v = enc_u8 c ?tag) \<and> skippable c v" if "(k, v) \<in> set fs" for k v
    using carries_field [OF assms(2) that] field_skippable [OF assms(1)] skip_u8
    by (auto simp: message_fields_def)
  then have "list_all (\<lambda>(k, v). (k = 0 \<longrightarrow> v = enc_u8 c ?tag) \<and> skippable c v) fs"
    unfolding list_all_iff by blast
  moreover have "(0, enc_u8 c ?tag) \<in> set fs"
    using assms(2) by (auto simp: carries_def message_fields_def)
  ultimately obtain r where
    "scan_pairs BadCbor MissingType c (length fs) (put_fields c fs @ []) = Inr (?tag, r)"
    by (blast dest: scan_pairs_back)
  then show ?thesis
    using assms(2) by (simp add: scan_type_def read_then_def map_len_back carries_def unat_length)
qed

lemmas message_backs = announce_back offer_back accept_back channel_ready_back topup_back
  topup_reject_back rollover_init_back rollover_ready_back channel_close_back close_ack_back
  reject_back disconnect_back balance_back

lemma decode_as_back:
  assumes "wf_message c m" "carries c m fs"
  shows "decode_as c (msg_type m) (of_nat (length fs)) (put_fields c fs) = Inr (m, [])"
  using assms by (cases m) (simp_all add: decode_as_def store_def read_then_def give_def message_backs)

lemma decode_carried:
  assumes "wf_message c m" "carries c m fs"
  shows "decode c (enc_map c (of_nat (length fs)) @ put_fields c fs) = Inr m"
  using scan_type_back [OF assms] decode_as_back [OF assms]
  by (auto simp: decode_def read_then_def map_len_back)

lemma decode_huge_mint_list:
  assumes "2 ^ 63 \<le> unat n * STRING_SIZE"
  shows "decode c (enc_map c 2 @ enc_u8 c 0 @ enc_u8 c (msg_type_u8 MT_Offer) @ enc_u8 c 1 @ enc_array c n @ r)
    = Inl Panic"
proof -
  let ?d = "enc_u8 c 0 @ enc_u8 c (msg_type_u8 MT_Offer) @ enc_u8 c 1 @ enc_array c n @ r"
  have two: "unat (2 :: u64) = Suc (Suc 0)" by simp
  have "scan_type c (enc_map c 2 @ ?d) = Inr (msg_type_u8 MT_Offer, enc_u8 c 1 @ enc_array c n @ r)"
    unfolding scan_type_def read_then_def map_len_back sum.case prod.case two
    by (simp add: decoder_defs u8_back)
  moreover have "decode_offer c 2 ?d = Inl Panic"
    unfolding decode_offer_def pairs_loop_def two
    using assms skip_u8 [unfolded skippable_def, of 1]
    by (simp add: decoder_defs u8_back offer_field_def skip_def read_mints_def array_len_back
        with_capacity_def)
  ultimately show ?thesis
    by (simp add: decode_def read_then_def map_len_back decode_as_def store_def
        msg_type_from_u8_def)
qed

end

subsection \<open>What is accepted\<close>

text \<open>The bounds a decoded message meets, whatever the bytes were.\<close>

fun bounded_message :: "Message \<Rightarrow> bool" where
  "bounded_message (MAnnounce m) = wf_pubkey (ann_pubkey m)"
| "bounded_message (MOffer m) = (offer_accepted_mints m \<noteq> [])"
| "bounded_message (MChannelReady m) = wf_channel_id (ready_channel_id m)"
| "bounded_message (MTopUp m) =
     (topup_updates m \<noteq> [] \<and> length (topup_updates m) \<le> MAX_CHANNEL_UPDATES \<and>
      list_all (\<lambda>u. wf_channel_id (upd_channel_id u) \<and> wf_signature (upd_signature u)) (topup_updates m))"
| "bounded_message (MTopUpReject m) =
     (length (rej_refused m) \<le> MAX_CHANNEL_UPDATES \<and>
      list_all (\<lambda>r. wf_channel_id (ref_channel_id r)) (rej_refused m))"
| "bounded_message (MRolloverInit m) = wf_channel_id (ri_old_channel_id m)"
| "bounded_message (MRolloverReady m) =
     (wf_channel_id (rr_old_channel_id m) \<and> wf_channel_id (rr_new_channel_id m))"
| "bounded_message (MChannelClose m) =
     (wf_channel_id (close_channel_id m) \<and> wf_signature (close_final_signature m))"
| "bounded_message (MCloseAck m) = wf_channel_id (ack_channel_id m)"
| "bounded_message _ = True"

lemmas inr_splits = sum.splits prod.splits option.splits if_splits

lemma read_then_Inr:
  "read_then rd f d = Inr x \<longleftrightarrow> (\<exists>v r. rd d = Inr (v, r) \<and> f v r = Inr x)"
  by (auto simp: read_then_def split: sum.splits)

lemma store_Inr: "store rd f d = Inr (x, r) \<longleftrightarrow> (\<exists>v. rd d = Inr (v, r) \<and> x = f v)"
  by (auto simp: store_def read_then_Inr give_def)

lemma skip_Inr: "skip c s d = Inr (x, r) \<Longrightarrow> x = s"
  by (simp add: skip_def skip_value_def split: option.splits)

lemma fixed_Inr: "fixed c n k d = Inr (bs, r) \<Longrightarrow> length bs = n"
  by (auto simp: fixed_def read_then_Inr give_def fail_def split: if_splits)

lemma needed_Inr: "needed t k v f d = Inr x \<longleftrightarrow> (\<exists>y. v = Some y \<and> f y d = Inr x)"
  by (auto simp: needed_def missing_def fail_def split: option.splits)

lemma read_update_Inr:
  "read_update c d = Inr (u, r) \<Longrightarrow> wf_channel_id (upd_channel_id u) \<and> wf_signature (upd_signature u)"
  by (auto simp: read_update_def read_then_Inr store_Inr fail_def wf_channel_id_def wf_signature_def
      dest: fixed_Inr split: if_splits)

lemma read_refused_update_Inr: "read_refused_update c d = Inr (u, r) \<Longrightarrow> wf_channel_id (ref_channel_id u)"
  by (auto simp: read_refused_update_def read_then_Inr store_Inr fail_def wf_channel_id_def
      dest: fixed_Inr split: if_splits)

lemma read_updates_Inr:
  assumes "read_updates c d = Inr (us, r)"
  shows "length us \<le> MAX_CHANNEL_UPDATES \<and>
    list_all (\<lambda>u. wf_channel_id (upd_channel_id u) \<and> wf_signature (upd_signature u)) us"
proof -
  from assms obtain n d' where "n \<le> MAX_CHANNEL_UPDATES" "read_many n (read_update c) d' = Inr (us, r)"
    by (auto simp: read_updates_def read_then_Inr fail_def not_less split: if_splits)
  with read_many_all [of "read_update c" "\<lambda>u. wf_channel_id (upd_channel_id u) \<and> wf_signature (upd_signature u)"
      n d' us r] read_update_Inr [of c]
  show ?thesis by blast
qed

lemma read_refused_Inr:
  assumes "read_refused c d = Inr (us, r)"
  shows "length us \<le> MAX_CHANNEL_UPDATES \<and> list_all (\<lambda>u. wf_channel_id (ref_channel_id u)) us"
proof -
  from assms obtain n d' where "n \<le> MAX_CHANNEL_UPDATES"
    "read_many n (read_refused_update c) d' = Inr (us, r)"
    by (auto simp: read_refused_def read_then_Inr fail_def not_less split: if_splits)
  with read_many_all [of "read_refused_update c" "\<lambda>u. wf_channel_id (ref_channel_id u)" n d' us r]
    read_refused_update_Inr [of c]
  show ?thesis by blast
qed

lemma pairs_loop_keeps:
  assumes "pairs_loop c field n s d = Inr (s', r)" "I s"
    and "\<And>key s d s' r. I s \<Longrightarrow> field key s d = Inr (s', r) \<Longrightarrow> I s'"
  shows "I s'"
  using each_pair_keeps [of I field s BadCbor c "unat n" d s' r] assms by (simp add: pairs_loop_def)


lemma announce_bounded:
  assumes "decode_announce c n d = Inr (m, r)"
  shows "wf_pubkey (ann_pubkey m)"
proof -
  let ?I = "\<lambda>(_, pk, _, _). pred_option wf_pubkey pk"
  from assms obtain s d' where loop: "pairs_loop c (announce_field c) n (None, None, None, None) d = Inr (s, d')"
    by (auto simp: decode_announce_def read_then_Inr)
  have "?I s"
    by (rule pairs_loop_keeps [where I = ?I, OF loop])
      (auto simp: announce_field_def store_Inr wf_pubkey_def wf_channel_id_def wf_signature_def
        dest!: skip_Inr fixed_Inr split: if_splits)
  with assms loop show ?thesis
    by (auto simp: decode_announce_def read_then_def needed_Inr give_def fail_def split: if_splits prod.splits)
qed

lemma channel_ready_bounded:
  assumes "decode_channel_ready c n d = Inr (m, r)"
  shows "wf_channel_id (ready_channel_id m)"
proof -
  let ?I = "pred_option wf_channel_id"
  from assms obtain s d' where loop: "pairs_loop c (channel_ready_field c) n None d = Inr (s, d')"
    by (auto simp: decode_channel_ready_def read_then_Inr)
  have "?I s"
    by (rule pairs_loop_keeps [where I = ?I, OF loop])
      (auto simp: channel_ready_field_def store_Inr wf_pubkey_def wf_channel_id_def wf_signature_def
        dest!: skip_Inr fixed_Inr split: if_splits)
  with assms loop show ?thesis
    by (auto simp: decode_channel_ready_def read_then_def needed_Inr give_def fail_def split: if_splits prod.splits)
qed

lemma topup_bounded:
  assumes "decode_topup c n d = Inr (m, r)"
  shows "bounded_message (MTopUp m)"
proof -
  let ?I = "\<lambda>(us, _, _). pred_option (\<lambda>us. bounded_message (MTopUp \<lparr>topup_updates = us, topup_window_ms = 0, topup_reserved_rate = 0\<rparr>) \<or> us = []) us"
  from assms obtain s d' where loop: "pairs_loop c (topup_field c) n (None, None, None) d = Inr (s, d')"
    by (auto simp: decode_topup_def read_then_Inr)
  have "?I s"
    by (rule pairs_loop_keeps [where I = ?I, OF loop])
      (auto simp: topup_field_def store_Inr wf_pubkey_def wf_channel_id_def wf_signature_def
        dest!: skip_Inr fixed_Inr read_updates_Inr split: if_splits)
  with assms loop show ?thesis
    by (auto simp: decode_topup_def read_then_def needed_Inr give_def fail_def split: if_splits prod.splits)
qed

lemma topup_reject_bounded:
  assumes "decode_topup_reject c n d = Inr (m, r)"
  shows "bounded_message (MTopUpReject m)"
proof -
  let ?I = "\<lambda>(us, _, _). pred_option (\<lambda>us. bounded_message (MTopUpReject \<lparr>rej_refused = us, rej_max_reserved_rate = 0, rej_reason = OtherReason\<rparr>)) us"
  from assms obtain s d' where loop: "pairs_loop c (topup_reject_field c) n (None, None, None) d = Inr (s, d')"
    by (auto simp: decode_topup_reject_def read_then_Inr)
  have "?I s"
    by (rule pairs_loop_keeps [where I = ?I, OF loop])
      (auto simp: topup_reject_field_def store_Inr wf_pubkey_def wf_channel_id_def wf_signature_def
        dest!: skip_Inr fixed_Inr read_refused_Inr split: if_splits)
  with assms loop show ?thesis
    by (auto simp: decode_topup_reject_def read_then_def needed_Inr give_def fail_def split: if_splits prod.splits)
qed

lemma rollover_init_bounded:
  assumes "decode_rollover_init c n d = Inr (m, r)"
  shows "wf_channel_id (ri_old_channel_id m)"
proof -
  let ?I = "\<lambda>(old, _). pred_option wf_channel_id old"
  from assms obtain s d' where loop: "pairs_loop c (rollover_init_field c) n (None, None) d = Inr (s, d')"
    by (auto simp: decode_rollover_init_def read_then_Inr)
  have "?I s"
    by (rule pairs_loop_keeps [where I = ?I, OF loop])
      (auto simp: rollover_init_field_def store_Inr wf_pubkey_def wf_channel_id_def wf_signature_def
        dest!: skip_Inr fixed_Inr split: if_splits)
  with assms loop show ?thesis
    by (auto simp: decode_rollover_init_def read_then_def needed_Inr give_def fail_def split: if_splits prod.splits)
qed

lemma rollover_ready_bounded:
  assumes "decode_rollover_ready c n d = Inr (m, r)"
  shows "wf_channel_id (rr_old_channel_id m) \<and> wf_channel_id (rr_new_channel_id m)"
proof -
  let ?I = "\<lambda>(old, new). pred_option wf_channel_id old \<and> pred_option wf_channel_id new"
  from assms obtain s d' where loop: "pairs_loop c (rollover_ready_field c) n (None, None) d = Inr (s, d')"
    by (auto simp: decode_rollover_ready_def read_then_Inr)
  have "?I s"
    by (rule pairs_loop_keeps [where I = ?I, OF loop])
      (auto simp: rollover_ready_field_def store_Inr wf_pubkey_def wf_channel_id_def wf_signature_def
        dest!: skip_Inr fixed_Inr split: if_splits)
  with assms loop show ?thesis
    by (auto simp: decode_rollover_ready_def read_then_def needed_Inr give_def fail_def split: if_splits prod.splits)
qed

lemma channel_close_bounded:
  assumes "decode_channel_close c n d = Inr (m, r)"
  shows "wf_channel_id (close_channel_id m) \<and> wf_signature (close_final_signature m)"
proof -
  let ?I = "\<lambda>(ch, _, sig, _). pred_option wf_channel_id ch \<and> pred_option wf_signature sig"
  from assms obtain s d' where loop: "pairs_loop c (channel_close_field c) n (None, None, None, None) d = Inr (s, d')"
    by (auto simp: decode_channel_close_def read_then_Inr)
  have "?I s"
    by (rule pairs_loop_keeps [where I = ?I, OF loop])
      (auto simp: channel_close_field_def store_Inr wf_pubkey_def wf_channel_id_def wf_signature_def
        dest!: skip_Inr fixed_Inr split: if_splits)
  with assms loop show ?thesis
    by (auto simp: decode_channel_close_def read_then_def needed_Inr give_def fail_def split: if_splits prod.splits)
qed

lemma close_ack_bounded:
  assumes "decode_close_ack c n d = Inr (m, r)"
  shows "wf_channel_id (ack_channel_id m)"
proof -
  let ?I = "\<lambda>(ch, _). pred_option wf_channel_id ch"
  from assms obtain s d' where loop: "pairs_loop c (close_ack_field c) n (None, None) d = Inr (s, d')"
    by (auto simp: decode_close_ack_def read_then_Inr)
  have "?I s"
    by (rule pairs_loop_keeps [where I = ?I, OF loop])
      (auto simp: close_ack_field_def store_Inr wf_pubkey_def wf_channel_id_def wf_signature_def
        dest!: skip_Inr fixed_Inr split: if_splits)
  with assms loop show ?thesis
    by (auto simp: decode_close_ack_def read_then_def needed_Inr give_def fail_def split: if_splits prod.splits)
qed

lemma offer_bounded: "decode_offer c n d = Inr (m, r) \<Longrightarrow> offer_accepted_mints m \<noteq> []"
  by (auto simp: decode_offer_def read_then_Inr needed_Inr give_def fail_def split: if_splits prod.splits)

lemma decode_as_bounded: "decode_as c ty n d = Inr (m, r) \<Longrightarrow> bounded_message m"
  by (cases ty) (auto simp: decode_as_def store_Inr dest: announce_bounded offer_bounded
      channel_ready_bounded topup_bounded topup_reject_bounded rollover_init_bounded
      rollover_ready_bounded channel_close_bounded close_ack_bounded)

subsection \<open>Properties\<close>

text \<open>C27: A message sent is the message read. For every message the types of the source allow, within
  the protocol's own bounds (a mint in every Offer, one to eight updates in a TopUp), the bytes
  \<open>encode\<close> writes decode to that message.
\<close>

theorem codec_roundtrip:
  assumes "cbor_lib c" "wf_message c m"
  shows "decode c (encode c m []) = Inr m"
  using cbor_lib.decode_carried [OF assms carries_own] by (simp add: encode_fields)

definition sample_topup :: Message where
  "sample_topup = MTopUp
     \<lparr>topup_updates =
        [\<lparr>upd_channel_id = ChannelId (replicate 32 7), upd_cumulative = 500,
          upd_signature = Signature (replicate 64 9)\<rparr>],
      topup_window_ms = 30000, topup_reserved_rate = 12\<rparr>"

theorem codec_roundtrip_witness: "decode rfc8949 (encode rfc8949 sample_topup []) = Inr sample_topup"
  by (rule codec_roundtrip [OF rfc.cbor_lib_axioms])
    (simp add: sample_topup_def wf_defs MAX_CHANNEL_UPDATES_def)

text \<open>C28: Decoding does not depend on the order of the fields and skips what it does not know. Any map
  that holds a message's fields in any order, with fields of unknown keys anywhere between them,
  decodes to that message.
\<close>

theorem codec_any_order:
  assumes "cbor_lib c" "wf_message c m" "carries c m fs"
  shows "decode c (enc_map c (of_nat (length fs)) @ put_fields c fs) = Inr m"
  by (rule cbor_lib.decode_carried [OF assms])

definition sample_ack :: Message where
  "sample_ack = MCloseAck \<lparr>ack_channel_id = ChannelId (replicate 32 3), ack_accepted_balance = 77\<rparr>"

definition sample_fields :: "(u8 \<times> u8 list) list" where
  "sample_fields = (9, enc_str rfc8949 ''later'') # List.rev (message_fields rfc8949 sample_ack)"

theorem codec_any_order_witness:
  "decode rfc8949 (enc_map rfc8949 (of_nat (length sample_fields)) @ put_fields rfc8949 sample_fields) =
     Inr sample_ack"
proof (rule codec_any_order [OF rfc.cbor_lib_axioms])
  show "wf_message rfc8949 sample_ack" by (simp add: sample_ack_def wf_defs)
  have "utf8 rfc8949 ''later''" by (simp add: rfc8949_def ascii_def)
  then have "skippable rfc8949 (enc_str rfc8949 ''later'')"
    by (rule rfc.skip_str) (simp add: fits_u64_def)
  then show "carries rfc8949 sample_ack sample_fields"
    by (auto simp: carries_def sample_fields_def sample_ack_def fits_u64_def message_fields_def
        payload_fields_def)
qed

text \<open>C29: Whatever bytes arrive, and whatever the CBOR library does with them, a message \<open>decode\<close> accepts
  has keys, channel ids and signatures of their exact width, an Offer names a mint, and a TopUp
  carries one to eight updates.
\<close>

theorem decoded_message_bounded:
  assumes "decode c input = Inr m"
  shows "bounded_message m"
  using assms
  by (auto simp: decode_def read_then_Inr dest: decode_as_bounded split: sum.splits option.splits)

theorem decoded_message_bounded_witness: "bounded_message sample_ack"
proof (rule decoded_message_bounded)
  have "wf_message rfc8949 sample_ack" by (simp add: sample_ack_def wf_defs)
  then show "decode rfc8949 (encode rfc8949 sample_ack []) = Inr sample_ack"
    using rfc.decode_carried [OF _ carries_own] by (simp add: encode_fields)
qed

end
