(* ===== verification/Frame.thy ===== *)
theory Frame
  imports Codec_Properties
begin

text \<open>
  The framing of \<open>crates/tollgate-protocol/src/frame.rs\<close>: a two-byte little-endian length before
  every message. \<open>encode_frame\<close> takes whether the build checks \<open>debug_assert!\<close>. \<open>FrameReader\<close> holds
  the bytes that have arrived; \<open>next_with\<close> takes one frame off the front. \<open>drain\<close> is the loop its
  callers run after every read, until no complete frame is left.
\<close>

unbundle bit_operations_syntax

definition MAX_FRAME_LEN :: nat where
  "MAX_FRAME_LEN = 65535"

definition to_le_bytes :: "u16 \<Rightarrow> u8 list" where
  "to_le_bytes w = [ucast w, ucast (drop_bit 8 w)]"

definition from_le_bytes :: "u8 \<Rightarrow> u8 \<Rightarrow> u16" where
  "from_le_bytes a b = ucast a OR push_bit 8 (ucast b)"

definition backfill :: "nat \<Rightarrow> u8 list \<Rightarrow> u8 list \<Rightarrow> u8 list" where
  "backfill at bs out = take at out @ bs @ drop (at + length bs) out"

definition encode_frame :: "bool \<Rightarrow> Cbor_Lib \<Rightarrow> Message \<Rightarrow> u8 list \<Rightarrow> CodecError Failure + u8 list" where
  "encode_frame debug c msg out =
     (let prefix_at = length out;
          out = encode c msg (out @ [0, 0]);
          len = length out - prefix_at - 2
      in if debug \<and> \<not> len \<le> MAX_FRAME_LEN then Inl Panic
         else Inr (backfill prefix_at (to_le_bytes (of_nat len)) out))"

record FrameReader =
  frame_buf :: "u8 list"

definition new_reader :: FrameReader where
  "new_reader = \<lparr>frame_buf = []\<rparr>"

definition fr_push :: "u8 list \<Rightarrow> FrameReader \<Rightarrow> FrameReader" where
  "fr_push bytes rd = rd\<lparr>frame_buf := frame_buf rd @ bytes\<rparr>"

text \<open>The decoder \<open>dec\<close> is given the frame's bytes; the frame is consumed whatever it makes of them.\<close>

definition next_with :: "(u8 list \<Rightarrow> 'r) \<Rightarrow> FrameReader \<Rightarrow> 'r option \<times> FrameReader" where
  "next_with dec rd =
     (let buf = frame_buf rd
      in if length buf < 2 then (None, rd)
         else let len = unat (from_le_bytes (buf ! 0) (buf ! 1))
              in if length buf < 2 + len then (None, rd)
                 else (Some (dec (take len (drop 2 buf))), rd\<lparr>frame_buf := drop (2 + len) buf\<rparr>))"

definition next_message :: "Cbor_Lib \<Rightarrow> FrameReader \<Rightarrow> (CodecError Failure + Message) option \<times> FrameReader" where
  "next_message c = next_with (decode c)"

definition pending :: "FrameReader \<Rightarrow> nat" where
  "pending rd = length (frame_buf rd)"

lemma next_with_consumes: "next_with dec rd = (Some x, rd') \<Longrightarrow> length (frame_buf rd') < length (frame_buf rd)"
  by (auto simp: next_with_def Let_def split: if_splits)

text \<open>\<open>while let Some(msg) = reader.next_message()\<close>, collecting what was read.\<close>

function drain :: "(u8 list \<Rightarrow> 'r) \<Rightarrow> FrameReader \<Rightarrow> 'r list \<times> FrameReader" where
  "drain dec rd =
     (case next_with dec rd of
        (None, rd') \<Rightarrow> ([], rd')
      | (Some x, rd') \<Rightarrow> (let (xs, rd'') = drain dec rd' in (x # xs, rd'')))"
  by pat_completeness auto

termination
  by (relation "measure (\<lambda>(dec, rd). length (frame_buf rd))") (auto dest: next_with_consumes [OF sym])

declare drain.simps [simp del]

text \<open>A connection's reads: push what arrived, then drain.\<close>

fun feed :: "(u8 list \<Rightarrow> 'r) \<Rightarrow> u8 list list \<Rightarrow> FrameReader \<Rightarrow> 'r list \<times> FrameReader" where
  "feed dec [] rd = ([], rd)"
| "feed dec (chunk # chunks) rd =
     (let (xs, rd') = drain dec (fr_push chunk rd);
          (ys, rd'') = feed dec chunks rd'
      in (xs @ ys, rd''))"

subsection \<open>One frame\<close>

lemma le_bytes_back: "from_le_bytes (to_le_bytes w ! 0) (to_le_bytes w ! 1) = w"
  by (rule bit_word_eqI) (auto simp: from_le_bytes_def to_le_bytes_def bit_simps)

lemma length_to_le_bytes [simp]: "length (to_le_bytes w) = 2"
  by (simp add: to_le_bytes_def)

text \<open>A frame is its prefix and its payload; the prefix holds the length's low sixteen bits.\<close>

definition framed :: "u8 list \<Rightarrow> u8 list" where
  "framed p = to_le_bytes (of_nat (length p)) @ p"

lemma encode_frame_framed:
  assumes "\<not> debug \<or> length (encode c m []) \<le> MAX_FRAME_LEN"
  shows "encode_frame debug c m out = Inr (out @ framed (encode c m []))"
proof -
  have "encode c m (out @ [0, 0]) = out @ [0, 0] @ encode c m []" by (simp add: encode_def)
  with assms show ?thesis by (auto simp: encode_frame_def backfill_def framed_def Let_def)
qed

lemma next_with_framed:
  "next_with dec \<lparr>frame_buf = framed p @ r\<rparr> =
     (Some (dec (take (length p mod 65536) (p @ r))), \<lparr>frame_buf = drop (length p mod 65536) (p @ r)\<rparr>)"
proof -
  have len: "unat (from_le_bytes ((framed p @ r) ! 0) ((framed p @ r) ! 1)) = length p mod 65536"
    using le_bytes_back [of "of_nat (length p)"]
    by (simp add: framed_def to_le_bytes_def unat_of_nat take_bit_eq_mod)
  have "length p mod 65536 \<le> length p" by simp
  then have "\<not> length (framed p @ r) < 2 + length p mod 65536" by (simp add: framed_def)
  with len show ?thesis by (simp add: next_with_def framed_def numeral_2_eq_2 to_le_bytes_def Let_def)
qed

subsection \<open>Draining\<close>

lemma drain_None: "next_with dec rd = (None, rd') \<Longrightarrow> drain dec rd = ([], rd')"
  by (subst drain.simps) simp

lemma drain_Some: "next_with dec rd = (Some x, rd') \<Longrightarrow>
    drain dec rd = (x # fst (drain dec rd'), snd (drain dec rd'))"
  by (subst drain.simps) (simp add: Let_def split: prod.split)

lemma next_with_None_same: "next_with dec rd = (None, rd') \<Longrightarrow> rd' = rd"
  by (auto simp: next_with_def Let_def split: if_splits)

text \<open>More bytes do not change a frame that is complete.\<close>

lemma next_with_push:
  assumes "next_with dec rd = (Some x, rd')"
  shows "next_with dec (fr_push b rd) = (Some x, fr_push b rd')"
  using assms by (auto simp: next_with_def fr_push_def Let_def nth_append split: if_splits)

lemma fr_push_Nil [simp]: "fr_push [] rd = rd"
  by (simp add: fr_push_def)

lemma fr_push_push [simp]: "fr_push b (fr_push a rd) = fr_push (a @ b) rd"
  by (simp add: fr_push_def)

text \<open>Draining before or after the next bytes arrive gives the same messages.\<close>

lemma drain_push:
  "drain dec (fr_push b rd) =
     (fst (drain dec rd) @ fst (drain dec (fr_push b (snd (drain dec rd)))),
      snd (drain dec (fr_push b (snd (drain dec rd)))))"
proof (induction dec rd rule: drain.induct)
  case (1 dec rd)
  show ?case
  proof (cases "next_with dec rd")
    case (Pair x rd')
    show ?thesis
    proof (cases x)
      case None
      with Pair next_with_None_same [of dec rd rd'] show ?thesis by (simp add: drain_None)
    next
      case (Some y)
      with Pair 1 [of "Some y" rd'] show ?thesis
        by (simp add: drain_Some [OF next_with_push] drain_Some)
    qed
  qed
qed

lemma feed_drain: "chunks \<noteq> [] \<Longrightarrow> feed dec chunks rd = drain dec (fr_push (concat chunks) rd)"
proof (induction chunks arbitrary: rd rule: list_nonempty_induct)
  case (single a)
  then show ?case by (simp add: Let_def split: prod.split)
next
  case (cons a chunks)
  have "feed dec (a # chunks) rd =
      (fst (drain dec (fr_push a rd)) @ fst (feed dec chunks (snd (drain dec (fr_push a rd)))),
       snd (feed dec chunks (snd (drain dec (fr_push a rd)))))"
    by (simp add: Let_def split: prod.split)
  also have "\<dots> = drain dec (fr_push (concat chunks) (fr_push a rd))"
    by (simp only: cons.IH drain_push [of dec "concat chunks" "fr_push a rd"])
  finally show ?case by simp
qed

text \<open>Frames of at most 65535 bytes are read one by one.\<close>

lemma drain_framed:
  assumes "list_all (\<lambda>p. length p \<le> MAX_FRAME_LEN) ps" "length r < 2"
  shows "drain dec \<lparr>frame_buf = concat (map framed ps) @ r\<rparr> = (map dec ps, \<lparr>frame_buf = r\<rparr>)"
  using assms(1)
proof (induction ps)
  case Nil
  from assms(2) have "next_with dec \<lparr>frame_buf = r\<rparr> = (None, \<lparr>frame_buf = r\<rparr>)" by (simp add: next_with_def)
  then show ?case by (simp add: drain_None)
next
  case (Cons p ps)
  then have "length p mod 65536 = length p" by (simp add: MAX_FRAME_LEN_def)
  then have "next_with dec \<lparr>frame_buf = framed p @ concat (map framed ps) @ r\<rparr> =
      (Some (dec p), \<lparr>frame_buf = concat (map framed ps) @ r\<rparr>)"
    by (simp add: next_with_framed)
  with Cons show ?case by (simp add: drain_Some)
qed

lemma drain_bounded: "pending (snd (drain dec rd)) \<le> Suc MAX_FRAME_LEN"
proof (induction dec rd rule: drain.induct)
  case (1 dec rd)
  show ?case
  proof (cases "next_with dec rd")
    case (Pair x rd')
    show ?thesis
    proof (cases x)
      case None
      have "unat (from_le_bytes a b) \<le> 65535" for a b
        using unsigned_less [of "from_le_bytes a b", where 'a = nat] by simp
      note small = this [of "frame_buf rd ! 0" "frame_buf rd ! 1"]
      from Pair None have "length (frame_buf rd) < 2 \<or>
          length (frame_buf rd) < 2 + unat (from_le_bytes (frame_buf rd ! 0) (frame_buf rd ! 1))"
        unfolding next_with_def Let_def by (simp split: if_splits)
      with small have "length (frame_buf rd) \<le> 65536" by linarith
      with Pair None next_with_None_same [of dec rd rd'] show ?thesis
        by (simp add: drain_None pending_def MAX_FRAME_LEN_def)
    next
      case (Some y)
      with Pair 1 [of "Some y" rd'] show ?thesis by (simp add: drain_Some)
    qed
  qed
qed

end
