(* ===== verification/Enforcer_Protocol.thy ===== *)
theory Enforcer_Protocol
  imports Wire_Types Frame
begin

text \<open>
  The enforcer protocol of \<open>crates/tollgate-protocol/src/enforcer.rs\<close>: its messages, what an enforcer
  may be sent (\<open>Hello::check\<close>), and its codec, over the CBOR operations \<open>c\<close>. Unlike the peers' codec
  \<open>encode\<close> can refuse, and \<open>encode_frame\<close> then leaves what was in the buffer; both give the error, if
  any, and the buffer.
\<close>

definition E_PROTOCOL_VERSION :: u8 where
  "E_PROTOCOL_VERSION = 1"

definition MAX_BINDINGS :: nat where
  "MAX_BINDINGS = 8"

definition MAX_SUBJECT_LEN :: nat where
  "MAX_SUBJECT_LEN = 64"

subsection \<open>Messages\<close>

datatype EnforcerMsgType = ET_Hello | ET_Bind | ET_Set | ET_Remove | ET_Counters | ET_Conflict

fun e_msg_type_u8 :: "EnforcerMsgType \<Rightarrow> u8" where
  "e_msg_type_u8 ET_Hello = 0x20"
| "e_msg_type_u8 ET_Bind = 0x21"
| "e_msg_type_u8 ET_Set = 0x22"
| "e_msg_type_u8 ET_Remove = 0x23"
| "e_msg_type_u8 ET_Counters = 0x24"
| "e_msg_type_u8 ET_Conflict = 0x25"

definition e_msg_type_from_u8 :: "u8 \<Rightarrow> EnforcerMsgType option" where
  "e_msg_type_from_u8 v =
     (if v = 0x20 then Some ET_Hello
      else if v = 0x21 then Some ET_Bind
      else if v = 0x22 then Some ET_Set
      else if v = 0x23 then Some ET_Remove
      else if v = 0x24 then Some ET_Counters
      else if v = 0x25 then Some ET_Conflict
      else None)"

datatype Identity = IdPubkey | IdAddress

fun identity_str :: "Identity \<Rightarrow> string" where
  "identity_str IdPubkey = ''pubkey''"
| "identity_str IdAddress = ''address''"

definition identity_from_name :: "string \<Rightarrow> Identity option" where
  "identity_from_name name =
     (if name = ''pubkey'' then Some IdPubkey
      else if name = ''address'' then Some IdAddress
      else None)"

fun subject_len :: "Identity \<Rightarrow> nat" where
  "subject_len IdPubkey = 32"
| "subject_len IdAddress = 16"

datatype Subject = Subject (subject_bytes: "u8 list")

record Binding =
  bind_subject :: Subject
  bind_delegated :: bool

record Hello =
  hello_version :: u8
  hello_identity :: Identity
  hello_delegated :: bool
  hello_unit :: string

record Bind =
  bind_peer :: PubKey
  bind_bindings :: "Binding list"

record SetMsg =
  set_peer :: PubKey
  set_rate :: "u64 option"

record Remove =
  remove_peer :: PubKey

record CountersMsg =
  cnt_peer :: PubKey
  cnt_to_payer :: u64
  cnt_from_payer :: u64

record Conflict =
  conf_peer :: PubKey
  conf_subject :: Subject

datatype EnforcerMessage =
    EHello Hello
  | EBind Bind
  | ESet SetMsg
  | ERemove Remove
  | ECounters CountersMsg
  | EConflict Conflict

fun e_msg_type :: "EnforcerMessage \<Rightarrow> EnforcerMsgType" where
  "e_msg_type (EHello _) = ET_Hello"
| "e_msg_type (EBind _) = ET_Bind"
| "e_msg_type (ESet _) = ET_Set"
| "e_msg_type (ERemove _) = ET_Remove"
| "e_msg_type (ECounters _) = ET_Counters"
| "e_msg_type (EConflict _) = ET_Conflict"

datatype EnforcerError =
    EBadCbor
  | EUnknownType u8
  | EMissingType
  | EMissingField u8 u8
  | EBadLength u8 nat nat
  | EIndefiniteLength
  | UnknownIdentity string
  | SubjectLength nat
  | WrongSubjectLength Identity nat
  | DelegatedRefused
  | TooManyBindings nat
  | FrameTooLong nat

subsection \<open>Subjects\<close>

text \<open>An IP address by its octets: four, or sixteen.\<close>

datatype IpAddr = V4 "u8 list" | V6 "u8 list"

definition to_ipv6_mapped :: "u8 list \<Rightarrow> u8 list" where
  "to_ipv6_mapped v4 = replicate 10 0 @ [0xFF, 0xFF] @ v4"

definition subject_new :: "u8 list \<Rightarrow> EnforcerError + Subject" where
  "subject_new bytes =
     (if bytes = [] \<or> length bytes > MAX_SUBJECT_LEN then Inl (SubjectLength (length bytes))
      else Inr (Subject bytes))"

definition subject_pubkey :: "PubKey \<Rightarrow> Subject" where
  "subject_pubkey key = Subject (drop 1 (pubkey_bytes key))"

definition subject_address :: "IpAddr \<Rightarrow> Subject" where
  "subject_address addr =
     Subject (case addr of V4 v4 \<Rightarrow> to_ipv6_mapped v4 | V6 v6 \<Rightarrow> v6)"

definition hello_check :: "Hello \<Rightarrow> Binding \<Rightarrow> EnforcerError option" where
  "hello_check h binding =
     (if bind_delegated binding then
        (if \<not> hello_delegated h then Some DelegatedRefused else None)
      else let got = length (subject_bytes (bind_subject binding))
           in if got \<noteq> subject_len (hello_identity h)
              then Some (WrongSubjectLength (hello_identity h) got) else None)"

definition hello_accepts :: "Hello \<Rightarrow> Binding \<Rightarrow> bool" where
  "hello_accepts h binding = (hello_check h binding = None)"

subsection \<open>Encoding\<close>

definition e_encode :: "Cbor_Lib \<Rightarrow> EnforcerMessage \<Rightarrow> u8 list \<Rightarrow> EnforcerError option \<times> u8 list" where
  "e_encode c msg out =
     (let tag = e_msg_type_u8 (e_msg_type msg) in
     (case msg of
        EHello m \<Rightarrow> (None, out @
          enc_map c 5 @
          enc_u8 c 0 @ enc_u8 c tag @
          enc_u8 c 1 @ enc_u8 c (hello_version m) @
          enc_u8 c 2 @ enc_str c (identity_str (hello_identity m)) @
          enc_u8 c 3 @ enc_bool c (hello_delegated m) @
          enc_u8 c 4 @ enc_str c (hello_unit m))
      | EBind m \<Rightarrow>
          if length (bind_bindings m) > MAX_BINDINGS
          then (Some (TooManyBindings (length (bind_bindings m))), out)
          else (None, out @
            enc_map c 3 @
            enc_u8 c 0 @ enc_u8 c tag @
            enc_u8 c 1 @ enc_bytes c (pubkey_bytes (bind_peer m)) @
            enc_u8 c 2 @ enc_array c (of_nat (length (bind_bindings m))) @
              concat (map (\<lambda>b. enc_array c 2 @ enc_bytes c (subject_bytes (bind_subject b)) @
                enc_bool c (bind_delegated b)) (bind_bindings m)))
      | ESet m \<Rightarrow> (None, out @
          enc_map c 3 @
          enc_u8 c 0 @ enc_u8 c tag @
          enc_u8 c 1 @ enc_bytes c (pubkey_bytes (set_peer m)) @
          enc_u8 c 2 @ (case set_rate m of Some rate \<Rightarrow> enc_u64 c rate | None \<Rightarrow> enc_null c))
      | ERemove m \<Rightarrow> (None, out @
          enc_map c 2 @
          enc_u8 c 0 @ enc_u8 c tag @
          enc_u8 c 1 @ enc_bytes c (pubkey_bytes (remove_peer m)))
      | ECounters m \<Rightarrow> (None, out @
          enc_map c 4 @
          enc_u8 c 0 @ enc_u8 c tag @
          enc_u8 c 1 @ enc_bytes c (pubkey_bytes (cnt_peer m)) @
          enc_u8 c 2 @ enc_u64 c (cnt_to_payer m) @
          enc_u8 c 3 @ enc_u64 c (cnt_from_payer m))
      | EConflict m \<Rightarrow> (None, out @
          enc_map c 3 @
          enc_u8 c 0 @ enc_u8 c tag @
          enc_u8 c 1 @ enc_bytes c (pubkey_bytes (conf_peer m)) @
          enc_u8 c 2 @ enc_bytes c (subject_bytes (conf_subject m)))))"

definition e_encode_frame ::
  "Cbor_Lib \<Rightarrow> EnforcerMessage \<Rightarrow> u8 list \<Rightarrow> EnforcerError option \<times> u8 list" where
  "e_encode_frame c msg out =
     (let prefix_at = length out
      in case e_encode c msg (out @ [0, 0]) of
           (Some e, out') \<Rightarrow> (Some e, take prefix_at out')
         | (None, out') \<Rightarrow>
             (let len = length out' - prefix_at - 2
              in if len > MAX_FRAME_LEN then (Some (FrameTooLong len), take prefix_at out')
                 else (None, backfill prefix_at (to_le_bytes (of_nat len)) out')))"

subsection \<open>Decoding\<close>

type_synonym 'a e_codec = "(EnforcerError, 'a) decoder"

definition e_cbor :: "(u8 list \<Rightarrow> ('a \<times> u8 list) option) \<Rightarrow> 'a e_codec" where
  "e_cbor = lib EBadCbor"

definition e_skip :: "Cbor_Lib \<Rightarrow> 's \<Rightarrow> 's e_codec" where
  "e_skip = skip_value EBadCbor"

definition e_map_len :: "Cbor_Lib \<Rightarrow> u64 e_codec" where
  "e_map_len c = read_then (e_cbor (dec_map c))
     (\<lambda>n. case n of None \<Rightarrow> fail EIndefiniteLength | Some n \<Rightarrow> give n)"

definition e_array_len :: "Cbor_Lib \<Rightarrow> u64 e_codec" where
  "e_array_len c = read_then (e_cbor (dec_array c))
     (\<lambda>n. case n of None \<Rightarrow> fail EIndefiniteLength | Some n \<Rightarrow> give n)"

definition e_scan_type :: "Cbor_Lib \<Rightarrow> u8 e_codec" where
  "e_scan_type c = read_then (e_map_len c) (\<lambda>pairs. scan_pairs EBadCbor EMissingType c (unat pairs))"

definition e_peer :: "Cbor_Lib \<Rightarrow> PubKey e_codec" where
  "e_peer c = read_then (e_cbor (dec_bytes c)) (\<lambda>bytes.
     if length bytes = 33 then give (PubKey bytes) else fail (EBadLength 1 33 (length bytes)))"

definition e_subject :: "Cbor_Lib \<Rightarrow> Subject e_codec" where
  "e_subject c = read_then (e_cbor (dec_bytes c)) (\<lambda>bytes.
     case subject_new bytes of Inl e \<Rightarrow> fail e | Inr s \<Rightarrow> give s)"

definition required :: "'a option \<Rightarrow> EnforcerMsgType \<Rightarrow> u8 \<Rightarrow> ('a \<Rightarrow> 'b e_codec) \<Rightarrow> 'b e_codec" where
  "required v msg key f =
     (case v of Some v \<Rightarrow> f v | None \<Rightarrow> fail (EMissingField (e_msg_type_u8 msg) key))"

definition e_pairs_loop :: "Cbor_Lib \<Rightarrow> (u8 \<Rightarrow> 's \<Rightarrow> 's e_codec) \<Rightarrow> u64 \<Rightarrow> 's \<Rightarrow> 's e_codec" where
  "e_pairs_loop c field pairs = each_pair EBadCbor c field (unat pairs)"

definition read_identity :: "Cbor_Lib \<Rightarrow> Identity e_codec" where
  "read_identity c = read_then (e_cbor (dec_str c)) (\<lambda>name.
     case identity_from_name name of None \<Rightarrow> fail (UnknownIdentity name) | Some i \<Rightarrow> give i)"

definition hello_field ::
  "Cbor_Lib \<Rightarrow> u8 \<Rightarrow> u8 option \<times> Identity option \<times> bool option \<times> string option \<Rightarrow>
   (u8 option \<times> Identity option \<times> bool option \<times> string option) e_codec" where
  "hello_field c key = (\<lambda>(version, identity, delegated, unit).
     if key = 0 then e_skip c (version, identity, delegated, unit)
     else if key = 1 then store (e_cbor (dec_u8 c)) (\<lambda>v. (Some v, identity, delegated, unit))
     else if key = 2 then store (read_identity c) (\<lambda>i. (version, Some i, delegated, unit))
     else if key = 3 then store (e_cbor (dec_bool c)) (\<lambda>b. (version, identity, Some b, unit))
     else if key = 4 then store (e_cbor (dec_str c)) (\<lambda>s. (version, identity, delegated, Some s))
     else e_skip c (version, identity, delegated, unit))"

definition decode_hello :: "Cbor_Lib \<Rightarrow> u64 \<Rightarrow> Hello e_codec" where
  "decode_hello c pairs =
     read_then (e_pairs_loop c (hello_field c) pairs (None, None, None, None))
       (\<lambda>(version, identity, delegated, unit).
         required version ET_Hello 1 (\<lambda>version.
         required identity ET_Hello 2 (\<lambda>identity.
         required delegated ET_Hello 3 (\<lambda>delegated.
         required unit ET_Hello 4 (\<lambda>unit.
         give \<lparr>hello_version = version, hello_identity = identity, hello_delegated = delegated,
               hello_unit = unit\<rparr>)))))"

definition read_binding :: "Cbor_Lib \<Rightarrow> Binding e_codec" where
  "read_binding c =
     read_then (e_array_len c) (\<lambda>n.
       if n \<noteq> 2 then fail EBadCbor
       else read_then (e_subject c) (\<lambda>subject.
         store (e_cbor (dec_bool c)) (\<lambda>delegated.
           \<lparr>bind_subject = subject, bind_delegated = delegated\<rparr>)))"

definition read_bindings :: "Cbor_Lib \<Rightarrow> Binding list e_codec" where
  "read_bindings c =
     read_then (e_array_len c) (\<lambda>n.
       if n > of_nat MAX_BINDINGS then fail (TooManyBindings (unat n))
       else read_many (unat n) (read_binding c))"

definition bind_field ::
  "Cbor_Lib \<Rightarrow> u8 \<Rightarrow> PubKey option \<times> Binding list option \<Rightarrow>
   (PubKey option \<times> Binding list option) e_codec" where
  "bind_field c key = (\<lambda>(who, bindings).
     if key = 0 then e_skip c (who, bindings)
     else if key = 1 then store (e_peer c) (\<lambda>p. (Some p, bindings))
     else if key = 2 then store (read_bindings c) (\<lambda>l. (who, Some l))
     else e_skip c (who, bindings))"

definition decode_bind :: "Cbor_Lib \<Rightarrow> u64 \<Rightarrow> Bind e_codec" where
  "decode_bind c pairs =
     read_then (e_pairs_loop c (bind_field c) pairs (None, None)) (\<lambda>(who, bindings).
       required who ET_Bind 1 (\<lambda>who.
       required bindings ET_Bind 2 (\<lambda>bindings.
       give \<lparr>bind_peer = who, bind_bindings = bindings\<rparr>)))"

definition read_rate :: "Cbor_Lib \<Rightarrow> u64 option e_codec" where
  "read_rate c d =
     (case dec_is_null c d of
        None \<Rightarrow> Inl (Err EBadCbor)
      | Some True \<Rightarrow> (case dec_null c d of None \<Rightarrow> Inl (Err EBadCbor) | Some r \<Rightarrow> Inr (None, r))
      | Some False \<Rightarrow> store (e_cbor (dec_u64 c)) (\<lambda>v. Some v) d)"

definition set_field ::
  "Cbor_Lib \<Rightarrow> u8 \<Rightarrow> PubKey option \<times> u64 option option \<Rightarrow>
   (PubKey option \<times> u64 option option) e_codec" where
  "set_field c key = (\<lambda>(who, rate).
     if key = 0 then e_skip c (who, rate)
     else if key = 1 then store (e_peer c) (\<lambda>p. (Some p, rate))
     else if key = 2 then store (read_rate c) (\<lambda>r. (who, Some r))
     else e_skip c (who, rate))"

definition decode_set :: "Cbor_Lib \<Rightarrow> u64 \<Rightarrow> SetMsg e_codec" where
  "decode_set c pairs =
     read_then (e_pairs_loop c (set_field c) pairs (None, None)) (\<lambda>(who, rate).
       required who ET_Set 1 (\<lambda>who.
       required rate ET_Set 2 (\<lambda>rate.
       give \<lparr>set_peer = who, set_rate = rate\<rparr>)))"

definition remove_field :: "Cbor_Lib \<Rightarrow> u8 \<Rightarrow> PubKey option \<Rightarrow> PubKey option e_codec" where
  "remove_field c key who =
     (if key = 0 then e_skip c who
      else if key = 1 then store (e_peer c) (\<lambda>p. Some p)
      else e_skip c who)"

definition decode_remove :: "Cbor_Lib \<Rightarrow> u64 \<Rightarrow> Remove e_codec" where
  "decode_remove c pairs =
     read_then (e_pairs_loop c (remove_field c) pairs None) (\<lambda>who.
       required who ET_Remove 1 (\<lambda>who. give \<lparr>remove_peer = who\<rparr>))"

definition counters_field ::
  "Cbor_Lib \<Rightarrow> u8 \<Rightarrow> PubKey option \<times> u64 option \<times> u64 option \<Rightarrow>
   (PubKey option \<times> u64 option \<times> u64 option) e_codec" where
  "counters_field c key = (\<lambda>(who, to_payer, from_payer).
     if key = 0 then e_skip c (who, to_payer, from_payer)
     else if key = 1 then store (e_peer c) (\<lambda>p. (Some p, to_payer, from_payer))
     else if key = 2 then store (e_cbor (dec_u64 c)) (\<lambda>v. (who, Some v, from_payer))
     else if key = 3 then store (e_cbor (dec_u64 c)) (\<lambda>v. (who, to_payer, Some v))
     else e_skip c (who, to_payer, from_payer))"

definition decode_counters :: "Cbor_Lib \<Rightarrow> u64 \<Rightarrow> CountersMsg e_codec" where
  "decode_counters c pairs =
     read_then (e_pairs_loop c (counters_field c) pairs (None, None, None))
       (\<lambda>(who, to_payer, from_payer).
         required who ET_Counters 1 (\<lambda>who.
         required to_payer ET_Counters 2 (\<lambda>to_payer.
         required from_payer ET_Counters 3 (\<lambda>from_payer.
         give \<lparr>cnt_peer = who, cnt_to_payer = to_payer, cnt_from_payer = from_payer\<rparr>))))"

definition conflict_field ::
  "Cbor_Lib \<Rightarrow> u8 \<Rightarrow> PubKey option \<times> Subject option \<Rightarrow> (PubKey option \<times> Subject option) e_codec" where
  "conflict_field c key = (\<lambda>(who, refused).
     if key = 0 then e_skip c (who, refused)
     else if key = 1 then store (e_peer c) (\<lambda>p. (Some p, refused))
     else if key = 2 then store (e_subject c) (\<lambda>s. (who, Some s))
     else e_skip c (who, refused))"

definition decode_conflict :: "Cbor_Lib \<Rightarrow> u64 \<Rightarrow> Conflict e_codec" where
  "decode_conflict c pairs =
     read_then (e_pairs_loop c (conflict_field c) pairs (None, None)) (\<lambda>(who, refused).
       required who ET_Conflict 1 (\<lambda>who.
       required refused ET_Conflict 2 (\<lambda>refused.
       give \<lparr>conf_peer = who, conf_subject = refused\<rparr>)))"

definition e_decode_as :: "Cbor_Lib \<Rightarrow> EnforcerMsgType \<Rightarrow> u64 \<Rightarrow> EnforcerMessage e_codec" where
  "e_decode_as c ty pairs =
     (case ty of
        ET_Hello \<Rightarrow> store (decode_hello c pairs) EHello
      | ET_Bind \<Rightarrow> store (decode_bind c pairs) EBind
      | ET_Set \<Rightarrow> store (decode_set c pairs) ESet
      | ET_Remove \<Rightarrow> store (decode_remove c pairs) ERemove
      | ET_Counters \<Rightarrow> store (decode_counters c pairs) ECounters
      | ET_Conflict \<Rightarrow> store (decode_conflict c pairs) EConflict)"

definition e_decode :: "Cbor_Lib \<Rightarrow> u8 list \<Rightarrow> EnforcerError Failure + EnforcerMessage" where
  "e_decode c input =
     (case e_scan_type c input of
        Inl e \<Rightarrow> Inl e
      | Inr (tag, _) \<Rightarrow>
          (case e_msg_type_from_u8 tag of
             None \<Rightarrow> Inl (Err (EUnknownType tag))
           | Some ty \<Rightarrow>
               (case read_then (e_map_len c) (e_decode_as c ty) input of
                  Inl e \<Rightarrow> Inl e
                | Inr (msg, _) \<Rightarrow> Inr msg)))"

definition next_enforcer_message ::
  "Cbor_Lib \<Rightarrow> FrameReader \<Rightarrow> (EnforcerError Failure + EnforcerMessage) option \<times> FrameReader" where
  "next_enforcer_message c = next_with (e_decode c)"

end
