(* ===== verification/Wire.thy ===== *)
theory Wire
  imports Enforcer_Protocol
begin

text \<open>
  The control plane of \<open>crates/tollgate-net/src/wire.rs\<close>: what one TCP connection does with the bytes
  it reads and the messages it writes. A connection's input is the list of its reads, in order; the
  end of the list, or an empty read, is the peer's FIN. The node at the other end of the channel is
  taken to be listening, so a send to it succeeds, and a socket write succeeds.

  \<open>sha256\<close> stands for the hash of the \<open>sha2\<close> crate. A panic unwinds the connection's task: nothing
  after it happens, the \<open>PeerDown\<close> included.
\<close>

subsection \<open>Names of a key on the mesh\<close>

definition ADDRESS_PREFIX :: u8 where
  "ADDRESS_PREFIX = 0xFD"

definition fips_address :: "(u8 list \<Rightarrow> u8 list) \<Rightarrow> PubKey \<Rightarrow> u8 list" where
  "fips_address sha256 peer =
     (let node_addr = sha256 (drop 1 (pubkey_bytes peer)) in ADDRESS_PREFIX # take 15 node_addr)"

definition verify :: "(u8 list \<Rightarrow> u8 list) \<Rightarrow> Identity \<Rightarrow> PubKey \<Rightarrow> IpAddr \<Rightarrow> bool" where
  "verify sha256 identity peer addr =
     (case identity of
        IdAddress \<Rightarrow> True
      | IdPubkey \<Rightarrow>
          (case addr of V4 _ \<Rightarrow> False | V6 actual \<Rightarrow> actual = fips_address sha256 peer))"

subsection \<open>Reading\<close>

type_synonym connection = u64

datatype WireEvent =
    PeerUp PubKey connection IpAddr
  | WireMessage PubKey connection Message
  | PeerDown PubKey connection

datatype ReadEnd = ReadClosed | TooMuchBuffered | ReadPanicked

text \<open>
  The inner loop over the frames of one read: a message is passed on, a malformed one discarded. The
  second result tells whether a decoder panicked.
\<close>

fun deliver :: "(CodecError Failure + Message) list \<Rightarrow> Message list \<times> bool" where
  "deliver [] = ([], False)"
| "deliver (Inr msg # results) = (let (msgs, panicked) = deliver results in (msg # msgs, panicked))"
| "deliver (Inl (Err e) # results) = deliver results"
| "deliver (Inl Panic # results) = ([], True)"

fun read_loop :: "Cbor_Lib \<Rightarrow> FrameReader \<Rightarrow> u8 list list \<Rightarrow> Message list \<times> ReadEnd" where
  "read_loop c reader [] = ([], ReadClosed)"
| "read_loop c reader (buf # reads) =
     (if buf = [] then ([], ReadClosed)
      else let (results, reader) = drain (decode c) (fr_push buf reader);
               (msgs, panicked) = deliver results
           in if panicked then (msgs, ReadPanicked)
              else if pending reader > MAX_FRAME_LEN * 2 then (msgs, TooMuchBuffered)
              else let (more, ended) = read_loop c reader reads in (msgs @ more, ended))"

datatype AnnounceError =
    ClosedEarly
  | Undecodable CodecError
  | NotAnnounce MsgType
  | AnnouncePanicked

text \<open>The inner loop of \<open>read_announce\<close>: the first message has to be the Announce.\<close>

fun identify ::
  "(CodecError Failure + Message) list \<Rightarrow> PubKey option \<Rightarrow> Message list \<Rightarrow>
   AnnounceError + (PubKey option \<times> Message list)" where
  "identify [] peer waiting = Inr (peer, waiting)"
| "identify (Inl (Err e) # results) peer waiting = Inl (Undecodable e)"
| "identify (Inl Panic # results) peer waiting = Inl AnnouncePanicked"
| "identify (Inr msg # results) peer waiting =
     (case peer of
        Some p \<Rightarrow> identify results (Some p) (waiting @ [msg])
      | None \<Rightarrow>
          (case msg of
             MAnnounce a \<Rightarrow> identify results (Some (ann_pubkey a)) (waiting @ [msg])
           | _ \<Rightarrow> Inl (NotAnnounce (msg_type msg))))"

fun read_announce ::
  "Cbor_Lib \<Rightarrow> FrameReader \<Rightarrow> PubKey option \<Rightarrow> Message list \<Rightarrow> u8 list list \<Rightarrow>
   AnnounceError + (PubKey \<times> Message list \<times> FrameReader \<times> u8 list list)" where
  "read_announce c reader peer waiting [] = Inl ClosedEarly"
| "read_announce c reader peer waiting (buf # reads) =
     (if buf = [] then Inl ClosedEarly
      else let (results, reader) = drain (decode c) (fr_push buf reader)
           in case identify results peer waiting of
                Inl e \<Rightarrow> Inl e
              | Inr (Some p, waiting) \<Rightarrow> Inr (p, waiting, reader, reads)
              | Inr (None, waiting) \<Rightarrow> read_announce c reader None waiting reads)"

subsection \<open>A connection\<close>

text \<open>\<open>run\<close>: what the node hears, in order.\<close>

definition run_conn ::
  "(u8 list \<Rightarrow> u8 list) \<Rightarrow> Cbor_Lib \<Rightarrow> Identity \<Rightarrow> IpAddr \<Rightarrow> connection \<Rightarrow> PubKey \<Rightarrow> Message list \<Rightarrow>
   FrameReader \<Rightarrow> u8 list list \<Rightarrow> WireEvent list" where
  "run_conn sha256 c identity addr conn peer waiting reader reads =
     (if \<not> verify sha256 identity peer addr then []
      else let (msgs, ended) = read_loop c reader reads
           in PeerUp peer conn addr # map (WireMessage peer conn) waiting @
              map (WireMessage peer conn) msgs @
              (if ended = ReadPanicked then [] else [PeerDown peer conn]))"

definition accept_one ::
  "(u8 list \<Rightarrow> u8 list) \<Rightarrow> Cbor_Lib \<Rightarrow> Identity \<Rightarrow> IpAddr \<Rightarrow> connection \<Rightarrow> u8 list list \<Rightarrow> WireEvent list" where
  "accept_one sha256 c identity addr conn reads =
     (case read_announce c new_reader None [] reads of
        Inl e \<Rightarrow> []
      | Inr (peer, waiting, reader, reads) \<Rightarrow>
          run_conn sha256 c identity addr conn peer waiting reader reads)"

definition dial ::
  "(u8 list \<Rightarrow> u8 list) \<Rightarrow> Cbor_Lib \<Rightarrow> Identity \<Rightarrow> IpAddr \<Rightarrow> connection \<Rightarrow> PubKey \<Rightarrow> u8 list list \<Rightarrow> WireEvent list" where
  "dial sha256 c identity addr conn peer reads =
     run_conn sha256 c identity addr conn peer [] new_reader reads"

text \<open>The writer's task: each message of the outbox framed and written.\<close>

fun write_loop :: "bool \<Rightarrow> Cbor_Lib \<Rightarrow> Message list \<Rightarrow> u8 list" where
  "write_loop debug c [] = []"
| "write_loop debug c (msg # outbox) =
     (case encode_frame debug c msg [] of
        Inl Panic \<Rightarrow> []
      | Inl (Err e) \<Rightarrow> write_loop debug c outbox
      | Inr buf \<Rightarrow> buf @ write_loop debug c outbox)"

subsection \<open>What reaches the node\<close>

lemma deliver_map_Inr: "deliver (map Inr ms) = (ms, False)"
  by (induction ms) simp_all

lemma identify_map_Inr:
  "identify (map Inr ms) (Some p) waiting = Inr (Some p, waiting @ ms)"
  by (induction ms arbitrary: waiting) simp_all

lemma read_loop_never_overfull: "snd (read_loop c reader reads) \<noteq> TooMuchBuffered"
proof (induction reads arbitrary: reader)
  case (Cons buf reads)
  have "\<not> pending (snd (drain (decode c) (fr_push buf reader))) > MAX_FRAME_LEN * 2"
    using drain_bounded [of "decode c" "fr_push buf reader"] by (simp add: MAX_FRAME_LEN_def)
  with Cons [of "snd (drain (decode c) (fr_push buf reader))"] show ?case
    by (auto simp: Let_def split: prod.splits)
qed simp

lemma drain_pending: "drain dec (fr_push buf reader) = (xs, reader') \<Longrightarrow> \<not> pending reader' > MAX_FRAME_LEN * 2"
  using drain_bounded [of dec "fr_push buf reader"] by (simp add: MAX_FRAME_LEN_def)

lemma read_loop_feed:
  assumes "list_all (\<lambda>buf. buf \<noteq> []) reads" "fst (feed (decode c) reads reader) = map Inr ms"
  shows "read_loop c reader reads = (ms, ReadClosed)"
  using assms
proof (induction reads arbitrary: reader ms)
  case (Cons buf reads)
  obtain xs reader' where d: "drain (decode c) (fr_push buf reader) = (xs, reader')" by fastforce
  with Cons.prems(2) have "xs @ fst (feed (decode c) reads reader') = map Inr ms"
    by (simp add: Let_def split: prod.splits)
  then obtain ms1 ms2 where "xs = map Inr ms1" "fst (feed (decode c) reads reader') = map Inr ms2"
    "ms = ms1 @ ms2" by (metis append_eq_map_conv)
  with Cons d drain_pending [OF d] show ?case by (simp add: deliver_map_Inr)
qed simp

lemma read_announce_feed:
  assumes "list_all (\<lambda>buf. buf \<noteq> []) reads"
    and "fst (feed (decode c) reads reader) = map Inr (MAnnounce a # ms)"
  shows "\<exists>ms1 ms2 reader' reads'. ms = ms1 @ ms2 \<and>
    read_announce c reader None [] reads = Inr (ann_pubkey a, MAnnounce a # ms1, reader', reads') \<and>
    list_all (\<lambda>buf. buf \<noteq> []) reads' \<and> fst (feed (decode c) reads' reader') = map Inr ms2"
  using assms
proof (induction reads arbitrary: reader)
  case (Cons buf reads)
  obtain xs reader' where d: "drain (decode c) (fr_push buf reader) = (xs, reader')" by fastforce
  with Cons.prems(2) have split: "xs @ fst (feed (decode c) reads reader') = map Inr (MAnnounce a # ms)"
    by (simp add: Let_def split: prod.splits)
  show ?case
  proof (cases xs)
    case Nil
    with Cons d split show ?thesis by simp
  next
    case (Cons y ys)
    with split obtain ms1 ms2 where "xs = map Inr (MAnnounce a # ms1)" "ms = ms1 @ ms2"
      "fst (feed (decode c) reads reader') = map Inr ms2"
      by (auto simp: append_eq_map_conv)
    with Cons.prems(1) d show ?thesis by (simp add: identify_map_Inr)
  qed
qed simp


text \<open>What the writer writes is one frame after another.\<close>

lemma write_loop_framed:
  assumes "list_all (\<lambda>m. length (encode c m []) \<le> MAX_FRAME_LEN) ms"
  shows "write_loop debug c ms = concat (map (\<lambda>m. framed (encode c m [])) ms)"
  using assms by (induction ms) (simp_all add: encode_frame_framed)

lemma stream_read_back:
  assumes "cbor_lib c" "list_all (wf_message c) ms"
    and "list_all (\<lambda>m. length (encode c m []) \<le> MAX_FRAME_LEN) ms"
  shows "drain (decode c) \<lparr>frame_buf = write_loop debug c ms\<rparr> = (map Inr ms, \<lparr>frame_buf = []\<rparr>)"
proof -
  have "decode c (encode c m []) = Inr m" if "m \<in> set ms" for m
    using that assms(2) cbor_lib.decode_carried [OF assms(1) _ carries_own]
    by (simp add: encode_fields list_all_iff)
  moreover have "write_loop debug c ms = concat (map framed (map (\<lambda>m. encode c m []) ms)) @ []"
    using assms(3) by (simp add: write_loop_framed comp_def)
  moreover have "list_all (\<lambda>p. length p \<le> MAX_FRAME_LEN) (map (\<lambda>m. encode c m []) ms)"
    using assms(3) by (simp add: list.pred_map comp_def)
  ultimately show ?thesis
    using drain_framed [of "map (\<lambda>m. encode c m []) ms" "[]" "decode c"] by (simp add: comp_def)
qed

lemma accept_one_hears:
  assumes "list_all (\<lambda>buf. buf \<noteq> []) reads"
    and "fst (feed (decode c) reads new_reader) = map Inr (MAnnounce a # ms)"
    and "verify sha256 identity (ann_pubkey a) addr"
  shows "accept_one sha256 c identity addr conn reads =
    PeerUp (ann_pubkey a) conn addr #
    map (WireMessage (ann_pubkey a) conn) (MAnnounce a # ms) @ [PeerDown (ann_pubkey a) conn]"
proof -
  from read_announce_feed [OF assms(1,2)] obtain ms1 ms2 reader' reads' where
    ra: "read_announce c new_reader None [] reads = Inr (ann_pubkey a, MAnnounce a # ms1, reader', reads')"
    and "list_all (\<lambda>buf. buf \<noteq> []) reads'" "fst (feed (decode c) reads' reader') = map Inr ms2"
    and ms: "ms = ms1 @ ms2"
    by blast
  then have "read_loop c reader' reads' = (ms2, ReadClosed)" by (blast intro: read_loop_feed)
  with ra ms assms(3) show ?thesis by (simp add: accept_one_def run_conn_def)
qed

subsection \<open>Properties\<close>

text \<open>C12: From one node's outbox to the other node's event queue. Messages that begin with an Announce,
  each within the frame cap, written by the writer and cut by the network into reads in any way, are
  heard by the accepting node exactly once each, in order, between the peer's coming up and its going
  down; unless its address does not name its key, when nothing is heard.
\<close>

theorem messages_heard_in_order:
  assumes "cbor_lib c" "list_all (wf_message c) (MAnnounce a # ms)"
    and "list_all (\<lambda>m. length (encode c m []) \<le> MAX_FRAME_LEN) (MAnnounce a # ms)"
    and "concat reads = write_loop debug c (MAnnounce a # ms)" "list_all (\<lambda>buf. buf \<noteq> []) reads"
  shows "accept_one sha256 c identity addr conn reads =
    (if verify sha256 identity (ann_pubkey a) addr
     then PeerUp (ann_pubkey a) conn addr #
       map (WireMessage (ann_pubkey a) conn) (MAnnounce a # ms) @ [PeerDown (ann_pubkey a) conn]
     else [])"
proof -
  have "feed (decode c) reads new_reader = (map Inr (MAnnounce a # ms), \<lparr>frame_buf = []\<rparr>)"
  proof (cases "reads = []")
    case True
    with assms(3,4) show ?thesis by (simp add: encode_frame_framed framed_def to_le_bytes_def)
  next
    case False
    with stream_read_back [OF assms(1-3), of debug] assms(4) show ?thesis
      by (simp add: feed_drain fr_push_def new_reader_def)
  qed
  then have heard: "fst (feed (decode c) reads new_reader) = map Inr (MAnnounce a # ms)" by simp
  show ?thesis
  proof (cases "verify sha256 identity (ann_pubkey a) addr")
    case True
    with accept_one_hears [OF assms(5) heard] show ?thesis by simp
  next
    case False
    with read_announce_feed [OF assms(5) heard] show ?thesis by (auto simp: accept_one_def run_conn_def)
  qed
qed

definition sample_announce :: Announce where
  "sample_announce =
     \<lparr>ann_version = 1, ann_pubkey = PubKey (replicate 33 2), ann_unit = ''byte'', ann_capabilities = 0\<rparr>"

definition sample_messages :: "Message list" where
  "sample_messages = [MAnnounce sample_announce, sample_ack]"

text \<open>The stream cut one byte at a time.\<close>

definition sample_reads :: "u8 list list" where
  "sample_reads = map (\<lambda>b. [b]) (write_loop False rfc8949 sample_messages)"

theorem messages_heard_in_order_witness:
  "accept_one (\<lambda>_. []) rfc8949 IdAddress (V4 [10, 0, 0, 7]) 5 sample_reads =
     PeerUp (PubKey (replicate 33 2)) 5 (V4 [10, 0, 0, 7]) #
     map (WireMessage (PubKey (replicate 33 2)) 5) sample_messages @ [PeerDown (PubKey (replicate 33 2)) 5]"
proof -
  have wf: "list_all (wf_message rfc8949) sample_messages"
    by (simp add: sample_messages_def sample_announce_def sample_ack_def wf_defs fits_u64_def
        rfc8949_def ascii_def)
  have len: "list_all (\<lambda>m. length (encode rfc8949 m []) \<le> MAX_FRAME_LEN) sample_messages"
    by (simp add: sample_messages_def sample_announce_def sample_ack_def encode_def rfc8949_def
        head_def MAX_FRAME_LEN_def)
  have reads: "concat sample_reads = write_loop False rfc8949 sample_messages"
    "list_all (\<lambda>buf. buf \<noteq> []) sample_reads"
    by (simp_all add: sample_reads_def list.pred_map comp_def list_all_iff)
  from messages_heard_in_order [OF rfc.cbor_lib_axioms, of sample_announce "[sample_ack]"
      sample_reads False "\<lambda>_. []" IdAddress "V4 [10, 0, 0, 7]" 5] wf len reads
  show ?thesis by (simp add: sample_messages_def verify_def sample_announce_def)
qed


text \<open>An Offer that announces a mint list of \<open>n\<close> entries and stops there.\<close>

definition mint_list_bomb :: "Cbor_Lib \<Rightarrow> u64 \<Rightarrow> u8 list" where
  "mint_list_bomb c n =
     framed (enc_map c 2 @ enc_u8 c 0 @ enc_u8 c (msg_type_u8 MT_Offer) @ enc_u8 c 1 @ enc_array c n)"

lemma mint_list_bomb_panics:
  assumes "cbor_lib c" "2 ^ 59 \<le> n"
  shows "read_loop c new_reader (mint_list_bomb c n # reads) = ([], ReadPanicked)"
proof -
  let ?p = "enc_map c 2 @ enc_u8 c 0 @ enc_u8 c (msg_type_u8 MT_Offer) @ enc_u8 c 1 @ enc_array c n"
  have "2 ^ 59 \<le> unat n" using assms(2) by (simp add: word_le_nat_alt)
  then have "2 ^ 63 \<le> unat n * STRING_SIZE" by (simp add: STRING_SIZE_def)
  from cbor_lib.decode_huge_mint_list [OF assms(1) this, of "[]"] have panic: "decode c ?p = Inl Panic"
    by simp
  have "length ?p \<le> MAX_FRAME_LEN"
    using cbor_lib.len_map [OF assms(1), of 2] cbor_lib.len_array [OF assms(1), of n]
      cbor_lib.len_u8 [OF assms(1), of 0] cbor_lib.len_u8 [OF assms(1), of 1]
    by (simp add: MAX_FRAME_LEN_def)
  with drain_framed [of "[?p]" "[]" "decode c"] panic
  have "drain (decode c) (fr_push (mint_list_bomb c n) new_reader) = ([Inl Panic], \<lparr>frame_buf = []\<rparr>)"
    by (simp add: mint_list_bomb_def fr_push_def new_reader_def)
  moreover have "mint_list_bomb c n \<noteq> []" by (simp add: mint_list_bomb_def framed_def to_le_bytes_def)
  ultimately show ?thesis by simp
qed

text \<open>C40: A frame of a few bytes ends a connection without the node hearing of it. An Offer that announces
  \<open>2^59\<close> mints or more makes \<open>decode_offer\<close> reserve room for them before it reads one, which panics;
  the task that reads the connection unwinds, so nothing after it is delivered and no \<open>PeerDown\<close>
  follows the \<open>PeerUp\<close>.
\<close>

theorem mint_list_bomb_hides_disconnect:
  assumes "cbor_lib c" "2 ^ 59 \<le> n" "verify sha256 identity peer addr"
  shows "run_conn sha256 c identity addr conn peer waiting new_reader (mint_list_bomb c n # reads) =
    PeerUp peer conn addr # map (WireMessage peer conn) waiting"
  using assms mint_list_bomb_panics [OF assms(1,2), of reads] by (simp add: run_conn_def)

theorem mint_list_bomb_hides_disconnect_witness:
  "run_conn (\<lambda>_. []) rfc8949 IdAddress (V4 [10, 0, 0, 7]) 5 (PubKey (replicate 33 2)) [] new_reader
     [mint_list_bomb rfc8949 (2 ^ 60)] = [PeerUp (PubKey (replicate 33 2)) 5 (V4 [10, 0, 0, 7])]"
  using mint_list_bomb_hides_disconnect [OF rfc.cbor_lib_axioms, of "2 ^ 60" "\<lambda>_. []" IdAddress
      "PubKey (replicate 33 2)" "V4 [10, 0, 0, 7]" 5 "[]" "[]"]
  by (simp add: verify_def)

text \<open>A message longer than a frame can hold breaks the stream. A build with debug assertions panics on
  it; any other writes its length modulo 65536 before it, so the reader takes part of the message for
  the whole of it and what is left of it for the next frame.
\<close>

lemma oversized_frame_desyncs:
  assumes "length (encode c m []) > MAX_FRAME_LEN"
  shows "encode_frame True c m out = Inl Panic \<and>
    (\<exists>f. encode_frame False c m out = Inr (out @ f) \<and>
      (\<forall>r. length (frame_buf (snd (next_message c \<lparr>frame_buf = f @ r\<rparr>))) > length r))"
proof -
  let ?p = "encode c m []"
  have "encode c m (out @ [0, 0]) = out @ [0, 0] @ ?p" by (simp add: encode_def)
  with assms have "encode_frame True c m out = Inl Panic" by (simp add: encode_frame_def Let_def)
  moreover have "encode_frame False c m out = Inr (out @ framed ?p)" by (simp add: encode_frame_framed)
  moreover have "length ?p mod 65536 < length ?p"
    using assms mod_less_divisor [of 65536 "length ?p"] unfolding MAX_FRAME_LEN_def by linarith
  then have "length (frame_buf (snd (next_message c \<lparr>frame_buf = framed ?p @ r\<rparr>))) > length r" for r
    by (simp add: next_message_def next_with_framed)
  ultimately show ?thesis by blast
qed

definition sample_oversized :: Message where
  "sample_oversized = MAccept \<lparr>acc_funding = replicate 65536 0\<rparr>"

lemma oversized_frame_desyncs_witness:
  "encode_frame True rfc8949 sample_oversized [] = Inl Panic \<and>
    (\<exists>f. encode_frame False rfc8949 sample_oversized [] = Inr ([] @ f) \<and>
      (\<forall>r. length (frame_buf (snd (next_message rfc8949 \<lparr>frame_buf = f @ r\<rparr>))) > length r))"
  by (rule oversized_frame_desyncs)
    (simp add: sample_oversized_def encode_def rfc8949_def MAX_FRAME_LEN_def)

end
