(* ===== verification/Enforcer_Roundtrip.thy ===== *)
theory Enforcer_Roundtrip
  imports Enforcer_Protocol
begin

text \<open>
  Correctness of the enforcer codec: what \<open>e_encode_frame\<close> writes is read back by the socket's
  reader, and a message it refuses leaves the buffer as it was. The steps follow the peers' codec,
  over the same lemmas on maps of fields.
\<close>

definition binding_item :: "Cbor_Lib \<Rightarrow> Binding \<Rightarrow> u8 list" where
  "binding_item c b = enc_array c 2 @ enc_bytes c (subject_bytes (bind_subject b)) @
     enc_bool c (bind_delegated b)"

definition e_payload :: "Cbor_Lib \<Rightarrow> EnforcerMessage \<Rightarrow> (u8 \<times> u8 list) list" where
  "e_payload c msg =
     (case msg of
        EHello m \<Rightarrow>
          [(1, enc_u8 c (hello_version m)), (2, enc_str c (identity_str (hello_identity m))),
           (3, enc_bool c (hello_delegated m)), (4, enc_str c (hello_unit m))]
      | EBind m \<Rightarrow>
          [(1, enc_bytes c (pubkey_bytes (bind_peer m))),
           (2, enc_array c (of_nat (length (bind_bindings m))) @
              concat (map (binding_item c) (bind_bindings m)))]
      | ESet m \<Rightarrow>
          [(1, enc_bytes c (pubkey_bytes (set_peer m))),
           (2, case set_rate m of Some rate \<Rightarrow> enc_u64 c rate | None \<Rightarrow> enc_null c)]
      | ERemove m \<Rightarrow> [(1, enc_bytes c (pubkey_bytes (remove_peer m)))]
      | ECounters m \<Rightarrow>
          [(1, enc_bytes c (pubkey_bytes (cnt_peer m))), (2, enc_u64 c (cnt_to_payer m)),
           (3, enc_u64 c (cnt_from_payer m))]
      | EConflict m \<Rightarrow>
          [(1, enc_bytes c (pubkey_bytes (conf_peer m))),
           (2, enc_bytes c (subject_bytes (conf_subject m)))])"

definition e_fields :: "Cbor_Lib \<Rightarrow> EnforcerMessage \<Rightarrow> (u8 \<times> u8 list) list" where
  "e_fields c m = (0, enc_u8 c (e_msg_type_u8 (e_msg_type m))) # e_payload c m"

fun bindings_of :: "EnforcerMessage \<Rightarrow> Binding list" where
  "bindings_of (EBind m) = bind_bindings m"
| "bindings_of _ = []"

lemma e_encode_fields:
  "e_encode c m out =
     (if length (bindings_of m) > MAX_BINDINGS then (Some (TooManyBindings (length (bindings_of m))), out)
      else (None, out @ enc_map c (of_nat (length (e_fields c m))) @ put_fields c (e_fields c m)))"
  by (cases m) (auto simp: e_encode_def e_fields_def e_payload_def binding_item_def [abs_def])

text \<open>What the types guarantee: the width of a key, the length of a subject, valid text.\<close>

definition wf_subject :: "Subject \<Rightarrow> bool" where
  "wf_subject s = (subject_bytes s \<noteq> [] \<and> length (subject_bytes s) \<le> MAX_SUBJECT_LEN)"

fun wf_enforcer :: "Cbor_Lib \<Rightarrow> EnforcerMessage \<Rightarrow> bool" where
  "wf_enforcer c (EHello m) = wf_text c (hello_unit m)"
| "wf_enforcer c (EBind m) = (wf_pubkey (bind_peer m) \<and>
     list_all (\<lambda>b. wf_subject (bind_subject b)) (bind_bindings m))"
| "wf_enforcer c (ESet m) = wf_pubkey (set_peer m)"
| "wf_enforcer c (ERemove m) = wf_pubkey (remove_peer m)"
| "wf_enforcer c (ECounters m) = wf_pubkey (cnt_peer m)"
| "wf_enforcer c (EConflict m) = (wf_pubkey (conf_peer m) \<and> wf_subject (conf_subject m))"

lemma subject_new_wf: "subject_new bs = Inr s \<longleftrightarrow> s = Subject bs \<and> wf_subject s"
  by (auto simp: subject_new_def wf_subject_def)

lemma subject_pubkey_wf: "wf_pubkey k \<Longrightarrow> wf_subject (subject_pubkey k)"
  by (auto simp: wf_subject_def subject_pubkey_def wf_pubkey_def MAX_SUBJECT_LEN_def)

lemma e_msg_type_roundtrip [simp]: "e_msg_type_from_u8 (e_msg_type_u8 t) = Some t"
  by (cases t) (simp_all add: e_msg_type_from_u8_def)

lemma identity_roundtrip [simp]: "identity_from_name (identity_str i) = Some i"
  by (cases i) (simp_all add: identity_from_name_def)

lemma identity_str_ascii: "ascii (identity_str i)" "fits_u64 (identity_str i)"
  by (cases i; simp add: ascii_def fits_u64_def)+

lemma length_e_fields: "fits_u64 (e_fields c m)"
  by (cases m) (simp_all add: e_fields_def e_payload_def fits_u64_def)

lemmas e_codec_defs = decoder_defs e_cbor_def e_skip_def required_def e_pairs_loop_def

lemmas e_slot_simps = read_then_def give_def required_def e_fields_def e_payload_def fold_map_prod
  fill_def

context cbor_lib
begin

lemma e_map_len_back: "e_map_len c (enc_map c n @ d) = Inr (n, d)"
  by (simp add: e_map_len_def e_codec_defs map_back)

lemma e_array_len_back: "e_array_len c (enc_array c n @ d) = Inr (n, d)"
  by (simp add: e_array_len_def e_codec_defs array_back)

lemma e_peer_back: "wf_pubkey p \<Longrightarrow> e_peer c (enc_bytes c (pubkey_bytes p) @ r) = Inr (p, r)"
  by (simp add: e_peer_def e_codec_defs bytes_back fits_short wf_pubkey_def)

lemma e_subject_back: "wf_subject s \<Longrightarrow> e_subject c (enc_bytes c (subject_bytes s) @ r) = Inr (s, r)"
  by (simp add: e_subject_def e_codec_defs bytes_back fits_u64_def wf_subject_def subject_new_def
      MAX_SUBJECT_LEN_def)

lemma read_identity_back: "read_identity c (enc_str c (identity_str i) @ r) = Inr (i, r)"
  by (simp add: read_identity_def e_codec_defs str_back ascii_utf8 identity_str_ascii)

lemma read_rate_back:
  "read_rate c ((case rate of Some v \<Rightarrow> enc_u64 c v | None \<Rightarrow> enc_null c) @ r) = Inr (rate, r)"
  by (cases rate) (simp_all add: read_rate_def e_codec_defs backs)

lemma read_binding_back: "wf_subject (bind_subject b) \<Longrightarrow> read_binding c (binding_item c b @ r) = Inr (b, r)"
  by (simp add: read_binding_def binding_item_def read_then_def store_def give_def e_array_len_back
      e_subject_back e_cbor_def lib_def bool_back)

lemma read_bindings_back:
  assumes "list_all (\<lambda>b. wf_subject (bind_subject b)) xs" "length xs \<le> MAX_BINDINGS"
  shows "read_bindings c (enc_array c (of_nat (length xs)) @ concat (map (binding_item c) xs) @ r) = Inr (xs, r)"
proof -
  have n: "unat (of_nat (length xs) :: u64) = length xs"
    using assms(2) by (simp add: MAX_BINDINGS_def unat_length fits_u64_def)
  then have "\<not> (of_nat (length xs) :: u64) > of_nat MAX_BINDINGS"
    using assms(2) by (simp add: word_less_nat_alt MAX_BINDINGS_def)
  moreover have "read_many (length xs) (read_binding c) (concat (map (binding_item c) xs) @ r) = Inr (xs, r)"
    using assms(1) by (intro read_many_back) (auto simp: read_binding_back list_all_iff)
  ultimately show ?thesis by (simp add: read_bindings_def read_then_def e_array_len_back n)
qed

lemmas e_field_simps = e_codec_defs e_fields_def e_payload_def fill_def backs wf_text_def
  skip_u8 [unfolded skippable_def] e_peer_back e_subject_back read_identity_back read_rate_back

lemma e_fields_loop:
  assumes "\<And>k v s r. (k, v) \<in> set (e_fields c m) \<Longrightarrow> field k s (v @ r) = Inr (act k s, r)"
  shows "e_pairs_loop c field (of_nat (length (e_fields c m))) s (put_fields c (e_fields c m)) =
    Inr (fold (\<lambda>f. act (fst f)) (e_fields c m) s, [])"
  using each_pair_back [of "e_fields c m" field act EBadCbor s "[]"] assms
  by (simp add: e_pairs_loop_def unat_length length_e_fields)

lemma hello_back:
  assumes "wf_enforcer c (EHello m)"
  shows "decode_hello c (of_nat (length (e_fields c (EHello m)))) (put_fields c (e_fields c (EHello m))) = Inr (m, [])"
proof -
  let ?act = "\<lambda>k. map_prod (fill 1 (hello_version m) k) (map_prod (fill 2 (hello_identity m) k)
    (map_prod (fill 3 (hello_delegated m) k) (fill 4 (hello_unit m) k)))"
  have "hello_field c k s (v @ r) = Inr (?act k s, r)" if "(k, v) \<in> set (e_fields c (EHello m))" for k v s r
    using that assms by (cases s) (auto simp: hello_field_def e_field_simps)
  from e_fields_loop [where m = "EHello m" and act = ?act and s = "(None, None, None, None)", OF this] show ?thesis
    by (simp add: decode_hello_def e_slot_simps)
qed

lemma bind_back:
  assumes "wf_enforcer c (EBind m)" "length (bind_bindings m) \<le> MAX_BINDINGS"
  shows "decode_bind c (of_nat (length (e_fields c (EBind m)))) (put_fields c (e_fields c (EBind m))) = Inr (m, [])"
proof -
  let ?act = "\<lambda>k. map_prod (fill 1 (bind_peer m) k) (fill 2 (bind_bindings m) k)"
  have "bind_field c k s (v @ r) = Inr (?act k s, r)" if "(k, v) \<in> set (e_fields c (EBind m))" for k v s r
    using that assms by (cases s) (auto simp: bind_field_def e_field_simps read_bindings_back)
  from e_fields_loop [where m = "EBind m" and act = ?act and s = "(None, None)", OF this] show ?thesis
    by (simp add: decode_bind_def e_slot_simps)
qed

lemma set_back:
  assumes "wf_enforcer c (ESet m)"
  shows "decode_set c (of_nat (length (e_fields c (ESet m)))) (put_fields c (e_fields c (ESet m))) = Inr (m, [])"
proof -
  let ?act = "\<lambda>k. map_prod (fill 1 (set_peer m) k) (fill 2 (set_rate m) k)"
  have "set_field c k s (v @ r) = Inr (?act k s, r)" if "(k, v) \<in> set (e_fields c (ESet m))" for k v s r
    using that assms by (cases s) (auto simp: set_field_def e_field_simps)
  from e_fields_loop [where m = "ESet m" and act = ?act and s = "(None, None)", OF this] show ?thesis
    by (simp add: decode_set_def e_slot_simps)
qed

lemma remove_back:
  assumes "wf_enforcer c (ERemove m)"
  shows "decode_remove c (of_nat (length (e_fields c (ERemove m)))) (put_fields c (e_fields c (ERemove m))) = Inr (m, [])"
proof -
  let ?act = "\<lambda>k. fill 1 (remove_peer m) k"
  have "remove_field c k s (v @ r) = Inr (?act k s, r)" if "(k, v) \<in> set (e_fields c (ERemove m))" for k v s r
    using that assms by (cases s) (auto simp: remove_field_def e_field_simps)
  from e_fields_loop [where m = "ERemove m" and act = ?act and s = "None", OF this] show ?thesis
    by (simp add: decode_remove_def e_slot_simps)
qed

lemma counters_back:
  assumes "wf_enforcer c (ECounters m)"
  shows "decode_counters c (of_nat (length (e_fields c (ECounters m)))) (put_fields c (e_fields c (ECounters m))) = Inr (m, [])"
proof -
  let ?act = "\<lambda>k. map_prod (fill 1 (cnt_peer m) k) (map_prod (fill 2 (cnt_to_payer m) k)
    (fill 3 (cnt_from_payer m) k))"
  have "counters_field c k s (v @ r) = Inr (?act k s, r)" if "(k, v) \<in> set (e_fields c (ECounters m))" for k v s r
    using that assms by (cases s) (auto simp: counters_field_def e_field_simps)
  from e_fields_loop [where m = "ECounters m" and act = ?act and s = "(None, None, None)", OF this] show ?thesis
    by (simp add: decode_counters_def e_slot_simps)
qed

lemma conflict_back:
  assumes "wf_enforcer c (EConflict m)"
  shows "decode_conflict c (of_nat (length (e_fields c (EConflict m)))) (put_fields c (e_fields c (EConflict m))) = Inr (m, [])"
proof -
  let ?act = "\<lambda>k. map_prod (fill 1 (conf_peer m) k) (fill 2 (conf_subject m) k)"
  have "conflict_field c k s (v @ r) = Inr (?act k s, r)" if "(k, v) \<in> set (e_fields c (EConflict m))" for k v s r
    using that assms by (cases s) (auto simp: conflict_field_def e_field_simps)
  from e_fields_loop [where m = "EConflict m" and act = ?act and s = "(None, None)", OF this] show ?thesis
    by (simp add: decode_conflict_def e_slot_simps)
qed

lemma binding_item_skippable: "wf_subject (bind_subject b) \<Longrightarrow> skippable c (binding_item c b)"
  using skip_array [of "[enc_bytes c (subject_bytes (bind_subject b)), enc_bool c (bind_delegated b)]"]
  by (simp add: binding_item_def skips fits_u64_def wf_subject_def MAX_SUBJECT_LEN_def)

lemma e_payload_skippable:
  assumes "wf_enforcer c m" "length (bindings_of m) \<le> MAX_BINDINGS" "(k, v) \<in> set (e_payload c m)"
  shows "k \<noteq> 0 \<and> skippable c v"
proof (cases m)
  case (EBind x)
  with assms have "fits_u64 (bind_bindings x)" by (simp add: fits_u64_def MAX_BINDINGS_def)
  with EBind assms show ?thesis
    by (auto simp: e_payload_def skips fits_short wf_pubkey_def list_all_iff
        intro!: array_skippable binding_item_skippable)
next
  case (ESet x)
  with assms show ?thesis
    by (cases "set_rate x") (auto simp: e_payload_def skips fits_short wf_pubkey_def)
next
  case (EHello x)
  with assms show ?thesis
    by (auto simp: e_payload_def skips wf_text_def ascii_utf8 identity_str_ascii)
qed (use assms in \<open>auto simp: e_payload_def skips fits_short fits_u64_def wf_pubkey_def wf_subject_def
    MAX_SUBJECT_LEN_def\<close>)

lemma e_scan_type_back:
  assumes "wf_enforcer c m" "length (bindings_of m) \<le> MAX_BINDINGS"
  shows "\<exists>r. e_scan_type c (enc_map c (of_nat (length (e_fields c m))) @ put_fields c (e_fields c m)) =
    Inr (e_msg_type_u8 (e_msg_type m), r)"
proof -
  let ?tag = "e_msg_type_u8 (e_msg_type m)"
  have "(k = 0 \<longrightarrow> v = enc_u8 c ?tag) \<and> skippable c v" if "(k, v) \<in> set (e_fields c m)" for k v
    using that e_payload_skippable [OF assms] skip_u8 by (auto simp: e_fields_def)
  then have "list_all (\<lambda>(k, v). (k = 0 \<longrightarrow> v = enc_u8 c ?tag) \<and> skippable c v) (e_fields c m)"
    unfolding list_all_iff by blast
  moreover have "(0, enc_u8 c ?tag) \<in> set (e_fields c m)" by (simp add: e_fields_def)
  ultimately obtain r where
    "scan_pairs EBadCbor EMissingType c (length (e_fields c m)) (put_fields c (e_fields c m) @ []) = Inr (?tag, r)"
    by (blast dest: scan_pairs_back)
  then show ?thesis
    by (simp add: e_scan_type_def read_then_def e_map_len_back unat_length length_e_fields)
qed

lemmas e_backs = hello_back bind_back set_back remove_back counters_back conflict_back

lemma e_decode_back:
  assumes "wf_enforcer c m" "length (bindings_of m) \<le> MAX_BINDINGS"
  shows "e_decode c (enc_map c (of_nat (length (e_fields c m))) @ put_fields c (e_fields c m)) = Inr m"
proof -
  have "e_decode_as c (e_msg_type m) (of_nat (length (e_fields c m))) (put_fields c (e_fields c m)) =
      Inr (m, [])"
    using assms by (cases m) (simp_all add: e_decode_as_def store_def read_then_def give_def e_backs)
  with e_scan_type_back [OF assms] show ?thesis
    by (auto simp: e_decode_def read_then_def e_map_len_back)
qed

text \<open>Every message but a Hello is under a kibibyte.\<close>

lemma binding_item_length: "wf_subject (bind_subject b) \<Longrightarrow> length (binding_item c b) \<le> 83"
  using lens(5) [of "subject_bytes (bind_subject b)"] lens(2) [of 2] lens(6) [of "bind_delegated b"]
  by (simp add: binding_item_def wf_subject_def MAX_SUBJECT_LEN_def)

lemma bindings_length:
  "list_all (\<lambda>b. wf_subject (bind_subject b)) xs \<Longrightarrow>
     length (concat (map (binding_item c) xs)) \<le> 83 * length xs"
proof (induction xs)
  case (Cons b xs)
  then show ?case using binding_item_length [of b] by simp
qed simp

lemma bytes_length: "length bs \<le> n \<Longrightarrow> length (enc_bytes c bs) \<le> 9 + n"
  using len_bytes [of bs] by linarith

lemma payload_length:
  assumes "wf_enforcer c m" "length (bindings_of m) \<le> MAX_BINDINGS" "\<And>h. m \<noteq> EHello h"
  shows "length (put_fields c (e_payload c m)) \<le> 1000"
proof (cases m)
  case (EBind x)
  with assms bindings_length [of "bind_bindings x"] show ?thesis
    using len_u8 [of 1] len_u8 [of 2] len_array [of "of_nat (length (bind_bindings x))"]
      bytes_length [of "pubkey_bytes (bind_peer x)" 33]
    by (simp add: e_payload_def wf_pubkey_def MAX_BINDINGS_def)
next
  case (ESet x)
  with assms show ?thesis
    using len_u8 [of 1] len_u8 [of 2] len_u64 [of "the (set_rate x)"] len_null
      bytes_length [of "pubkey_bytes (set_peer x)" 33]
    by (cases "set_rate x") (simp_all add: e_payload_def wf_pubkey_def)
next
  case (ERemove x)
  with assms show ?thesis
    using len_u8 [of 1] bytes_length [of "pubkey_bytes (remove_peer x)" 33]
    by (simp add: e_payload_def wf_pubkey_def)
next
  case (ECounters x)
  with assms show ?thesis
    using len_u8 [of 1] len_u8 [of 2] len_u8 [of 3] len_u64 [of "cnt_to_payer x"]
      len_u64 [of "cnt_from_payer x"] bytes_length [of "pubkey_bytes (cnt_peer x)" 33]
    by (simp add: e_payload_def wf_pubkey_def)
next
  case (EConflict x)
  with assms show ?thesis
    using len_u8 [of 1] len_u8 [of 2] bytes_length [of "pubkey_bytes (conf_peer x)" 33]
      bytes_length [of "subject_bytes (conf_subject x)" 64]
    by (simp add: e_payload_def wf_pubkey_def wf_subject_def MAX_SUBJECT_LEN_def)
qed (use assms(3) in blast)

lemma message_length:
  assumes "wf_enforcer c m" "length (bindings_of m) \<le> MAX_BINDINGS" "\<And>h. m \<noteq> EHello h"
  shows "length (enc_map c n @ put_fields c (e_fields c m)) < 1024"
  using payload_length [OF assms] len_map [of n] len_u8 [of 0]
    len_u8 [of "e_msg_type_u8 (e_msg_type m)"]
  by (simp add: e_fields_def)

lemma e_frame_refusal:
  assumes "wf_enforcer c m" "e_encode_frame c m out = (Some e, out')"
  shows "out' = out \<and> (length (bindings_of m) > MAX_BINDINGS \<or> (\<exists>h. m = EHello h))"
proof -
  have "out' = out"
    using assms(2) by (auto simp: e_encode_frame_def e_encode_fields Let_def split: if_splits)
  moreover have "\<exists>h. m = EHello h" if "\<not> length (bindings_of m) > MAX_BINDINGS"
  proof (rule ccontr)
    assume "\<nexists>h. m = EHello h"
    with that assms(1) have
      "length (enc_map c (of_nat (length (e_fields c m))) @ put_fields c (e_fields c m)) < 1024"
      by (intro message_length) auto
    with that assms(2) show False
      by (auto simp: e_encode_frame_def e_encode_fields Let_def MAX_FRAME_LEN_def split: if_splits)
  qed
  ultimately show ?thesis by blast
qed

lemma e_frame_back:
  assumes "wf_enforcer c m" "e_encode_frame c m out = (None, out')"
  shows "\<exists>f. out' = out @ f \<and>
    (\<forall>r. next_enforcer_message c \<lparr>frame_buf = f @ r\<rparr> = (Some (Inr m), \<lparr>frame_buf = r\<rparr>))"
proof -
  let ?p = "enc_map c (of_nat (length (e_fields c m))) @ put_fields c (e_fields c m)"
  from assms(2) have n: "length (bindings_of m) \<le> MAX_BINDINGS" "length ?p \<le> MAX_FRAME_LEN"
    and out': "out' = out @ framed ?p"
    by (auto simp: e_encode_frame_def e_encode_fields Let_def backfill_def framed_def split: if_splits)
  have "length ?p mod 65536 = length ?p" using n(2) by (simp add: MAX_FRAME_LEN_def)
  with e_decode_back [OF assms(1) n(1)]
  have "next_enforcer_message c \<lparr>frame_buf = framed ?p @ r\<rparr> = (Some (Inr m), \<lparr>frame_buf = r\<rparr>)" for r
    unfolding next_enforcer_message_def next_with_framed by simp
  with out' show ?thesis by blast
qed

end

text \<open>A message on the enforcer socket is written whole and read back, or not written at all. For
  every message the types allow, \<open>encode_frame\<close> appends a frame from which the reader at the other end
  takes exactly that message, whatever follows it on the stream; only a Bind of more than eight
  subjects or a Hello (of an enormous unit) is refused, and then the buffer is left as it was.
\<close>

lemma enforcer_frame_roundtrip:
  assumes "cbor_lib c" "wf_enforcer c m"
  shows "case e_encode_frame c m out of
      (Some e, out') \<Rightarrow> out' = out \<and> (length (bindings_of m) > MAX_BINDINGS \<or> (\<exists>h. m = EHello h))
    | (None, out') \<Rightarrow> \<exists>f. out' = out @ f \<and>
        (\<forall>r. next_enforcer_message c \<lparr>frame_buf = f @ r\<rparr> = (Some (Inr m), \<lparr>frame_buf = r\<rparr>))"
  using cbor_lib.e_frame_back [OF assms, of out] cbor_lib.e_frame_refusal [OF assms, of out]
  by (simp split: prod.split option.split)

definition sample_bind :: EnforcerMessage where
  "sample_bind = EBind
     \<lparr>bind_peer = PubKey (replicate 33 2),
      bind_bindings = [\<lparr>bind_subject = Subject (replicate 16 5), bind_delegated = True\<rparr>]\<rparr>"

lemma enforcer_frame_roundtrip_witness:
  "case e_encode_frame rfc8949 sample_bind [1, 2] of
      (Some e, out') \<Rightarrow> out' = [1, 2] \<and> (length (bindings_of sample_bind) > MAX_BINDINGS \<or> (\<exists>h. sample_bind = EHello h))
    | (None, out') \<Rightarrow> \<exists>f. out' = [1, 2] @ f \<and>
        (\<forall>r. next_enforcer_message rfc8949 \<lparr>frame_buf = f @ r\<rparr> = (Some (Inr sample_bind), \<lparr>frame_buf = r\<rparr>))"
  by (rule enforcer_frame_roundtrip [OF rfc.cbor_lib_axioms])
    (simp add: sample_bind_def wf_pubkey_def wf_subject_def MAX_SUBJECT_LEN_def)

end
