(* ===== verification/Budget_Store.thy ===== *)
theory Budget_Store
  imports Grant Btree_Map Enforcer_Protocol "HOL-Library.Char_ord"
begin

text \<open>
  Budgets kept across sessions and restarts (\<open>crates/tollgate-net/src/budgets.rs\<close>). The operations
  take the wall clock they read as an argument, \<open>unix\<close>, and core's clock as \<open>now\<close>. The file is what
  \<open>serde_json\<close> reads back from it, or nothing it can read; writing it goes through a temporary file
  renamed into place, so it succeeds whole or leaves the old file, and which of the two happens is
  the argument \<open>ok\<close>. \<open>hex\<close> and \<open>show_ip\<close> stand for the hex encoding and the formatting of an address.
\<close>

record BudgetRecord =
  rec_remaining :: u64
  rec_deadline_unix_ms :: u64

type_synonym budget_records = "(string, BudgetRecord) btreemap"

record BudgetStore =
  bs_path :: "string option"
  bs_records :: budget_records

datatype BudgetFile = NoFile | Unreadable | Holds budget_records

definition to_ipv4_mapped :: "u8 list \<Rightarrow> u8 list option" where
  "to_ipv4_mapped v6 = (if take 12 v6 = replicate 10 0 @ [0xFF, 0xFF] then Some (drop 12 v6) else None)"

definition canonical :: "IpAddr \<Rightarrow> IpAddr" where
  "canonical addr =
     (case addr of
        V6 v6 \<Rightarrow> (case to_ipv4_mapped v6 of None \<Rightarrow> addr | Some v4 \<Rightarrow> V4 v4)
      | v4 \<Rightarrow> v4)"

definition budget_key ::
  "(u8 list \<Rightarrow> string) \<Rightarrow> (IpAddr \<Rightarrow> string) \<Rightarrow> PubKey \<Rightarrow> IpAddr \<Rightarrow> Identity \<Rightarrow> string" where
  "budget_key hex show_ip peer addr identity =
     (let pubkey = hex (pubkey_bytes peer)
      in case identity of
           IdPubkey \<Rightarrow> pubkey
         | IdAddress \<Rightarrow> pubkey @ ''@'' @ show_ip (canonical addr))"

definition bs_prune :: "BudgetStore \<Rightarrow> u64 \<Rightarrow> BudgetStore" where
  "bs_prune st unix = st\<lparr>bs_records :=
     filter (\<lambda>(_, r). rec_remaining r > 0 \<and> rec_deadline_unix_ms r > unix) (bs_records st)\<rparr>"

definition bs_in_memory :: BudgetStore where
  "bs_in_memory = \<lparr>bs_path = None, bs_records = []\<rparr>"

definition bs_open :: "string \<Rightarrow> BudgetFile \<Rightarrow> u64 \<Rightarrow> BudgetStore" where
  "bs_open path file unix =
     (let records = (case file of Holds records \<Rightarrow> records | Unreadable \<Rightarrow> [] | NoFile \<Rightarrow> [])
      in bs_prune \<lparr>bs_path = Some path, bs_records = records\<rparr> unix)"

definition bs_get :: "BudgetStore \<Rightarrow> string \<Rightarrow> Millis \<Rightarrow> u64 \<Rightarrow> Budget option" where
  "bs_get st key now unix =
     (case bt_get (bs_records st) key of
        None \<Rightarrow> None
      | Some record \<Rightarrow>
          if rec_deadline_unix_ms record < unix then None
          else let left = rec_deadline_unix_ms record - unix
               in if rec_remaining record > 0 \<and> left > 0
                  then Some \<lparr>bud_remaining = rec_remaining record, bud_deadline = millis_add now left\<rparr>
                  else None)"

text \<open>The file after the write, and whether it succeeded.\<close>

definition bs_write :: "BudgetStore \<Rightarrow> bool \<Rightarrow> BudgetFile \<Rightarrow> bool \<times> BudgetFile" where
  "bs_write st ok file =
     (case bs_path st of
        None \<Rightarrow> (True, file)
      | Some _ \<Rightarrow> if ok then (True, Holds (bs_records st)) else (False, file))"

definition bs_put ::
  "BudgetStore \<Rightarrow> string \<Rightarrow> Budget \<Rightarrow> Millis \<Rightarrow> u64 \<Rightarrow> bool \<Rightarrow> BudgetFile \<Rightarrow> bool \<times> BudgetStore \<times> BudgetFile" where
  "bs_put st key budget now unix ok file =
     (let left = saturating_since (bud_deadline budget) now;
          finish = (\<lambda>st. let st = bs_prune st unix; (wrote, file) = bs_write st ok file
                         in (wrote, st, file))
      in if bud_remaining budget = 0 \<or> left = 0
         then (if bt_get (bs_records st) key = None then (True, st, file)
               else finish (st\<lparr>bs_records := bt_remove key (bs_records st)\<rparr>))
         else finish (st\<lparr>bs_records := bt_insert key
                \<lparr>rec_remaining = bud_remaining budget, rec_deadline_unix_ms = sat_add unix left\<rparr>
                (bs_records st)\<rparr>))"

definition bs_len :: "BudgetStore \<Rightarrow> nat" where
  "bs_len st = length (bs_records st)"

definition bs_is_empty :: "BudgetStore \<Rightarrow> bool" where
  "bs_is_empty st = (bs_records st = [])"

subsection \<open>Well-formed stores\<close>

definition bs_wf :: "BudgetStore \<Rightarrow> bool" where
  "bs_wf st = bt_wf (bs_records st)"

lemma bt_wf_filter: "bt_wf m \<Longrightarrow> bt_wf (filter P m)"
  by (induction m) (auto simp: bt_wf_def)

lemma map_of_filter_snd:
  "distinct (map fst m) \<Longrightarrow> map_of (filter (\<lambda>(_, v). P v) m) k =
     (case map_of m k of Some v \<Rightarrow> if P v then Some v else None | None \<Rightarrow> None)"
proof (induction m)
  case (Cons a m)
  then have "map_of m (fst a) = None" by (auto simp: map_of_eq_None_iff)
  with Cons show ?case by (cases a) (auto split: option.splits)
qed simp

lemma bs_prune_wf: "bs_wf st \<Longrightarrow> bs_wf (bs_prune st unix)"
  by (simp add: bs_wf_def bs_prune_def bt_wf_filter)

lemma bs_prune_get:
  assumes "bs_wf st"
  shows "bt_get (bs_records (bs_prune st unix)) k =
    (case bt_get (bs_records st) k of
       Some r \<Rightarrow> if rec_remaining r > 0 \<and> rec_deadline_unix_ms r > unix then Some r else None
     | None \<Rightarrow> None)"
  using assms bt_wf_distinct [of "bs_records st"]
    map_of_filter_snd [of "bs_records st" "\<lambda>r. rec_remaining r > 0 \<and> rec_deadline_unix_ms r > unix" k]
  by (simp add: bs_prune_def bs_wf_def bt_keys_def)

lemma bs_put_wf: "bs_wf st \<Longrightarrow> bs_put st k b now unix ok f = (wrote, st', f') \<Longrightarrow> bs_wf st'"
  by (auto simp: bs_put_def Let_def bs_wf_def bs_prune_def bt_wf_filter split: if_splits prod.splits)

text \<open>Looking a budget up is not changed by dropping what had expired before.\<close>

lemma bs_prune_transparent:
  assumes "bs_wf st" "unix \<le> unix'"
  shows "bs_get (bs_prune st unix) k now unix' = bs_get st k now unix'"
  using assms
  by (auto simp: bs_get_def bs_prune_get Let_def word_less_nat_alt word_le_nat_alt unat_sub
      split: option.splits)


subsection \<open>Properties\<close>

lemma since_nonzero: "now < d \<Longrightarrow> saturating_since d now \<noteq> 0"
  by (auto simp: saturating_since_def sat_sub_def)

lemma bs_put_saves:
  assumes "bs_wf st" "bud_remaining b > 0" "bud_deadline b > now" "unix < U64_MAX"
    and "bs_put st k b now unix ok f = (wrote, st', f')"
  shows "bt_get (bs_records st') k =
    Some \<lparr>rec_remaining = bud_remaining b,
      rec_deadline_unix_ms = sat_add unix (saturating_since (bud_deadline b) now)\<rparr>"
proof -
  let ?left = "saturating_since (bud_deadline b) now"
  let ?r = "\<lparr>rec_remaining = bud_remaining b, rec_deadline_unix_ms = sat_add unix ?left\<rparr>"
  let ?st = "st\<lparr>bs_records := bt_insert k ?r (bs_records st)\<rparr>"
  have left: "?left \<noteq> 0" using assms(3) by (rule since_nonzero)
  have "sat_add unix ?left > unix"
    using assms(3,4) by (simp add: word_less_nat_alt u64_nat unat_gt_0)
  moreover have "bs_wf ?st" using assms(1) by (simp add: bs_wf_def)
  moreover have "st' = bs_prune ?st unix"
    using assms(2,5) left by (auto simp: bs_put_def Let_def split: prod.splits if_splits)
  ultimately show ?thesis using assms(2) by (simp add: bs_prune_get)
qed

text \<open>C30: A budget survives a restart. Saved and written, then read back by a node started later, it is
  worth what it was worth, and expires at the same wall-clock time as before, however core's clock
  stands; once that time has come there is none.
\<close>

theorem budget_survives_restart:
  assumes "bs_wf st" "bud_remaining b > 0" "bud_deadline b > now" "bs_path st = Some path"
    and "bs_put st k b now unix True file = (wrote, st', file')"
    and "unix \<le> opened" "opened \<le> asked" "asked < U64_MAX"
  shows "bs_get (bs_open path file' opened) k now' asked =
    (let expires = sat_add unix (saturating_since (bud_deadline b) now)
     in if asked < expires
        then Some \<lparr>bud_remaining = bud_remaining b, bud_deadline = millis_add now' (expires - asked)\<rparr>
        else None)"
proof -
  let ?expires = "sat_add unix (saturating_since (bud_deadline b) now)"
  from assms(6-8) have "unix < U64_MAX" by simp
  from bs_put_saves [OF assms(1-3) this assms(5)]
  have rec: "bt_get (bs_records st') k =
    Some \<lparr>rec_remaining = bud_remaining b, rec_deadline_unix_ms = ?expires\<rparr>" .
  have "saturating_since (bud_deadline b) now \<noteq> 0"
    using assms(3) by (rule since_nonzero)
  with assms(2,4,5) have file': "file' = Holds (bs_records st')"
    by (auto simp: bs_put_def Let_def bs_write_def bs_prune_def split: prod.splits if_splits)
  let ?o = "\<lparr>bs_path = Some path, bs_records = bs_records st'\<rparr>"
  have "bs_wf ?o" using bs_put_wf [OF assms(1,5)] by (simp add: bs_wf_def)
  from bs_prune_transparent [OF this assms(7)]
  have "bs_get (bs_open path file' opened) k now' asked = bs_get ?o k now' asked"
    by (simp add: bs_open_def file')
  also have "\<dots> = (if asked < ?expires
      then Some \<lparr>bud_remaining = bud_remaining b, bud_deadline = millis_add now' (?expires - asked)\<rparr>
      else None)"
    using rec assms(2) by (auto simp: bs_get_def Let_def word_gt_0)
  finally show ?thesis by (simp add: Let_def)
qed

theorem budget_survives_restart_witness:
  "bs_get (bs_open ''b'' (Holds [(''k'', \<lparr>rec_remaining = 700, rec_deadline_unix_ms = 61000\<rparr>)]) 2000) ''k'' 5 3000 =
     Some \<lparr>bud_remaining = 700, bud_deadline = 58005\<rparr>"
proof -
  let ?st = "\<lparr>bs_path = Some ''b'', bs_records = []\<rparr> :: BudgetStore"
  let ?b = "\<lparr>bud_remaining = 700, bud_deadline = 60000\<rparr> :: Budget"
  let ?r = "\<lparr>rec_remaining = 700, rec_deadline_unix_ms = 61000\<rparr> :: BudgetRecord"
  have put: "bs_put ?st ''k'' ?b 0 1000 True NoFile =
      (True, ?st\<lparr>bs_records := [(''k'', ?r)]\<rparr>, Holds [(''k'', ?r)])"
    by code_simp
  have "sat_add 1000 (saturating_since 60000 0) = 61000" "millis_add 5 58000 = 58005" by code_simp+
  with budget_survives_restart [of ?st ?b 0 "''b''" "''k''" 1000 NoFile True _ _ 2000 3000 5, OF _ _ _ _ put]
  show ?thesis by (simp add: bs_wf_def)
qed

end
