(* ===== verification/Enforcer_Loopback.thy ===== *)
theory Enforcer_Loopback
  imports Enforcer_Protocol Btree_Map Access_Level Meter Limits
begin

text \<open>
  What core needs of an enforcer (\<open>trait Enforcer\<close> in \<open>crates/tollgate-net/src/enforcer/mod.rs\<close>), as
  the record \<open>Enforcer\<close> and the locale \<open>enforcer\<close>, and the userspace enforcer \<open>Loopback\<close> of \<open>enforcer/loopback.rs\<close>, a token
  bucket and two counters per peer, which is interpreted in it. The mutex-guarded map is passed
  through, its keys listed in key order where a hash map has no order; \<open>or_default\<close> creates a link
  where there is none.
\<close>

subsection \<open>The interface\<close>

text \<open>The trait's operations, over the enforcer's state.\<close>

record 'e Enforcer =
  enf_register :: "'e \<Rightarrow> PubKey \<Rightarrow> IpAddr \<Rightarrow> 'e"
  enf_set_access :: "'e \<Rightarrow> PubKey \<Rightarrow> AccessLevel \<Rightarrow> 'e"
  enf_set_shaping_rate :: "'e \<Rightarrow> PubKey \<Rightarrow> u64 \<Rightarrow> 'e"
  enf_counters :: "'e \<Rightarrow> PubKey \<Rightarrow> Counters"
  enf_demand :: "'e \<Rightarrow> PubKey \<Rightarrow> u64"
  enf_set_demand :: "'e \<Rightarrow> PubKey \<Rightarrow> u64 \<Rightarrow> 'e"
  enf_shaping_rate :: "'e \<Rightarrow> PubKey \<Rightarrow> u64"
  enf_peers :: "'e \<Rightarrow> PubKey list"
  enf_remove :: "'e \<Rightarrow> PubKey \<Rightarrow> 'e"
  enf_selling :: "'e \<Rightarrow> PubKey \<Rightarrow> bool"

text \<open>
  What they promise, where \<open>access\<close> reads the level in force: an operation on a peer sets what it
  says, keeps the rest, and leaves every other peer alone.
\<close>

locale enforcer =
  fixes ops :: "'e Enforcer"
    and access :: "'e \<Rightarrow> PubKey \<Rightarrow> AccessLevel"
  assumes access_set: "access (enf_set_access ops e p a) q = (if q = p then a else access e q)"
    and access_keeps: "enf_shaping_rate ops (enf_set_access ops e p a) q = enf_shaping_rate ops e q"
    and rate_set: "enf_shaping_rate ops (enf_set_shaping_rate ops e p r) q =
      (if q = p then r else enf_shaping_rate ops e q)"
    and rate_keeps: "access (enf_set_shaping_rate ops e p r) q = access e q"
    and remove_access: "access (enf_remove ops e p) q = (if q = p then AccessNone else access e q)"
    and remove_rate: "enf_shaping_rate ops (enf_remove ops e p) q =
      (if q = p then 0 else enf_shaping_rate ops e q)"
    and register_keeps: "access (enf_register ops e p addr) q = access e q"
      "enf_shaping_rate ops (enf_register ops e p addr) q = enf_shaping_rate ops e q"
begin

text \<open>A peer is carried when its level and its rate say so; applying both decides it.\<close>

definition carries_peer :: "'e \<Rightarrow> PubKey \<Rightarrow> bool" where
  "carries_peer e p = carried (access e p) (enf_shaping_rate ops e p)"

lemma applied: "carries_peer (enf_set_shaping_rate ops (enf_set_access ops e p a) p r) p = carried a r"
  by (simp add: carries_peer_def access_set rate_set rate_keeps)

lemma removed_not_carried: "\<not> carries_peer (enf_remove ops e p) p"
  by (simp add: carries_peer_def carried_def remove_access remove_rate)

end

subsection \<open>The loopback enforcer\<close>

definition BURST_MS :: u64 where
  "BURST_MS = 250"

record Link =
  link_access :: AccessLevel
  link_rate :: u64
  link_tokens :: u64
  link_counters :: Counters
  link_demand :: u64

definition link_default :: Link where
  "link_default = \<lparr>link_access = AccessNone, link_rate = 0, link_tokens = 0,
     link_counters = counters_zero, link_demand = 0\<rparr>"

type_synonym Loopback = "(PubKey, Link) btreemap"

definition lb_new :: Loopback where
  "lb_new = []"

definition lb_link :: "Loopback \<Rightarrow> PubKey \<Rightarrow> Link" where
  "lb_link lb peer = (case bt_get lb peer of Some l \<Rightarrow> l | None \<Rightarrow> link_default)"

definition lb_set_access :: "Loopback \<Rightarrow> PubKey \<Rightarrow> AccessLevel \<Rightarrow> Loopback" where
  "lb_set_access lb peer access = bt_insert peer ((lb_link lb peer)\<lparr>link_access := access\<rparr>) lb"

definition lb_set_shaping_rate :: "Loopback \<Rightarrow> PubKey \<Rightarrow> u64 \<Rightarrow> Loopback" where
  "lb_set_shaping_rate lb peer rate =
     (let link = (lb_link lb peer)\<lparr>link_rate := rate\<rparr>
      in bt_insert peer (link\<lparr>link_tokens := min (link_tokens link) (units_in rate BURST_MS)\<rparr>) lb)"

definition lb_set_demand :: "Loopback \<Rightarrow> PubKey \<Rightarrow> u64 \<Rightarrow> Loopback" where
  "lb_set_demand lb peer rate = bt_insert peer ((lb_link lb peer)\<lparr>link_demand := rate\<rparr>) lb"

definition lb_demand :: "Loopback \<Rightarrow> PubKey \<Rightarrow> u64" where
  "lb_demand lb peer = (case bt_get lb peer of Some l \<Rightarrow> link_demand l | None \<Rightarrow> 0)"

definition lb_counters :: "Loopback \<Rightarrow> PubKey \<Rightarrow> Counters" where
  "lb_counters lb peer = (case bt_get lb peer of Some l \<Rightarrow> link_counters l | None \<Rightarrow> counters_zero)"

definition lb_shaping_rate :: "Loopback \<Rightarrow> PubKey \<Rightarrow> u64" where
  "lb_shaping_rate lb peer = (case bt_get lb peer of Some l \<Rightarrow> link_rate l | None \<Rightarrow> 0)"

definition lb_peers :: "Loopback \<Rightarrow> PubKey list" where
  "lb_peers lb = bt_keys lb"

definition lb_remove :: "Loopback \<Rightarrow> PubKey \<Rightarrow> Loopback" where
  "lb_remove lb peer = bt_remove peer lb"

definition take_allowance :: "Loopback \<Rightarrow> PubKey \<Rightarrow> u64 \<Rightarrow> u64 \<times> Loopback" where
  "take_allowance lb peer elapsed_ms =
     (let link = lb_link lb peer
      in if \<not> carried (link_access link) (link_rate link) then (0, bt_insert peer link lb)
         else let cap = units_in (link_rate link) BURST_MS;
                  tokens = min (sat_add (link_tokens link) (units_in (link_rate link) elapsed_ms)) cap;
                  take = tokens
              in (take, bt_insert peer (link\<lparr>link_tokens := tokens - take\<rparr>) lb))"

definition record_delivered :: "Loopback \<Rightarrow> PubKey \<Rightarrow> u64 \<Rightarrow> Loopback" where
  "record_delivered lb peer units =
     (let link = lb_link lb peer; cs = link_counters link
      in bt_insert peer (link\<lparr>link_counters := cs\<lparr>to_payer := sat_add (to_payer cs) units\<rparr>\<rparr>) lb)"

definition record_received :: "Loopback \<Rightarrow> PubKey \<Rightarrow> u64 \<Rightarrow> Loopback" where
  "record_received lb peer units =
     (let link = lb_link lb peer; cs = link_counters link
      in bt_insert peer (link\<lparr>link_counters := cs\<lparr>from_payer := sat_add (from_payer cs) units\<rparr>\<rparr>) lb)"

text \<open>Nothing is gated by address here, and selling is never stopped.\<close>

definition lb_register :: "Loopback \<Rightarrow> PubKey \<Rightarrow> IpAddr \<Rightarrow> Loopback" where
  "lb_register lb peer addr = lb"

definition loopback_ops :: "Loopback Enforcer" where
  "loopback_ops =
     \<lparr>enf_register = lb_register, enf_set_access = lb_set_access,
      enf_set_shaping_rate = lb_set_shaping_rate, enf_counters = lb_counters, enf_demand = lb_demand,
      enf_set_demand = lb_set_demand, enf_shaping_rate = lb_shaping_rate, enf_peers = lb_peers,
      enf_remove = lb_remove, enf_selling = (\<lambda>_ _. True)\<rparr>"

definition lb_access :: "Loopback \<Rightarrow> PubKey \<Rightarrow> AccessLevel" where
  "lb_access lb peer = link_access (lb_link lb peer)"

lemmas lb_defs = lb_set_access_def lb_set_shaping_rate_def lb_set_demand_def lb_demand_def
  lb_counters_def lb_shaping_rate_def lb_remove_def lb_access_def lb_link_def link_default_def
  lb_register_def Let_def

interpretation lb: enforcer loopback_ops lb_access
  by unfold_locales (auto simp: loopback_ops_def lb_defs split: option.splits)

subsection \<open>The data plane's writer\<close>

text \<open>
  One wake-up of the writer in \<open>crates/tollgate-net/src/dataplane.rs\<close>: what the shaper releases for
  the time that passed is written in chunks, each counted as delivered.
\<close>

definition CHUNK :: u64 where
  "CHUNK = 65536"

function write_owed :: "Loopback \<Rightarrow> PubKey \<Rightarrow> u64 \<Rightarrow> Loopback" where
  "write_owed lb peer owed =
     (if owed > 0
      then let n = min owed CHUNK in write_owed (record_delivered lb peer n) peer (owed - n)
      else lb)"
  by pat_completeness auto

termination
proof (relation "measure (\<lambda>(lb, peer, owed). unat owed)")
  fix lb peer owed n
  assume "owed > (0 :: u64)" "n = min owed CHUNK"
  then have "n \<le> owed" "n > 0" by (auto simp: CHUNK_def min_def word_gt_0)
  then show "((record_delivered lb peer n, peer, owed - n), lb, peer, owed)
      \<in> measure (\<lambda>(lb, peer, owed). unat owed)"
    by (simp add: unat_sub word_le_nat_alt word_less_nat_alt)
qed simp

declare write_owed.simps [simp del]

definition writer_tick :: "Loopback \<Rightarrow> PubKey \<Rightarrow> u64 \<Rightarrow> Loopback" where
  "writer_tick lb peer elapsed_ms =
     (let (owed, lb) = take_allowance lb peer elapsed_ms in write_owed lb peer owed)"

definition writer_run :: "Loopback \<Rightarrow> PubKey \<Rightarrow> u64 list \<Rightarrow> Loopback" where
  "writer_run lb peer ts = foldl (\<lambda>lb t. writer_tick lb peer t) lb ts"

text \<open>Writing changes the counter and nothing else of the link.\<close>

lemma record_delivered_link:
  "lb_link (record_delivered lb peer n) peer =
     (lb_link lb peer)\<lparr>link_counters := (link_counters (lb_link lb peer))
        \<lparr>to_payer := sat_add (to_payer (link_counters (lb_link lb peer))) n\<rparr>\<rparr>"
  by (simp add: record_delivered_def lb_link_def Let_def)

lemma sat_add_assoc: "sat_add (sat_add a b) c = sat_add a (sat_add b c)"
  unfolding word_unat_eq_iff by (simp add: u64_nat min_def)

lemma sat_add_split: "n \<le> (m :: u64) \<Longrightarrow> sat_add n (m - n) = m"
  unfolding word_unat_eq_iff by (simp add: u64_nat unat_sub word_le_nat_alt min_absorb1)

lemma write_owed_link:
  "lb_link (write_owed lb peer owed) peer =
     (lb_link lb peer)\<lparr>link_counters := (link_counters (lb_link lb peer))
        \<lparr>to_payer := sat_add (to_payer (link_counters (lb_link lb peer))) owed\<rparr>\<rparr>"
proof (induction lb peer owed rule: write_owed.induct)
  case (1 lb peer owed)
  show ?case
  proof (cases "owed > 0")
    case True
    have "sat_add (min owed CHUNK) (owed - min owed CHUNK) = owed" by (rule sat_add_split) simp
    with True 1 [OF True refl] show ?thesis
      by (subst write_owed.simps) (simp add: Let_def record_delivered_link sat_add_assoc)
  next
    case False
    then have "owed = 0" by (simp add: word_gt_0)
    then show ?thesis by (subst write_owed.simps) (simp add: sat_add_def)
  qed
qed

lemma take_allowance_link:
  assumes "take_allowance lb peer t = (owed, lb')"
  shows "link_counters (lb_link lb' peer) = link_counters (lb_link lb peer)"
    and "link_rate (lb_link lb' peer) = link_rate (lb_link lb peer)"
    and "unat owed + unat (link_tokens (lb_link lb' peer)) \<le>
      unat (link_tokens (lb_link lb peer)) + unat (link_rate (lb_link lb peer)) * unat t div 1000"
    and "unat owed \<le> unat (link_rate (lb_link lb peer)) * 250 div 1000"
  using assms
  by (auto simp: take_allowance_def Let_def lb_link_def u64_nat BURST_MS_def split: if_splits)

lemma writer_tick_bound:
  fixes lb peer t
  defines "l \<equiv> lb_link lb peer" and "l' \<equiv> lb_link (writer_tick lb peer t) peer"
  shows "link_rate l' = link_rate l"
    and "unat (to_payer (link_counters l')) + unat (link_tokens l') \<le>
      unat (to_payer (link_counters l)) + unat (link_tokens l) + unat (link_rate l) * unat t div 1000"
    and "unat (to_payer (link_counters l')) \<le>
      unat (to_payer (link_counters l)) + unat (link_rate l) * 250 div 1000"
proof -
  obtain owed lb' where t: "take_allowance lb peer t = (owed, lb')" by fastforce
  note [simp] = l_def l'_def writer_tick_def t write_owed_link
  show "link_rate l' = link_rate l" using take_allowance_link(2) [OF t] by simp
  show "unat (to_payer (link_counters l')) + unat (link_tokens l') \<le>
      unat (to_payer (link_counters l)) + unat (link_tokens l) + unat (link_rate l) * unat t div 1000"
    using take_allowance_link(1,3) [OF t] by (simp add: u64_nat)
  show "unat (to_payer (link_counters l')) \<le>
      unat (to_payer (link_counters l)) + unat (link_rate l) * 250 div 1000"
    using take_allowance_link(1,4) [OF t] by (simp add: u64_nat)
qed

lemma div_add_le: "(a :: nat) div n + b div n \<le> (a + b) div n"
  using div_add1_eq [of a b n] by linarith

lemma writer_run_bound:
  "unat (to_payer (link_counters (lb_link (writer_run lb peer ts) peer))) \<le>
     unat (to_payer (link_counters (lb_link lb peer))) + unat (link_tokens (lb_link lb peer)) +
     unat (link_rate (lb_link lb peer)) * sum_list (map unat ts) div 1000"
proof (induction ts arbitrary: lb)
  case (Cons t ts)
  let ?r = "unat (link_rate (lb_link lb peer))"
  have "?r * unat t div 1000 + ?r * sum_list (map unat ts) div 1000 \<le>
      ?r * sum_list (map unat (t # ts)) div 1000"
    using div_add_le [of "?r * unat t" 1000 "?r * sum_list (map unat ts)"] by (simp add: distrib_left)
  with Cons [of "writer_tick lb peer t"] writer_tick_bound [of lb peer t] show ?case
    by (simp add: writer_run_def)
qed (simp add: writer_run_def)

lemma lb_counters_link: "lb_counters lb peer = link_counters (lb_link lb peer)"
  by (simp add: lb_counters_def lb_link_def link_default_def split: option.split)

text \<open>A payer is never delivered more than its rate. Over any run of the writer's wake-ups at one
  shaping rate, what is counted as delivered grows by at most what was in the bucket and the rate
  times the time that passed; and no single wake-up, however late, delivers more than a quarter of a
  second's worth.
\<close>

lemma delivery_within_rate:
  "unat (to_payer (lb_counters (writer_run lb peer ts) peer)) \<le>
     unat (to_payer (lb_counters lb peer)) + unat (link_tokens (lb_link lb peer)) +
     unat (link_rate (lb_link lb peer)) * sum_list (map unat ts) div 1000 \<and>
   unat (to_payer (lb_counters (writer_tick lb peer t) peer)) \<le>
     unat (to_payer (lb_counters lb peer)) + unat (link_rate (lb_link lb peer)) * 250 div 1000"
  using writer_run_bound [of lb peer ts] writer_tick_bound(3) [of lb peer t]
  by (simp add: lb_counters_link)

end
