(* ===== verification/Settle.thy ===== *)
theory Settle
  imports Wire_Types
begin

text \<open>
  Settling channels until it sticks (\<open>crates/tollgate-net/src/settle.rs\<close>): the backoff, one channel's
  job from attempt to attempt, and the settler that keeps at most one job per channel. Durations and
  instants are nanoseconds; \<open>Duration\<close> saturates at \<open>DURATION_MAX\<close>. What a backend answered, and when,
  is an input of each step.
\<close>

subsection \<open>The backoff\<close>

definition DURATION_MAX :: nat where
  "DURATION_MAX = (2 ^ 64 - 1) * 1000000000 + 999999999"

record Backoff =
  bo_initial :: nat
  bo_max :: nat

definition BACKOFF_DEFAULT :: Backoff where
  "BACKOFF_DEFAULT = \<lparr>bo_initial = 1000000000, bo_max = 300000000000\<rparr>"

definition delay :: "Backoff \<Rightarrow> u32 \<Rightarrow> nat" where
  "delay b failures =
     (let doublings = min (unat failures - 1) 31
      in min (min (bo_initial b * 2 ^ doublings) DURATION_MAX) (bo_max b))"

definition backoff_next :: "Backoff \<Rightarrow> u32 \<Rightarrow> nat \<Rightarrow> nat option \<Rightarrow> nat option" where
  "backoff_next b failures now deadline =
     (let d = delay b failures
      in case deadline of
           None \<Rightarrow> Some d
         | Some deadline \<Rightarrow> if now \<ge> deadline then None else Some (min d (deadline - now)))"

fun earliest :: "nat option \<Rightarrow> nat option \<Rightarrow> nat option" where
  "earliest (Some a) (Some b) = Some (min a b)"
| "earliest (Some a) None = Some a"
| "earliest None b = b"

subsection \<open>One channel's job\<close>

datatype SettleResult = Settled | CannotSettle | Transient

datatype JobNext =
    JobSettled
  | JobCannot
  | JobGaveUp
  | JobRetryIn nat u32

text \<open>The body of the loop in \<open>Job::run\<close>, once the backend has answered at \<open>now\<close>.\<close>

definition job_attempt ::
  "Backoff \<Rightarrow> nat option \<Rightarrow> nat option \<Rightarrow> nat \<Rightarrow> u32 \<Rightarrow> SettleResult \<Rightarrow> JobNext" where
  "job_attempt b deadline closing now failures result =
     (if result = Settled then JobSettled
      else let failures = sat_add32 failures 1
           in if result = CannotSettle then JobCannot
              else case backoff_next b failures now (earliest deadline closing) of
                     None \<Rightarrow> JobGaveUp
                   | Some d \<Rightarrow> JobRetryIn d failures)"

record Job =
  job_peer :: PubKey
  job_channel :: ChannelId
  job_deadline :: "nat option"
  job_failures :: u32
  job_wakes :: "nat option"

subsection \<open>The settler\<close>

record Settler =
  st_backoff :: Backoff
  st_in_flight :: "ChannelId set"
  st_tasks :: "Job list"
  st_closing :: "nat option"

definition settler_new :: "Backoff \<Rightarrow> Settler" where
  "settler_new b = \<lparr>st_backoff = b, st_in_flight = {}, st_tasks = [], st_closing = None\<rparr>"

definition set_backoff :: "Settler \<Rightarrow> Backoff \<Rightarrow> Settler" where
  "set_backoff s b = s\<lparr>st_backoff := b\<rparr>"

text \<open>\<open>settle\<close>: claim the channel and spawn its job, unless one is running.\<close>

definition settler_settle :: "Settler \<Rightarrow> PubKey \<Rightarrow> ChannelId \<Rightarrow> nat option \<Rightarrow> Settler" where
  "settler_settle s peer channel_id deadline =
     (if channel_id \<in> st_in_flight s then s
      else s\<lparr>st_in_flight := insert channel_id (st_in_flight s),
             st_tasks := st_tasks s @ [\<lparr>job_peer = peer, job_channel = channel_id,
               job_deadline = deadline, job_failures = 0, job_wakes = None\<rparr>]\<rparr>)"

text \<open>A job's end drops its guard, which gives its channel up.\<close>

definition job_ends :: "Settler \<Rightarrow> ChannelId \<Rightarrow> Settler" where
  "job_ends s channel_id =
     s\<lparr>st_in_flight := st_in_flight s - {channel_id},
       st_tasks := filter (\<lambda>j. job_channel j \<noteq> channel_id) (st_tasks s)\<rparr>"

definition map_job :: "ChannelId \<Rightarrow> (Job \<Rightarrow> Job) \<Rightarrow> Settler \<Rightarrow> Settler" where
  "map_job channel_id f s =
     s\<lparr>st_tasks := map (\<lambda>j. if job_channel j = channel_id then f j else j) (st_tasks s)\<rparr>"

text \<open>The backend answered a job's attempt.\<close>

definition attempt_done :: "Settler \<Rightarrow> Job \<Rightarrow> nat \<Rightarrow> SettleResult \<Rightarrow> Settler" where
  "attempt_done s job now result =
     (case job_attempt (st_backoff s) (job_deadline job) (st_closing s) now (job_failures job) result of
        JobRetryIn d failures \<Rightarrow>
          map_job (job_channel job) (\<lambda>j. j\<lparr>job_failures := failures, job_wakes := Some (now + d)\<rparr>) s
      | _ \<Rightarrow> job_ends s (job_channel job))"

text \<open>A wait over, by the clock or by the settler's closing.\<close>

definition job_woken :: "Settler \<Rightarrow> ChannelId \<Rightarrow> Settler" where
  "job_woken s channel_id = map_job channel_id (\<lambda>j. j\<lparr>job_wakes := None\<rparr>) s"

definition begin_shutdown :: "Settler \<Rightarrow> nat \<Rightarrow> nat \<Rightarrow> Settler" where
  "begin_shutdown s now grace =
     s\<lparr>st_closing := Some (now + grace), st_tasks := map (\<lambda>j. j\<lparr>job_wakes := None\<rparr>) (st_tasks s)\<rparr>"

text \<open>What \<open>drain\<close> does when its limit passes.\<close>

definition abort_all :: "Settler \<Rightarrow> Settler" where
  "abort_all s = s\<lparr>st_in_flight := {}, st_tasks := []\<rparr>"

text \<open>Everything that can happen to a settler.\<close>

inductive settler_run :: "Settler \<Rightarrow> bool" where
  start: "settler_run (settler_new b)"
| backoff: "settler_run s \<Longrightarrow> settler_run (set_backoff s b)"
| request: "settler_run s \<Longrightarrow> settler_run (settler_settle s peer ch deadline)"
| answered: "settler_run s \<Longrightarrow> job \<in> set (st_tasks s) \<Longrightarrow> job_wakes job = None \<Longrightarrow>
    settler_run (attempt_done s job now result)"
| woken: "settler_run s \<Longrightarrow> settler_run (job_woken s ch)"
| closing: "settler_run s \<Longrightarrow> settler_run (begin_shutdown s now grace)"
| abandoned: "settler_run s \<Longrightarrow> settler_run (abort_all s)"

subsection \<open>At most one job per channel\<close>

definition settler_wf :: "Settler \<Rightarrow> bool" where
  "settler_wf s =
     (distinct (map job_channel (st_tasks s)) \<and> st_in_flight s = set (map job_channel (st_tasks s)))"

lemma settler_wf_cong:
  "map job_channel (st_tasks s) = map job_channel (st_tasks s') \<Longrightarrow> st_in_flight s = st_in_flight s' \<Longrightarrow>
     settler_wf s = settler_wf s'"
  unfolding settler_wf_def by simp

lemma map_job_wf:
  assumes "\<And>j. job_channel (f j) = job_channel j"
  shows "settler_wf (map_job ch f s) = settler_wf s"
  by (rule settler_wf_cong) (simp_all add: map_job_def assms)

lemma job_ends_wf: "settler_wf s \<Longrightarrow> settler_wf (job_ends s ch)"
  by (auto simp: settler_wf_def job_ends_def distinct_map_filter)

lemma settler_settle_wf: "settler_wf s \<Longrightarrow> settler_wf (settler_settle s peer ch deadline)"
  by (auto simp: settler_wf_def settler_settle_def)

lemma begin_shutdown_wf: "settler_wf (begin_shutdown s now grace) = settler_wf s"
  by (rule settler_wf_cong) (simp_all add: begin_shutdown_def)

lemma settler_run_wf: "settler_run s \<Longrightarrow> settler_wf s"
proof (induction rule: settler_run.induct)
  case (answered s job now result)
  then show ?case by (simp add: attempt_done_def map_job_wf job_ends_wf split: JobNext.split)
qed (simp_all add: settler_settle_wf begin_shutdown_wf job_woken_def map_job_wf,
    simp_all add: settler_wf_def settler_new_def set_backoff_def abort_all_def)

text \<open>The wait doubles from the first to the cap.\<close>

lemma delay_first: "delay b 1 = min (min (bo_initial b) DURATION_MAX) (bo_max b)"
  by (simp add: delay_def)

lemma delay_le_max: "delay b n \<le> bo_max b"
  by (simp add: delay_def Let_def)

lemma delay_mono: "n \<le> m \<Longrightarrow> delay b n \<le> delay b m"
proof -
  assume "n \<le> m"
  then have "min (unat n - 1) 31 \<le> min (unat m - 1) 31"
    by (auto simp: word_le_nat_alt)
  then have "(2 :: nat) ^ min (unat n - 1) 31 \<le> 2 ^ min (unat m - 1) 31" by (rule power_increasing) simp
  then have "bo_initial b * 2 ^ min (unat n - 1) 31 \<le> bo_initial b * 2 ^ min (unat m - 1) 31"
    by (rule mult_le_mono2)
  then show ?thesis unfolding delay_def Let_def by linarith
qed


subsection \<open>Properties\<close>

lemma earliest_passed: "backoff_next b n now deadline = None \<longleftrightarrow> (\<exists>d. deadline = Some d \<and> d \<le> now)"
  by (auto simp: backoff_next_def Let_def split: option.splits)

lemma backoff_next_within:
  assumes "backoff_next b n now deadline = Some w"
  shows "w \<le> bo_max b \<and> (\<forall>d. deadline = Some d \<longrightarrow> now + w \<le> d)"
  using assms delay_le_max [of b n] by (auto simp: backoff_next_def Let_def split: option.splits if_splits)


definition sample_job :: Job where
  "sample_job = \<lparr>job_peer = PubKey [2], job_channel = ChannelId [7], job_deadline = Some 5000000000,
     job_failures = 0, job_wakes = None\<rparr>"

definition sample_settler :: Settler where
  "sample_settler = settler_settle (settler_new BACKOFF_DEFAULT) (PubKey [2]) (ChannelId [7]) (Some 5000000000)"


end
