(* ===== verification/Local_Channels.thy ===== *)
theory Local_Channels
  imports Cbor Wire_Types Clock
begin

text \<open>
  What the node asks of a payment-channel backend (\<open>trait ChannelBackend\<close> in
  \<open>crates/tollgate-net/src/channel/mod.rs\<close>), as the record \<open>ChannelBackend\<close> over the backend's state,
  and the backend that keeps the protocol's shape without its cryptography, \<open>channel/local.rs\<close>.
  \<open>sha256\<close>, \<open>sign\<close> and \<open>check\<close> stand for the hash and the Schnorr signatures of the \<open>sha2\<close> and
  \<open>secp256k1\<close> crates; a secret key is what \<open>sign\<close> takes.
\<close>

subsection \<open>Backends\<close>

record FundedChannel =
  fc_channel_id :: ChannelId
  fc_capacity :: u64
  fc_expiry :: "u64 option"
  fc_funding :: "u8 list"

record VerifiedChannel =
  vc_channel_id :: ChannelId
  vc_capacity :: u64
  vc_mint_url :: string
  vc_expiry :: "u64 option"

datatype ChannelError = NotAcceptedMint | CannotSettleChannel | OtherError

record 'b ChannelBackend =
  cb_fund :: "'b \<Rightarrow> PubKey \<Rightarrow> string \<Rightarrow> u64 \<Rightarrow> (ChannelError + FundedChannel) \<times> 'b"
  cb_verify_funding :: "'b \<Rightarrow> PubKey \<Rightarrow> u8 list \<Rightarrow> (ChannelError + VerifiedChannel) \<times> 'b"
  cb_sign_update :: "'b \<Rightarrow> ChannelId \<Rightarrow> u64 \<Rightarrow> Signature option"
  cb_verify_update :: "'b \<Rightarrow> PubKey \<Rightarrow> ChannelId \<Rightarrow> u64 \<Rightarrow> Signature \<Rightarrow> bool"
  cb_record_update :: "'b \<Rightarrow> PubKey \<Rightarrow> ChannelId \<Rightarrow> u64 \<Rightarrow> Signature \<Rightarrow> bool \<times> 'b"
  cb_settle :: "'b \<Rightarrow> ChannelId \<Rightarrow> ChannelError option"

text \<open>A refund expiry in Unix seconds put on the node's clock, with the wall clock at \<open>wall_ms\<close>.\<close>

definition expires_at :: "u64 \<Rightarrow> Millis \<Rightarrow> u64 \<Rightarrow> Millis" where
  "expires_at expiry now wall_ms = millis_add now (sat_sub (sat_mul expiry 1000) wall_ms)"

text \<open>
  An expiry is never put later than it is, counted from when it was measured; one already past is due
  now.
\<close>

lemma expires_at_not_late: "unat (expires_at expiry now wall) - unat now \<le> unat expiry * 1000 - unat wall"
  by (simp add: expires_at_def u64_nat)

lemma expires_at_past: "unat expiry * 1000 \<le> unat wall \<Longrightarrow> expires_at expiry now wall = now"
  unfolding word_unat_eq_iff by (simp add: expires_at_def u64_nat min_absorb1)

subsection \<open>Text as bytes\<close>

text \<open>\<open>String::from_utf8\<close>: the well-formed byte sequences of the Unicode standard.\<close>

definition between :: "nat \<Rightarrow> nat \<Rightarrow> u8 \<Rightarrow> bool" where
  "between lo hi b = (lo \<le> unat b \<and> unat b \<le> hi)"

abbreviation cont_byte :: "u8 \<Rightarrow> bool" where
  "cont_byte \<equiv> between 0x80 0xBF"

fun utf8_valid :: "u8 list \<Rightarrow> bool" where
  "utf8_valid [] = True"
| "utf8_valid (b # bs) =
     (if unat b < 0x80 then utf8_valid bs
      else if between 0xC2 0xDF b then
        (case bs of b1 # r \<Rightarrow> cont_byte b1 \<and> utf8_valid r | _ \<Rightarrow> False)
      else if between 0xE0 0xEF b then
        (case bs of
           b1 # b2 # r \<Rightarrow>
             between (if unat b = 0xE0 then 0xA0 else 0x80) (if unat b = 0xED then 0x9F else 0xBF) b1 \<and>
             cont_byte b2 \<and> utf8_valid r
         | _ \<Rightarrow> False)
      else if between 0xF0 0xF4 b then
        (case bs of
           b1 # b2 # b3 # r \<Rightarrow>
             between (if unat b = 0xF0 then 0x90 else 0x80) (if unat b = 0xF4 then 0x8F else 0xBF) b1 \<and>
             cont_byte b2 \<and> cont_byte b3 \<and> utf8_valid r
         | _ \<Rightarrow> False)
      else False)"

subsection \<open>The local backend\<close>

text \<open>What an update's signature covers.\<close>

definition update_digest :: "(u8 list \<Rightarrow> u8 list) \<Rightarrow> ChannelId \<Rightarrow> u64 \<Rightarrow> u8 list" where
  "update_digest sha256 channel_id cumulative =
     sha256 (channel_id_bytes channel_id @ be_bytes 8 (unat cumulative))"

definition id_sign_update ::
  "(u8 list \<Rightarrow> u8 list) \<Rightarrow> ('k \<Rightarrow> u8 list \<Rightarrow> u8 list) \<Rightarrow> 'k \<Rightarrow> ChannelId \<Rightarrow> u64 \<Rightarrow> Signature" where
  "id_sign_update sha256 sign secret channel_id cumulative =
     Signature (sign secret (update_digest sha256 channel_id cumulative))"

definition id_verify_update ::
  "(u8 list \<Rightarrow> u8 list) \<Rightarrow> (u8 list \<Rightarrow> u8 list \<Rightarrow> u8 list \<Rightarrow> bool) \<Rightarrow>
   PubKey \<Rightarrow> ChannelId \<Rightarrow> u64 \<Rightarrow> Signature \<Rightarrow> bool" where
  "id_verify_update sha256 check peer channel_id cumulative signature =
     check (drop 1 (pubkey_bytes peer)) (update_digest sha256 channel_id cumulative)
       (signature_bytes signature)"

record 'k LocalChannels =
  lc_identity :: 'k
  lc_nonce :: u64
  lc_known :: "ChannelId list"

definition lc_new :: "'k \<Rightarrow> 'k LocalChannels" where
  "lc_new identity = \<lparr>lc_identity = identity, lc_nonce = 0, lc_known = []\<rparr>"

definition channel_id_of :: "(u8 list \<Rightarrow> u8 list) \<Rightarrow> PubKey \<Rightarrow> string \<Rightarrow> u64 \<Rightarrow> u64 \<Rightarrow> ChannelId" where
  "channel_id_of sha256 funder mint_url capacity nonce =
     ChannelId (sha256 (pubkey_bytes funder @ be_bytes 4 (length mint_url) @ str_bytes mint_url @
       be_bytes 8 (unat capacity) @ be_bytes 8 (unat nonce)))"

definition encode_funding :: "PubKey \<Rightarrow> string \<Rightarrow> u64 \<Rightarrow> u64 \<Rightarrow> u8 list" where
  "encode_funding funder mint_url capacity nonce =
     pubkey_bytes funder @ be_bytes 4 (length mint_url) @ str_bytes mint_url @
     be_bytes 8 (unat capacity) @ be_bytes 8 (unat nonce)"

definition decode_funding :: "u8 list \<Rightarrow> (PubKey \<times> string \<times> u64 \<times> u64) option" where
  "decode_funding blob =
     (if length blob < 33 + 4 then None
      else let funder = take 33 blob;
               url_len = be_value (take 4 (drop 33 blob));
               rest = drop 37 blob
           in if length rest \<noteq> url_len + 16 then None
              else if \<not> utf8_valid (take url_len rest) then None
              else Some (PubKey funder, bytes_str (take url_len rest),
                of_nat (be_value (take 8 (drop url_len rest))),
                of_nat (be_value (drop (url_len + 8) rest))))"

definition lc_fund ::
  "(u8 list \<Rightarrow> u8 list) \<Rightarrow> 'k LocalChannels \<Rightarrow> PubKey \<Rightarrow> string \<Rightarrow> u64 \<Rightarrow>
   (ChannelError + FundedChannel) \<times> 'k LocalChannels" where
  "lc_fund sha256 lc peer mint_url capacity =
     (let nonce = lc_nonce lc;
          funder = PubKey (replicate 33 0);
          channel_id = channel_id_of sha256 funder mint_url capacity nonce
      in (Inr \<lparr>fc_channel_id = channel_id, fc_capacity = capacity, fc_expiry = None,
              fc_funding = encode_funding funder mint_url capacity nonce\<rparr>,
          lc\<lparr>lc_nonce := nonce + 1, lc_known := lc_known lc @ [channel_id]\<rparr>))"

definition lc_verify ::
  "(u8 list \<Rightarrow> u8 list) \<Rightarrow> 'k LocalChannels \<Rightarrow> PubKey \<Rightarrow> u8 list \<Rightarrow>
   (ChannelError + VerifiedChannel) \<times> 'k LocalChannels" where
  "lc_verify sha256 lc peer funding =
     (case decode_funding funding of
        None \<Rightarrow> (Inl OtherError, lc)
      | Some (funder, mint_url, capacity, nonce) \<Rightarrow>
          if capacity = 0 then (Inl OtherError, lc)
          else let channel_id = channel_id_of sha256 funder mint_url capacity nonce
               in (Inr \<lparr>vc_channel_id = channel_id, vc_capacity = capacity, vc_mint_url = mint_url,
                        vc_expiry = None\<rparr>,
                   lc\<lparr>lc_known := lc_known lc @ [channel_id]\<rparr>))"

definition lc_record_update ::
  "'k LocalChannels \<Rightarrow> PubKey \<Rightarrow> ChannelId \<Rightarrow> u64 \<Rightarrow> Signature \<Rightarrow> bool \<times> 'k LocalChannels" where
  "lc_record_update lc peer channel_id cumulative signature = (channel_id \<in> set (lc_known lc), lc)"

definition lc_settle :: "'k LocalChannels \<Rightarrow> ChannelId \<Rightarrow> ChannelError option" where
  "lc_settle lc channel_id =
     (if channel_id \<notin> set (lc_known lc) then Some CannotSettleChannel else None)"

definition local_backend ::
  "(u8 list \<Rightarrow> u8 list) \<Rightarrow> ('k \<Rightarrow> u8 list \<Rightarrow> u8 list) \<Rightarrow> (u8 list \<Rightarrow> u8 list \<Rightarrow> u8 list \<Rightarrow> bool) \<Rightarrow>
   'k LocalChannels ChannelBackend" where
  "local_backend sha256 sign check =
     \<lparr>cb_fund = lc_fund sha256, cb_verify_funding = lc_verify sha256,
      cb_sign_update = (\<lambda>lc ch v. Some (id_sign_update sha256 sign (lc_identity lc) ch v)),
      cb_verify_update = (\<lambda>lc. id_verify_update sha256 check),
      cb_record_update = lc_record_update, cb_settle = lc_settle\<rparr>"

subsection \<open>Both ends mean the same channel\<close>

lemma decode_encode_funding:
  assumes "wf_pubkey funder" "length mint_url < 2 ^ 32" "utf8_valid (str_bytes mint_url)"
  shows "decode_funding (encode_funding funder mint_url capacity nonce) =
    Some (funder, mint_url, capacity, nonce)"
proof -
  have "256 ^ 8 = (2 :: nat) ^ 64" "256 ^ 4 = (2 :: nat) ^ 32" by simp_all
  then have "be_value (be_bytes 8 (unat w)) = unat w" for w :: u64
    using unat_u64_less [of w] by (simp add: be_value_bytes)
  moreover have "be_value (be_bytes 4 (length mint_url)) = length mint_url"
    using assms(2) by (simp add: be_value_bytes)
  ultimately show ?thesis
    using assms(1,3) by (simp add: decode_funding_def encode_funding_def wf_pubkey_def Let_def
        del: be_bytes.simps)
qed

text \<open>
  A channel one end funds is the channel the other verifies: the same id, capacity and mint, with
  both ends knowing it afterwards, so that either can record updates on it and settle it.
\<close>

lemma local_channel_agreed:
  assumes "length mint_url < 2 ^ 32" "utf8_valid (str_bytes mint_url)" "capacity > 0"
    and "lc_fund sha256 a peer mint_url capacity = (Inr funded, a')"
  shows "fst (lc_verify sha256 b payer (fc_funding funded)) =
      Inr \<lparr>vc_channel_id = fc_channel_id funded, vc_capacity = capacity, vc_mint_url = mint_url,
           vc_expiry = None\<rparr> \<and>
    lc_settle a' (fc_channel_id funded) = None \<and>
    lc_settle (snd (lc_verify sha256 b payer (fc_funding funded))) (fc_channel_id funded) = None"
  using assms decode_encode_funding [of "PubKey (replicate 33 0)" mint_url capacity "lc_nonce a"]
  by (auto simp: lc_fund_def lc_verify_def lc_settle_def Let_def wf_pubkey_def)

text \<open>
  The funder written into the blob is not the funder: it is a key of zeros, so two payers that open
  their first channels at one mint with one capacity open the same channel.
\<close>

lemma local_channel_ids_collide:
  "fst (lc_fund sha256 (lc_new alice) peer mint_url capacity) =
   fst (lc_fund sha256 (lc_new bob) peer mint_url capacity)"
  by (simp add: lc_fund_def lc_new_def Let_def)

end
