(* ===== verification/Node.thy ===== *)
theory Node
  imports Session_Handlers Wire Budget_Store Enforcer_Loopback Settle Local_Channels
begin

text \<open>
  The driver (\<open>crates/tollgate-net/src/node.rs\<close>): what comes in from the connections, the ticker and the
  finished channel work becomes an event for core, and every action core answers with is carried out.
  One function per method of \<open>Node\<close>; the enforcer and the channel backend are the records of their
  interfaces, with their states in the node's.

  A message put in a peer's outbox is added to \<open>nd_outboxes\<close>, with the connection whose outbox it is.
  Work the node hands to another task is added to \<open>nd_spawned\<close>; \<open>finish_fund\<close> and \<open>finish_verify\<close> are
  those tasks, and \<open>nd_done\<close> holds the events they end in, each with the time (in nanoseconds) before
  which it is not sent, until the loop takes it. What a step takes from outside is
  in \<open>NodeEnv\<close>: the node's clock and the wall clock, whether the budgets file can be written, and
  whether a peer's outbox has room for the next message, which may differ from one message to the
  next. The clock is read once per event.
\<close>

record NodeEnv =
  env_now :: Millis
  env_unix :: u64
  env_disk_ok :: bool
  env_room :: "PubKey \<Rightarrow> nat \<Rightarrow> bool"

record ('e, 'b) HostParts =
  hp_enforcer :: "'e Enforcer"
  hp_channels :: "'b ChannelBackend"
  hp_identity :: Identity
  hp_hex :: "u8 list \<Rightarrow> string"
  hp_show_ip :: "IpAddr \<Rightarrow> string"

record NodeLink =
  nl_conn :: connection
  nl_addr :: IpAddr

datatype Spawned =
    SpawnFund PubKey u64 string u64
  | SpawnVerify PubKey "u8 list"

record ('e, 'b) Node =
  nd_sessions :: Sessions
  nd_enforcer :: 'e
  nd_channels :: 'b
  nd_settler :: Settler
  nd_funding_failures :: "(PubKey, u32) btreemap"
  nd_links :: "(PubKey, NodeLink) btreemap"
  nd_deferred :: "(PubKey, u8 list list) btreemap"
  nd_budgets :: BudgetStore
  nd_budget_file :: BudgetFile
  nd_budget_keys :: "(PubKey, string) btreemap"
  nd_outboxes :: "(PubKey \<times> connection \<times> Message) list"
  nd_spawned :: "Spawned list"
  nd_done :: "(int \<times> Event) list"

definition MAX_DEFERRED_FUNDINGS :: nat where
  "MAX_DEFERRED_FUNDINGS = 4"

text \<open>In nanoseconds: one second, doubling to core's funding timeout; five seconds.\<close>

definition FUNDING_BACKOFF :: Backoff where
  "FUNDING_BACKOFF = \<lparr>bo_initial = 1000000000, bo_max = unat FUNDING_TIMEOUT_MS * 1000000\<rparr>"

definition SHUTDOWN_SETTLE_GRACE :: nat where
  "SHUTDOWN_SETTLE_GRACE = 5000000000"

text \<open>Nobody is connected while the peers' policies are set, so there is nothing to tell them.\<close>

fun configure :: "Sessions \<Rightarrow> PubKey \<times> PeerPolicy \<Rightarrow> Sessions" where
  "configure s (peer, pol) = fst (set_peer_policy peer pol 0 s)"

definition node_new ::
  "PubKey \<Rightarrow> NodePolicy \<Rightarrow> BuyerPolicy \<Rightarrow> (PubKey \<times> PeerPolicy) list \<Rightarrow> 'e \<Rightarrow> 'b \<Rightarrow> BudgetStore \<Rightarrow>
   BudgetFile \<Rightarrow> ('e, 'b) Node" where
  "node_new local policy buyer peers enf chans budgets file =
     \<lparr>nd_sessions = foldl configure (sessions_new local policy buyer) peers,
      nd_enforcer = enf, nd_channels = chans, nd_settler = settler_new BACKOFF_DEFAULT,
      nd_funding_failures = [], nd_links = [], nd_deferred = [], nd_budgets = budgets,
      nd_budget_file = file, nd_budget_keys = [], nd_outboxes = [], nd_spawned = [],
      nd_done = []\<rparr>"

subsection \<open>Carrying actions out\<close>

definition node_send :: "NodeEnv \<Rightarrow> PubKey \<Rightarrow> Message \<Rightarrow> ('e, 'b) Node \<Rightarrow> ('e, 'b) Node" where
  "node_send env peer msg nd =
     (case bt_get (nd_links nd) peer of
        None \<Rightarrow> nd
      | Some link \<Rightarrow>
          if env_room env peer (length (nd_outboxes nd)) then nd\<lparr>nd_outboxes := nd_outboxes nd @ [(peer, nl_conn link, msg)]\<rparr>
          else nd)"

fun sign_updates ::
  "'b ChannelBackend \<Rightarrow> 'b \<Rightarrow> (ChannelId \<times> u64) list \<Rightarrow> ChannelUpdate list option" where
  "sign_updates ops b [] = Some []"
| "sign_updates ops b ((channel_id, cumulative) # ratchets) =
     (case cb_sign_update ops b channel_id cumulative of
        None \<Rightarrow> None
      | Some signature \<Rightarrow>
          map_option (\<lambda>us. \<lparr>upd_channel_id = channel_id, upd_cumulative = cumulative,
              upd_signature = signature\<rparr> # us)
            (sign_updates ops b ratchets))"

fun record_updates :: "'b ChannelBackend \<Rightarrow> PubKey \<Rightarrow> ChannelUpdate list \<Rightarrow> 'b \<Rightarrow> 'b" where
  "record_updates ops peer [] b = b"
| "record_updates ops peer (u # us) b =
     record_updates ops peer us
       (snd (cb_record_update ops b peer (upd_channel_id u) (upd_cumulative u) (upd_signature u)))"

fun execute ::
  "('e, 'b) HostParts \<Rightarrow> NodeEnv \<Rightarrow> Action \<Rightarrow> ('e, 'b) Node \<Rightarrow> ('e, 'b) Node" where
  "execute hp env (Send peer msg) nd = node_send env peer msg nd"
| "execute hp env (SignAndSendTopUp peer ratchets window_ms reserved_rate) nd =
     (case sign_updates (hp_channels hp) (nd_channels nd) ratchets of
        None \<Rightarrow> nd
      | Some updates \<Rightarrow>
          node_send env peer (MTopUp \<lparr>topup_updates = updates, topup_window_ms = window_ms,
            topup_reserved_rate = reserved_rate\<rparr>) nd)"
| "execute hp env (RecordUpdates peer updates) nd =
     nd\<lparr>nd_channels := record_updates (hp_channels hp) peer updates (nd_channels nd)\<rparr>"
| "execute hp env (SetAccess peer access) nd =
     nd\<lparr>nd_enforcer := enf_set_access (hp_enforcer hp) (nd_enforcer nd) peer access\<rparr>"
| "execute hp env (SetShapingRate peer rate) nd =
     nd\<lparr>nd_enforcer := enf_set_shaping_rate (hp_enforcer hp) (nd_enforcer nd) peer rate\<rparr>"
| "execute hp env (FundChannel peer request mint_url capacity) nd =
     (if \<not> enf_selling (hp_enforcer hp) (nd_enforcer nd) peer then nd
      else nd\<lparr>nd_spawned := nd_spawned nd @ [SpawnFund peer request mint_url capacity]\<rparr>)"
| "execute hp env (VerifyFunding peer funding) nd =
     (if \<not> enf_selling (hp_enforcer hp) (nd_enforcer nd) peer
      then let held = (case bt_get (nd_deferred nd) peer of Some h \<Rightarrow> h | None \<Rightarrow> [])
           in nd\<lparr>nd_deferred := bt_insert peer
                (if length held < MAX_DEFERRED_FUNDINGS then held @ [funding] else held)
                (nd_deferred nd)\<rparr>
      else nd\<lparr>nd_spawned := nd_spawned nd @ [SpawnVerify peer funding]\<rparr>)"
| "execute hp env (SettleChannel peer channel_id expiry) nd =
     nd\<lparr>nd_settler := settler_settle (nd_settler nd) peer channel_id
          (map_option (\<lambda>at. unat at * 1000000) expiry)\<rparr>"
| "execute hp env (ReclaimChannel peer channel_id capacity expiry) nd = nd"
| "execute hp env (SaveBudget peer budget) nd =
     (case bt_get (nd_budget_keys nd) peer of
        None \<Rightarrow> nd
      | Some key \<Rightarrow>
          let (wrote, budgets, file) = bs_put (nd_budgets nd) key budget (env_now env) (env_unix env)
                (env_disk_ok env) (nd_budget_file nd)
          in nd\<lparr>nd_budgets := budgets, nd_budget_file := file\<rparr>)"
| "execute hp env (DropPeer peer) nd =
     nd\<lparr>nd_links := bt_remove peer (nd_links nd), nd_deferred := bt_remove peer (nd_deferred nd),
        nd_enforcer := enf_remove (hp_enforcer hp) (nd_enforcer nd) peer\<rparr>"

definition execute_all ::
  "('e, 'b) HostParts \<Rightarrow> NodeEnv \<Rightarrow> Action list \<Rightarrow> ('e, 'b) Node \<Rightarrow> ('e, 'b) Node" where
  "execute_all hp env actions nd = fold (execute hp env) actions nd"

text \<open>What core has answered: its new state, and the actions to carry out.\<close>

definition dispatched ::
  "('e, 'b) HostParts \<Rightarrow> NodeEnv \<Rightarrow> Sessions \<times> Action list \<Rightarrow> ('e, 'b) Node \<Rightarrow> ('e, 'b) Node" where
  "dispatched hp env answer nd = execute_all hp env (snd answer) (nd\<lparr>nd_sessions := fst answer\<rparr>)"

definition dispatch ::
  "('e, 'b) HostParts \<Rightarrow> NodeEnv \<Rightarrow> Event \<Rightarrow> ('e, 'b) Node \<Rightarrow> ('e, 'b) Node" where
  "dispatch hp env event nd = dispatched hp env (handle event (env_now env) (nd_sessions nd)) nd"

subsection \<open>From the connections\<close>

definition replaced :: "('e, 'b) Node \<Rightarrow> PubKey \<Rightarrow> connection \<Rightarrow> bool" where
  "replaced nd peer conn =
     (case bt_get (nd_links nd) peer of None \<Rightarrow> False | Some link \<Rightarrow> nl_conn link \<noteq> conn)"

text \<open>
  A connection that came: it replaces the peer's old one, whose deferred work and gate go with it; what
  core holds for a payer that is now at another address is forgotten; and the peer's budget is looked up
  under the key it has now.
\<close>

definition up_link ::
  "('e, 'b) HostParts \<Rightarrow> PubKey \<Rightarrow> connection \<Rightarrow> IpAddr \<Rightarrow> ('e, 'b) Node \<Rightarrow> ('e, 'b) Node" where
  "up_link hp peer conn addr nd =
     (let old = bt_get (nd_links nd) peer;
          nd = nd\<lparr>nd_links := bt_insert peer \<lparr>nl_conn = conn, nl_addr = addr\<rparr> (nd_links nd)\<rparr>;
          nd = (if old \<noteq> None
                then nd\<lparr>nd_deferred := bt_remove peer (nd_deferred nd),
                        nd_enforcer := enf_remove (hp_enforcer hp) (nd_enforcer nd) peer\<rparr>
                else nd)
      in nd\<lparr>nd_enforcer := enf_register (hp_enforcer hp) (nd_enforcer nd) peer addr\<rparr>)"

definition moved_away ::
  "('e, 'b) HostParts \<Rightarrow> NodeEnv \<Rightarrow> PubKey \<Rightarrow> string \<Rightarrow> ('e, 'b) Node \<Rightarrow> ('e, 'b) Node" where
  "moved_away hp env peer key nd =
     (if case bt_get (nd_budget_keys nd) peer of Some old \<Rightarrow> old \<noteq> key | None \<Rightarrow> False
      then dispatched hp env (forget peer (env_now env) (nd_sessions nd)) nd
      else nd)"

definition come_back ::
  "('e, 'b) HostParts \<Rightarrow> NodeEnv \<Rightarrow> PubKey \<Rightarrow> string \<Rightarrow> ('e, 'b) Node \<Rightarrow> ('e, 'b) Node" where
  "come_back hp env peer key nd =
     dispatch hp env (PeerConnected peer (bs_get (nd_budgets nd) key (env_now env) (env_unix env)))
       (nd\<lparr>nd_budget_keys := bt_insert peer key (nd_budget_keys nd)\<rparr>)"

definition on_peer_up ::
  "('e, 'b) HostParts \<Rightarrow> NodeEnv \<Rightarrow> PubKey \<Rightarrow> connection \<Rightarrow> IpAddr \<Rightarrow> ('e, 'b) Node \<Rightarrow> ('e, 'b) Node" where
  "on_peer_up hp env peer conn addr nd =
     (let key = budget_key (hp_hex hp) (hp_show_ip hp) peer addr (hp_identity hp)
      in come_back hp env peer key (moved_away hp env peer key (up_link hp peer conn addr nd)))"

definition on_peer_down ::
  "('e, 'b) HostParts \<Rightarrow> NodeEnv \<Rightarrow> PubKey \<Rightarrow> connection \<Rightarrow> ('e, 'b) Node \<Rightarrow> ('e, 'b) Node" where
  "on_peer_down hp env peer conn nd =
     (if replaced nd peer conn then nd
      else dispatch hp env (PeerDisconnected peer)
             (nd\<lparr>nd_links := bt_remove peer (nd_links nd), nd_deferred := bt_remove peer (nd_deferred nd),
                 nd_enforcer := enf_remove (hp_enforcer hp) (nd_enforcer nd) peer\<rparr>))"

text \<open>A purchase is refused while not selling or when too soon, and reaches core only if it verifies.\<close>

definition on_peer_topup ::
  "('e, 'b) HostParts \<Rightarrow> NodeEnv \<Rightarrow> PubKey \<Rightarrow> TopUp \<Rightarrow> ('e, 'b) Node \<Rightarrow> ('e, 'b) Node" where
  "on_peer_topup hp env peer t nd =
     (if \<not> enf_selling (hp_enforcer hp) (nd_enforcer nd) peer
      then node_send env peer (MTopUpReject
             \<lparr>rej_refused = map (\<lambda>u. \<lparr>ref_channel_id = upd_channel_id u,
                ref_cumulative = upd_cumulative u\<rparr>) (topup_updates t),
              rej_max_reserved_rate = 0, rej_reason = RateExceedsCapacity\<rparr>) nd
      else case too_soon (nd_sessions nd) peer t (env_now env) of
             Some refusal \<Rightarrow> execute hp env refusal nd
           | None \<Rightarrow>
               (case find (\<lambda>u. \<not> cb_verify_update (hp_channels hp) (nd_channels nd) peer
                       (upd_channel_id u) (upd_cumulative u) (upd_signature u)) (topup_updates t) of
                  Some bad \<Rightarrow> dispatch hp env (TopUpSignatureInvalid peer (upd_channel_id bad)) nd
                | None \<Rightarrow> dispatch hp env (MessageReceived peer (MTopUp t)) nd))"

fun on_wire ::
  "('e, 'b) HostParts \<Rightarrow> NodeEnv \<Rightarrow> WireEvent \<Rightarrow> ('e, 'b) Node \<Rightarrow> ('e, 'b) Node" where
  "on_wire hp env (PeerUp peer conn addr) nd = on_peer_up hp env peer conn addr nd"
| "on_wire hp env (PeerDown peer conn) nd = on_peer_down hp env peer conn nd"
| "on_wire hp env (WireMessage peer conn msg) nd =
     (if replaced nd peer conn then nd
      else case msg of
             MTopUp t \<Rightarrow> on_peer_topup hp env peer t nd
           | _ \<Rightarrow> dispatch hp env (MessageReceived peer msg) nd)"

subsection \<open>From the ticker\<close>

definition release_deferred ::
  "('e, 'b) HostParts \<Rightarrow> NodeEnv \<Rightarrow> ('e, 'b) Node \<Rightarrow> ('e, 'b) Node" where
  "release_deferred hp env nd =
     (let ready = filter (enf_selling (hp_enforcer hp) (nd_enforcer nd)) (bt_keys (nd_deferred nd))
      in fold (\<lambda>peer nd.
           let fundings = (case bt_get (nd_deferred nd) peer of Some fs \<Rightarrow> fs | None \<Rightarrow> [])
           in fold (\<lambda>funding. execute hp env (VerifyFunding peer funding)) fundings
                (nd\<lparr>nd_deferred := bt_remove peer (nd_deferred nd)\<rparr>)) ready nd)"

definition sample_peer ::
  "('e, 'b) HostParts \<Rightarrow> NodeEnv \<Rightarrow> PubKey \<Rightarrow> ('e, 'b) Node \<Rightarrow> ('e, 'b) Node" where
  "sample_peer hp env peer nd =
     (let counters = enf_counters (hp_enforcer hp) (nd_enforcer nd) peer;
          carried = enf_selling (hp_enforcer hp) (nd_enforcer nd) peer;
          nd = dispatch hp env (Metered peer counters carried) nd;
          rate = enf_demand (hp_enforcer hp) (nd_enforcer nd) peer
      in dispatch hp env (DemandObserved peer rate) nd)"

definition node_tick :: "('e, 'b) HostParts \<Rightarrow> NodeEnv \<Rightarrow> ('e, 'b) Node \<Rightarrow> ('e, 'b) Node" where
  "node_tick hp env nd =
     (let nd = release_deferred hp env nd;
          nd = nd\<lparr>nd_budget_keys := filter (\<lambda>(peer, _).
                 bt_get (ss_peers (nd_sessions nd)) peer \<noteq> None \<or>
                 bt_get (ss_parked (nd_sessions nd)) peer \<noteq> None) (nd_budget_keys nd)\<rparr>;
          nd = fold (sample_peer hp env) (enf_peers (hp_enforcer hp) (nd_enforcer nd)) nd
      in dispatch hp env Tick nd)"

subsection \<open>Channel work\<close>

text \<open>
  A funding: the event it ends in, how long (in nanoseconds) that is held back, and the node with the
  backend's new state and the count of failures.
\<close>

definition finish_fund ::
  "('e, 'b) HostParts \<Rightarrow> NodeEnv \<Rightarrow> PubKey \<Rightarrow> u64 \<Rightarrow> string \<Rightarrow> u64 \<Rightarrow> ('e, 'b) Node \<Rightarrow>
   Event \<times> nat \<times> ('e, 'b) Node" where
  "finish_fund hp env peer request mint_url capacity nd =
     (let (result, b) = cb_fund (hp_channels hp) (nd_channels nd) peer mint_url capacity;
          nd = nd\<lparr>nd_channels := b\<rparr>
      in case result of
           Inr f \<Rightarrow>
             (OutgoingChannelFunded peer request (fc_channel_id f) (fc_capacity f)
                (map_option (\<lambda>e. expires_at e (env_now env) (env_unix env)) (fc_expiry f)) (fc_funding f),
              0, nd\<lparr>nd_funding_failures := bt_remove peer (nd_funding_failures nd)\<rparr>)
         | Inl _ \<Rightarrow>
             (let attempt = sat_add32 (case bt_get (nd_funding_failures nd) peer of
                    Some n \<Rightarrow> n | None \<Rightarrow> 0) 1
              in (OutgoingFundingFailed peer request, delay FUNDING_BACKOFF attempt,
                  nd\<lparr>nd_funding_failures := bt_insert peer attempt (nd_funding_failures nd)\<rparr>)))"

definition finish_verify ::
  "('e, 'b) HostParts \<Rightarrow> NodeEnv \<Rightarrow> PubKey \<Rightarrow> u8 list \<Rightarrow> ('e, 'b) Node \<Rightarrow> Event \<times> ('e, 'b) Node" where
  "finish_verify hp env peer funding nd =
     (let (result, b) = cb_verify_funding (hp_channels hp) (nd_channels nd) peer funding
      in (case result of
            Inr v \<Rightarrow>
              IncomingFundingVerified peer (vc_channel_id v) (vc_capacity v)
                (map_option (\<lambda>e. expires_at e (env_now env) (env_unix env)) (vc_expiry v)) (vc_mint_url v)
          | Inl e \<Rightarrow>
              IncomingFundingRejected peer
                (if e = NotAcceptedMint then MintNotAccepted else FundingInvalid),
          nd\<lparr>nd_channels := b\<rparr>))"

fun run_job ::
  "('e, 'b) HostParts \<Rightarrow> NodeEnv \<Rightarrow> Spawned \<Rightarrow> ('e, 'b) Node \<Rightarrow> ('e, 'b) Node" where
  "run_job hp env (SpawnFund peer request mint_url capacity) nd =
     (let (event, wait, nd) = finish_fund hp env peer request mint_url capacity nd
      in nd\<lparr>nd_done := nd_done nd @ [(int (unat (env_now env)) * 1000000 + int wait, event)]\<rparr>)"
| "run_job hp env (SpawnVerify peer funding) nd =
     (let (event, nd) = finish_verify hp env peer funding nd
      in nd\<lparr>nd_done := nd_done nd @ [(0, event)]\<rparr>)"

subsection \<open>The loop\<close>

text \<open>
  What the loop selects on, and, as \<open>JobRuns\<close>, a spawned task running. Which job runs or reports next
  is open: the positions name it.
\<close>

datatype NodeInput =
    BuyingChanged BuyerPolicy
  | FromWire WireEvent
  | Ticked
  | JobRuns nat
  | JobReports nat

definition without_index :: "nat \<Rightarrow> 'a list \<Rightarrow> 'a list" where
  "without_index k xs = take k xs @ drop (Suc k) xs"

fun node_step ::
  "('e, 'b) HostParts \<Rightarrow> NodeEnv \<Rightarrow> NodeInput \<Rightarrow> ('e, 'b) Node \<Rightarrow> ('e, 'b) Node" where
  "node_step hp env (BuyingChanged policy) nd =
     nd\<lparr>nd_sessions := set_buyer_policy policy (nd_sessions nd)\<rparr>"
| "node_step hp env (FromWire event) nd = on_wire hp env event nd"
| "node_step hp env Ticked nd = node_tick hp env nd"
| "node_step hp env (JobRuns k) nd =
     (if k < length (nd_spawned nd)
      then run_job hp env (nd_spawned nd ! k) (nd\<lparr>nd_spawned := without_index k (nd_spawned nd)\<rparr>)
      else nd)"
| "node_step hp env (JobReports k) nd =
     (if k < length (nd_done nd) \<and> fst (nd_done nd ! k) \<le> int (unat (env_now env)) * 1000000
      then dispatch hp env (snd (nd_done nd ! k)) (nd\<lparr>nd_done := without_index k (nd_done nd)\<rparr>)
      else nd)"

definition node_run ::
  "('e, 'b) HostParts \<Rightarrow> (NodeEnv \<times> NodeInput) list \<Rightarrow> ('e, 'b) Node \<Rightarrow> ('e, 'b) Node" where
  "node_run hp inputs nd = foldl (\<lambda>nd (env, input). node_step hp env input nd) nd inputs"

definition wind_down :: "('e, 'b) HostParts \<Rightarrow> NodeEnv \<Rightarrow> ('e, 'b) Node \<Rightarrow> ('e, 'b) Node" where
  "wind_down hp env nd =
     (let nd = nd\<lparr>nd_settler :=
             begin_shutdown (nd_settler nd) (unat (env_now env) * 1000000) SHUTDOWN_SETTLE_GRACE\<rparr>
      in dispatched hp env (shutdown (env_now env) (nd_sessions nd)) nd)"

end
