(* ===== verification/Session_Host.thy ===== *)
theory Session_Host
  imports Session_Properties
begin

text \<open>
  What a host that drops peers holds while it carries out core's actions
  (\<open>crates/tollgate-core/src/session/core.rs\<close>): for every peer, whether it is linked, its gate and its
  shaping rate. \<open>tracks\<close> relates that to one peer's session, and every event of core keeps it. Also
  which events have the host record a purchase, and which can end a session.
\<close>

subsection \<open>The host, as core's actions move it\<close>

record HostView =
  hv_link :: "PubKey \<Rightarrow> bool"
  hv_access :: "PubKey \<Rightarrow> AccessLevel"
  hv_rate :: "PubKey \<Rightarrow> u64"

fun carry_out :: "Action \<Rightarrow> HostView \<Rightarrow> HostView" where
  "carry_out (SetAccess p access) h = h\<lparr>hv_access := (hv_access h)(p := access)\<rparr>"
| "carry_out (SetShapingRate p rate) h = h\<lparr>hv_rate := (hv_rate h)(p := rate)\<rparr>"
| "carry_out (DropPeer p) h =
     \<lparr>hv_link = (hv_link h)(p := False), hv_access = (hv_access h)(p := AccessNone),
      hv_rate = (hv_rate h)(p := 0)\<rparr>"
| "carry_out _ h = h"

definition carry_out_all :: "Action list \<Rightarrow> HostView \<Rightarrow> HostView" where
  "carry_out_all out h = fold carry_out out h"

lemma carry_out_all_simps [simp]:
  "carry_out_all [] h = h"
  "carry_out_all (a # out) h = carry_out_all out (carry_out a h)"
  "carry_out_all (out1 @ out2) h = carry_out_all out2 (carry_out_all out1 h)"
  by (simp_all add: carry_out_all_def)

text \<open>
  A linked peer is gated and shaped as its session says; one whose link the host has let go has that
  or nothing. A peer without a session is not let through.
\<close>

definition agree :: "bool \<Rightarrow> AccessLevel \<Rightarrow> u64 \<Rightarrow> PeerSession \<Rightarrow> bool" where
  "agree linked a r ps =
     ((a = ps_access ps \<or> (\<not> linked \<and> a = AccessNone))
      \<and> (\<forall>x. ps_applied_rate ps = Some x \<longrightarrow> r = x \<or> (\<not> linked \<and> r = 0)))"

definition agrees :: "Sessions \<Rightarrow> HostView \<Rightarrow> PubKey \<Rightarrow> bool" where
  "agrees s h p =
     (\<forall>ps. bt_get (ss_peers s) p = Some ps \<longrightarrow> agree (hv_link h p) (hv_access h p) (hv_rate h p) ps)"

definition tracks :: "Sessions \<Rightarrow> HostView \<Rightarrow> PubKey \<Rightarrow> bool" where
  "tracks s h p =
     (agrees s h p \<and> (bt_get (ss_peers s) p = None \<longrightarrow> hv_access h p = AccessNone))"

subsection \<open>Other peers\<close>

definition same_view :: "PubKey \<Rightarrow> HostView \<Rightarrow> HostView \<Rightarrow> bool" where
  "same_view q h h' =
     (hv_link h' q = hv_link h q \<and> hv_access h' q = hv_access h q \<and> hv_rate h' q = hv_rate h q)"

lemma carry_out_other: "action_peer a \<noteq> q \<Longrightarrow> same_view q h (carry_out a h)"
  by (cases a) (simp_all add: same_view_def)

lemma carry_out_all_other:
  "(\<And>a. a \<in> set out \<Longrightarrow> action_peer a \<noteq> q) \<Longrightarrow> same_view q h (carry_out_all out h)"
proof (induction out arbitrary: h)
  case (Cons a out)
  then have "same_view q h (carry_out a h)" "same_view q (carry_out a h) (carry_out_all out (carry_out a h))"
    by (simp_all add: carry_out_other)
  then show ?case by (simp add: same_view_def)
qed (simp add: same_view_def)

lemma tracks_other: "untouched q s s' \<Longrightarrow> same_view q h h' \<Longrightarrow> tracks s' h' q = tracks s h q"
  by (simp add: tracks_def agrees_def untouched_def same_view_def)

lemma peer_step_tracks_other:
  assumes "peer_step rv now p s s' out" "q \<noteq> p"
  shows "tracks s' (carry_out_all out h) q = tracks s h q"
proof (rule tracks_other)
  show "untouched q s s'" by (rule peer_step_untouched [OF assms])
  show "same_view q h (carry_out_all out h)"
    using peer_step_actions [OF assms(1)] assms(2) by (intro carry_out_all_other) blast
qed

subsection \<open>The peer itself\<close>

lemma agrees_plain: "plain a \<Longrightarrow> agrees s h p \<Longrightarrow> agrees s (carry_out a h) p"
  by (cases a) (auto simp: agrees_def agree_def)

lemma agrees_plain_all: "plain_for q out \<Longrightarrow> agrees s h p \<Longrightarrow> agrees s (carry_out_all out h) p"
  by (induction out arbitrary: h) (simp_all add: agrees_plain)

lemma plain_closed: "plain a \<Longrightarrow> hv_access h p = AccessNone \<Longrightarrow> hv_access (carry_out a h) p = AccessNone"
  by (cases a) simp_all

lemma plain_closed_all:
  "plain_for q out \<Longrightarrow> hv_access h p = AccessNone \<Longrightarrow> hv_access (carry_out_all out h) p = AccessNone"
  by (induction out arbitrary: h) (simp_all add: plain_closed)

lemma agrees_put:
  "agrees (put_session p ps s) h p = agree (hv_link h p) (hv_access h p) (hv_rate h p) ps"
  by (simp add: agrees_def)

lemma agrees_get:
  "bt_get (ss_peers s) p = Some ps \<Longrightarrow> agrees s h p \<Longrightarrow> agree (hv_link h p) (hv_access h p) (hv_rate h p) ps"
  by (simp add: agrees_def)

lemma agrees_keep:
  "bt_get (ss_peers s) p = Some ps \<Longrightarrow> agrees s h p \<Longrightarrow> ps_access ps' = ps_access ps
    \<Longrightarrow> ps_applied_rate ps' = ps_applied_rate ps \<Longrightarrow> agrees (put_session p ps' s) h p"
  by (simp add: agrees_put agrees_def agree_def)

lemma agrees_gone: "bt_get (ss_peers s) p = None \<Longrightarrow> agrees s h p"
  by (simp add: agrees_def)

lemma agrees_tables: "bt_get (ss_peers s') p = bt_get (ss_peers s) p \<Longrightarrow> agrees s' h p = agrees s h p"
  by (simp add: agrees_def)

lemma agrees_refresh:
  assumes "agrees s h p" "bt_get (ss_peers s) p = Some ps" "refresh_session node p now ps = (ps', out)"
  shows "agrees (put_session p ps' s) (carry_out_all out h) p"
  unfolding agrees_put
  using agrees_get [OF assms(2,1)] assms(3) [unfolded refresh_session_eq, THEN sym]
  by (auto simp: agree_def)

lemma peer_step_agrees:
  "peer_step rv now p s s' out \<Longrightarrow> agrees s h p \<Longrightarrow> agrees s' (carry_out_all out h) p"
proof (induction arbitrary: h rule: peer_step.induct)
  case (change s ps ps')
  then show ?case by (simp add: agrees_keep [of s p ps] calm_def)
next
  case (close s ps "is" ps' out)
  then have "agrees (put_session p ps' s) h p"
    using close_frame [of p ps "is"] by (simp add: agrees_keep [of s p ps])
  then show ?case using close plain_close [of p ps "is"] by (auto intro: agrees_plain_all)
next
  case (buy s ps updates w r ratchets grant ps')
  then show ?case by (simp add: agrees_keep [of s p ps])
next
  case (leave s ps)
  then show ?case by (intro agrees_gone) simp
next
  case (hold s s' out)
  then have "agrees s' h p"
    using park_peers [OF hold(1)] by (auto simp: agrees_def)
  then show ?case by (rule agrees_plain_all [OF park_plain [OF hold(1)]])
next
  case (let_go s s' out)
  then show ?case
    using agrees_plain_all [OF drop_parked_plain [OF let_go(1)]] held_frame(1) [OF let_go(1)]
    by (simp add: agrees_def)
next
  case (held_due lead_ms s s' out)
  then show ?case
    using agrees_plain_all [OF on_parked_due_plain [OF held_due(1)]] held_frame(2) [OF held_due(1)]
    by (simp add: agrees_def)
next
  case (table s s')
  then show ?case by (simp add: agrees_def same_tables_def)
qed (auto simp: agrees_refresh agrees_plain_all intro: agrees_keep)

text \<open>Nothing done about a peer without a session gives it one, or opens its gate.\<close>

lemma park_absent: "bt_get (ss_peers s) p = None \<Longrightarrow> park p now s = (s, [])"
  by (simp add: park_def)

lemma peer_step_absent:
  "peer_step rv now p s s' out \<Longrightarrow> bt_get (ss_peers s) p = None \<Longrightarrow> hv_access h p = AccessNone
    \<Longrightarrow> bt_get (ss_peers s') p = None \<and> hv_access (carry_out_all out h) p = AccessNone"
proof (induction arbitrary: h rule: peer_step.induct)
  case (let_go s s' out)
  then show ?case
    using plain_closed_all [OF drop_parked_plain [OF let_go(1)]] held_frame(1) [OF let_go(1)] by simp
next
  case (held_due lead_ms s s' out)
  then show ?case
    using plain_closed_all [OF on_parked_due_plain [OF held_due(1)]] held_frame(2) [OF held_due(1)]
    by simp
next
  case (table s s')
  then show ?case by (simp add: same_tables_def)
qed (auto simp: park_absent plain_closed_all)

text \<open>So a step that keeps the peer's session keeps the peer in step.\<close>

lemma peer_step_tracks:
  assumes "peer_step rv now p s s' out" "tracks s h q"
    and "bt_get (ss_peers s) p \<noteq> None \<Longrightarrow> bt_get (ss_peers s') p \<noteq> None"
  shows "tracks s' (carry_out_all out h) q"
proof (cases "q = p")
  case True
  then show ?thesis
    using peer_step_agrees [OF assms(1), of h] peer_step_absent [OF assms(1), of h] assms(2,3)
    by (cases "bt_get (ss_peers s) p") (auto simp: tracks_def)
qed (use peer_step_tracks_other [OF assms(1)] assms(2) in simp)

subsection \<open>Handlers that end no session and record no purchase\<close>

fun records :: "Action \<Rightarrow> bool" where
  "records (RecordUpdates _ _) = True"
| "records _ = False"

abbreviation unrecorded :: "Action list \<Rightarrow> bool" where
  "unrecorded out \<equiv> \<forall>a \<in> set out. \<not> records a"

lemma plain_unrecorded: "plain_for p out \<Longrightarrow> unrecorded out"
  unfolding plain_for_def using plain.simps(3) records.elims(2) by metis

definition keeps :: "Sessions \<Rightarrow> Sessions \<Rightarrow> bool" where
  "keeps s s' = (\<forall>q. bt_get (ss_peers s) q \<noteq> None \<longrightarrow> bt_get (ss_peers s') q \<noteq> None)"

definition mild :: "Sessions \<Rightarrow> Sessions \<times> Action list \<Rightarrow> bool" where
  "mild s r = (keeps s (fst r) \<and> unrecorded (snd r))"

lemma keeps_refl [simp]: "keeps s s"
  by (simp add: keeps_def)

lemma keeps_trans: "keeps s s1 \<Longrightarrow> keeps s1 s2 \<Longrightarrow> keeps s s2"
  by (simp add: keeps_def)

lemma keeps_update [simp]: "keeps s (update_session p f s)"
  by (auto simp: keeps_def update_session_eq put_session_def split: option.splits)

lemma mild_tell [simp]: "mild s (s, out) = unrecorded out"
  by (simp add: mild_def)

lemma mild_update_tell: "unrecorded out \<Longrightarrow> mild s (update_session p f s, out)"
  by (simp add: mild_def)

lemma mild_update: "mild (update_session p f s) r \<Longrightarrow> mild s r"
  using keeps_trans [OF keeps_update] by (auto simp: mild_def)

lemma mild_on_session: "(\<And>ps. unrecorded (snd (f ps))) \<Longrightarrow> mild s (on_session p f s)"
  by (auto simp: mild_def keeps_def on_session_eq put_session_def split: option.splits)

lemma mild_push: "unrecorded out \<Longrightarrow> mild s (push out s)"
  by (simp add: push_def)

lemma mild_and_then:
  "mild s (f s) \<Longrightarrow> (\<And>s. mild s (g s)) \<Longrightarrow> mild s (and_then f g s)"
  using keeps_trans by (fastforce simp: mild_def and_then_fst_snd)

lemma mild_for_each: "(\<And>k s. mild s (f k s)) \<Longrightarrow> mild s (for_each f ks s)"
  by (induction ks arbitrary: s) (auto intro: mild_and_then)

lemma unrecorded_settle [simp]: "unrecorded (settle_actions p xs)"
  by (auto simp: settle_actions_def)

lemma unrecorded_save [simp]: "unrecorded (save_budget p ps now)"
  by (simp add: save_budget_def)

lemma unrecorded_close [simp]: "unrecorded (snd (close_and_settle p ps is))"
  by (simp add: close_and_settle_eq)

lemma unrecorded_discard [simp]: "unrecorded (snd (discard p ps))"
  by (simp add: discard_def)

lemma unrecorded_give_up [simp]: "unrecorded (give_up p ps now)"
  by (auto simp: give_up_def)

lemma unrecorded_refresh_session [simp]: "unrecorded (snd (refresh_session node p now ps))"
  by (auto simp: refresh_session_eq)

lemma unrecorded_poll [simp]: "unrecorded (snd (poll_buyer_session node bp p now ps))"
  by (auto simp: poll_buyer_session_def Let_def case_prod_beta split: option.splits)

lemma unrecorded_fail [simp]: "unrecorded (snd (fail_channels p is ps))"
  by (induction "is" arbitrary: ps) (auto simp: case_prod_beta Let_def)

lemma mild_refresh: "mild s (refresh p now s)"
  by (simp add: refresh_def mild_on_session)

lemma mild_settle_expiring: "mild s (settle_expiring p now s)"
  by (simp add: settle_expiring_def mild_on_session settle_expiring_in_def)

lemma mild_poll_buyer: "mild s (poll_buyer p now s)"
  by (simp add: poll_buyer_def mild_on_session)

lemma mild_request: "mild s (request_funding p mint c now s)"
  using keeps_update [of "s\<lparr>ss_next_request := ss_next_request s + 1\<rparr>" p]
  by (simp add: request_funding_def mild_def Let_def keeps_def)

lemma mild_poll_rollover: "mild s (poll_rollover p now s)"
  by (auto simp: poll_rollover_def Let_def split: option.splits list.splits
      intro: mild_request)

lemma mild_poll_opening: "mild s (poll_opening p now s)"
  by (auto simp: poll_opening_def Let_def split: option.splits list.splits intro: mild_request)

lemmas mild_intros = mild_and_then mild_push mild_on_session mild_refresh mild_settle_expiring
  mild_poll_buyer mild_poll_rollover mild_poll_opening mild_request mild_update_tell

lemma mild_reject: "mild s (reject p reason s)"
  by (simp add: reject_def mild_update_tell)

lemma mild_announce: "mild s (on_announce p m s)"
  by (simp add: on_announce_def mild_update_tell mild_reject)

lemma mild_answer_offer: "mild s (answer_offer p m r b now s)"
  by (auto simp: answer_offer_def intro: mild_request split: list.splits)

lemma mild_offer: "mild s (on_offer p m now s)"
  unfolding on_offer_def
  by (auto simp: Let_def check_weight_def split: option.splits
      intro!: mild_update [of p _ s] mild_intros mild_answer_offer)

lemma mild_funded: "mild s (on_outgoing_funded p f now s)"
  by (auto simp: on_outgoing_funded_def intro!: mild_intros split: option.splits)

lemma mild_accept: "mild s (on_accept p m now s)"
  unfolding on_accept_def by (auto intro!: mild_intros)

lemma mild_incoming: "mild s (on_incoming_verified p i c e now s)"
  unfolding on_incoming_verified_def
  by (auto simp: Let_def split: option.splits intro!: mild_update [of p _ s] mild_intros)

lemma mild_unverified: "mild s (on_unverified_topup p is now s)"
  by (auto simp: on_unverified_topup_def intro!: mild_intros split: option.splits)

subsection \<open>Purchases\<close>

text \<open>The only action that records is the one for the purchase at hand, first if at all.\<close>

definition buys_only :: "PubKey \<Rightarrow> ChannelUpdate list \<Rightarrow> Sessions \<Rightarrow> Sessions \<times> Action list \<Rightarrow> bool" where
  "buys_only p us s r =
     (keeps s (fst r)
      \<and> (unrecorded (snd r) \<or> (\<exists>rest. snd r = RecordUpdates p us # rest \<and> unrecorded rest)))"

lemma mild_buys_only: "mild s r \<Longrightarrow> buys_only p us s r"
  by (simp add: buys_only_def mild_def)

lemma buys_only_update: "buys_only p us (update_session q f s) r \<Longrightarrow> buys_only p us s r"
  using keeps_trans [OF keeps_update] by (auto simp: buys_only_def)

lemma buys_only_then_refresh:
  assumes "\<And>ps. \<exists>rest. snd (f ps) = RecordUpdates p us # rest \<and> unrecorded rest"
  shows "buys_only p us s (and_then (on_session p f) (refresh p now) s)"
proof (cases "bt_get (ss_peers s) p")
  case None
  then show ?thesis
    using mild_refresh [of s p now]
    by (simp add: buys_only_def mild_def and_then_fst_snd on_session_eq)
next
  case (Some ps)
  have "keeps s (fst (on_session p f s))"
    by (auto simp: keeps_def on_session_eq put_session_def split: option.splits)
  moreover have "snd (on_session p f s) = snd (f ps)" using Some by (simp add: on_session_eq)
  ultimately show ?thesis
    using assms [of ps] mild_refresh [of "fst (on_session p f s)" p now] keeps_trans
    by (auto simp: buys_only_def mild_def and_then_fst_snd)
qed

lemma accept_topup_records:
  "\<exists>rest. snd (accept_topup p m rs grant now ps) = RecordUpdates p (topup_updates m) # rest \<and> unrecorded rest"
  by (auto simp: accept_topup_def Let_def case_prod_beta)

lemma buys_only_topup: "buys_only p (topup_updates m) s (on_topup p m now s)"
proof (cases "too_soon s p m now")
  case None
  show ?thesis
  proof (cases "bt_get (ss_peers s) p")
    case (Some ps)
    let ?g = "grant_topup_checked (ps_grant ps) now"
    let ?v = "evaluate_topup ?g \<lparr>adm_policy = np_grants (ss_node s),
        adm_reserved_elsewhere = reserved_elsewhere s p\<rparr> (topup_updates m) (topup_window_ms m)
        (topup_reserved_rate m)"
    have "buys_only p (topup_updates m) (update_session p (ps_grant_update (\<lambda>_. ?g)) s) (on_topup p m now s)"
      using None Some
      by (cases ?v)
         (auto simp: on_topup_def Let_def buys_only_then_refresh accept_topup_records
           intro!: mild_buys_only mild_unverified mild_intros)
    then show ?thesis by (rule buys_only_update)
  qed (use None in \<open>simp add: on_topup_def buys_only_def\<close>)
next
  case (Some a)
  then have "\<not> records a" by (auto simp: too_soon_def split: option.splits if_splits)
  with Some show ?thesis by (simp add: on_topup_def buys_only_def)
qed

subsection \<open>Messages and events\<close>

definition bought :: "Message \<Rightarrow> ChannelUpdate list option" where
  "bought msg = (case msg of MTopUp m \<Rightarrow> Some (topup_updates m) | _ \<Rightarrow> None)"

lemma mild_update_poll: "mild s (poll_buyer p now (update_session q f s))"
  by (rule mild_update [OF mild_poll_buyer])

lemma mild_message_from:
  "bought msg = None \<Longrightarrow> mild s (on_message_from p msg now s)"
  by (cases msg)
     (auto simp: bought_def on_channel_ready_def on_topup_reject_def
       intro!: mild_announce mild_offer mild_accept mild_update_tell mild_update_poll)

lemma mild_message:
  assumes "bought msg = None"
  shows "mild s (on_message p msg now s)"
  using mild_update [OF mild_message_from [OF assms]]
  by (auto simp: on_message_def split: option.splits)

lemma message_buys_only: "buys_only p (topup_updates m) s (on_message p (MTopUp m) now s)"
  using buys_only_update [OF buys_only_topup]
  by (auto simp: on_message_def buys_only_def [of _ _ s "(s, [])"] split: option.splits)

text \<open>The events that may end a session: the peer's connection going, and the tick.\<close>

fun may_end :: "Event \<Rightarrow> bool" where
  "may_end (PeerConnected _ _) = True"
| "may_end (PeerDisconnected _) = True"
| "may_end Tick = True"
| "may_end _ = False"

definition event_buys :: "Event \<Rightarrow> ChannelUpdate list option" where
  "event_buys e = (case e of MessageReceived _ msg \<Rightarrow> bought msg | _ \<Rightarrow> None)"

lemma mild_event:
  "\<not> may_end e \<Longrightarrow> event_buys e = None \<Longrightarrow> mild s (handle_event e now s)"
  by (cases e)
     (auto simp: event_buys_def on_metered_def intro!: mild_message mild_incoming mild_reject mild_update_tell
       mild_update_poll mild_update [OF mild_unverified] mild_update [OF mild_funded]
       mild_update [OF mild_refresh])

lemma unrecorded_park [simp]: "unrecorded (snd (park p now s))"
  using plain_unrecorded [OF park_plain] by (metis prod.collapse)

lemma unrecorded_tick_peer [simp]: "unrecorded (snd (tick_peer now p s))"
proof -
  have "mild s' (and_then (settle_expiring p now) (and_then (refresh p now)
      (and_then (poll_buyer p now) (and_then (poll_rollover p now) (poll_opening p now)))) s')" for s'
    by (intro mild_intros)
  then show ?thesis
    by (auto simp: tick_peer_def mild_def and_then_fst_snd push_def)
qed

lemma unrecorded_for_each: "(\<And>k s. unrecorded (snd (f k s))) \<Longrightarrow> unrecorded (snd (for_each f ks s))"
  by (induction ks arbitrary: s) (auto simp: and_then_fst_snd)

lemma unrecorded_drop_parked [simp]: "unrecorded (snd (drop_parked p s))"
  by (simp add: drop_parked_def split: option.splits)

lemma unrecorded_on_parked [simp]: "unrecorded (snd (on_parked p (settle_expiring_in p now l) s))"
  by (simp add: on_parked_def case_prod_beta settle_expiring_in_def split: option.splits)

lemma unrecorded_expire [simp]: "unrecorded (snd (expire_parked now s))"
  using unrecorded_for_each [of drop_parked]
    unrecorded_for_each [of "\<lambda>p. on_parked p (settle_expiring_in p now l)" for l]
  by (auto simp: expire_parked_def and_then_fst_snd Let_def)

lemma unrecorded_keep_alive [simp]: "unrecorded (snd (keep_alive now s))"
proof -
  have "unrecorded (snd (on_session p (keep_alive_session i now p) s))" for p i s
    by (auto simp: on_session_eq keep_alive_session_def split: option.splits)
  then show ?thesis unfolding keep_alive_def Let_def by (intro unrecorded_for_each)
qed

lemma unrecorded_connected [simp]: "unrecorded (snd (on_connected p b now s))"
proof -
  have "mild s' (and_then (open_balance p q now) (refresh p now) s')" for q s'
    unfolding open_balance_def by (auto intro!: mild_intros simp: Let_def)
  moreover have "unrecorded (snd (snd (take_kept p now s)))" for s
    using plain_unrecorded [OF take_kept_frame(5)] by (metis prod.collapse)
  moreover have "unrecorded (snd (starting_session p q node b kept now))" for q node kept
    using plain_unrecorded [OF starting_session_plain] by (metis prod.collapse)
  ultimately show ?thesis
    by (auto simp: on_connected_def mild_def and_then_fst_snd push_def send_offer_def case_prod_beta Let_def)
qed

lemma unrecorded_disconnected [simp]: "unrecorded (snd (on_disconnected p now s))"
  by (auto simp: on_disconnected_def split: option.splits)

lemma unrecorded_tick: "unrecorded (snd (on_tick now s))"
  using unrecorded_for_each [of "tick_peer now" "bt_keys (ss_peers s)" s, OF unrecorded_tick_peer]
    unrecorded_expire [of now]
  unfolding on_tick_def and_then_fst_snd set_append ball_Un by blast

lemma unrecorded_event: "event_buys e = None \<Longrightarrow> unrecorded (snd (handle_event e now s))"
  using mild_event [of e s now]
  by (cases e) (auto simp: mild_def unrecorded_tick [rule_format])

lemma note_sent_keeps: "keeps s (note_sent as now s)"
proof (induction "as" arbitrary: s)
  case (Cons a "as")
  then show ?case
    using keeps_trans [OF keeps_update Cons.IH] by (auto split: option.splits)
qed simp

text \<open>Only a purchase is recorded, first and once, by the event that brings it.\<close>

lemma unrecorded_handle:
  assumes "event_buys e = None"
  shows "unrecorded (snd (handle e now s))"
proof (cases "superseded s e")
  case (Some a)
  then have "\<not> records a" by (cases e) (auto split: if_splits)
  with Some show ?thesis by (simp add: handle_def)
qed (use unrecorded_event [OF assms] in
    \<open>auto simp: handle_def case_prod_beta Let_def and_then_fst_snd push_def\<close>)

lemma handle_buys_only:
  "unrecorded (snd (handle (MessageReceived p (MTopUp m)) now s))
    \<or> (\<exists>rest. snd (handle (MessageReceived p (MTopUp m)) now s) = RecordUpdates p (topup_updates m) # rest
        \<and> unrecorded rest)"
  using message_buys_only [of p m s now]
  by (auto simp: handle_def buys_only_def case_prod_beta Let_def)

lemma unrecorded_forget: "unrecorded (snd (forget p now s))"
  by (auto simp: forget_def Let_def split: option.splits)

text \<open>An event that can end no session keeps them all.\<close>

lemma event_keeps:
  assumes "\<not> may_end e"
  shows "keeps s (fst (handle_event e now s))"
proof (cases "event_buys e")
  case None
  with mild_event [OF assms] show ?thesis by (simp add: mild_def)
next
  case (Some us)
  then obtain p m where "e = MessageReceived p (MTopUp m)"
    by (auto simp: event_buys_def bought_def split: Message.splits Event.splits)
  with message_buys_only [of p m s now] show ?thesis by (simp add: buys_only_def)
qed

subsection \<open>Every event keeps every peer in step\<close>

definition steady :: "Sessions \<Rightarrow> Sessions \<times> Action list \<Rightarrow> bool" where
  "steady s r = (\<forall>h q. tracks s h q \<longrightarrow> tracks (fst r) (carry_out_all (snd r) h) q)"

lemma steady_and_then: "steady s (f s) \<Longrightarrow> (\<And>s. steady s (g s)) \<Longrightarrow> steady s (and_then f g s)"
  by (simp add: steady_def and_then_fst_snd)

lemma steady_for_each: "(\<And>k s. steady s (f k s)) \<Longrightarrow> steady s (for_each f ks s)"
proof (induction ks arbitrary: s)
  case (Cons k ks)
  show ?case unfolding for_each.simps by (rule steady_and_then) (rule Cons)+
qed (simp add: steady_def)

lemma steadyI: "peer_step rv now p s (fst r) (snd r) \<Longrightarrow> keeps s (fst r) \<Longrightarrow> steady s r"
  unfolding steady_def keeps_def by (blast intro: peer_step_tracks)

lemma tracks_update:
  assumes "\<And>ps. ps_access (f ps) = ps_access ps" "\<And>ps. ps_applied_rate (f ps) = ps_applied_rate ps"
  shows "tracks (update_session p f s) h q = tracks s h q"
proof (cases "q = p")
  case True
  with assms show ?thesis
    by (cases "bt_get (ss_peers s) p") (auto simp: tracks_def agrees_def agree_def update_session_eq)
next
  case False
  then show ?thesis
    by (auto simp: tracks_def agrees_def update_session_eq put_session_def split: option.splits)
qed

lemma tracks_note_sent: "tracks (note_sent as now s) h q = tracks s h q"
  by (induction "as" arbitrary: s) (auto simp: tracks_update split: option.splits)

lemma steady_tick_peer: "steady s (tick_peer now p s)"
proof -
  have "tracks (fst (tick_peer now p s)) (carry_out_all (snd (tick_peer now p s)) h) q"
    if step: "tracks s h q" for h q
  proof -
    note steps = stepwiseD [OF stepwise_tick_peer, of True now p s]
    show ?thesis
    proof (cases "is_stale s p now \<and> q = p")
      case True
      then have "snd (tick_peer now p s) = snd (park p now s) @ [DropPeer p]"
        by (simp add: tick_peer_def and_then_fst_snd push_def)
      then show ?thesis
        using True step peer_step_agrees [OF steps, of h] by (simp add: tracks_def)
    next
      case False
      have "mild s' (and_then (settle_expiring p now) (and_then (refresh p now)
          (and_then (poll_buyer p now) (and_then (poll_rollover p now) (poll_opening p now)))) s')" for s'
        by (intro mild_intros)
      from mild_update [OF this] have "\<not> is_stale s p now \<Longrightarrow> keeps s (fst (tick_peer now p s))"
        by (simp add: tick_peer_def mild_def)
      then show ?thesis
        using False step peer_step_tracks [OF steps step] peer_step_tracks_other [OF steps]
        by (cases "q = p") (auto simp: keeps_def)
    qed
  qed
  then show ?thesis by (simp add: steady_def)
qed

lemma steady_parked:
  "steady s (drop_parked p s)" "steady s (on_parked p (settle_expiring_in p now l) s)"
proof -
  obtain s1 out1 where 1: "drop_parked p s = (s1, out1)" by force
  show "steady s (drop_parked p s)"
    using held_frame(1) [OF 1] peer_step.let_go [OF 1, of True now]
    by (intro steadyI [of True now p]) (simp_all add: keeps_def 1)
next
  obtain s1 out1 where 1: "on_parked p (settle_expiring_in p now l) s = (s1, out1)" by force
  show "steady s (on_parked p (settle_expiring_in p now l) s)"
    using held_frame(2) [OF 1] peer_step.held_due [OF 1, of True]
    by (intro steadyI [of True now p]) (simp_all add: keeps_def 1)
qed

lemma steady_expire_parked: "steady s (expire_parked now s)"
  unfolding expire_parked_def Let_def by (intro steady_and_then steady_for_each steady_parked)

lemma steady_keep_alive: "steady s (keep_alive now s)"
proof -
  have "steady s (on_session p (keep_alive_session i now p) s)" for p i s
    by (intro steadyI [of True now p] step_calm keep_alive_session_calm)
       (auto simp: keeps_def on_session_eq put_session_def split: option.splits)
  then show ?thesis unfolding keep_alive_def Let_def by (intro steady_for_each)
qed

lemma steady_tick: "steady s (on_tick now s)"
  unfolding on_tick_def by (intro steady_and_then steady_for_each steady_tick_peer steady_expire_parked)

lemma steady_note_sent: "steady s (s', out) \<Longrightarrow> steady s (note_sent as now s', out)"
  by (simp add: steady_def tracks_note_sent)

text \<open>So does every event but a connection coming or going, for which the host acts first.\<close>

lemma steady_handle:
  assumes "\<forall>p b. e \<noteq> PeerConnected p b" "\<forall>p. e \<noteq> PeerDisconnected p"
  shows "steady s (handle e now s)"
proof (cases "superseded s e")
  case (Some a)
  then have "carry_out a h = h" for h by (cases e) (auto split: if_splits)
  with Some show ?thesis by (simp add: handle_def steady_def)
next
  case None
  show ?thesis
  proof (cases "event_peer e")
    case (Some p)
    then have "\<not> may_end e" using assms by (cases e) auto
    moreover have "handle e now s
        = (note_sent (snd (handle_event e now s)) now (fst (handle_event e now s)), snd (handle_event e now s))"
      using None Some by (cases e) (auto simp: handle_def case_prod_beta Let_def)
    moreover have "peer_step True now p s (fst (handle_event e now s)) (snd (handle_event e now s))"
      using assms(1) by (intro step_handle_event [OF Some]) simp_all
    ultimately show ?thesis
      using steady_note_sent [of s "fst (handle_event e now s)" "snd (handle_event e now s)"]
      by (simp add: steadyI event_keeps)
  next
    case None
    then have "e = Tick" by (cases e) auto
    then have "handle e now s = and_then (\<lambda>s. let (s', out) = on_tick now s in (note_sent out now s', out)) (keep_alive now) s"
      by (simp add: handle_def and_then_def push_def case_prod_beta Let_def)
    moreover have "steady s (let (s', out) = on_tick now s in (note_sent out now s', out))"
      using steady_note_sent steady_tick by (simp add: case_prod_beta)
    ultimately show ?thesis by (simp add: steady_and_then steady_keep_alive)
  qed
qed

text \<open>
  A connection that came leaves its peer in step whatever the host held for it before, and one that
  went does if the host has closed the peer's gate.
\<close>

lemma handle_conn_eq:
  "handle (PeerConnected p b) now s
     = (note_sent (snd (on_connected p b now s)) now (fst (on_connected p b now s)), snd (on_connected p b now s))"
  "handle (PeerDisconnected p) now s
     = (note_sent (snd (on_disconnected p now s)) now (fst (on_disconnected p now s)), snd (on_disconnected p now s))"
  by (simp_all add: handle_def case_prod_beta Let_def)

lemma on_connected_present:
  assumes "\<not> pp_blocked (override_of s p)"
  shows "bt_get (ss_peers (fst (on_connected p b now s))) p \<noteq> None"
proof -
  have "mild s1 (and_then (open_balance p q now) (refresh p now) s1)" for q s1
    unfolding open_balance_def by (auto intro!: mild_intros simp: Let_def)
  then have "keeps s1 (fst (and_then (open_balance p q now) (refresh p now) s1))" for q s1
    by (simp add: mild_def)
  then show ?thesis
    using assms unfolding on_connected_def override_of_def [symmetric]
    by (auto simp: keeps_def and_then_fst_snd push_def send_offer_def update_session_eq case_prod_beta Let_def)
qed

lemma connects_agrees:
  assumes "connects now p s s' out"
  shows "agrees s' (carry_out_all out h) p"
proof -
  from assms obtain policy budget s1 kept out1 ps out2 offer rest where
    1: "take_kept p now s = (s1, kept, out1)"
    and 2: "starting_session p policy (ss_node s1) budget kept now = (ps, out2)"
    and 3: "s' = put_session p (ps\<lparr>ps_offer_sent := Some offer\<rparr>) s1"
    and out: "plain_for p rest" "out = out1 @ out2 @ SetAccess p AccessNone # rest"
    unfolding connects_def by blast
  have "agrees s' (carry_out (SetAccess p AccessNone) h') p" for h'
    using starting_session_gate [OF 2] by (simp add: 3 agrees_put agree_def)
  from agrees_plain_all [OF out(1) this] show ?thesis by (simp add: out(2))
qed

lemma connected_tracks:
  assumes "\<And>q. q \<noteq> p \<Longrightarrow> tracks s h q"
  shows "tracks (fst (handle (PeerConnected p b) now s)) (carry_out_all (snd (handle (PeerConnected p b) now s)) h) q"
proof -
  let ?s = "fst (on_connected p b now s)" and ?out = "snd (on_connected p b now s)"
  have "tracks ?s (carry_out_all ?out h) q"
  proof (cases "pp_blocked (override_of s p)")
    case True
    then have "on_connected p b now s = (s, [Send p (MDisconnect \<lparr>disc_reason = OtherReason\<rparr>), DropPeer p])"
      by (simp add: on_connected_def override_of_def)
    then show ?thesis
      using assms [of q] by (auto simp: tracks_def agrees_def agree_def)
  next
    case False
    then obtain s1 out1 out2 where conn: "connects now p s s1 out1"
      and step: "peer_step True now p s1 ?s out2" and out: "?out = out1 @ out2"
      using on_connected_steps [of now p s True b] by blast
    show ?thesis
    proof (cases "q = p")
      case True
      then show ?thesis
        using peer_step_agrees [OF step connects_agrees [OF conn]] on_connected_present [OF False, of b now]
        by (auto simp: tracks_def out)
    next
      case other: False
      have "tracks s1 (carry_out_all out1 h) q"
        using connects_local(1,2) [OF conn] other carry_out_all_other [of out1 q h] assms [OF other]
        by (subst tracks_other [of q s s1 h]) blast+
      with peer_step_tracks_other [OF step other] show ?thesis by (simp add: out)
    qed
  qed
  then show ?thesis by (simp add: handle_conn_eq tracks_note_sent)
qed

lemma disconnected_tracks:
  assumes "\<And>q. tracks s h q" and closed: "hv_access h p = AccessNone"
  shows "tracks (fst (handle (PeerDisconnected p) now s))
    (carry_out_all (snd (handle (PeerDisconnected p) now s)) h) q"
proof -
  note step = stepwiseD [OF stepwise_on_disconnected, of True now p s]
  have "plain_for p (snd (on_disconnected p now s))"
    using park_plain [OF prod.collapse [symmetric], of p now s]
    by (auto simp: on_disconnected_def split: option.splits)
  from plain_closed_all [OF this closed] have "tracks (fst (on_disconnected p now s))
      (carry_out_all (snd (on_disconnected p now s)) h) q"
    using peer_step_tracks_other [OF step, of q h] peer_step_agrees [OF step, of h] assms(1) [of q]
    by (cases "q = p") (simp_all add: tracks_def)
  then show ?thesis by (simp add: handle_conn_eq tracks_note_sent)
qed

lemma forget_tracks:
  assumes "q \<noteq> p" "tracks s h q"
  shows "tracks (fst (forget p now s)) (carry_out_all (snd (forget p now s)) h) q"
proof -
  have "plain_for p (snd (forget p now s))"
    by (auto simp: forget_def Let_def split: option.splits)
  then have "same_view q h (carry_out_all (snd (forget p now s)) h)"
    using assms(1) by (intro carry_out_all_other) (auto dest: plain_for_peer)
  moreover have "untouched q s (fst (forget p now s))"
    using assms(1) by (simp add: untouched_def forget_def Let_def)
  ultimately show ?thesis using assms(2) tracks_other by blast
qed

end
