(* ===== verification/Node_Properties.thy ===== *)
theory Node_Properties
  imports Node Session_Host
begin

text \<open>
  The driver (\<open>crates/tollgate-net/src/node.rs\<close>) over a run of its loop: carrying out core's actions
  refines \<open>carry_out\<close> for every enforcer that keeps its interface's laws, so in every reachable state
  the enforcer lets through what core has recorded and nothing else; and of a payer's signatures the
  backend keeps only those of purchases it has verified.
\<close>

subsection \<open>What steps leave alone\<close>

lemma node_send_frame [simp]:
  "nd_sessions (node_send env p msg nd) = nd_sessions nd"
  "nd_enforcer (node_send env p msg nd) = nd_enforcer nd"
  "nd_channels (node_send env p msg nd) = nd_channels nd"
  "nd_links (node_send env p msg nd) = nd_links nd"
  by (simp_all add: node_send_def split: option.splits)

lemma execute_sessions [simp]: "nd_sessions (execute hp env a nd) = nd_sessions nd"
  by (cases a) (simp_all add: Let_def case_prod_beta split: option.splits)

lemma execute_all_simps [simp]:
  "execute_all hp env [] nd = nd"
  "execute_all hp env (a # out) nd = execute_all hp env out (execute hp env a nd)"
  by (simp_all add: execute_all_def)

lemma execute_all_sessions [simp]: "nd_sessions (execute_all hp env out nd) = nd_sessions nd"
  by (induction out arbitrary: nd) simp_all

lemma execute_channels: "\<not> records a \<Longrightarrow> nd_channels (execute hp env a nd) = nd_channels nd"
  by (cases a) (simp_all add: Let_def case_prod_beta split: option.splits)

lemma execute_all_channels: "unrecorded out \<Longrightarrow> nd_channels (execute_all hp env out nd) = nd_channels nd"
  by (induction out arbitrary: nd) (simp_all add: execute_channels)

declare execute.simps [simp del]

lemma dispatch_sessions [simp]:
  "nd_sessions (dispatch hp env e nd) = fst (handle e (env_now env) (nd_sessions nd))"
  by (simp add: dispatch_def dispatched_def)

text \<open>A job ends in one of four events, and only a job's end is added to \<open>nd_done\<close>.\<close>

fun job_event :: "Event \<Rightarrow> bool" where
  "job_event (OutgoingChannelFunded _ _ _ _ _ _) = True"
| "job_event (OutgoingFundingFailed _ _) = True"
| "job_event (IncomingFundingVerified _ _ _ _ _) = True"
| "job_event (IncomingFundingRejected _ _) = True"
| "job_event _ = False"

definition jobs_ok :: "('e, 'b) Node \<Rightarrow> bool" where
  "jobs_ok nd = (\<forall>x \<in> set (nd_done nd). job_event (snd x))"

lemma execute_done [simp]: "nd_done (execute hp env a nd) = nd_done nd"
  by (cases a) (simp_all add: execute.simps node_send_def Let_def case_prod_beta split: option.splits)

lemma execute_all_done [simp]: "nd_done (execute_all hp env out nd) = nd_done nd"
  by (induction out arbitrary: nd) simp_all

lemma node_send_done [simp]: "nd_done (node_send env p msg nd) = nd_done nd"
  by (simp add: node_send_def split: option.splits)

lemma dispatch_done [simp]: "nd_done (dispatch hp env e nd) = nd_done nd"
  by (simp add: dispatch_def dispatched_def)

lemma sample_peer_done [simp]: "nd_done (sample_peer hp env p nd) = nd_done nd"
  by (simp add: sample_peer_def Let_def)

lemma fold_keeps: "(\<And>x nd. f (g x nd) = f nd) \<Longrightarrow> f (fold g xs nd) = f nd"
  by (induction xs arbitrary: nd) simp_all

lemma on_peer_topup_done [simp]: "nd_done (on_peer_topup hp env p t nd) = nd_done nd"
  by (simp add: on_peer_topup_def split: option.splits)

lemma on_wire_done [simp]: "nd_done (on_wire hp env e nd) = nd_done nd"
  by (cases e)
     (simp_all add: on_peer_up_def come_back_def moved_away_def up_link_def on_peer_down_def Let_def
        dispatched_def split: Message.splits)

lemma release_deferred_done [simp]: "nd_done (release_deferred hp env nd) = nd_done nd"
  unfolding release_deferred_def Let_def
  by (rule fold_keeps [of nd_done], subst fold_keeps [of nd_done]) simp_all

lemma node_tick_done [simp]: "nd_done (node_tick hp env nd) = nd_done nd"
  by (simp add: node_tick_def Let_def fold_keeps)

lemma run_job_jobs:
  assumes "jobs_ok nd"
  shows "jobs_ok (run_job hp env j nd)"
  using assms
  by (cases j)
     (auto simp: jobs_ok_def finish_fund_def finish_verify_def Let_def case_prod_beta split: sum.splits)

lemma set_without_index: "set (without_index k xs) \<subseteq> set xs"
  using set_take_subset [of k xs] set_drop_subset [of "Suc k" xs] by (auto simp: without_index_def)

lemma node_step_jobs: "jobs_ok nd \<Longrightarrow> jobs_ok (node_step hp env i nd)"
proof (cases i)
  case (JobRuns k)
  moreover assume "jobs_ok nd"
  then have "jobs_ok (nd\<lparr>nd_spawned := without_index k (nd_spawned nd)\<rparr>)" by (simp add: jobs_ok_def)
  ultimately show ?thesis using run_job_jobs [of "nd\<lparr>nd_spawned := without_index k (nd_spawned nd)\<rparr>"] \<open>jobs_ok nd\<close> by simp
next
  case (JobReports k)
  moreover assume "jobs_ok nd"
  ultimately show ?thesis using set_without_index [of k "nd_done nd"] by (auto simp: jobs_ok_def)
qed (simp_all add: jobs_ok_def)

subsection \<open>The enforcer follows core\<close>

context enforcer begin

definition view :: "('e, 'b) Node \<Rightarrow> HostView" where
  "view nd = \<lparr>hv_link = (\<lambda>p. bt_get (nd_links nd) p \<noteq> None), hv_access = access (nd_enforcer nd),
     hv_rate = enf_shaping_rate ops (nd_enforcer nd)\<rparr>"

lemma view_sessions [simp]: "view (nd\<lparr>nd_sessions := s\<rparr>) = view nd"
  by (simp add: view_def)

lemma view_frame: "nd_links nd' = nd_links nd \<Longrightarrow> nd_enforcer nd' = nd_enforcer nd \<Longrightarrow> view nd' = view nd"
  by (simp add: view_def)

lemma view_execute:
  assumes "hp_enforcer hp = ops"
  shows "view (execute hp env a nd) = carry_out a (view nd)"
  using assms
  by (cases a)
     (auto simp: execute.simps view_def fun_eq_iff access_set access_keeps rate_set rate_keeps remove_access remove_rate
        Let_def case_prod_beta split: option.splits)

lemma view_execute_all:
  assumes "hp_enforcer hp = ops"
  shows "view (execute_all hp env out nd) = carry_out_all out (view nd)"
  by (induction out arbitrary: nd) (simp_all add: view_execute [OF assms])

definition follows :: "('e, 'b) Node \<Rightarrow> PubKey \<Rightarrow> bool" where
  "follows nd q = tracks (nd_sessions nd) (view nd) q"

lemma follows_dispatch:
  assumes "hp_enforcer hp = ops" "\<forall>p b. e \<noteq> PeerConnected p b" "\<forall>p. e \<noteq> PeerDisconnected p"
    and "follows nd q"
  shows "follows (dispatch hp env e nd) q"
  using steady_handle [OF assms(2,3)] assms(4)
  by (simp add: steady_def follows_def dispatch_def dispatched_def view_execute_all [OF assms(1)])

lemma follows_cases:
  assumes "follows nd p"
  shows "case bt_get (ss_peers (nd_sessions nd)) p of
      None \<Rightarrow> access (nd_enforcer nd) p = AccessNone
    | Some ps \<Rightarrow>
        if bt_get (nd_links nd) p \<noteq> None
        then access (nd_enforcer nd) p = ps_access ps
          \<and> ps_applied_rate ps \<in> {None, Some (enf_shaping_rate ops (nd_enforcer nd) p)}
        else access (nd_enforcer nd) p \<in> {ps_access ps, AccessNone}
          \<and> (ps_applied_rate ps \<in> {None, Some (enf_shaping_rate ops (nd_enforcer nd) p)}
             \<or> enf_shaping_rate ops (nd_enforcer nd) p = 0)"
proof (cases "bt_get (ss_peers (nd_sessions nd)) p")
  case None
  with assms show ?thesis by (simp add: follows_def view_def tracks_def)
next
  case (Some ps)
  with assms show ?thesis
    by (cases "ps_applied_rate ps") (auto simp: follows_def view_def tracks_def agrees_def agree_def)
qed

lemma follows_same:
  "nd_sessions nd' = nd_sessions nd \<Longrightarrow> nd_links nd' = nd_links nd \<Longrightarrow> nd_enforcer nd' = nd_enforcer nd
    \<Longrightarrow> follows nd' q = follows nd q"
  by (simp add: follows_def view_def)

lemma follows_quiet:
  assumes "hp_enforcer hp = ops" "\<And>h. carry_out a h = h"
  shows "follows (execute hp env a nd) q = follows nd q"
  by (simp add: follows_def view_execute [OF assms(1)] assms(2))

lemma follows_fold: "(\<And>x nd. follows nd q \<Longrightarrow> follows (f x nd) q) \<Longrightarrow> follows nd q \<Longrightarrow> follows (fold f xs nd) q"
  by (induction xs arbitrary: nd) simp_all

lemma too_soon_quiet: "too_soon s p t now = Some a \<Longrightarrow> carry_out a h = h"
  by (auto simp: too_soon_def split: option.splits if_splits)

lemma follows_topup:
  assumes "hp_enforcer hp = ops" "follows nd q"
  shows "follows (on_peer_topup hp env p t nd) q"
  using assms(2) follows_dispatch [OF assms(1)] follows_quiet [OF assms(1) too_soon_quiet]
  by (auto simp: on_peer_topup_def follows_same [OF node_send_frame(1,4,2)] split: option.splits)

lemma follows_down:
  assumes "hp_enforcer hp = ops" "\<And>q. follows nd q"
  shows "follows (on_peer_down hp env p conn nd) q"
proof (cases "replaced nd p conn")
  case False
  let ?nd = "nd\<lparr>nd_links := bt_remove p (nd_links nd), nd_deferred := bt_remove p (nd_deferred nd),
      nd_enforcer := enf_remove (hp_enforcer hp) (nd_enforcer nd) p\<rparr>"
  have view: "view ?nd = carry_out (DropPeer p) (view nd)"
    by (auto simp: view_def fun_eq_iff assms(1) remove_access remove_rate)
  have "tracks (nd_sessions nd) (view ?nd) q" for q
    using assms(2) [of q] by (auto simp: follows_def view tracks_def agrees_def agree_def)
  moreover have "hv_access (view ?nd) p = AccessNone" by (simp add: view)
  ultimately have "tracks (fst (handle (PeerDisconnected p) (env_now env) (nd_sessions nd)))
      (carry_out_all (snd (handle (PeerDisconnected p) (env_now env) (nd_sessions nd))) (view ?nd)) q"
    by (intro disconnected_tracks) simp_all
  then show ?thesis
    using False by (simp add: on_peer_down_def follows_def dispatch_def dispatched_def
        view_execute_all [OF assms(1)])
qed (use assms(2) in \<open>simp add: on_peer_down_def\<close>)

lemma follows_up_link:
  assumes "hp_enforcer hp = ops" "q \<noteq> p" "follows nd q"
  shows "follows (up_link hp p conn addr nd) q"
proof -
  have "same_view q (view nd) (view (up_link hp p conn addr nd))"
    using assms(1,2) by (simp add: same_view_def view_def up_link_def Let_def remove_access remove_rate register_keeps)
  moreover have "nd_sessions (up_link hp p conn addr nd) = nd_sessions nd"
    by (simp add: up_link_def Let_def)
  ultimately show ?thesis
    using assms(3) tracks_other [of q "nd_sessions nd" "nd_sessions nd"] by (simp add: follows_def untouched_def)
qed

lemma follows_moved:
  assumes "hp_enforcer hp = ops" "q \<noteq> p" "follows nd q"
  shows "follows (moved_away hp env p key nd) q"
  using forget_tracks [OF assms(2)] assms(3)
  by (simp add: follows_def moved_away_def dispatched_def view_execute_all [OF assms(1)])

lemma follows_connected:
  assumes "hp_enforcer hp = ops" "\<And>q. q \<noteq> p \<Longrightarrow> follows nd q"
  shows "follows (dispatch hp env (PeerConnected p b) nd) q"
  using connected_tracks [of p "nd_sessions nd" "view nd" b "env_now env" q] assms(2)
  by (simp add: follows_def dispatch_def dispatched_def view_execute_all [OF assms(1)])

lemma follows_up:
  assumes "hp_enforcer hp = ops" "\<And>q. follows nd q"
  shows "follows (on_peer_up hp env p conn addr nd) q"
  unfolding on_peer_up_def come_back_def Let_def
proof (rule follows_connected [OF assms(1)])
  fix r and key :: string
  assume "r \<noteq> p"
  then have "follows (moved_away hp env p key (up_link hp p conn addr nd)) r"
    by (intro follows_moved [OF assms(1)] follows_up_link [OF assms(1)] assms(2))
  then show "follows (moved_away hp env p key (up_link hp p conn addr nd)
      \<lparr>nd_budget_keys := bt_insert p key (nd_budget_keys (moved_away hp env p key (up_link hp p conn addr nd)))\<rparr>) r"
    by (simp add: follows_def view_def)
qed

lemma follows_wire:
  assumes "hp_enforcer hp = ops" "\<And>q. follows nd q"
  shows "follows (on_wire hp env e nd) q"
  using assms(2) follows_up [OF assms] follows_down [OF assms] follows_topup [OF assms(1)]
    follows_dispatch [OF assms(1)]
  by (cases e) (auto split: Message.splits)

lemma follows_tick:
  assumes "hp_enforcer hp = ops" "follows nd q"
  shows "follows (node_tick hp env nd) q"
proof -
  have sample: "follows (sample_peer hp env p nd) q" if "follows nd q" for p nd
    using that by (simp add: sample_peer_def Let_def follows_dispatch [OF assms(1)])
  have verify: "follows (execute hp env (VerifyFunding p f) nd) q" if "follows nd q" for p f nd
    using that by (subst follows_quiet [OF assms(1)]) simp_all
  have released: "follows (release_deferred hp env nd) q"
    unfolding release_deferred_def Let_def
    by (rule follows_fold; (rule follows_fold)?; (rule verify)?; (rule assms(2))?)
       (simp_all add: follows_def view_def)
  then show ?thesis
    unfolding node_tick_def Let_def
    by (intro follows_dispatch [OF assms(1)] follows_fold sample) (simp_all add: follows_def view_def)
qed

lemma run_job_frame:
  "nd_sessions (run_job hp env j nd) = nd_sessions nd" "nd_links (run_job hp env j nd) = nd_links nd"
  "nd_enforcer (run_job hp env j nd) = nd_enforcer nd"
  by (cases j; simp add: finish_fund_def finish_verify_def Let_def case_prod_beta split: sum.splits)+

lemma follows_step:
  assumes "hp_enforcer hp = ops" "jobs_ok nd" "\<And>q. follows nd q"
  shows "follows (node_step hp env i nd) q"
proof (cases i)
  case (BuyingChanged bp)
  then show ?thesis
    using assms(3) [of q] by (simp add: follows_def tracks_def agrees_def set_buyer_policy_def)
next
  case (FromWire e)
  then show ?thesis using follows_wire [OF assms(1,3)] by simp
next
  case Ticked
  then show ?thesis using follows_tick [OF assms(1) assms(3)] by simp
next
  case (JobRuns k)
  then show ?thesis using assms(3) [of q] by (simp add: follows_same [OF run_job_frame] follows_def view_def run_job_frame)
next
  case (JobReports k)
  have "follows (nd\<lparr>nd_done := ds\<rparr>) q" for ds
    using assms(3) [of q] by (simp add: follows_def view_def)
  moreover have "k < length (nd_done nd) \<Longrightarrow> job_event (snd (nd_done nd ! k))"
    using assms(2) by (simp add: jobs_ok_def)
  ultimately show ?thesis
    using JobReports assms(3)
    by (auto intro!: follows_dispatch [OF assms(1)])
qed

lemma follows_run:
  assumes "hp_enforcer hp = ops" "jobs_ok nd" "\<forall>q. follows nd q"
  shows "\<forall>q. follows (node_run hp inputs nd) q"
  using assms(2,3)
proof (induction inputs arbitrary: nd)
  case (Cons input rest)
  then have "\<forall>q. follows (node_run hp rest (node_step hp (fst input) (snd input) nd)) q"
    by (intro Cons.IH) (simp_all add: node_step_jobs follows_step [OF assms(1)])
  then show ?case by (simp add: node_run_def case_prod_beta)
qed (simp add: node_run_def)

end

subsection \<open>A run from the start\<close>

lemma start_sessions:
  "ss_peers (nd_sessions (node_new local policy buyer peers enf chans budgets file)) = []"
proof -
  have "ss_peers (foldl configure s ps) = []"
    if "ss_peers s = []" for s and ps :: "(PubKey \<times> PeerPolicy) list"
    using that by (induction ps arbitrary: s) (auto simp: set_peer_policy_def Let_def split: option.splits)
  then show ?thesis by (simp add: node_new_def sessions_new_def)
qed

lemma start_jobs: "jobs_ok (node_new local policy buyer peers enf chans budgets file)"
  by (simp add: node_new_def jobs_ok_def)

lemma node_run_jobs: "jobs_ok nd \<Longrightarrow> jobs_ok (node_run hp inputs nd)"
  by (induction inputs arbitrary: nd) (simp_all add: node_run_def case_prod_beta node_step_jobs)

lemma start_follows:
  assumes "\<And>p. access enf p = AccessNone" and "enforcer ops access"
  shows "enforcer.follows ops access (node_new local policy buyer peers enf chans budgets file) q"
  unfolding enforcer.follows_def [OF assms(2)] tracks_def agrees_def start_sessions
  by (simp add: enforcer.view_def [OF assms(2)] node_new_def assms(1))


subsection \<open>What the backend keeps\<close>

lemma dispatch_channels:
  "event_buys e = None \<Longrightarrow> nd_channels (dispatch hp env e nd) = nd_channels nd"
  by (simp add: dispatch_def dispatched_def execute_all_channels unrecorded_handle del: bex_simps ball_simps)

lemma dispatch_topup_channels:
  "nd_channels (dispatch hp env (MessageReceived p (MTopUp t)) nd) \<in>
     {nd_channels nd, record_updates (hp_channels hp) p (topup_updates t) (nd_channels nd)}"
  using handle_buys_only [of p t "env_now env" "nd_sessions nd"]
  by (auto simp: dispatch_def dispatched_def execute_all_channels execute.simps)

lemma wire_channels:
  assumes "\<And>p conn t. e \<noteq> WireMessage p conn (MTopUp t)"
  shows "nd_channels (on_wire hp env e nd) = nd_channels nd"
proof (cases e)
  case (PeerUp p conn addr)
  then show ?thesis
    by (simp add: on_peer_up_def come_back_def moved_away_def up_link_def Let_def dispatch_channels
        event_buys_def dispatched_def execute_all_channels unrecorded_forget)
next
  case (PeerDown p conn)
  then show ?thesis by (simp add: on_peer_down_def dispatch_channels event_buys_def)
next
  case (WireMessage p conn msg)
  with assms have "bought msg = None" by (auto simp: bought_def split: Message.splits)
  with WireMessage assms show ?thesis
    by (auto simp: dispatch_channels event_buys_def split: Message.splits)
qed

lemma tick_channels: "nd_channels (node_tick hp env nd) = nd_channels nd"
proof -
  have "nd_channels (sample_peer hp env p nd) = nd_channels nd" for p nd
    by (simp add: sample_peer_def Let_def dispatch_channels event_buys_def)
  moreover have "nd_channels (release_deferred hp env nd) = nd_channels nd"
    unfolding release_deferred_def Let_def
    by (rule fold_keeps [of nd_channels], subst fold_keeps [of nd_channels]) (simp_all add: execute_channels)
  ultimately show ?thesis
    by (simp add: node_tick_def Let_def dispatch_channels event_buys_def fold_keeps)
qed

lemma topup_channels:
  assumes "nd_channels (on_peer_topup hp env p t nd) \<noteq> nd_channels nd"
  shows "enf_selling (hp_enforcer hp) (nd_enforcer nd) p \<and> too_soon (nd_sessions nd) p t (env_now env) = None
    \<and> list_all (\<lambda>u. cb_verify_update (hp_channels hp) (nd_channels nd) p (upd_channel_id u)
        (upd_cumulative u) (upd_signature u)) (topup_updates t)
    \<and> nd_channels (on_peer_topup hp env p t nd)
        = record_updates (hp_channels hp) p (topup_updates t) (nd_channels nd)"
proof -
  have "\<not> records a" if "too_soon (nd_sessions nd) p t (env_now env) = Some a" for a
    using that by (auto simp: too_soon_def split: option.splits if_splits)
  then show ?thesis
    using assms dispatch_topup_channels [of hp env p t nd]
    by (auto simp: on_peer_topup_def dispatch_channels event_buys_def execute_channels find_None_iff list_all_iff
        split: if_splits option.splits)
qed


subsection \<open>A payer served\<close>

text \<open>
  A backend that takes any funding for a channel of 1000 named by its bytes, and keeps what it is told
  to record; and a run in which a peer connects, opens a channel and pays.
\<close>

definition ex_backend :: "(PubKey \<times> ChannelId \<times> u64) list ChannelBackend" where
  "ex_backend =
     \<lparr>cb_fund = (\<lambda>b p mint c. (Inl OtherError, b)),
      cb_verify_funding = (\<lambda>b p funding. (Inr \<lparr>vc_channel_id = ChannelId funding, vc_capacity = 1000,
         vc_mint_url = ex_mint, vc_expiry = None\<rparr>, b)),
      cb_sign_update = (\<lambda>b ch v. None), cb_verify_update = (\<lambda>b p ch v sig. sig = Signature []),
      cb_record_update = (\<lambda>b p ch v sig. (True, b @ [(p, ch, v)])), cb_settle = (\<lambda>b ch. None)\<rparr>"

definition ex_host :: "(Loopback, (PubKey \<times> ChannelId \<times> u64) list) HostParts" where
  "ex_host = \<lparr>hp_enforcer = loopback_ops, hp_channels = ex_backend, hp_identity = IdPubkey,
     hp_hex = (\<lambda>_. []), hp_show_ip = (\<lambda>_. [])\<rparr>"

definition ex_env :: NodeEnv where
  "ex_env = \<lparr>env_now = 0, env_unix = 0, env_disk_ok = True, env_room = (\<lambda>_ _. True)\<rparr>"

definition ex_inputs :: "(NodeEnv \<times> NodeInput) list" where
  "ex_inputs = map (\<lambda>i. (ex_env, i))
     [FromWire (PeerUp ex_peer_a 1 (V4 [])), FromWire (WireMessage ex_peer_a 1 (MAccept \<lparr>acc_funding = [7]\<rparr>)),
      JobRuns 0, JobReports 0]"

definition ex_pays :: NodeInput where
  "ex_pays = FromWire (WireMessage ex_peer_a 1 (MTopUp (ex_topup 7 500)))"

definition ex_nd :: "(Loopback, (PubKey \<times> ChannelId \<times> u64) list) Node" where
  "ex_nd = node_run ex_host ex_inputs
     (node_new (PubKey [1]) ex_node BuyerPolicy_default [] lb_new [] bs_in_memory NoFile)"

text \<open>What core answers along the way.\<close>

definition ex_s1 :: Sessions where
  "ex_s1 = fst (handle (PeerConnected ex_peer_a None) 0 ex_start)"

definition ex_s2 :: Sessions where
  "ex_s2 = fst (handle (MessageReceived ex_peer_a (MAccept \<lparr>acc_funding = [7]\<rparr>)) 0 ex_s1)"

definition ex_s3 :: Sessions where
  "ex_s3 = fst (handle (IncomingFundingVerified ex_peer_a (ChannelId [7]) 1000 None ex_mint) 0 ex_s2)"

lemma ex_answer1:
  "handle (PeerConnected ex_peer_a None) 0 ex_start =
     (ex_s1,
      [SetAccess ex_peer_a AccessNone,
       Send ex_peer_a (MAnnounce \<lparr>ann_version = 1, ann_pubkey = PubKey [1], ann_unit = ''byte'',
         ann_capabilities = 0\<rparr>),
       Send ex_peer_a (MOffer \<lparr>offer_accepted_mints = [ex_mint], offer_unit = ''byte'',
         offer_min_window_ms = 1000, offer_max_window_ms = 2592000000, offer_from_payer_weight = 1,
         offer_no_charge = False, offer_min_reserved_rate = 0, offer_min_topup_gap_ms = 1000\<rparr>),
       Send ex_peer_a (MBalance \<lparr>bal_remaining = 0, bal_expires_in_ms = 0, bal_reserved_rate = 0\<rparr>),
       SetShapingRate ex_peer_a 0])"
  by (rule prod_eqI) (simp add: ex_s1_def, code_simp)

lemma ex_answer2:
  "handle (MessageReceived ex_peer_a (MAccept \<lparr>acc_funding = [7]\<rparr>)) 0 ex_s1
    = (ex_s2, [VerifyFunding ex_peer_a [7]])"
  by (rule prod_eqI) (simp add: ex_s2_def, code_simp)

lemma ex_answer3:
  "handle (IncomingFundingVerified ex_peer_a (ChannelId [7]) 1000 None ex_mint) 0 ex_s2 =
     (ex_s3, [Send ex_peer_a (MChannelReady \<lparr>ready_channel_id = ChannelId [7]\<rparr>),
              SetAccess ex_peer_a AccessActive])"
  by (rule prod_eqI) (simp add: ex_s3_def, code_simp)

lemma ex_answer4:
  "too_soon ex_s3 ex_peer_a (ex_topup 7 500) 0 = None"
  "snd (handle (MessageReceived ex_peer_a (MTopUp (ex_topup 7 500))) 0 ex_s3) =
     [RecordUpdates ex_peer_a (topup_updates (ex_topup 7 500)),
      SaveBudget ex_peer_a \<lparr>bud_remaining = 500, bud_deadline = 10000\<rparr>,
      Send ex_peer_a (MBalance \<lparr>bal_remaining = 500, bal_expires_in_ms = 10000, bal_reserved_rate = 80\<rparr>),
      SetShapingRate ex_peer_a 80]"
  by code_simp+

lemmas ex_node_simps = node_new_def ex_host_def ex_env_def ex_backend_def loopback_ops_def
  dispatch_def dispatched_def execute.simps node_send_def on_peer_up_def come_back_def moved_away_def
  up_link_def replaced_def run_job.simps finish_verify_def without_index_def bs_get_def
  bs_in_memory_def lb_defs lb_new_def

lemma ex_nd_facts:
  "nd_sessions ex_nd = ex_s3" "nd_channels ex_nd = []" "lb_access (nd_enforcer ex_nd) ex_peer_a = AccessActive"
  "bt_get (nd_links ex_nd) ex_peer_a = Some \<lparr>nl_conn = 1, nl_addr = V4 []\<rparr>"
  by (simp_all add: ex_nd_def node_run_def ex_inputs_def ex_node_simps ex_start_def [symmetric]
      ex_answer1 ex_answer2 ex_answer3 cong: let_weak_cong)

lemma ex_nd_channels:
  "nd_channels (node_step ex_host ex_env ex_pays ex_nd) = [(ex_peer_a, ChannelId [7], 500)]"
  using ex_nd_facts ex_answer4
  by (simp add: ex_pays_def ex_topup_def ex_node_simps on_peer_topup_def Let_def case_prod_beta
      split: option.split)



end
