(* ===== verification/Enforcer_External.thy ===== *)
theory Enforcer_External
  imports Enforcer_Protocol Btree_Map Meter Access_Level "HOL-Library.Product_Lexorder"
begin

text \<open>
  The client of an external enforcer (\<open>crates/tollgate-net/src/enforcer/external.rs\<close>): the state behind
  its mutex, one function per method, and what the task that keeps the connection does to it. The
  mutex-guarded maps are passed through, a hash map as an ordered one.

  A link's queue is everything ever put in it, \<open>el_out\<close>, with the number of messages the writer has
  taken so far; \<open>try_send\<close> fails when as many are waiting as the channel has room for. Dropping the
  link closes the socket, so what was still waiting is never written.
\<close>

subsection \<open>The hello\<close>

record Expected =
  exp_identity :: Identity
  exp_unit :: string

datatype Refusal =
    RefusedVersion u8
  | RefusedIdentity Identity Identity
  | RefusedUnit string string

definition check_hello :: "Hello \<Rightarrow> Expected \<Rightarrow> Refusal option" where
  "check_hello hello expected =
     (if hello_version hello \<noteq> E_PROTOCOL_VERSION then Some (RefusedVersion (hello_version hello))
      else if hello_identity hello \<noteq> exp_identity expected
      then Some (RefusedIdentity (exp_identity expected) (hello_identity hello))
      else if hello_unit hello \<noteq> exp_unit expected
      then Some (RefusedUnit (exp_unit expected) (hello_unit hello))
      else None)"

datatype DelegateError = DeNoEnforcer | DeRefused | DeUnknownPayer | DeTooMany

subsection \<open>The state\<close>

record ExtPeer =
  ep_seq :: u64
  ep_addr :: IpAddr
  ep_delegated :: "Subject list"
  ep_rate :: u64
  ep_demand :: u64
  ep_base :: Counters
  ep_current :: Counters
  ep_conflicted :: bool

definition ep_total :: "ExtPeer \<Rightarrow> Counters" where
  "ep_total ep =
     \<lparr>to_payer = sat_add (to_payer (ep_base ep)) (to_payer (ep_current ep)),
      from_payer = sat_add (from_payer (ep_base ep)) (from_payer (ep_current ep))\<rparr>"

record ExtLink =
  el_id :: u64
  el_out :: "EnforcerMessage list"
  el_taken :: nat
  el_room :: nat

record ExtState =
  xs_identity :: Identity
  xs_peers :: "(PubKey, ExtPeer) btreemap"
  xs_link :: "ExtLink option"
  xs_hello :: "Hello option"
  xs_next_id :: u64
  xs_next_seq :: u64

definition OUTBOX :: nat where
  "OUTBOX = 4096"

definition xs_new :: "Identity \<Rightarrow> ExtState" where
  "xs_new identity =
     \<lparr>xs_identity = identity, xs_peers = [], xs_link = None, xs_hello = None, xs_next_id = 0,
      xs_next_seq = 0\<rparr>"

text \<open>Everything a peer holds that the enforcer takes: what this node has, then what was delegated.\<close>

definition bindings_for :: "Identity \<Rightarrow> Hello \<Rightarrow> PubKey \<Rightarrow> IpAddr \<Rightarrow> Subject list \<Rightarrow> Binding list" where
  "bindings_for identity hello peer addr delegated =
     (let direct = (case identity of
            IdPubkey \<Rightarrow> subject_pubkey peer | IdAddress \<Rightarrow> subject_address addr)
      in take MAX_BINDINGS (filter (hello_accepts hello)
           (\<lparr>bind_subject = direct, bind_delegated = False\<rparr>
            # map (\<lambda>s. \<lparr>bind_subject = s, bind_delegated = True\<rparr>) delegated)))"

definition xs_bindings :: "ExtState \<Rightarrow> PubKey \<Rightarrow> Binding list" where
  "xs_bindings st peer =
     (case (xs_hello st, bt_get (xs_peers st) peer) of
        (Some hello, Some entry) \<Rightarrow>
          bindings_for (xs_identity st) hello peer (ep_addr entry) (ep_delegated entry)
      | _ \<Rightarrow> [])"

definition wire_rate :: "u64 \<Rightarrow> u64 option" where
  "wire_rate rate = (if rate \<noteq> U64_MAX then Some rate else None)"

definition drop_link :: "ExtState \<Rightarrow> ExtState" where
  "drop_link st =
     (case xs_link st of
        None \<Rightarrow> st
      | Some _ \<Rightarrow>
          st\<lparr>xs_link := None,
             xs_peers := map (\<lambda>(k, ep). (k, ep\<lparr>ep_base := ep_total ep, ep_current := counters_zero\<rparr>))
               (xs_peers st)\<rparr>)"

definition drop_link_if :: "u64 \<Rightarrow> ExtState \<Rightarrow> ExtState" where
  "drop_link_if conn st =
     (if (case xs_link st of None \<Rightarrow> False | Some l \<Rightarrow> el_id l = conn) then drop_link st else st)"

definition xs_send :: "EnforcerMessage \<Rightarrow> ExtState \<Rightarrow> ExtState" where
  "xs_send msg st =
     (case xs_link st of
        None \<Rightarrow> st
      | Some l \<Rightarrow>
          if length (el_out l) - el_taken l < el_room l
          then st\<lparr>xs_link := Some (l\<lparr>el_out := el_out l @ [msg]\<rparr>)\<rparr>
          else drop_link st)"

definition xs_bind :: "PubKey \<Rightarrow> ExtState \<Rightarrow> ExtState" where
  "xs_bind peer st = xs_send (EBind \<lparr>bind_peer = peer, bind_bindings = xs_bindings st peer\<rparr>) st"

definition xs_set :: "PubKey \<Rightarrow> ExtState \<Rightarrow> ExtState" where
  "xs_set peer st =
     (case bt_get (xs_peers st) peer of
        None \<Rightarrow> st
      | Some entry \<Rightarrow> xs_send (ESet \<lparr>set_peer = peer, set_rate = wire_rate (ep_rate entry)\<rparr>) st)"

subsection \<open>What the node asks of it\<close>

definition xs_delegate :: "PubKey \<Rightarrow> Subject \<Rightarrow> ExtState \<Rightarrow> DelegateError option \<times> ExtState" where
  "xs_delegate payer subject st =
     (case xs_hello st of
        None \<Rightarrow> (Some DeNoEnforcer, st)
      | Some hello \<Rightarrow>
          if \<not> hello_delegated hello then (Some DeRefused, st)
          else case bt_get (xs_peers st) payer of
                 None \<Rightarrow> (Some DeUnknownPayer, st)
               | Some entry \<Rightarrow>
                   if subject \<in> set (ep_delegated entry) then (None, st)
                   else if length (ep_delegated entry) + 1 \<ge> MAX_BINDINGS then (Some DeTooMany, st)
                   else (None, xs_bind payer (st\<lparr>xs_peers := bt_insert payer
                          (entry\<lparr>ep_delegated := ep_delegated entry @ [subject]\<rparr>) (xs_peers st)\<rparr>)))"

definition xs_connected :: "ExtState \<Rightarrow> bool" where
  "xs_connected st = (xs_link st \<noteq> None)"

definition xs_register :: "ExtState \<Rightarrow> PubKey \<Rightarrow> IpAddr \<Rightarrow> ExtState" where
  "xs_register st peer addr =
     (case bt_get (xs_peers st) peer of
        Some entry \<Rightarrow>
          if ep_addr entry = addr then st
          else xs_set peer (xs_bind peer (st\<lparr>xs_peers := bt_insert peer
                 (entry\<lparr>ep_addr := addr, ep_conflicted := False\<rparr>) (xs_peers st)\<rparr>))
      | None \<Rightarrow>
          let seq = xs_next_seq st + 1
          in xs_set peer (xs_bind peer (st\<lparr>xs_next_seq := seq, xs_peers := bt_insert peer
               \<lparr>ep_seq = seq, ep_addr = addr, ep_delegated = [], ep_rate = 0, ep_demand = 0,
                ep_base = counters_zero, ep_current = counters_zero, ep_conflicted = False\<rparr>
               (xs_peers st)\<rparr>)))"

definition xs_set_access :: "ExtState \<Rightarrow> PubKey \<Rightarrow> AccessLevel \<Rightarrow> ExtState" where
  "xs_set_access st peer access = st"

definition xs_set_shaping_rate :: "ExtState \<Rightarrow> PubKey \<Rightarrow> u64 \<Rightarrow> ExtState" where
  "xs_set_shaping_rate st peer rate =
     (case bt_get (xs_peers st) peer of
        None \<Rightarrow> st
      | Some entry \<Rightarrow>
          if ep_rate entry = rate then st
          else xs_set peer (st\<lparr>xs_peers := bt_insert peer (entry\<lparr>ep_rate := rate\<rparr>) (xs_peers st)\<rparr>))"

definition xs_counters :: "ExtState \<Rightarrow> PubKey \<Rightarrow> Counters" where
  "xs_counters st peer =
     (case bt_get (xs_peers st) peer of None \<Rightarrow> counters_zero | Some entry \<Rightarrow> ep_total entry)"

definition xs_demand :: "ExtState \<Rightarrow> PubKey \<Rightarrow> u64" where
  "xs_demand st peer = (case bt_get (xs_peers st) peer of None \<Rightarrow> 0 | Some entry \<Rightarrow> ep_demand entry)"

definition xs_set_demand :: "ExtState \<Rightarrow> PubKey \<Rightarrow> u64 \<Rightarrow> ExtState" where
  "xs_set_demand st peer rate =
     (case bt_get (xs_peers st) peer of
        None \<Rightarrow> st
      | Some entry \<Rightarrow> st\<lparr>xs_peers := bt_insert peer (entry\<lparr>ep_demand := rate\<rparr>) (xs_peers st)\<rparr>)"

definition xs_shaping_rate :: "ExtState \<Rightarrow> PubKey \<Rightarrow> u64" where
  "xs_shaping_rate st peer = (case bt_get (xs_peers st) peer of None \<Rightarrow> 0 | Some entry \<Rightarrow> ep_rate entry)"

definition xs_remove :: "ExtState \<Rightarrow> PubKey \<Rightarrow> ExtState" where
  "xs_remove st peer =
     (case bt_get (xs_peers st) peer of
        None \<Rightarrow> st
      | Some _ \<Rightarrow> xs_send (ERemove \<lparr>remove_peer = peer\<rparr>) (st\<lparr>xs_peers := bt_remove peer (xs_peers st)\<rparr>))"

definition xs_selling :: "ExtState \<Rightarrow> PubKey \<Rightarrow> bool" where
  "xs_selling st peer =
     (xs_link st \<noteq> None
      \<and> \<not> (case bt_get (xs_peers st) peer of None \<Rightarrow> False | Some entry \<Rightarrow> ep_conflicted entry))"

subsection \<open>The connection\<close>

text \<open>
  A \<open>hello\<close> accepted: the new link, every conflict forgotten, and the full state queued, in the order
  the payers arrived.
\<close>

definition arrival_order :: "(PubKey, ExtPeer) btreemap \<Rightarrow> PubKey list" where
  "arrival_order peers = map snd (sort (map (\<lambda>(k, ep). (ep_seq ep, k)) peers))"

definition install :: "Hello \<Rightarrow> ExtState \<Rightarrow> ExtState" where
  "install hello st =
     (let conn = xs_next_id st + 1;
          st = st\<lparr>xs_hello := Some hello, xs_next_id := conn,
             xs_link := Some \<lparr>el_id = conn, el_out = [], el_taken = 0,
               el_room = OUTBOX + 2 * length (xs_peers st)\<rparr>,
             xs_peers := map (\<lambda>(k, ep). (k, ep\<lparr>ep_conflicted := False\<rparr>)) (xs_peers st)\<rparr>
      in fold (\<lambda>peer st. xs_set peer (xs_bind peer st)) (arrival_order (xs_peers st)) st)"

datatype Heard = HeardOn | HeardStop | HeardBroken

text \<open>One message on the connection \<open>conn\<close>: to read on, to stop, or a breach of the protocol.\<close>

definition heard :: "u64 \<Rightarrow> EnforcerMessage \<Rightarrow> ExtState \<Rightarrow> Heard \<times> ExtState" where
  "heard conn msg st =
     (if (case xs_link st of None \<Rightarrow> True | Some l \<Rightarrow> el_id l \<noteq> conn) then (HeardStop, st)
      else case msg of
             ECounters c \<Rightarrow>
               (case bt_get (xs_peers st) (cnt_peer c) of
                  None \<Rightarrow> (HeardOn, st)
                | Some entry \<Rightarrow>
                    (HeardOn, st\<lparr>xs_peers := bt_insert (cnt_peer c) (entry\<lparr>ep_current :=
                       \<lparr>to_payer = max (cnt_to_payer c) (to_payer (ep_current entry)),
                        from_payer = max (cnt_from_payer c) (from_payer (ep_current entry))\<rparr>\<rparr>)
                       (xs_peers st)\<rparr>))
           | EConflict c \<Rightarrow>
               (case bt_get (xs_peers st) (conf_peer c) of
                  None \<Rightarrow> (HeardOn, st)
                | Some entry \<Rightarrow>
                    (HeardOn, st\<lparr>xs_peers := bt_insert (conf_peer c) (entry\<lparr>ep_conflicted := True\<rparr>)
                       (xs_peers st)\<rparr>))
           | _ \<Rightarrow> (HeardBroken, st))"

text \<open>
  The frames of one read; a message that does not decode is a breach too, and one whose decoding
  panics ends the task.
\<close>

datatype ReadOutcome = ReadOn | ReadStopped | ReadBroken | ReadUnwound

fun heard_all ::
  "u64 \<Rightarrow> (EnforcerError Failure + EnforcerMessage) list \<Rightarrow> ExtState \<Rightarrow> ReadOutcome \<times> ExtState" where
  "heard_all conn [] st = (ReadOn, st)"
| "heard_all conn (Inl (Err e) # msgs) st = (ReadBroken, st)"
| "heard_all conn (Inl Panic # msgs) st = (ReadUnwound, st)"
| "heard_all conn (Inr msg # msgs) st =
     (case heard conn msg st of
        (HeardOn, st) \<Rightarrow> heard_all conn msgs st
      | (HeardStop, st) \<Rightarrow> (ReadStopped, st)
      | (HeardBroken, st) \<Rightarrow> (ReadBroken, st))"

text \<open>
  The loop: what has been read is gone through, and then there is another read, an empty one (or the end
  of the list) being the enforcer closing.
\<close>

fun ext_read_loop ::
  "Cbor_Lib \<Rightarrow> u64 \<Rightarrow> u8 list list \<Rightarrow> FrameReader \<Rightarrow> ExtState \<Rightarrow> ReadOutcome \<times> ExtState" where
  "ext_read_loop c conn [] reader st =
     (case heard_all conn (fst (drain (e_decode c) reader)) st of
        (ReadOn, st) \<Rightarrow> (ReadBroken, st)
      | ended \<Rightarrow> ended)"
| "ext_read_loop c conn (buf # reads) reader st =
     (let (msgs, reader) = drain (e_decode c) reader
      in case heard_all conn msgs st of
           (ReadOn, st) \<Rightarrow>
             if buf = [] then (ReadBroken, st)
             else if pending (fr_push buf reader) > MAX_FRAME_LEN * 2 then (ReadBroken, st)
             else ext_read_loop c conn reads (fr_push buf reader) st
         | ended \<Rightarrow> ended)"

text \<open>The first message has to be a \<open>hello\<close>; what a refused one means.\<close>

datatype HelloRead = HelloIs Hello | HelloWanted | HelloBad

definition first_message :: "(EnforcerError Failure + EnforcerMessage) option \<Rightarrow> HelloRead" where
  "first_message m =
     (case m of
        None \<Rightarrow> HelloWanted
      | Some (Inr (EHello hello)) \<Rightarrow> HelloIs hello
      | Some _ \<Rightarrow> HelloBad)"

fun read_hello :: "Cbor_Lib \<Rightarrow> u8 list list \<Rightarrow> FrameReader \<Rightarrow> HelloRead \<times> FrameReader" where
  "read_hello c [] reader =
     (case next_enforcer_message c reader of
        (m, reader) \<Rightarrow> (if m = None then HelloBad else first_message m, reader))"
| "read_hello c (buf # reads) reader =
     (case next_enforcer_message c reader of
        (None, reader) \<Rightarrow>
          if buf = [] then (HelloBad, reader) else read_hello c reads (fr_push buf reader)
      | (m, reader) \<Rightarrow> (first_message m, reader))"

datatype SessionStart = StartAccepted | StartRefused Refusal | StartError

definition session_start :: "HelloRead \<Rightarrow> Expected \<Rightarrow> SessionStart" where
  "session_start r expected =
     (case r of
        HelloIs hello \<Rightarrow>
          (case check_hello hello expected of
             None \<Rightarrow> StartAccepted
           | Some (RefusedVersion v) \<Rightarrow> StartError
           | Some refusal \<Rightarrow> StartRefused refusal)
      | _ \<Rightarrow> StartError)"

text \<open>
  What \<open>maintain\<close> makes of how a connection began, while the first outcome is still waited for
  (\<open>first\<close>): tell it, and give up if it is a refusal, or try again.
\<close>

datatype Maintain = TellAccepted | TellRefused Refusal | TryAgain

definition maintain :: "bool \<Rightarrow> SessionStart \<Rightarrow> Maintain" where
  "maintain first start =
     (case start of
        StartAccepted \<Rightarrow> if first then TellAccepted else TryAgain
      | StartRefused refusal \<Rightarrow> if first then TellRefused refusal else TryAgain
      | StartError \<Rightarrow> TryAgain)"

subsection \<open>Runs\<close>

text \<open>
  What happens to the state, in whatever order: the node's calls, a connection that says \<open>hello\<close> (one
  at a time, and only an accepted one installs a link), a message read on a connection, the writer
  taking one, and a connection's end.
\<close>

datatype ExtInput =
    XRegister PubKey IpAddr
  | XSetRate PubKey u64
  | XSetDemand PubKey u64
  | XRemove PubKey
  | XDelegate PubKey Subject
  | XHello Hello
  | XHeard u64 EnforcerMessage
  | XTaken
  | XEnded u64

fun ext_step :: "Expected \<Rightarrow> ExtState \<Rightarrow> ExtInput \<Rightarrow> ExtState" where
  "ext_step expected st (XRegister peer addr) = xs_register st peer addr"
| "ext_step expected st (XSetRate peer rate) = xs_set_shaping_rate st peer rate"
| "ext_step expected st (XSetDemand peer rate) = xs_set_demand st peer rate"
| "ext_step expected st (XRemove peer) = xs_remove st peer"
| "ext_step expected st (XDelegate payer subject) = snd (xs_delegate payer subject st)"
| "ext_step expected st (XHello hello) =
     (if xs_link st = None \<and> session_start (HelloIs hello) expected = StartAccepted
      then install hello st else st)"
| "ext_step expected st (XHeard conn msg) =
     (case heard conn msg st of
        (HeardOn, st) \<Rightarrow> st
      | (_, st) \<Rightarrow> drop_link_if conn st)"
| "ext_step expected st XTaken =
     (case xs_link st of
        None \<Rightarrow> st
      | Some l \<Rightarrow> if el_taken l < length (el_out l)
                  then st\<lparr>xs_link := Some (l\<lparr>el_taken := el_taken l + 1\<rparr>)\<rparr> else st)"
| "ext_step expected st (XEnded conn) = drop_link_if conn st"

definition ext_run :: "Expected \<Rightarrow> ExtInput list \<Rightarrow> ExtState" where
  "ext_run expected inputs = foldl (ext_step expected) (xs_new (exp_identity expected)) inputs"

end
