(* ===== verification/Enforcer_Agreement.thy ===== *)
theory Enforcer_Agreement
  imports Enforcer_External
begin

text \<open>
  What holds of the client of an external enforcer (\<open>crates/tollgate-net/src/enforcer/external.rs\<close>) in
  every run: the enforcer at the other end, which obeys what it is sent, holds what the client holds;
  everything sent is something the enforcer takes; and the counters never go back.
\<close>

subsection \<open>An enforcer that does as it is told\<close>

text \<open>
  For each payer it knows, the subjects and the rate, by \<open>docs/design/core/tollgate-enforcer-protocol.md\<close>:
  a \<open>bind\<close> replaces the subjects and leaves the rate, which is closed at first; \<open>set\<close> is the rate of a
  payer it knows; \<open>remove\<close> forgets it.
\<close>

type_synonym Held = "PubKey \<rightharpoonup> Binding list \<times> u64 option"

fun obey :: "EnforcerMessage \<Rightarrow> Held \<Rightarrow> Held" where
  "obey (EBind b) m =
     m(bind_peer b \<mapsto> (bind_bindings b, case m (bind_peer b) of None \<Rightarrow> Some 0 | Some (_, r) \<Rightarrow> r))"
| "obey (ESet s) m =
     (case m (set_peer s) of None \<Rightarrow> m | Some (bs, _) \<Rightarrow> m(set_peer s \<mapsto> (bs, set_rate s)))"
| "obey (ERemove r) m = m(remove_peer r := None)"
| "obey _ m = m"

definition enforcer_holds :: "EnforcerMessage list \<Rightarrow> Held" where
  "enforcer_holds out = fold obey out Map.empty"

lemma enforcer_holds_simps [simp]:
  "enforcer_holds [] = Map.empty" "enforcer_holds (out @ [m]) = obey m (enforcer_holds out)"
  "enforcer_holds (out @ [m1, m2]) = obey m2 (obey m1 (enforcer_holds out))"
  by (simp_all add: enforcer_holds_def)

definition node_holds :: "ExtState \<Rightarrow> Held" where
  "node_holds st p =
     map_option (\<lambda>ep. (xs_bindings st p, wire_rate (ep_rate ep))) (bt_get (xs_peers st) p)"

definition agreed :: "ExtState \<Rightarrow> bool" where
  "agreed st = (\<forall>l. xs_link st = Some l \<longrightarrow> enforcer_holds (el_out l) = node_holds st)"

subsection \<open>Sending\<close>

lemma xs_send_linked:
  assumes "xs_link (xs_send m st) = Some l'"
  obtains l where "xs_link st = Some l" "l' = l\<lparr>el_out := el_out l @ [m]\<rparr>"
    "xs_send m st = st\<lparr>xs_link := Some l'\<rparr>"
  using assms by (auto simp: xs_send_def drop_link_def split: option.splits if_splits)

lemma bindings_link [simp]: "xs_bindings (st\<lparr>xs_link := l\<rparr>) p = xs_bindings st p"
  by (simp add: xs_bindings_def cong: option.case_cong)

lemma node_holds_link [simp]: "node_holds (st\<lparr>xs_link := l\<rparr>) = node_holds st"
  by (simp add: node_holds_def fun_eq_iff)

definition told :: "ExtState \<Rightarrow> PubKey \<Rightarrow> EnforcerMessage list" where
  "told st p =
     [EBind \<lparr>bind_peer = p, bind_bindings = xs_bindings st p\<rparr>,
      ESet \<lparr>set_peer = p, set_rate = wire_rate (ep_rate (the (bt_get (xs_peers st) p)))\<rparr>]"

lemma told_linked:
  assumes "xs_link (xs_set p (xs_bind p st)) = Some l'" "bt_get (xs_peers st) p = Some ep"
  obtains l where "xs_link st = Some l" "l' = l\<lparr>el_out := el_out l @ told st p\<rparr>"
    "xs_set p (xs_bind p st) = st\<lparr>xs_link := Some l'\<rparr>"
proof -
  let ?bind = "EBind \<lparr>bind_peer = p, bind_bindings = xs_bindings st p\<rparr>"
  have "xs_link (xs_bind p st) \<noteq> None"
    using assms(1) by (auto simp: xs_set_def xs_send_def split: option.splits)
  then obtain l1 where "xs_link (xs_bind p st) = Some l1" by blast
  then obtain l where l: "xs_link st = Some l" "l1 = l\<lparr>el_out := el_out l @ [?bind]\<rparr>"
    and st1: "xs_bind p st = st\<lparr>xs_link := Some l1\<rparr>"
    unfolding xs_bind_def by (rule xs_send_linked)
  have "xs_set p (xs_bind p st)
      = xs_send (ESet \<lparr>set_peer = p, set_rate = wire_rate (ep_rate ep)\<rparr>) (st\<lparr>xs_link := Some l1\<rparr>)"
    by (simp add: xs_set_def st1 assms(2))
  with assms(1) show ?thesis
    by (auto elim!: xs_send_linked intro!: that simp: l told_def assms(2))
qed

lemma obey_told:
  "obey (told st p ! 1) (obey (told st p ! 0) m)
    = m(p \<mapsto> (xs_bindings st p, wire_rate (ep_rate (the (bt_get (xs_peers st) p)))))"
  by (simp add: told_def)

lemma holds_told:
  "enforcer_holds (out @ told st p)
    = (enforcer_holds out)(p \<mapsto> (xs_bindings st p, wire_rate (ep_rate (the (bt_get (xs_peers st) p)))))"
  using obey_told [of st p "enforcer_holds out"] by (simp add: told_def)

subsection \<open>One payer changed\<close>

lemma bindings_other:
  "q \<noteq> p \<Longrightarrow> xs_bindings (st\<lparr>xs_peers := bt_insert p ep (xs_peers st)\<rparr>) q = xs_bindings st q"
  by (simp add: xs_bindings_def cong: option.case_cong)

lemma node_holds_put:
  "node_holds (st\<lparr>xs_peers := bt_insert p ep (xs_peers st)\<rparr>)
    = (node_holds st)(p \<mapsto> (xs_bindings (st\<lparr>xs_peers := bt_insert p ep (xs_peers st)\<rparr>) p,
        wire_rate (ep_rate ep)))"
  by (simp add: fun_eq_iff node_holds_def bindings_other)

lemma node_holds_remove:
  "node_holds (st\<lparr>xs_peers := bt_remove p (xs_peers st)\<rparr>) = (node_holds st)(p := None)"
  by (auto simp: fun_eq_iff node_holds_def xs_bindings_def cong: option.case_cong)

lemma agreed_link: "agreed st \<Longrightarrow> xs_link st = Some l \<Longrightarrow> enforcer_holds (el_out l) = node_holds st"
  by (simp add: agreed_def)

lemma agreed_told:
  assumes "agreed st"
  shows "agreed (xs_set p (xs_bind p (st\<lparr>xs_peers := bt_insert p ep (xs_peers st)\<rparr>)))"
  unfolding agreed_def
proof (intro allI impI)
  let ?st = "st\<lparr>xs_peers := bt_insert p ep (xs_peers st)\<rparr>"
  fix l' assume "xs_link (xs_set p (xs_bind p ?st)) = Some l'"
  then obtain l where "xs_link ?st = Some l" "l' = l\<lparr>el_out := el_out l @ told ?st p\<rparr>"
    "xs_set p (xs_bind p ?st) = ?st\<lparr>xs_link := Some l'\<rparr>"
    by (rule told_linked) simp
  then show "enforcer_holds (el_out l') = node_holds (xs_set p (xs_bind p ?st))"
    using agreed_link [OF assms] by (simp add: holds_told node_holds_put)
qed

lemma agreed_quiet:
  "agreed st \<Longrightarrow> node_holds st' = node_holds st \<Longrightarrow> xs_link st' = xs_link st \<Longrightarrow> agreed st'"
  by (simp add: agreed_def)

lemma agreed_dropped: "agreed st \<Longrightarrow> agreed (drop_link st)"
  by (auto simp: agreed_def drop_link_def split: option.splits)

lemma agreed_drop_if: "agreed st \<Longrightarrow> agreed (drop_link_if i st)"
  by (simp add: drop_link_if_def agreed_dropped)

lemma agreed_register:
  assumes "agreed st"
  shows "agreed (xs_register st p addr)"
proof -
  have "agreed (st\<lparr>xs_next_seq := n\<rparr>)" for n
    by (rule agreed_quiet [OF assms]) (simp_all add: fun_eq_iff node_holds_def xs_bindings_def cong: option.case_cong)
  from agreed_told [OF this] agreed_told [OF assms] show ?thesis
    using assms by (auto simp: xs_register_def Let_def split: option.splits)
qed

lemma agreed_rate:
  assumes "agreed st"
  shows "agreed (xs_set_shaping_rate st p rate)"
proof (cases "bt_get (xs_peers st) p")
  case (Some ep)
  let ?st = "st\<lparr>xs_peers := bt_insert p (ep\<lparr>ep_rate := rate\<rparr>) (xs_peers st)\<rparr>"
  have same: "xs_bindings ?st p = xs_bindings st p"
    by (simp add: xs_bindings_def Some cong: option.case_cong)
  have "agreed (xs_set p ?st)"
    unfolding agreed_def
  proof (intro allI impI)
    fix l' assume "xs_link (xs_set p ?st) = Some l'"
    then obtain l where "xs_link ?st = Some l"
      "l' = l\<lparr>el_out := el_out l @ [ESet \<lparr>set_peer = p, set_rate = wire_rate rate\<rparr>]\<rparr>"
      "xs_set p ?st = ?st\<lparr>xs_link := Some l'\<rparr>"
      by (auto simp: xs_set_def elim: xs_send_linked)
    then show "enforcer_holds (el_out l') = node_holds (xs_set p ?st)"
      using agreed_link [OF assms] by (simp add: node_holds_put same) (simp add: node_holds_def Some)
  qed
  with assms Some show ?thesis by (simp add: xs_set_shaping_rate_def)
qed (use assms in \<open>simp add: xs_set_shaping_rate_def\<close>)

lemma agreed_remove:
  assumes "agreed st"
  shows "agreed (xs_remove st p)"
proof (cases "bt_get (xs_peers st) p")
  case (Some ep)
  let ?st = "st\<lparr>xs_peers := bt_remove p (xs_peers st)\<rparr>"
  have "agreed (xs_send (ERemove \<lparr>remove_peer = p\<rparr>) ?st)"
    unfolding agreed_def
  proof (intro allI impI)
    fix l' assume "xs_link (xs_send (ERemove \<lparr>remove_peer = p\<rparr>) ?st) = Some l'"
    then obtain l where "xs_link ?st = Some l" "l' = l\<lparr>el_out := el_out l @ [ERemove \<lparr>remove_peer = p\<rparr>]\<rparr>"
      "xs_send (ERemove \<lparr>remove_peer = p\<rparr>) ?st = ?st\<lparr>xs_link := Some l'\<rparr>"
      by (rule xs_send_linked)
    then show "enforcer_holds (el_out l') = node_holds (xs_send (ERemove \<lparr>remove_peer = p\<rparr>) ?st)"
      using agreed_link [OF assms] by (simp add: node_holds_remove)
  qed
  with Some show ?thesis by (simp add: xs_remove_def)
qed (use assms in \<open>simp add: xs_remove_def\<close>)

subsection \<open>The full state\<close>

lemma xs_send_room:
  "xs_link st = Some l \<Longrightarrow> length (el_out l) - el_taken l < el_room l
    \<Longrightarrow> xs_send m st = st\<lparr>xs_link := Some (l\<lparr>el_out := el_out l @ [m]\<rparr>)\<rparr>"
  by (simp add: xs_send_def)

lemma told_room:
  assumes "xs_link st = Some l" "length (el_out l) + 2 \<le> el_room l" "bt_get (xs_peers st) p \<noteq> None"
  shows "xs_set p (xs_bind p st) = st\<lparr>xs_link := Some (l\<lparr>el_out := el_out l @ told st p\<rparr>)\<rparr>"
  using assms by (auto simp: xs_bind_def xs_set_def told_def xs_send_room)

lemma told_cong [simp]: "told (st\<lparr>xs_link := l\<rparr>) p = told st p"
  by (simp add: told_def)

lemma length_told [simp]: "length (told st p) = 2"
  by (simp add: told_def)

lemma fold_told:
  assumes "xs_link st = Some l" "length (el_out l) + 2 * length ks \<le> el_room l"
    "\<forall>k \<in> set ks. bt_get (xs_peers st) k \<noteq> None"
  shows "fold (\<lambda>p st. xs_set p (xs_bind p st)) ks st
    = st\<lparr>xs_link := Some (l\<lparr>el_out := el_out l @ concat (map (told st) ks)\<rparr>)\<rparr>"
  using assms
proof (induction ks arbitrary: st l)
  case (Cons k ks)
  let ?l = "l\<lparr>el_out := el_out l @ told st k\<rparr>"
  have "xs_set k (xs_bind k st) = st\<lparr>xs_link := Some ?l\<rparr>"
    using Cons.prems by (intro told_room) auto
  with Cons.IH [of "st\<lparr>xs_link := Some ?l\<rparr>" ?l] Cons.prems show ?case by simp
qed simp

lemma holds_all_told:
  "\<forall>k \<in> set ks. bt_get (xs_peers st) k \<noteq> None
    \<Longrightarrow> enforcer_holds (concat (map (told st) ks)) = (\<lambda>p. if p \<in> set ks then node_holds st p else None)"
proof (induction ks rule: rev_induct)
  case (snoc k ks)
  then show ?case by (auto simp: holds_told fun_eq_iff node_holds_def)
qed (simp add: fun_eq_iff)

lemma arrival_keys: "set (arrival_order m) = fst ` set m" "length (arrival_order m) = length m"
  by (auto simp: arrival_order_def image_image case_prod_beta)

lemma map_of_map_entry: "map_of (map (\<lambda>(k, v). (k, f v)) m) = map_option f \<circ> map_of m"
  by (induction m) auto

text \<open>
  The full state always fits in the queue of a new link, and the enforcer that gets it holds what the
  client does.
\<close>

definition fresh_link :: "Hello \<Rightarrow> ExtState \<Rightarrow> ExtState" where
  "fresh_link hello st =
     st\<lparr>xs_hello := Some hello, xs_next_id := xs_next_id st + 1,
        xs_link := Some \<lparr>el_id = xs_next_id st + 1, el_out = [], el_taken = 0,
          el_room = OUTBOX + 2 * length (xs_peers st)\<rparr>,
        xs_peers := map (\<lambda>(k, ep). (k, ep\<lparr>ep_conflicted := False\<rparr>)) (xs_peers st)\<rparr>"

lemma install_eq:
  "\<exists>l. xs_link (install hello st) = Some l \<and> el_taken l = 0
    \<and> el_out l = concat (map (told (fresh_link hello st)) (arrival_order (xs_peers (fresh_link hello st))))
    \<and> install hello st = (fresh_link hello st)\<lparr>xs_link := Some l\<rparr>"
proof -
  let ?st = "fresh_link hello st"
  have "\<forall>k \<in> set (arrival_order (xs_peers ?st)). bt_get (xs_peers ?st) k \<noteq> None"
    by (auto simp: arrival_keys map_of_eq_None_iff)
  moreover have link: "xs_link ?st = Some \<lparr>el_id = xs_next_id st + 1, el_out = [], el_taken = 0,
      el_room = OUTBOX + 2 * length (xs_peers st)\<rparr>"
    and size: "length (arrival_order (xs_peers ?st)) = length (xs_peers st)"
    by (simp_all add: fresh_link_def arrival_keys)
  moreover have "install hello st
      = fold (\<lambda>p st. xs_set p (xs_bind p st)) (arrival_order (xs_peers ?st)) ?st"
    by (simp add: install_def fresh_link_def Let_def)
  ultimately show ?thesis by (simp add: fold_told [OF link])
qed

lemma agreed_install: "agreed (install hello st)"
proof -
  let ?st = "fresh_link hello st"
  obtain l where l: "el_out l = concat (map (told ?st) (arrival_order (xs_peers ?st)))"
    "install hello st = ?st\<lparr>xs_link := Some l\<rparr>"
    using install_eq by blast
  have "\<forall>k \<in> set (arrival_order (xs_peers ?st)). bt_get (xs_peers ?st) k \<noteq> None"
    by (auto simp: arrival_keys map_of_eq_None_iff)
  from holds_all_told [OF this] have "enforcer_holds (el_out l) = node_holds ?st"
    by (auto simp: l(1) fun_eq_iff arrival_keys node_holds_def map_of_eq_None_iff)
  then show ?thesis by (simp add: agreed_def l(2))
qed

lemma agreed_heard: "agreed st \<Longrightarrow> agreed (snd (heard i msg st))"
proof -
  have "node_holds (st\<lparr>xs_peers := bt_insert p (f ep) (xs_peers st)\<rparr>) = node_holds st"
    if "bt_get (xs_peers st) p = Some ep" "\<And>e. ep_rate (f e) = ep_rate e" "\<And>e. ep_addr (f e) = ep_addr e"
      "\<And>e. ep_delegated (f e) = ep_delegated e" for p ep f
    using that by (auto simp: fun_eq_iff node_holds_def xs_bindings_def cong: option.case_cong)
  note same = this
  assume "agreed st"
  then show ?thesis
    unfolding heard_def
    by (cases msg) (auto simp: agreed_def same split: option.splits)
qed

lemma agreed_delegate:
  assumes "agreed st"
  shows "agreed (snd (xs_delegate p subject st))"
proof -
  have "agreed (xs_bind p (st\<lparr>xs_peers := bt_insert p (ep\<lparr>ep_delegated := ds\<rparr>) (xs_peers st)\<rparr>))"
    if get: "bt_get (xs_peers st) p = Some ep" for ep ds
    unfolding agreed_def
  proof (intro allI impI)
    let ?st = "st\<lparr>xs_peers := bt_insert p (ep\<lparr>ep_delegated := ds\<rparr>) (xs_peers st)\<rparr>"
    fix l' assume "xs_link (xs_bind p ?st) = Some l'"
    then obtain l where "xs_link ?st = Some l"
      "l' = l\<lparr>el_out := el_out l @ [EBind \<lparr>bind_peer = p, bind_bindings = xs_bindings ?st p\<rparr>]\<rparr>"
      "xs_bind p ?st = ?st\<lparr>xs_link := Some l'\<rparr>"
      unfolding xs_bind_def by (rule xs_send_linked)
    moreover have "node_holds st p = Some (xs_bindings st p, wire_rate (ep_rate ep))"
      by (simp add: node_holds_def get)
    ultimately show "enforcer_holds (el_out l') = node_holds (xs_bind p ?st)"
      using agreed_link [OF assms] by (simp add: node_holds_put)
  qed
  with assms show ?thesis by (auto simp: xs_delegate_def split: option.splits)
qed

lemma agreed_demand: "agreed st \<Longrightarrow> agreed (xs_set_demand st p rate)"
  by (auto simp: xs_set_demand_def agreed_def fun_eq_iff node_holds_def xs_bindings_def
      split: option.splits cong: option.case_cong)

lemma agreed_step: "agreed st \<Longrightarrow> agreed (ext_step expected st i)"
proof (cases i)
  case (XHeard conn msg)
  assume "agreed st"
  then have "agreed (snd (heard conn msg st))" by (rule agreed_heard)
  with XHeard show ?thesis by (auto simp: agreed_drop_if split: prod.split Heard.split)
next
  case XTaken
  assume "agreed st"
  with XTaken show ?thesis by (auto simp: agreed_def split: option.splits)
qed (auto simp: agreed_register agreed_rate agreed_demand agreed_remove agreed_delegate agreed_install
    agreed_drop_if)

lemma ext_run_induct:
  assumes "P (xs_new (exp_identity expected))" "\<And>st i. P st \<Longrightarrow> P (ext_step expected st i)"
  shows "P (ext_run expected inputs)"
proof -
  have "P st \<Longrightarrow> P (foldl (ext_step expected) st inputs)" for st
    by (induction inputs arbitrary: st) (simp_all add: assms(2))
  with assms(1) show ?thesis by (simp add: ext_run_def)
qed

lemma agreed_run: "agreed (ext_run expected inputs)"
  by (rule ext_run_induct, simp add: xs_new_def agreed_def, rule agreed_step)

subsection \<open>Nothing is sent that the enforcer refuses\<close>

fun takes :: "Hello \<Rightarrow> EnforcerMessage \<Rightarrow> bool" where
  "takes h (EBind b) = (length (bind_bindings b) \<le> MAX_BINDINGS \<and> list_all (hello_accepts h) (bind_bindings b))"
| "takes h (ESet _) = True"
| "takes h (ERemove _) = True"
| "takes h _ = False"

definition ext_inv :: "Expected \<Rightarrow> ExtState \<Rightarrow> bool" where
  "ext_inv expected st =
     (xs_identity st = exp_identity expected
      \<and> (\<forall>p ep. bt_get (xs_peers st) p = Some ep \<longrightarrow> length (ep_delegated ep) < MAX_BINDINGS)
      \<and> (\<forall>l. xs_link st = Some l \<longrightarrow>
           (\<exists>h. xs_hello st = Some h \<and> check_hello h expected = None \<and> list_all (takes h) (el_out l))))"

lemma inv_drop: "ext_inv expected st \<Longrightarrow> ext_inv expected (drop_link st)"
  by (auto simp: ext_inv_def drop_link_def map_of_map_entry split: option.splits)

lemma inv_send:
  "ext_inv expected st \<Longrightarrow> (\<And>h. xs_hello st = Some h \<Longrightarrow> takes h m) \<Longrightarrow> ext_inv expected (xs_send m st)"
  by (auto simp: xs_send_def inv_drop split: option.splits) (auto simp: ext_inv_def)

lemma bindings_ok:
  "xs_hello st = Some h \<Longrightarrow> length (xs_bindings st p) \<le> MAX_BINDINGS \<and> list_all (hello_accepts h) (xs_bindings st p)"
  by (auto simp: xs_bindings_def bindings_for_def list_all_iff Let_def dest!: in_set_takeD split: option.splits)

lemma inv_bind: "ext_inv expected st \<Longrightarrow> ext_inv expected (xs_bind p st)"
  unfolding xs_bind_def by (rule inv_send) (simp_all add: bindings_ok)

lemma inv_set: "ext_inv expected st \<Longrightarrow> ext_inv expected (xs_set p st)"
  by (auto simp: xs_set_def inv_send split: option.splits)

lemma inv_put:
  "ext_inv expected st \<Longrightarrow> length (ep_delegated ep) < MAX_BINDINGS
    \<Longrightarrow> ext_inv expected (st\<lparr>xs_peers := bt_insert p ep (xs_peers st)\<rparr>)"
  by (simp add: ext_inv_def)

lemma inv_get: "ext_inv expected st \<Longrightarrow> bt_get (xs_peers st) p = Some ep \<Longrightarrow> length (ep_delegated ep) < MAX_BINDINGS"
  by (simp add: ext_inv_def)

lemma inv_put_seq:
  "ext_inv expected st \<Longrightarrow> length (ep_delegated ep) < MAX_BINDINGS
    \<Longrightarrow> ext_inv expected (st\<lparr>xs_next_seq := n, xs_peers := bt_insert p ep (xs_peers st)\<rparr>)"
  by (simp add: ext_inv_def)

lemma inv_install:
  assumes "ext_inv expected st" "check_hello hello expected = None"
  shows "ext_inv expected (install hello st)"
proof -
  let ?st = "fresh_link hello st"
  have fold: "ext_inv expected (fold (\<lambda>p st. xs_set p (xs_bind p st)) ks s)" if "ext_inv expected s" for ks s
    using that by (induction ks arbitrary: s) (simp_all add: inv_bind inv_set)
  have "ext_inv expected ?st"
    using assms by (auto simp: ext_inv_def fresh_link_def map_of_map_entry)
  from fold [OF this, of "arrival_order (xs_peers ?st)"] show ?thesis
    by (simp add: install_def fresh_link_def Let_def)
qed

lemma inv_heard: "ext_inv expected st \<Longrightarrow> ext_inv expected (snd (heard i msg st))"
  unfolding heard_def by (cases msg) (auto simp: inv_put inv_get split: option.splits)

lemma inv_drop_if: "ext_inv expected st \<Longrightarrow> ext_inv expected (drop_link_if i st)"
  by (simp add: drop_link_if_def inv_drop)

lemma inv_register: "ext_inv expected st \<Longrightarrow> ext_inv expected (xs_register st p addr)"
  unfolding xs_register_def Let_def
  by (auto intro!: inv_set inv_bind inv_put inv_put_seq dest: inv_get simp: MAX_BINDINGS_def split: option.splits)

lemma inv_delegate: "ext_inv expected st \<Longrightarrow> ext_inv expected (snd (xs_delegate p subject st))"
  unfolding xs_delegate_def by (auto intro!: inv_bind inv_put split: option.splits)

lemma inv_step: "ext_inv expected st \<Longrightarrow> ext_inv expected (ext_step expected st i)"
proof (cases i)
  case (XHeard conn msg)
  assume "ext_inv expected st"
  then have "ext_inv expected (snd (heard conn msg st))" by (rule inv_heard)
  with XHeard show ?thesis by (auto simp: inv_drop_if split: prod.split Heard.split)
next
  case (XRemove p)
  assume "ext_inv expected st"
  then have "ext_inv expected (st\<lparr>xs_peers := bt_remove p (xs_peers st)\<rparr>)" by (auto simp: ext_inv_def)
  with XRemove \<open>ext_inv expected st\<close> show ?thesis
    by (auto simp: xs_remove_def inv_send split: option.splits)
next
  case (XHello hello)
  assume "ext_inv expected st"
  with XHello show ?thesis
    by (auto simp: session_start_def inv_install split: option.splits Refusal.splits)
next
  case XTaken
  assume "ext_inv expected st"
  with XTaken show ?thesis by (auto simp: ext_inv_def split: option.splits)
qed (auto simp: inv_register inv_delegate inv_drop_if xs_set_shaping_rate_def xs_set_demand_def inv_put inv_get
    inv_set split: option.splits)

lemma inv_run: "ext_inv expected (ext_run expected inputs)"
  by (rule ext_run_induct, simp add: xs_new_def ext_inv_def, rule inv_step)

text \<open>Which subjects a payer is bound to: its own, and those delegated if the enforcer takes them.\<close>

definition own_subject :: "Identity \<Rightarrow> PubKey \<Rightarrow> IpAddr \<Rightarrow> Subject" where
  "own_subject identity p addr =
     (case identity of IdPubkey \<Rightarrow> subject_pubkey p | IdAddress \<Rightarrow> subject_address addr)"

fun wf_addr :: "IpAddr \<Rightarrow> bool" where
  "wf_addr (V4 v4) = (length v4 = 4)"
| "wf_addr (V6 v6) = (length v6 = 16)"

lemma own_subject_length:
  "wf_pubkey p \<Longrightarrow> wf_addr addr \<Longrightarrow> length (subject_bytes (own_subject i p addr)) = subject_len i"
  by (cases i; cases addr)
     (simp_all add: own_subject_def subject_pubkey_def subject_address_def wf_pubkey_def to_ipv6_mapped_def)

definition all_subjects :: "Expected \<Rightarrow> Hello \<Rightarrow> PubKey \<Rightarrow> ExtPeer \<Rightarrow> Binding list" where
  "all_subjects expected h p ep =
     \<lparr>bind_subject = own_subject (exp_identity expected) p (ep_addr ep), bind_delegated = False\<rparr>
     # (if hello_delegated h
        then map (\<lambda>s. \<lparr>bind_subject = s, bind_delegated = True\<rparr>) (ep_delegated ep) else [])"

lemma bindings_whole:
  assumes inv: "ext_inv expected st" and "xs_link st = Some l" and ep: "bt_get (xs_peers st) p = Some ep"
    and "wf_pubkey p" "wf_addr (ep_addr ep)"
  shows "\<exists>h. xs_hello st = Some h \<and> xs_bindings st p = all_subjects expected h p ep"
proof -
  from inv assms(2) obtain h where h: "xs_hello st = Some h" "check_hello h expected = None"
    and id: "xs_identity st = exp_identity expected" and few: "length (ep_delegated ep) < MAX_BINDINGS"
    using inv_get [OF inv ep] by (auto simp: ext_inv_def)
  let ?own = "\<lparr>bind_subject = own_subject (exp_identity expected) p (ep_addr ep), bind_delegated = False\<rparr>"
  have "hello_identity h = exp_identity expected"
    using h(2) by (auto simp: check_hello_def split: if_splits)
  then have "hello_accepts h ?own"
    using own_subject_length [OF assms(4,5), of "exp_identity expected"]
    by (simp add: hello_accepts_def hello_check_def Let_def)
  moreover have "filter (hello_accepts h) (map (\<lambda>s. \<lparr>bind_subject = s, bind_delegated = True\<rparr>) ds)
      = (if hello_delegated h then map (\<lambda>s. \<lparr>bind_subject = s, bind_delegated = True\<rparr>) ds else [])" for ds
    by (induction ds) (simp_all add: hello_accepts_def hello_check_def)
  ultimately have "xs_bindings st p = ?own # (if hello_delegated h
      then map (\<lambda>s. \<lparr>bind_subject = s, bind_delegated = True\<rparr>) (ep_delegated ep) else [])"
    using few
    by (simp add: xs_bindings_def bindings_for_def h(1) ep id own_subject_def [symmetric] Let_def MAX_BINDINGS_def)
  with h(1) show ?thesis by (simp add: all_subjects_def)
qed

text \<open>C32: In every run of the client of an external enforcer -- payers registered, moved, re-rated,
  delegated and removed, connections made, read, stalled and lost, in any order -- whenever there is a
  connection, an enforcer that has obeyed what was queued on it since its \<open>hello\<close> holds exactly what the
  client holds: nothing for a payer it does not track, and for one it does its own subject, what was
  delegated to it if the enforcer takes that, and its rate.\<close>

theorem external_enforcer_agrees:
  assumes "st = ext_run expected inputs" and "xs_link st = Some l"
  shows "case bt_get (xs_peers st) p of
      None \<Rightarrow> enforcer_holds (el_out l) p = None
    | Some ep \<Rightarrow>
        enforcer_holds (el_out l) p = Some (xs_bindings st p, wire_rate (ep_rate ep))
        \<and> (wf_pubkey p \<and> wf_addr (ep_addr ep) \<longrightarrow>
            (\<exists>h. xs_hello st = Some h \<and> xs_bindings st p = all_subjects expected h p ep))"
  using agreed_link [OF agreed_run [of expected inputs], folded assms(1), OF assms(2)]
    bindings_whole [OF inv_run [of expected inputs], folded assms(1), OF assms(2)]
  by (auto simp: node_holds_def fun_eq_iff split: option.split)

text \<open>What the client queues for an enforcer it may send: the \<open>hello\<close> on the connection agrees with
  this instance in version, identity and unit, every message is a \<open>bind\<close> of at most eight subjects each
  of a form the \<open>hello\<close> takes, a \<open>set\<close> or a \<open>remove\<close>, and none is refused by the encoder. While there is no
  such connection, nothing is sold.\<close>

lemma external_sends_what_is_taken:
  assumes "st = ext_run expected inputs"
  shows "case xs_link st of
      None \<Rightarrow> \<not> xs_selling st p
    | Some l \<Rightarrow>
        \<exists>h. xs_hello st = Some h \<and> check_hello h expected = None
          \<and> list_all (\<lambda>m. takes h m \<and> fst (e_encode c m buf) = None) (el_out l)"
proof (cases "xs_link st")
  case None
  then show ?thesis by (simp add: xs_selling_def)
next
  case (Some l)
  have enc: "takes h m \<Longrightarrow> fst (e_encode c m buf) = None" for h m
    by (cases m) (simp_all add: e_encode_def Let_def)
  from Some inv_run [of expected inputs, folded assms] obtain h where
    "xs_hello st = Some h" "check_hello h expected = None" "list_all (takes h) (el_out l)"
    by (auto simp: ext_inv_def)
  with Some enc show ?thesis by (auto simp: list_all_iff)
qed

subsection \<open>Counters\<close>

definition grown :: "Counters \<Rightarrow> Counters \<Rightarrow> bool" where
  "grown c c' = (to_payer c \<le> to_payer c' \<and> from_payer c \<le> from_payer c')"

definition counts_on :: "PubKey \<Rightarrow> ExtState \<Rightarrow> ExtState \<Rightarrow> bool" where
  "counts_on p st st' =
     (\<forall>ep. bt_get (xs_peers st) p = Some ep \<longrightarrow>
        (\<exists>ep'. bt_get (xs_peers st') p = Some ep' \<and> grown (ep_total ep) (ep_total ep')))"

lemma grown_refl [simp]: "grown c c"
  by (simp add: grown_def)

lemma counts_refl [simp]: "counts_on p st st"
  by (simp add: counts_on_def)

lemma counts_trans: "counts_on p st st1 \<Longrightarrow> counts_on p st1 st2 \<Longrightarrow> counts_on p st st2"
  unfolding counts_on_def grown_def by (meson order_trans)

lemma counts_put:
  "bt_get (xs_peers st) p = Some ep \<Longrightarrow> grown (ep_total ep) (ep_total ep')
    \<Longrightarrow> counts_on q st (st\<lparr>xs_peers := bt_insert p ep' (xs_peers st)\<rparr>)"
  by (auto simp: counts_on_def)

lemma sat_add_zero [simp]: "sat_add x 0 = x"
  unfolding word_unat_eq_iff by (simp add: u64_nat)

lemma counts_drop: "counts_on p st (drop_link st)"
  by (auto simp: counts_on_def drop_link_def map_of_map_entry ep_total_def counters_zero_def split: option.split)

lemma counts_send: "counts_on p st (xs_send m st)"
  using counts_drop by (auto simp: xs_send_def counts_on_def split: option.split)

lemma counts_bind: "counts_on p st (xs_bind q st)" "counts_on p st (xs_set q st)"
  by (auto simp: xs_bind_def xs_set_def counts_send split: option.split)

lemma counts_told: "counts_on p st st1 \<Longrightarrow> counts_on p st (xs_set q (xs_bind q st1))"
  by (meson counts_bind counts_trans)

lemma counts_install: "counts_on p st (install hello st)"
proof -
  have fold: "counts_on p s (fold (\<lambda>q st. xs_set q (xs_bind q st)) ks s)" for ks s
    by (induction ks arbitrary: s) (auto intro: counts_trans [OF counts_told [OF counts_refl]])
  have "counts_on p st (fresh_link hello st)"
    by (auto simp: counts_on_def fresh_link_def map_of_map_entry ep_total_def)
  from counts_trans [OF this fold] show ?thesis
    by (simp add: install_def fresh_link_def Let_def)
qed

lemma sat_add_grows: "b \<le> c \<Longrightarrow> sat_add a b \<le> sat_add a c" for a b c :: u64
  by (simp add: word_le_nat_alt u64_nat)

lemma counts_heard: "counts_on p st (snd (heard i msg st))"
proof -
  have "grown (ep_total ep) (ep_total (ep\<lparr>ep_current := \<lparr>to_payer = max a (to_payer (ep_current ep)),
      from_payer = max b (from_payer (ep_current ep))\<rparr>\<rparr>))" for ep a b
    by (simp add: grown_def ep_total_def sat_add_grows)
  moreover have "grown (ep_total ep) (ep_total (ep\<lparr>ep_conflicted := True\<rparr>))" for ep
    by (simp add: ep_total_def)
  ultimately show ?thesis
    unfolding heard_def by (cases msg) (auto intro: counts_put split: option.splits)
qed

lemma counts_drop_if: "counts_on p st (drop_link_if i st)"
  by (simp add: drop_link_if_def counts_drop)

lemma counts_step: "i \<noteq> XRemove p \<Longrightarrow> counts_on p st (ext_step expected st i)"
proof (cases i)
  case (XRegister q addr)
  have "bt_get (xs_peers st) q = None \<Longrightarrow>
      counts_on p st (st\<lparr>xs_next_seq := n, xs_peers := bt_insert q ep (xs_peers st)\<rparr>)" for n ep
    by (auto simp: counts_on_def)
  then show ?thesis
    using XRegister by (auto simp: xs_register_def Let_def ep_total_def intro!: counts_told counts_put split: option.splits)
next
  case (XSetRate q rate)
  then show ?thesis
    by (auto simp: xs_set_shaping_rate_def ep_total_def intro!: counts_trans [OF counts_put counts_bind(2)] split: option.splits)
next
  case (XSetDemand q rate)
  then show ?thesis by (auto simp: xs_set_demand_def ep_total_def intro!: counts_put split: option.splits)
next
  case (XRemove q)
  assume "i \<noteq> XRemove p"
  with XRemove have "counts_on p st (st\<lparr>xs_peers := bt_remove q (xs_peers st)\<rparr>)"
    by (auto simp: counts_on_def)
  from counts_trans [OF this counts_send] XRemove show ?thesis
    by (simp add: xs_remove_def split: option.split)
next
  case (XDelegate q subject)
  then show ?thesis
    by (auto simp: xs_delegate_def ep_total_def intro!: counts_trans [OF counts_put counts_bind(1)] split: option.splits)
next
  case (XHeard conn msg)
  from counts_heard [of p st conn msg] XHeard show ?thesis
    by (auto intro: counts_trans counts_drop_if split: prod.split Heard.split)
next
  case XTaken
  then show ?thesis by (auto simp: counts_on_def split: option.split)
qed (auto simp: counts_install counts_drop_if)

text \<open>C33: The totals core reads for a payer never go backwards while it is registered, through any run
  of calls, reports (higher or lower), dropped connections and new ones.\<close>

theorem external_counters_never_fall:
  assumes "bt_get (xs_peers (ext_run expected before)) p \<noteq> None" and "XRemove p \<notin> set inputs"
  shows "to_payer (xs_counters (ext_run expected before) p)
      \<le> to_payer (xs_counters (ext_run expected (before @ inputs)) p)
    \<and> from_payer (xs_counters (ext_run expected before) p)
      \<le> from_payer (xs_counters (ext_run expected (before @ inputs)) p)"
proof -
  have "counts_on p st (foldl (ext_step expected) st inputs)" for st
    using assms(2)
  proof (induction inputs arbitrary: st)
    case (Cons i inputs)
    then have "counts_on p (ext_step expected st i) (foldl (ext_step expected) (ext_step expected st i) inputs)"
      by simp
    moreover have "counts_on p st (ext_step expected st i)" using Cons.prems by (intro counts_step) auto
    ultimately show ?case using counts_trans by simp
  qed simp
  from this [of "ext_run expected before"] assms(1) show ?thesis
    by (auto simp: counts_on_def ext_run_def grown_def xs_counters_def)
qed

text \<open>
  A report still on its way when a payer is removed and registered again, as the node does when it
  reconnects, is taken for the new registration's: all that was carried before is counted once more.
\<close>

definition ex_expected :: Expected where
  "ex_expected = \<lparr>exp_identity = IdAddress, exp_unit = ''byte''\<rparr>"

definition ex_payer :: PubKey where
  "ex_payer = PubKey [2]"

definition ex_addr :: IpAddr where
  "ex_addr = V4 [192, 168, 1, 23]"

definition ex_hello :: Hello where
  "ex_hello = \<lparr>hello_version = 1, hello_identity = IdAddress, hello_delegated = False, hello_unit = ''byte''\<rparr>"

definition ex_report :: "u64 \<Rightarrow> ExtInput" where
  "ex_report n = XHeard 1 (ECounters \<lparr>cnt_peer = ex_payer, cnt_to_payer = n, cnt_from_payer = 0\<rparr>)"

definition ex_served :: "ExtInput list" where
  "ex_served = [XHello ex_hello, XRegister ex_payer ex_addr, ex_report 1000]"

text \<open>A report of what a payer's last session carried, read after the payer was removed and
  registered again, is counted for its new session: a fresh meter reads 1000 units of growth although
  nothing has been carried since.\<close>

lemma late_report_counted_again:
  "xs_counters (ext_run ex_expected ex_served) ex_payer = \<lparr>to_payer = 1000, from_payer = 0\<rparr>
   \<and> xs_counters (ext_run ex_expected (ex_served @ [XRemove ex_payer, XRegister ex_payer ex_addr])) ex_payer
      = counters_zero
   \<and> snd (observe meter_new (xs_counters
        (ext_run ex_expected (ex_served @ [XRemove ex_payer, XRegister ex_payer ex_addr, ex_report 1000])) ex_payer))
      = \<lparr>to_payer = 1000, from_payer = 0\<rparr>"
  by (intro conjI; code_simp)

theorem external_counters_never_fall_witness:
  "to_payer (xs_counters (ext_run ex_expected ex_served) ex_payer)
    \<le> to_payer (xs_counters (ext_run ex_expected (ex_served @ [XEnded 1, XHello ex_hello, ex_report 5])) ex_payer)"
proof -
  have "bt_get (xs_peers (ext_run ex_expected ex_served)) ex_payer \<noteq> None" by code_simp
  from external_counters_never_fall [OF this] show ?thesis by (simp add: ex_report_def)
qed

definition ex_rated :: "ExtInput list" where
  "ex_rated = [XRegister ex_payer ex_addr, XHello ex_hello, XSetRate ex_payer 700]"

theorem external_enforcer_agrees_witness:
  "\<exists>l bs. xs_link (ext_run ex_expected ex_rated) = Some l \<and> enforcer_holds (el_out l) ex_payer = Some (bs, Some 700)"
proof -
  have up: "xs_link (ext_run ex_expected ex_rated) \<noteq> None"
    and rate: "map_option ep_rate (bt_get (xs_peers (ext_run ex_expected ex_rated)) ex_payer) = Some 700"
    by code_simp+
  from up obtain l where "xs_link (ext_run ex_expected ex_rated) = Some l" by blast
  from external_enforcer_agrees [OF refl this, of ex_payer] this rate show ?thesis
    by (auto simp: wire_rate_def split: option.splits)
qed

lemma external_sends_what_is_taken_witness:
  "\<exists>l. xs_link (ext_run ex_expected ex_rated) = Some l
    \<and> list_all (\<lambda>m. fst (e_encode rfc8949 m []) = None) (el_out l) \<and> length (el_out l) = 3"
proof -
  have "map_option (length \<circ> el_out) (xs_link (ext_run ex_expected ex_rated)) = Some 3" by code_simp
  with external_sends_what_is_taken [OF refl, of ex_expected ex_rated ex_payer rfc8949 "[]"] show ?thesis
    by (auto simp: list_all_iff split: option.splits)
qed

end
