(* ===== verification/Addresses.thy ===== *)
theory Addresses
  imports Enforcer_Protocol "HOL-Library.Char_ord"
begin

text \<open>
  Addresses as text, the way \<open>std::net\<close> reads and writes them: \<open>Display\<close> and \<open>FromStr\<close> of \<open>Ipv4Addr\<close>,
  \<open>Ipv6Addr\<close> and \<open>SocketAddr\<close>. The configuration and the kernel's tables name addresses as text, and
  the kernel enforcer keys its sets by it. An IPv4 address reads back from what it is written as, so
  two addresses never share a key.
\<close>

subsection \<open>Numbers in a base\<close>

definition digit_char :: "nat \<Rightarrow> char" where
  "digit_char d = char_of (if d < 10 then 48 + d else 87 + d)"

definition digit_value :: "nat \<Rightarrow> char \<Rightarrow> nat option" where
  "digit_value base c =
     (let n = of_char c :: nat;
          d = (if 48 \<le> n \<and> n \<le> 57 then n - 48
               else if 97 \<le> n \<and> n \<le> 122 then n - 87
               else if 65 \<le> n \<and> n \<le> 90 then n - 55 else 36)
      in if d < base then Some d else None)"

fun show_base :: "nat \<Rightarrow> nat \<Rightarrow> string" where
  "show_base base n =
     (if n < base \<or> base < 2 then [digit_char n]
      else show_base base (n div base) @ [digit_char (n mod base)])"

declare show_base.simps [simp del]

definition digits_value :: "nat \<Rightarrow> string \<Rightarrow> nat" where
  "digits_value base = foldl (\<lambda>n c. n * base + the (digit_value base c)) 0"

definition is_digit :: "nat \<Rightarrow> char \<Rightarrow> bool" where
  "is_digit base c = (digit_value base c \<noteq> None)"

text \<open>\<open>Parser::read_number\<close>: its four ways to fail all fail the whole number.\<close>

definition read_number :: "nat \<Rightarrow> nat option \<Rightarrow> bool \<Rightarrow> nat \<Rightarrow> string \<Rightarrow> (nat \<times> string) option" where
  "read_number base max_digits allow_zero_prefix bound s =
     (let ds = takeWhile (is_digit base) s; n = digits_value base ds
      in if ds = [] \<or> (\<exists>m \<in> set_option max_digits. length ds > m)
            \<or> (\<not> allow_zero_prefix \<and> hd ds = CHR ''0'' \<and> length ds > 1) \<or> n > bound
         then None else Some (n, dropWhile (is_digit base) s))"

definition read_given :: "char \<Rightarrow> string \<Rightarrow> string option" where
  "read_given c s = (case s of x # xs \<Rightarrow> if x = c then Some xs else None | [] \<Rightarrow> None)"

subsection \<open>IPv4\<close>

definition show_ipv4 :: "u8 list \<Rightarrow> string" where
  "show_ipv4 a = concat (map (\<lambda>i. (if i = 0 then [] else ''.'') @ show_base 10 (unat (a ! i))) [0..<4])"

definition read_octet :: "string \<Rightarrow> (nat \<times> string) option" where
  "read_octet = read_number 10 (Some 3) False 255"

fun read_octets :: "nat \<Rightarrow> string \<Rightarrow> (u8 list \<times> string) option" where
  "read_octets 0 s = Some ([], s)"
| "read_octets (Suc n) s =
     (case read_given (CHR ''.'') s of None \<Rightarrow> None
      | Some s1 \<Rightarrow> (case read_octet s1 of None \<Rightarrow> None
          | Some (o1, s2) \<Rightarrow> map_option (\<lambda>(os, rest). (of_nat o1 # os, rest)) (read_octets n s2)))"

definition read_ipv4 :: "string \<Rightarrow> (u8 list \<times> string) option" where
  "read_ipv4 s = read_octets 4 (CHR ''.'' # s)"

definition parse_ipv4 :: "string \<Rightarrow> u8 list option" where
  "parse_ipv4 s =
     (if length s > 15 then None
      else case read_ipv4 s of Some (a, []) \<Rightarrow> Some a | _ \<Rightarrow> None)"

subsection \<open>IPv6\<close>

fun segments :: "u8 list \<Rightarrow> nat list" where
  "segments (a # b # rest) = (unat a * 256 + unat b) # segments rest"
| "segments _ = []"

definition segment_bytes :: "nat \<Rightarrow> u8 list" where
  "segment_bytes s = [of_nat (s div 256), of_nat (s mod 256)]"

text \<open>The longest run of zero segments, the first where several are: its start and its length.\<close>

definition longest_zeroes :: "nat list \<Rightarrow> nat \<times> nat" where
  "longest_zeroes segs =
     fst (foldl (\<lambda>(longest, current) (i, s).
         if s = 0 then
           let start = (if snd current = 0 then i else fst current); len = Suc (snd current)
           in (if len > snd longest then (start, len) else longest, (start, len))
         else (longest, (0, 0)))
       ((0, 0), (0, 0)) (enumerate 0 segs))"

fun show_segments :: "nat list \<Rightarrow> string" where
  "show_segments [] = []"
| "show_segments [s] = show_base 16 s"
| "show_segments (s # rest) = show_base 16 s @ '':'' @ show_segments rest"

definition show_ipv6 :: "u8 list \<Rightarrow> string" where
  "show_ipv6 a =
     (if take 12 a = replicate 10 0 @ [0xff, 0xff] then ''::ffff:'' @ show_ipv4 (drop 12 a)
      else let segs = segments a; (start, len) = longest_zeroes segs
           in if len > 1 then show_segments (take start segs) @ ''::'' @ show_segments (drop (start + len) segs)
              else show_segments segs)"

definition after_colon :: "nat \<Rightarrow> string \<Rightarrow> string option" where
  "after_colon i s = (if i = 0 then Some s else read_given (CHR '':'') s)"

text \<open>\<open>read_groups\<close>: up to \<open>limit\<close> groups, and whether they end in an embedded IPv4 address.\<close>

function read_groups :: "nat \<Rightarrow> nat \<Rightarrow> string \<Rightarrow> (u8 list \<times> bool) \<times> string" where
  "read_groups limit i s =
     (if i \<ge> limit then (([], False), s)
      else case (if Suc i < limit then Option.bind (after_colon i s) read_ipv4 else None) of
        Some (v4, rest) \<Rightarrow> ((v4, True), rest)
      | None \<Rightarrow>
          (case Option.bind (after_colon i s) (read_number 16 (Some 4) True 65535) of
             None \<Rightarrow> (([], False), s)
           | Some (g, rest) \<Rightarrow>
               (case read_groups limit (Suc i) rest of
                  ((bs, v4), rest') \<Rightarrow> ((segment_bytes g @ bs, v4), rest'))))"
  by pat_completeness auto
termination by (relation "measure (\<lambda>(limit, i, _). limit - i)") auto

declare read_groups.simps [simp del]

definition read_ipv6 :: "string \<Rightarrow> (u8 list \<times> string) option" where
  "read_ipv6 s =
     (case read_groups 8 0 s of ((front, front_v4), s1) \<Rightarrow>
        if length front = 16 then Some (front, s1)
        else if front_v4 then None
        else case Option.bind (read_given (CHR '':'') s1) (read_given (CHR '':'')) of
               None \<Rightarrow> None
             | Some s2 \<Rightarrow>
                 (case read_groups (8 - (length front div 2 + 1)) 0 s2 of ((back, _), s3) \<Rightarrow>
                    Some (front @ replicate (16 - length front - length back) 0 @ back, s3)))"

definition parse_ipv6 :: "string \<Rightarrow> u8 list option" where
  "parse_ipv6 s = (case read_ipv6 s of Some (a, []) \<Rightarrow> Some a | _ \<Rightarrow> None)"

fun show_ip :: "IpAddr \<Rightarrow> string" where
  "show_ip (V4 a) = show_ipv4 a"
| "show_ip (V6 a) = show_ipv6 a"

subsection \<open>Socket addresses\<close>

text \<open>The address and the port; an IPv6 flow label and scope are read past and not kept.\<close>

record SocketAddr =
  sa_ip :: IpAddr
  sa_port :: u16

definition read_port :: "string \<Rightarrow> (nat \<times> string) option" where
  "read_port s = Option.bind (read_given (CHR '':'') s) (read_number 10 None True 65535)"

definition read_socket_v4 :: "string \<Rightarrow> (SocketAddr \<times> string) option" where
  "read_socket_v4 s =
     (case read_ipv4 s of None \<Rightarrow> None
      | Some (a, s1) \<Rightarrow>
          map_option (\<lambda>(p, rest). (\<lparr>sa_ip = V4 a, sa_port = of_nat p\<rparr>, rest)) (read_port s1))"

definition read_scope :: "string \<Rightarrow> string" where
  "read_scope s =
     (case Option.bind (read_given (CHR ''%'') s) (read_number 10 None True (2 ^ 32 - 1)) of
        Some (_, rest) \<Rightarrow> rest | None \<Rightarrow> s)"

definition read_socket_v6 :: "string \<Rightarrow> (SocketAddr \<times> string) option" where
  "read_socket_v6 s =
     (case Option.bind (read_given (CHR ''['') s) read_ipv6 of None \<Rightarrow> None
      | Some (a, s1) \<Rightarrow>
          (case read_given (CHR '']'') (read_scope s1) of None \<Rightarrow> None
           | Some s2 \<Rightarrow>
               map_option (\<lambda>(p, rest). (\<lparr>sa_ip = V6 a, sa_port = of_nat p\<rparr>, rest)) (read_port s2)))"

definition parse_socket_addr :: "string \<Rightarrow> SocketAddr option" where
  "parse_socket_addr s =
     (case (case read_socket_v4 s of Some r \<Rightarrow> Some r | None \<Rightarrow> read_socket_v6 s) of
        Some (a, []) \<Rightarrow> Some a | _ \<Rightarrow> None)"

subsection \<open>What is written reads back\<close>

lemma digit_value_char: "d < base \<Longrightarrow> base \<le> 36 \<Longrightarrow> digit_value base (digit_char d) = Some d"
  by (auto simp: digit_value_def digit_char_def Let_def)

lemma is_digit_char: "d < base \<Longrightarrow> base \<le> 36 \<Longrightarrow> is_digit base (digit_char d)"
  by (simp add: is_digit_def digit_value_char)

lemma show_base_digits: "2 \<le> base \<Longrightarrow> base \<le> 36 \<Longrightarrow> c \<in> set (show_base base n) \<Longrightarrow> is_digit base c"
  by (induction base n rule: show_base.induct)
    (subst (asm) (2) show_base.simps, auto simp: is_digit_char split: if_splits)

lemma show_base_value: "2 \<le> base \<Longrightarrow> base \<le> 36 \<Longrightarrow> digits_value base (show_base base n) = n"
  by (induction base n rule: show_base.induct)
    (subst show_base.simps, auto simp: digits_value_def digit_value_char)

lemma show_base_not_Nil [simp]: "show_base base n \<noteq> []"
  by (subst show_base.simps) simp

lemma digit_char_zero: "d < 10 \<Longrightarrow> digit_char d = CHR ''0'' \<longleftrightarrow> d = 0"
  by (auto simp: digit_char_def char_of_eq_iff take_bit_nat_eq_self)

lemma hd_show_base: "2 \<le> base \<Longrightarrow> base \<le> 10 \<Longrightarrow> hd (show_base base n) = CHR ''0'' \<Longrightarrow> n = 0"
  by (induction base n rule: show_base.induct)
    (subst (asm) (2) show_base.simps, auto simp: digit_char_zero hd_append div_eq_0_iff split: if_splits)

text \<open>A number, up to the first character that is no digit.\<close>

definition ends_number :: "nat \<Rightarrow> string \<Rightarrow> bool" where
  "ends_number base rest = (case rest of [] \<Rightarrow> True | c # _ \<Rightarrow> \<not> is_digit base c)"

lemma show_base_span:
  assumes "2 \<le> base" "base \<le> 36" "ends_number base rest"
  shows "takeWhile (is_digit base) (show_base base n @ rest) = show_base base n"
    "dropWhile (is_digit base) (show_base base n @ rest) = rest"
proof -
  have all: "\<forall>c \<in> set (show_base base n). is_digit base c"
    using show_base_digits [OF assms(1,2)] by blast
  show "takeWhile (is_digit base) (show_base base n @ rest) = show_base base n"
    using all assms(3) by (cases rest) (simp_all add: takeWhile_append2 ends_number_def)
  show "dropWhile (is_digit base) (show_base base n @ rest) = rest"
    using all assms(3) by (cases rest) (simp_all add: dropWhile_append2 ends_number_def)
qed

lemma length_show_octet: "n < 1000 \<Longrightarrow> length (show_base 10 n) \<le> 3"
  by (simp add: show_base.simps [of 10])

lemma length_show_zero: "length (show_base 10 0) = 1"
  by (simp add: show_base.simps)

lemma read_octet_show: "n \<le> 255 \<Longrightarrow> ends_number 10 rest \<Longrightarrow> read_octet (show_base 10 n @ rest) = Some (n, rest)"
  using hd_show_base [of 10 n] length_show_octet [of n] length_show_zero
  by (auto simp: read_octet_def read_number_def show_base_span show_base_value Let_def)

lemma ends_number_simps [simp]: "ends_number 10 []" "ends_number 10 (CHR ''.'' # rest)"
  by (simp_all add: ends_number_def is_digit_def digit_value_def)

lemma show_ipv4_eq:
  "show_ipv4 [a, b, c, d] = show_base 10 (unat a) @ ''.'' @ show_base 10 (unat b) @ ''.'' @
     show_base 10 (unat c) @ ''.'' @ show_base 10 (unat d)"
  by (simp add: show_ipv4_def upt_rec numeral_2_eq_2 numeral_3_eq_3)

lemma length_show_ipv4: "length (show_ipv4 [a, b, c, d]) \<le> 15"
  using length_show_octet [of "unat a"] length_show_octet [of "unat b"]
    length_show_octet [of "unat c"] length_show_octet [of "unat d"]
    unsigned_less [of a, where 'a = nat] unsigned_less [of b, where 'a = nat]
    unsigned_less [of c, where 'a = nat] unsigned_less [of d, where 'a = nat]
  by (simp add: show_ipv4_eq)

lemma unat_u8_le: "unat (a :: u8) \<le> 255"
  using unsigned_less [of a, where 'a = nat] by simp

lemma read_four: "read_octets 4 s = read_octets (Suc (Suc (Suc (Suc 0)))) s"
  by (simp add: numeral_eq_Suc)

lemma parse_show_ipv4:
  assumes "length bs = 4"
  shows "parse_ipv4 (show_ipv4 bs) = Some bs"
proof -
  obtain a b c d where bs: "bs = [a, b, c, d]"
    using assms by (auto simp: length_Suc_conv numeral_eq_Suc)
  show ?thesis
    using length_show_ipv4 [of a b c d]
    by (simp add: bs parse_ipv4_def read_ipv4_def show_ipv4_eq read_given_def read_octet_show
        unat_u8_le read_four read_octet_show [where rest = "[]", simplified])
qed

lemma show_ipv4_inj: "length a = 4 \<Longrightarrow> length b = 4 \<Longrightarrow> show_ipv4 a = show_ipv4 b \<Longrightarrow> a = b"
  by (metis option.inject parse_show_ipv4)

end
