(* ===== verification/Instance.thy ===== *)
theory Instance
  imports Prelude
begin

text \<open>
  Named instances and where each keeps its sockets (\<open>crates/tollgate-net/src/instance.rs\<close>). What is
  asked of the file system and the environment is the record \<open>Host\<close>; a path is its text, and
  \<open>join\<close> is \<open>Path::join\<close>.
\<close>

record Host =
  h_is_dir :: "string \<Rightarrow> bool"
  h_can_make :: "string \<Rightarrow> bool"
  h_can_write :: "string \<Rightarrow> bool"
  h_exists :: "string \<Rightarrow> bool"
  h_entries :: "string \<Rightarrow> string list option"
  h_xdg_runtime :: "string option"
  h_xdg_data :: "string option"
  h_temp_dir :: string

definition path_join :: "string \<Rightarrow> string \<Rightarrow> string" where
  "path_join base name =
     (if name \<noteq> [] \<and> hd name = CHR ''/'' then name
      else if base = [] \<or> last base = CHR ''/'' then base @ name
      else base @ ''/'' @ name)"

definition DEFAULT :: string where
  "DEFAULT = ''default''"

definition CONTROL_SOCKET :: string where
  "CONTROL_SOCKET = ''control.sock''"

definition ENFORCER_SOCKET :: string where
  "ENFORCER_SOCKET = ''enforcer.sock''"

datatype InstanceError = NameEmpty | NameHas char

definition name_char :: "char \<Rightarrow> bool" where
  "name_char c =
     (let n = of_char c :: nat
      in 48 \<le> n \<and> n \<le> 57 \<or> 65 \<le> n \<and> n \<le> 90 \<or> 97 \<le> n \<and> n \<le> 122 \<or> c = CHR ''-'')"

definition validate_name :: "string \<Rightarrow> InstanceError option" where
  "validate_name name =
     (if name = [] then Some NameEmpty
      else map_option NameHas (find (\<lambda>c. \<not> name_char c) name))"

definition bases :: "Host \<Rightarrow> string list" where
  "bases h =
     [''/run'', ''/usr/local/var/run'']
     @ (case h_xdg_runtime h of Some xdg \<Rightarrow> if xdg = [] then [] else [xdg] | None \<Rightarrow> [])
     @ [h_temp_dir h]"

definition dir_in :: "string \<Rightarrow> string \<Rightarrow> string" where
  "dir_in base instance_name = path_join base (''tollgate-'' @ instance_name)"

definition usable :: "Host \<Rightarrow> string \<Rightarrow> bool" where
  "usable h dir = ((h_is_dir h dir \<or> h_can_make h dir) \<and> h_can_write h dir)"

definition runtime_dir :: "Host \<Rightarrow> string \<Rightarrow> string" where
  "runtime_dir h instance_name =
     (case find (\<lambda>base. h_is_dir h base \<and> usable h (dir_in base instance_name)) (bases h) of
        Some base \<Rightarrow> dir_in base instance_name
      | None \<Rightarrow> dir_in (last (bases h)) instance_name)"

definition find_control_socket :: "Host \<Rightarrow> string \<Rightarrow> string option" where
  "find_control_socket h instance_name =
     find (h_exists h) (map (\<lambda>base. path_join (dir_in base instance_name) CONTROL_SOCKET) (bases h))"

text \<open>The listing: one base after another, each sorted by name, an instance kept at its first base.\<close>

definition strip_prefix :: "string \<Rightarrow> string \<Rightarrow> string option" where
  "strip_prefix p s = (if take (length p) s = p then Some (drop (length p) s) else None)"

definition entry_socket :: "Host \<Rightarrow> string \<Rightarrow> string \<Rightarrow> (string \<times> string) option" where
  "entry_socket h base entry =
     (case strip_prefix ''tollgate-'' entry of
        None \<Rightarrow> None
      | Some name \<Rightarrow>
          if validate_name name \<noteq> None then None
          else let socket = path_join (path_join base entry) CONTROL_SOCKET
               in if h_exists h socket then Some (name, socket) else None)"

definition char_key :: "string \<Rightarrow> nat list" where
  "char_key s = map of_char s"

fun insert_by_name :: "string \<times> string \<Rightarrow> (string \<times> string) list \<Rightarrow> (string \<times> string) list" where
  "insert_by_name x [] = [x]"
| "insert_by_name x (y # ys) =
     (if (char_key (fst x), char_key (snd x)) = (char_key (fst y), char_key (snd y)) \<or>
         lexordp (<) (char_key (fst x)) (char_key (fst y)) \<or>
         fst x = fst y \<and> lexordp (<) (char_key (snd x)) (char_key (snd y))
      then x # y # ys else y # insert_by_name x ys)"

definition sort_by_name :: "(string \<times> string) list \<Rightarrow> (string \<times> string) list" where
  "sort_by_name xs = foldr insert_by_name xs []"

definition add_found :: "(string \<times> string) list \<Rightarrow> string \<times> string \<Rightarrow> (string \<times> string) list" where
  "add_found found x = (if fst x \<in> set (map fst found) then found else found @ [x])"

definition control_sockets :: "Host \<Rightarrow> (string \<times> string) list" where
  "control_sockets h =
     foldl (\<lambda>found base.
         case h_entries h base of
           None \<Rightarrow> found
         | Some entries \<Rightarrow>
             foldl add_found found (sort_by_name (List.map_filter (entry_socket h base) entries)))
       [] (bases h)"

subsection \<open>What they promise\<close>

lemma validate_name_None: "validate_name name = None \<longleftrightarrow> name \<noteq> [] \<and> (\<forall>c \<in> set name. name_char c)"
  by (auto simp: validate_name_def find_None_iff)

lemma not_slash: "name_char c \<Longrightarrow> c \<noteq> CHR ''/'' \<and> c \<noteq> CHR ''.''"
  by (auto simp: name_char_def Let_def)

lemma set_insert_by_name [simp]: "set (insert_by_name x xs) = insert x (set xs)"
  by (induction xs) auto

lemma set_sort_by_name [simp]: "set (sort_by_name xs) = set xs"
  by (induction xs) (simp_all add: sort_by_name_def)

lemma add_found_distinct: "distinct (map fst found) \<Longrightarrow> distinct (map fst (foldl add_found found xs))"
  by (induction xs arbitrary: found) (simp_all add: add_found_def)

lemma add_found_set: "x \<in> set (foldl add_found found xs) \<Longrightarrow> x \<in> set found \<or> x \<in> set xs"
  by (induction xs arbitrary: found) (fastforce simp: add_found_def split: if_splits)+

lemma fold_bases_distinct:
  "distinct (map fst found) \<Longrightarrow>
    distinct (map fst (foldl (\<lambda>found base. case h_entries h base of None \<Rightarrow> found
      | Some entries \<Rightarrow> foldl add_found found (f base entries)) found bs))"
  by (induction bs arbitrary: found) (auto simp: add_found_distinct split: option.splits)

lemma control_sockets_distinct: "distinct (map fst (control_sockets h))"
  by (simp add: control_sockets_def fold_bases_distinct)

text \<open>The runtime directory is one level below its base: an instance's name cannot lead out of it.\<close>

lemma runtime_dir_base:
  "\<exists>base \<in> set (bases h). runtime_dir h name = dir_in base name"
proof -
  have "last (bases h) \<in> set (bases h)"
    by (simp add: bases_def)
  then show ?thesis
    by (auto simp: runtime_dir_def dest: find_in_set split: option.splits)
qed

lemma dir_in_no_escape:
  assumes "validate_name name = None"
  shows "\<exists>b. dir_in base name = b @ ''tollgate-'' @ name \<and> CHR ''/'' \<notin> set name"
  using assms not_slash by (auto simp: dir_in_def path_join_def validate_name_None)

end
