(* ===== verification/Config.thy ===== *)
theory Config
  imports Policy Buyer Addresses Instance Local_Channels Btree_Map
begin

text \<open>
  The operator's configuration (\<open>crates/tollgate-net/src/config.rs\<close>): a record per section of the
  file with its defaults, the checks, and \<open>resolve\<close>, which makes of it what the node runs on. A
  \<open>bail!\<close> is a constructor of \<open>ConfigError\<close>. Hex, the curve's secret keys and a generated key are
  the record \<open>Keys\<close>; reading the YAML is a library's.
\<close>

subsection \<open>A binary64 number\<close>

text \<open>
  The growth factor is an \<open>f64\<close>: a finite one is a sign, a significand below \<open>2 ^ 53\<close> and an exponent.
\<close>

datatype F64 = NaN | Infinity bool | Finite bool nat int

fun f64_is_finite :: "F64 \<Rightarrow> bool" where
  "f64_is_finite (Finite _ _ _) = True"
| "f64_is_finite _ = False"

fun f64_below_one :: "F64 \<Rightarrow> bool" where
  "f64_below_one NaN = False"
| "f64_below_one (Infinity negative) = negative"
| "f64_below_one (Finite negative m e) = (negative \<or> (if e \<ge> 0 then m = 0 else m < 2 ^ nat (- e)))"

fun bit_length :: "nat \<Rightarrow> nat" where
  "bit_length n = (if n = 0 then 0 else Suc (bit_length (n div 2)))"

declare bit_length.simps [simp del]

text \<open>The nearest multiple of \<open>2 ^ k\<close> with 53 significant bits, ties to even.\<close>

definition round_significand :: "nat \<Rightarrow> nat \<times> nat" where
  "round_significand n =
     (let k = bit_length n - 53; q = n div 2 ^ k; r = n mod 2 ^ k
      in (if 2 * r > 2 ^ k \<or> (2 * r = 2 ^ k \<and> odd q) then q + 1 else q, k))"

text \<open>\<open>(f * 100.0).round().min(u32::MAX as f64) as u32\<close> of a finite number that is not negative.\<close>

definition times_100 :: "nat \<Rightarrow> int \<Rightarrow> u32" where
  "times_100 m e =
     (case round_significand (m * 100) of (q, k) \<Rightarrow>
        let e' = e + int k;
            rounded = (if e' \<ge> 0 then q * 2 ^ nat e'
                       else (2 * q + 2 ^ nat (- e')) div (2 * 2 ^ nat (- e')))
        in of_nat (min rounded (2 ^ 32 - 1)))"

subsection \<open>Text\<close>

fun strip_slashes_rev :: "string \<Rightarrow> string" where
  "strip_slashes_rev (c # cs) = (if c = CHR ''/'' then strip_slashes_rev cs else c # cs)"
| "strip_slashes_rev [] = []"

definition trim_end_slashes :: "string \<Rightarrow> string" where
  "trim_end_slashes s = rev (strip_slashes_rev (rev s))"

subsection \<open>The mint and what becomes of vouchers\<close>

record MintSection =
  ms_url :: string
  ms_local :: string
  ms_unit :: string

definition MintSection_default :: MintSection where
  "MintSection_default = \<lparr>ms_url = ''http://127.0.0.1:3338'', ms_local = [], ms_unit = ''byte''\<rparr>"

definition local_url :: "MintSection \<Rightarrow> string" where
  "local_url m = (if ms_local m = [] then ms_url m else ms_local m)"

datatype SettleHow = SettleKeep | SettleBurn

record AcceptedMint =
  am_url :: string
  am_settle :: SettleHow

text \<open>The two ways an accepted mint is written; \<open>settle\<close> left out is \<open>Settle\<close>'s default.\<close>

datatype AcceptedMintEntry = EntryUrl string | EntryFull string "SettleHow option"

fun accepted_mint :: "AcceptedMintEntry \<Rightarrow> AcceptedMint" where
  "accepted_mint (EntryUrl url) = \<lparr>am_url = url, am_settle = SettleKeep\<rparr>"
| "accepted_mint (EntryFull url settle) =
     \<lparr>am_url = url, am_settle = (case settle of Some s \<Rightarrow> s | None \<Rightarrow> SettleKeep)\<rparr>"

definition burned :: "AcceptedMint list \<Rightarrow> string list" where
  "burned mints = map am_url (filter (\<lambda>m. am_settle m = SettleBurn) mints)"

definition keeps_any :: "AcceptedMint list \<Rightarrow> string \<Rightarrow> bool" where
  "keeps_any mints own =
     (\<exists>m \<in> set mints. am_settle m = SettleKeep \<and> trim_end_slashes (am_url m) \<noteq> trim_end_slashes own)"

subsection \<open>The merchant and the minimum flow\<close>

definition merchant_socket_path :: "Host \<Rightarrow> string \<Rightarrow> string" where
  "merchant_socket_path h socket =
     (if socket = [] then path_join (h_temp_dir h) ''merchantd.sock'' else socket)"

record MinimumFlow =
  mf_enabled :: bool
  mf_bytes_per_second :: u64

definition MinimumFlow_default :: MinimumFlow where
  "MinimumFlow_default = \<lparr>mf_enabled = False, mf_bytes_per_second = 0\<rparr>"

subsection \<open>Channels\<close>

record ChannelsSection =
  cs_initial_capacity :: u64
  cs_min_capacity :: u64
  cs_max_capacity :: u64
  cs_capacity_growth_factor :: F64
  cs_ttl_seconds :: u64
  cs_rollover_threshold_pct :: u8
  cs_safety_margin_seconds :: u64
  cs_stale_timeout_seconds :: u64

text \<open>The default factor is \<open>200 as f64 / 100.0\<close>, which is two.\<close>

definition ChannelsSection_default :: ChannelsSection where
  "ChannelsSection_default =
     (let d = NodePolicy_default
      in \<lparr>cs_initial_capacity = np_initial_channel_capacity d,
          cs_min_capacity = np_min_channel_capacity d, cs_max_capacity = np_max_channel_capacity d,
          cs_capacity_growth_factor = Finite False 1 1, cs_ttl_seconds = 3600,
          cs_rollover_threshold_pct = np_rollover_threshold_pct d,
          cs_safety_margin_seconds = np_safety_margin_ms d div 1000,
          cs_stale_timeout_seconds = 60\<rparr>)"

datatype ConfigError =
    BadInstance InstanceError
  | SecretNotHex
  | SecretNotKey
  | BadWindowRange u64 u64 u64
  | BadMinCapacity u64 u64
  | BadInitialCapacity u64 u64 u64
  | BadGrowthFactor F64
  | TtlTooShort u64 u64
  | LeadNotShorter u64 u64
  | NoBudgetToHold
  | BadListen string
  | PeerKeyNotHex string
  | PeerKeyNot33 string
  | ExternalNeedsIdentity
  | PubkeyOffMesh SocketAddr
  | BadSpeedtestListen string
  | NoStreams
  | NoDuration

definition validate_channels :: "ChannelsSection \<Rightarrow> ConfigError + u32" where
  "validate_channels c =
     (if cs_min_capacity c = 0 \<or> cs_min_capacity c > cs_max_capacity c
      then Inl (BadMinCapacity (cs_min_capacity c) (cs_max_capacity c))
      else if \<not> (cs_min_capacity c \<le> cs_initial_capacity c \<and> cs_initial_capacity c \<le> cs_max_capacity c)
      then Inl (BadInitialCapacity (cs_initial_capacity c) (cs_min_capacity c) (cs_max_capacity c))
      else case cs_capacity_growth_factor c of
        Finite negative m e \<Rightarrow>
          if f64_below_one (Finite negative m e) then Inl (BadGrowthFactor (Finite negative m e))
          else if cs_ttl_seconds c < sat_mul (cs_safety_margin_seconds c) 2
          then Inl (TtlTooShort (cs_ttl_seconds c) (cs_safety_margin_seconds c))
          else Inr (times_100 m e)
      | f \<Rightarrow> Inl (BadGrowthFactor f))"

subsection \<open>What a payer may buy, and how this node buys\<close>

record GrantsSection =
  gs_from_payer_weight :: u16
  gs_window_range_ms :: "u64 \<times> u64"
  gs_min_reserved_rate :: u64
  gs_min_topup_gap_ms :: u64
  gs_max_rate :: "u64 option"

definition GrantsSection_default :: GrantsSection where
  "GrantsSection_default =
     (let d = NodePolicy_default; g = np_grants d
      in \<lparr>gs_from_payer_weight = np_from_payer_weight d,
          gs_window_range_ms = (gp_min_window_ms g, gp_max_window_ms g),
          gs_min_reserved_rate = gp_min_reserved_rate g,
          gs_min_topup_gap_ms = gp_min_topup_gap_ms g, gs_max_rate = gp_max_rate g\<rparr>)"

record BurstSection =
  bs_rate :: "u64 option"
  bs_unreserved_rate :: "u64 option"

definition BurstSection_default :: BurstSection where
  "BurstSection_default = \<lparr>bs_rate = None, bs_unreserved_rate = None\<rparr>"

record BuyingSection =
  bu_demand :: u64
  bu_reserve :: bool
  bu_headroom_pct :: u32
  bu_min_rate :: u64
  bu_max_rate :: "u64 option"
  bu_max_from_payer_weight :: "u16 option"
  bu_window_ms :: u64
  bu_budget :: u64
  bu_renew_lead_ms :: u64
  bu_cap_hold_ms :: u64

definition BuyingSection_default :: BuyingSection where
  "BuyingSection_default =
     (let d = BuyerPolicy_default
      in \<lparr>bu_demand = by_demand d, bu_reserve = by_reserve d, bu_headroom_pct = by_headroom_pct d,
          bu_min_rate = by_min_rate d, bu_max_rate = None,
          bu_max_from_payer_weight = by_max_from_payer_weight d, bu_window_ms = by_window_ms d,
          bu_budget = by_budget d, bu_renew_lead_ms = by_renew_lead_ms d,
          bu_cap_hold_ms = by_cap_hold_ms d\<rparr>)"

subsection \<open>The enforcer and the speed test\<close>

datatype EnforcerKind = KindLoopback | KindIp | KindFips | KindExternal

record EnforcerSection =
  es_kind :: EnforcerKind
  es_interface :: string
  es_fips_socket :: string
  es_socket :: string
  es_identity :: "Identity option"

definition EnforcerSection_default :: EnforcerSection where
  "EnforcerSection_default =
     \<lparr>es_kind = KindLoopback, es_interface = ''eth0'', es_fips_socket = [], es_socket = [],
      es_identity = None\<rparr>"

definition enforcer_identity :: "EnforcerSection \<Rightarrow> ConfigError + Identity" where
  "enforcer_identity s =
     (case es_identity s of
        Some i \<Rightarrow> Inr i
      | None \<Rightarrow>
          (case es_kind s of
             KindLoopback \<Rightarrow> Inr IdAddress
           | KindIp \<Rightarrow> Inr IdAddress
           | KindFips \<Rightarrow> Inr IdPubkey
           | KindExternal \<Rightarrow> Inl ExternalNeedsIdentity))"

definition enforcer_socket_path :: "EnforcerSection \<Rightarrow> string \<Rightarrow> string" where
  "enforcer_socket_path s dir =
     (if es_socket s = [] then path_join dir ENFORCER_SOCKET else es_socket s)"

text \<open>\<open>enforcer.identity\<close> as written: absent, or one of its two words.\<close>

definition identity_deserialize :: "string option \<Rightarrow> string + Identity option" where
  "identity_deserialize name =
     (case name of
        None \<Rightarrow> Inr None
      | Some n \<Rightarrow> (case identity_from_name n of Some i \<Rightarrow> Inr (Some i) | None \<Rightarrow> Inl n))"

record SpeedtestConfig =
  sc_max_bytes :: u64
  sc_streams :: u8
  sc_warmup_ms :: u32
  sc_duration_ms :: u32

definition SpeedtestConfig_default :: SpeedtestConfig where
  "SpeedtestConfig_default =
     \<lparr>sc_max_bytes = 256 * 1024 * 1024, sc_streams = 5, sc_warmup_ms = 1500, sc_duration_ms = 10000\<rparr>"

record SpeedtestSection =
  st_enabled :: bool
  st_listen :: string
  st_max_bytes :: u64
  st_streams :: u8
  st_warmup_ms :: u32
  st_duration_ms :: u32

definition SpeedtestSection_default :: SpeedtestSection where
  "SpeedtestSection_default =
     (let d = SpeedtestConfig_default
      in \<lparr>st_enabled = False, st_listen = ''[::]:3339'', st_max_bytes = sc_max_bytes d,
          st_streams = sc_streams d, st_warmup_ms = sc_warmup_ms d,
          st_duration_ms = sc_duration_ms d\<rparr>)"

definition speedtest_resolve :: "SpeedtestSection \<Rightarrow> ConfigError + SocketAddr \<times> SpeedtestConfig" where
  "speedtest_resolve s =
     (case parse_socket_addr (st_listen s) of
        None \<Rightarrow> Inl (BadSpeedtestListen (st_listen s))
      | Some listen \<Rightarrow>
          if st_streams s = 0 then Inl NoStreams
          else if st_duration_ms s = 0 then Inl NoDuration
          else Inr (listen,
            \<lparr>sc_max_bytes = st_max_bytes s, sc_streams = st_streams s, sc_warmup_ms = st_warmup_ms s,
             sc_duration_ms = st_duration_ms s\<rparr>))"

subsection \<open>Keys as text\<close>

text \<open>\<open>kl_hex\<close> is \<open>hex::decode\<close>, \<open>kl_secret\<close> the curve's check of a secret key.\<close>

record 'i Keys =
  kl_hex :: "string \<Rightarrow> u8 list option"
  kl_secret :: "u8 list \<Rightarrow> 'i option"
  kl_generated :: 'i

text \<open>\<open>str::trim\<close>: the characters of \<open>White_Space\<close>, by their UTF-8 bytes.\<close>

definition is_ascii_space :: "nat \<Rightarrow> bool" where
  "is_ascii_space n = (9 \<le> n \<and> n \<le> 13 \<or> n = 32)"

definition space_length :: "nat list \<Rightarrow> nat" where
  "space_length ns =
     (if ns \<noteq> [] \<and> is_ascii_space (hd ns) then 1
      else if take 2 ns \<in> {[0xC2, 0x85], [0xC2, 0xA0]} then 2
      else if take 3 ns \<in> {[0xE1, 0x9A, 0x80], [0xE2, 0x80, 0xA8], [0xE2, 0x80, 0xA9], [0xE2, 0x80, 0xAF],
               [0xE2, 0x81, 0x9F], [0xE3, 0x80, 0x80]}
              \<or> length ns \<ge> 3 \<and> take 2 ns = [0xE2, 0x80] \<and> 0x80 \<le> ns ! 2 \<and> ns ! 2 \<le> 0x8A
      then 3 else 0)"

definition space_here :: "string \<Rightarrow> nat" where
  "space_here s = space_length (map of_char s)"

function trim_start :: "string \<Rightarrow> string" where
  "trim_start s = (if space_here s = 0 \<or> s = [] then s else trim_start (drop (space_here s) s))"
  by auto
termination by (relation "measure length") auto

declare trim_start.simps [simp del]

definition space_at_end :: "string \<Rightarrow> nat" where
  "space_at_end s =
     (if space_here (drop (length s - 1) s) = 1 then 1
      else if length s \<ge> 2 \<and> space_here (drop (length s - 2) s) = 2 then 2
      else if length s \<ge> 3 \<and> space_here (drop (length s - 3) s) = 3 then 3 else 0)"

function trim_end :: "string \<Rightarrow> string" where
  "trim_end s = (if space_at_end s = 0 \<or> s = [] then s else trim_end (take (length s - space_at_end s) s))"
  by auto
termination by (relation "measure length") auto

declare trim_end.simps [simp del]

definition trim :: "string \<Rightarrow> string" where
  "trim s = trim_end (trim_start s)"

definition identity_from_hex :: "'i Keys \<Rightarrow> string \<Rightarrow> ConfigError + 'i" where
  "identity_from_hex k hex_str =
     (case kl_hex k (trim hex_str) of
        None \<Rightarrow> Inl SecretNotHex
      | Some bytes \<Rightarrow> (case kl_secret k bytes of None \<Rightarrow> Inl SecretNotKey | Some i \<Rightarrow> Inr i))"

definition parse_pubkey :: "'i Keys \<Rightarrow> string \<Rightarrow> ConfigError + PubKey" where
  "parse_pubkey k s =
     (case kl_hex k s of
        None \<Rightarrow> Inl (PeerKeyNotHex s)
      | Some bytes \<Rightarrow> if length bytes = 33 then Inr (PubKey bytes) else Inl (PeerKeyNot33 s))"

subsection \<open>The file\<close>

record PeerSection =
  pe_no_charge :: bool
  pe_blocked :: bool
  pe_from_payer_weight :: "u16 option"
  pe_burst :: BurstSection
  pe_endpoint :: "string option"

definition PeerSection_default :: PeerSection where
  "PeerSection_default =
     \<lparr>pe_no_charge = False, pe_blocked = False, pe_from_payer_weight = None,
      pe_burst = BurstSection_default, pe_endpoint = None\<rparr>"

record File =
  fl_instance :: "string option"
  fl_control_socket :: string
  fl_secret_key :: "string option"
  fl_mint :: MintSection
  fl_accepted_mints :: "AcceptedMint list"
  fl_merchant_socket :: string
  fl_minimum_flow :: MinimumFlow
  fl_channels :: ChannelsSection
  fl_grants :: GrantsSection
  fl_burst :: BurstSection
  fl_buying :: BuyingSection
  fl_listen :: string
  fl_enforcer :: EnforcerSection
  fl_speedtest :: SpeedtestSection
  fl_peers :: "(string \<times> PeerSection) list"

text \<open>What \<open>format!("0.0.0.0:{DEFAULT_PORT}")\<close> writes.\<close>

definition DEFAULT_PORT :: nat where
  "DEFAULT_PORT = 4747"

definition listen_default :: string where
  "listen_default = ''0.0.0.0:'' @ show_base 10 DEFAULT_PORT"

definition File_default :: File where
  "File_default =
     \<lparr>fl_instance = None, fl_control_socket = [], fl_secret_key = None, fl_mint = MintSection_default,
      fl_accepted_mints = [], fl_merchant_socket = [], fl_minimum_flow = MinimumFlow_default,
      fl_channels = ChannelsSection_default, fl_grants = GrantsSection_default,
      fl_burst = BurstSection_default, fl_buying = BuyingSection_default, fl_listen = listen_default,
      fl_enforcer = EnforcerSection_default, fl_speedtest = SpeedtestSection_default, fl_peers = []\<rparr>"

definition file_instance :: "File \<Rightarrow> string option \<Rightarrow> ConfigError + string" where
  "file_instance f cli =
     (let name = (case cli of Some n \<Rightarrow> n
                  | None \<Rightarrow> (case fl_instance f of Some n \<Rightarrow> n | None \<Rightarrow> DEFAULT))
      in case validate_name name of Some e \<Rightarrow> Inl (BadInstance e) | None \<Rightarrow> Inr name)"

definition control_socket_path :: "File \<Rightarrow> string \<Rightarrow> string" where
  "control_socket_path f dir =
     (if fl_control_socket f = [] then path_join dir CONTROL_SOCKET else fl_control_socket f)"

definition state_file :: "Host \<Rightarrow> string \<Rightarrow> string" where
  "state_file h name =
     (case find (\<lambda>dir. h_is_dir h dir \<or> h_can_make h dir)
             [''/var/lib/tollgate'', ''/usr/local/var/lib/tollgate''] of
        Some dir \<Rightarrow> path_join dir name
      | None \<Rightarrow>
          (case h_xdg_data h of
             Some xdg \<Rightarrow> if xdg = [] then ''/tmp/tollgate-'' @ name else xdg @ ''/tollgate/'' @ name
           | None \<Rightarrow> ''/tmp/tollgate-'' @ name))"

definition budget_file :: "Host \<Rightarrow> string \<Rightarrow> string" where
  "budget_file h instance_name = state_file h (''budgets-'' @ instance_name @ ''.json'')"

subsection \<open>Resolving\<close>

datatype Lead = Operator | Chosen

record PeerConfig =
  pc_pubkey :: PubKey
  pc_endpoint :: "string option"
  pc_policy :: PeerPolicy

record 'i NodeConfig =
  nc_identity :: 'i
  nc_policy :: NodePolicy
  nc_buyer :: BuyerPolicy
  nc_listen :: SocketAddr
  nc_peer_identity :: Identity
  nc_mint_url :: string
  nc_mint_local :: string
  nc_channel_ttl_seconds :: u64
  nc_peers :: "PeerConfig list"

text \<open>\<open>TICK\<close>, in milliseconds.\<close>

definition TICK_MS :: u64 where
  "TICK_MS = 100"

definition reached_over_a_mesh :: "SocketAddr \<Rightarrow> bool" where
  "reached_over_a_mesh listen =
     (case sa_ip listen of V6 a \<Rightarrow> a = replicate 16 0 \<or> hd a = 0xfd | V4 _ \<Rightarrow> False)"

definition or_own_mint :: "File \<Rightarrow> string list" where
  "or_own_mint f =
     (if fl_accepted_mints f = [] then [ms_url (fl_mint f)] else map am_url (fl_accepted_mints f))"

definition grant_policy_of :: "GrantsSection \<Rightarrow> GrantPolicy" where
  "grant_policy_of g =
     \<lparr>gp_min_window_ms = fst (gs_window_range_ms g), gp_max_window_ms = snd (gs_window_range_ms g),
      gp_min_reserved_rate = gs_min_reserved_rate g, gp_min_topup_gap_ms = gs_min_topup_gap_ms g,
      gp_max_rate = gs_max_rate g\<rparr>"

definition node_policy_of :: "File \<Rightarrow> u32 \<Rightarrow> NodePolicy" where
  "node_policy_of f growth_pct =
     (let c = fl_channels f
      in \<lparr>np_unit = ms_unit (fl_mint f), np_accepted_mints = or_own_mint f,
          np_from_payer_weight = gs_from_payer_weight (fl_grants f),
          np_minimum_flow = (if mf_enabled (fl_minimum_flow f)
                             then mf_bytes_per_second (fl_minimum_flow f) else 0),
          np_grants = grant_policy_of (fl_grants f),
          np_burst = \<lparr>bp_rate = (case bs_rate (fl_burst f) of Some r \<Rightarrow> r
                                 | None \<Rightarrow> bp_rate BurstPolicy_default),
                      bp_unreserved_rate = (case bs_unreserved_rate (fl_burst f) of Some r \<Rightarrow> r
                                 | None \<Rightarrow> bp_unreserved_rate BurstPolicy_default)\<rparr>,
          np_tick_ms = TICK_MS, np_initial_channel_capacity = cs_initial_capacity c,
          np_min_channel_capacity = cs_min_capacity c, np_max_channel_capacity = cs_max_capacity c,
          np_capacity_growth_pct = growth_pct,
          np_safety_margin_ms = sat_mul (cs_safety_margin_seconds c) 1000,
          np_stale_timeout_ms = sat_mul (cs_stale_timeout_seconds c) 1000,
          np_rollover_threshold_pct = cs_rollover_threshold_pct c\<rparr>)"

definition buyer_policy_of :: "BuyingSection \<Rightarrow> BuyerPolicy" where
  "buyer_policy_of b =
     \<lparr>by_demand = bu_demand b, by_reserve = bu_reserve b, by_headroom_pct = bu_headroom_pct b,
      by_min_rate = bu_min_rate b,
      by_max_rate = (case bu_max_rate b of Some r \<Rightarrow> r | None \<Rightarrow> U64_MAX),
      by_max_from_payer_weight = bu_max_from_payer_weight b, by_window_ms = bu_window_ms b,
      by_budget = bu_budget b, by_renew_lead_ms = bu_renew_lead_ms b,
      by_cap_hold_ms = bu_cap_hold_ms b\<rparr>"

definition peer_policy_of :: "PeerSection \<Rightarrow> PeerPolicy" where
  "peer_policy_of s =
     \<lparr>pp_no_charge = pe_no_charge s, pp_blocked = pe_blocked s,
      pp_from_payer_weight = pe_from_payer_weight s, pp_burst_rate = bs_rate (pe_burst s),
      pp_unreserved_rate = bs_unreserved_rate (pe_burst s)\<rparr>"

fun resolve_peers :: "'i Keys \<Rightarrow> (string \<times> PeerSection) list \<Rightarrow> ConfigError + PeerConfig list" where
  "resolve_peers k [] = Inr []"
| "resolve_peers k ((key, s) # rest) =
     (case parse_pubkey k key of
        Inl e \<Rightarrow> Inl e
      | Inr pubkey \<Rightarrow>
          map_sum (\<lambda>e. e) (\<lambda>ps. \<lparr>pc_pubkey = pubkey, pc_endpoint = pe_endpoint s,
              pc_policy = peer_policy_of s\<rparr> # ps)
            (resolve_peers k rest))"

definition resolve_identity :: "'i Keys \<Rightarrow> File \<Rightarrow> ConfigError + 'i" where
  "resolve_identity k f =
     (case fl_secret_key f of Some hex \<Rightarrow> identity_from_hex k hex | None \<Rightarrow> Inr (kl_generated k))"

text \<open>The checks in the order the code makes them, and with the configuration whether it warns.\<close>

definition resolve_with :: "Lead \<Rightarrow> 'i Keys \<Rightarrow> File \<Rightarrow> ConfigError + 'i NodeConfig \<times> bool" where
  "resolve_with lead k f =
     (case resolve_identity k f of
        Inl e \<Rightarrow> Inl e
      | Inr identity \<Rightarrow>
     let grants = grant_policy_of (fl_grants f)
     in if gp_min_window_ms grants = 0 \<or> \<not> window_range_valid grants
        then Inl (BadWindowRange (gp_min_window_ms grants) (gp_max_window_ms grants)
                    (gp_min_topup_gap_ms grants))
        else case validate_channels (fl_channels f) of
        Inl e \<Rightarrow> Inl e
      | Inr growth_pct \<Rightarrow>
     let policy = node_policy_of f growth_pct; b = fl_buying f; buyer = buyer_policy_of b
     in if bu_renew_lead_ms b \<ge> bu_window_ms b
        then Inl (LeadNotShorter (bu_renew_lead_ms b) (bu_window_ms b))
        else if \<not> bu_reserve b \<and> bu_budget b = 0 then Inl NoBudgetToHold
        else case parse_socket_addr (fl_listen f) of
        None \<Rightarrow> Inl (BadListen (fl_listen f))
      | Some listen \<Rightarrow>
        (case resolve_peers k (fl_peers f) of
        Inl e \<Rightarrow> Inl e
      | Inr peers \<Rightarrow>
        (case enforcer_identity (fl_enforcer f) of
        Inl e \<Rightarrow> Inl e
      | Inr peer_identity \<Rightarrow>
        if peer_identity = IdPubkey \<and> \<not> reached_over_a_mesh listen then Inl (PubkeyOffMesh listen)
        else Inr
          (\<lparr>nc_identity = identity, nc_policy = policy, nc_buyer = buyer, nc_listen = listen,
            nc_peer_identity = peer_identity, nc_mint_url = ms_url (fl_mint f),
            nc_mint_local = local_url (fl_mint f),
            nc_channel_ttl_seconds = cs_ttl_seconds (fl_channels f), nc_peers = peers\<rparr>,
           lead = Operator \<and> lead_is_thin buyer))))"

definition resolve :: "'i Keys \<Rightarrow> File \<Rightarrow> ConfigError + 'i NodeConfig \<times> bool" where
  "resolve = resolve_with Operator"

definition resolve_with_chosen_lead :: "'i Keys \<Rightarrow> File \<Rightarrow> ConfigError + 'i NodeConfig \<times> bool" where
  "resolve_with_chosen_lead = resolve_with Chosen"

text \<open>The loopback data plane's address; a release build wraps the port.\<close>

definition data_listen :: "'i NodeConfig \<Rightarrow> SocketAddr" where
  "data_listen c = (nc_listen c)\<lparr>sa_port := sa_port (nc_listen c) + 1\<rparr>"

end
