(* ===== verification/Config_Properties.thy ===== *)
theory Config_Properties
  imports Config Node
begin

text \<open>
  What the checks of \<open>config.rs\<close> are for: what a configuration that resolves gives core, when one is
  refused, and what becomes of the peers it names.
\<close>

subsection \<open>The growth factor\<close>

lemma bit_length_bounds: "0 < n \<Longrightarrow> 2 ^ (bit_length n - 1) \<le> n \<and> n < 2 ^ bit_length n"
proof (induction n rule: bit_length.induct)
  case (1 n)
  show ?case
  proof (cases "n div 2 = 0")
    case True
    then have "n = 1" using 1(2) by simp
    then show ?thesis by (simp add: bit_length.simps)
  next
    case False
    with 1 have IH: "2 ^ (bit_length (n div 2) - 1) \<le> n div 2" "n div 2 < 2 ^ bit_length (n div 2)"
      by simp_all
    have pos: "bit_length (n div 2) > 0"
      using False by (subst bit_length.simps) simp
    have "bit_length n = Suc (bit_length (n div 2))"
      using 1(2) by (subst bit_length.simps) simp
    then show ?thesis
      using IH pos by (cases "bit_length (n div 2)") auto
  qed
qed

text \<open>Rounding never goes below a bound that a coarse enough power of two divides.\<close>

lemma round_significand_ge:
  assumes "round_significand n = (q, k)" and "25 * 2 ^ j \<le> n"
  shows "25 * 2 ^ j \<le> q * 2 ^ k"
proof -
  have q: "n div 2 ^ k \<le> q" and k: "k = bit_length n - 53"
    using assms(1) by (auto simp: round_significand_def Let_def split: if_splits)
  have n: "0 < n"
    using assms(2) by (rule less_le_trans [rotated]) simp
  show ?thesis
  proof (cases "k \<le> j")
    case True
    then have eq: "25 * 2 ^ j = (25 * 2 ^ (j - k)) * (2 :: nat) ^ k"
      by (simp flip: power_add)
    then have "25 * 2 ^ (j - k) \<le> n div 2 ^ k"
      using assms(2) by (simp add: less_eq_div_iff_mult_less_eq)
    then have "25 * 2 ^ (j - k) \<le> q"
      using q by simp
    then have "25 * 2 ^ (j - k) * (2 :: nat) ^ k \<le> q * 2 ^ k"
      by (rule mult_le_mono1)
    then show ?thesis
      by (simp only: eq)
  next
    case False
    then have kp: "bit_length n = k + 53"
      using k by simp
    then have "2 ^ (k + 52) \<le> n"
      using bit_length_bounds [OF n] by (simp add: add.commute)
    then have "2 ^ 52 \<le> n div 2 ^ k"
      by (simp add: less_eq_div_iff_mult_less_eq power_add)
    then have "2 ^ 52 * 2 ^ k \<le> q * (2 :: nat) ^ k"
      using q by (intro mult_le_mono1) simp
    moreover have "(25 :: nat) * 2 ^ j \<le> 2 ^ 52 * 2 ^ k"
      using False by (intro mult_le_mono power_increasing) simp_all
    ultimately show ?thesis by (rule order_trans [rotated])
  qed
qed

lemma times_100_ge:
  assumes "\<not> f64_below_one (Finite negative m e)"
  shows "100 \<le> times_100 m e"
proof -
  obtain q k where r: "round_significand (m * 100) = (q, k)" by force
  define j where "j = (if e \<ge> 0 then 2 else nat (2 - e))"
  let ?r = "if e + int k \<ge> 0 then q * 2 ^ nat (e + int k)
    else (2 * q + 2 ^ nat (- (e + int k))) div (2 * 2 ^ nat (- (e + int k)))"
  have "25 * 2 ^ j \<le> m * 100"
  proof (cases "e \<ge> 0")
    case False
    then have "nat (2 - e) = 2 + nat (- e)" "2 ^ nat (- e) \<le> m"
      using assms by simp_all
    with False show ?thesis
      by (simp add: j_def power_add)
  qed (use assms in \<open>simp add: j_def\<close>)
  then have q: "25 * 2 ^ j \<le> q * 2 ^ k"
    by (rule round_significand_ge [OF r])
  have "100 \<le> ?r"
  proof (cases "e + int k \<ge> 0")
    case True
    show ?thesis
    proof (cases "e \<ge> 0")
      case True
      then have "nat (e + int k) = nat e + k" by simp
      moreover have "100 \<le> q * 2 ^ k" using q True by (simp add: j_def)
      moreover have "q * 2 ^ k * 1 \<le> q * 2 ^ k * (2 :: nat) ^ nat e" by (rule mult_le_mono2) simp
      moreover have "q * 2 ^ k * 2 ^ nat e = q * 2 ^ (nat e + k)"
        by (simp add: power_add)
      ultimately have "100 \<le> q * 2 ^ nat (e + int k)"
        by (metis mult.right_neutral order_trans)
      with \<open>e + int k \<ge> 0\<close> show ?thesis by simp
    next
      case False
      then have "k = nat (e + int k) + nat (- e)" "j = 2 + nat (- e)"
        using True by (simp_all add: j_def)
      then have "25 * 2 ^ 2 * 2 ^ nat (- e) \<le> q * 2 ^ nat (e + int k) * (2 :: nat) ^ nat (- e)"
        using q by (metis (no_types, lifting) mult.assoc power_add)
      then have "100 \<le> q * 2 ^ nat (e + int k)"
        by simp
      with True show ?thesis by simp
    qed
  next
    case False
    define d where "d = nat (- (e + int k))"
    have "j = 2 + d + k"
      using False by (simp add: j_def d_def)
    then have "25 * 2 ^ 2 * 2 ^ d * 2 ^ k \<le> q * (2 :: nat) ^ k"
      using q by (metis (no_types, lifting) mult.assoc power_add)
    then have "100 * 2 ^ d \<le> q" by simp
    then have "100 \<le> (2 * q + 2 ^ d) div (2 * 2 ^ d)"
      by (simp add: less_eq_div_iff_mult_less_eq)
    with False show ?thesis by (simp add: d_def)
  qed
  then have "100 \<le> min ?r (2 ^ 32 - 1)" by simp
  moreover have "unat (of_nat (min ?r (2 ^ 32 - 1)) :: u32) = min ?r (2 ^ 32 - 1)"
    by (simp add: unat_of_nat take_bit_nat_eq_self)
  ultimately show ?thesis
    by (simp add: times_100_def r Let_def word_le_nat_alt)
qed

lemma validate_channels_Inr:
  assumes "validate_channels c = Inr pct"
  shows "0 < cs_min_capacity c" "cs_min_capacity c \<le> cs_initial_capacity c"
    "cs_initial_capacity c \<le> cs_max_capacity c" "100 \<le> pct"
    "sat_mul (cs_safety_margin_seconds c) 2 \<le> cs_ttl_seconds c"
  using assms times_100_ge
  by (auto simp: validate_channels_def not_less word_gt_0 simp del: f64_below_one.simps
      split: if_splits F64.splits)

text \<open>When the channel parameters hang together.\<close>

definition channels_ok :: "ChannelsSection \<Rightarrow> bool" where
  "channels_ok c \<longleftrightarrow> 0 < cs_min_capacity c \<and> cs_min_capacity c \<le> cs_initial_capacity c
     \<and> cs_initial_capacity c \<le> cs_max_capacity c \<and> f64_is_finite (cs_capacity_growth_factor c)
     \<and> \<not> f64_below_one (cs_capacity_growth_factor c)
     \<and> sat_mul (cs_safety_margin_seconds c) 2 \<le> cs_ttl_seconds c"

lemma validate_channels_exactly: "(\<exists>pct. validate_channels c = Inr pct) \<longleftrightarrow> channels_ok c"
  by (cases "cs_capacity_growth_factor c")
    (auto simp: validate_channels_def channels_ok_def word_gt_0 simp del: f64_below_one.simps
      split: if_splits)

subsection \<open>When a file resolves\<close>

definition file_ok :: "'i Keys \<Rightarrow> File \<Rightarrow> bool" where
  "file_ok k f \<longleftrightarrow>
     (\<exists>i. resolve_identity k f = Inr i)
     \<and> 0 < gp_min_window_ms (grant_policy_of (fl_grants f))
     \<and> window_range_valid (grant_policy_of (fl_grants f))
     \<and> channels_ok (fl_channels f)
     \<and> bu_renew_lead_ms (fl_buying f) < bu_window_ms (fl_buying f)
     \<and> (bu_reserve (fl_buying f) \<or> 0 < bu_budget (fl_buying f))
     \<and> list_all (\<lambda>(key, _). \<exists>bs. kl_hex k key = Some bs \<and> length bs = 33) (fl_peers f)
     \<and> (es_identity (fl_enforcer f) \<noteq> None \<or> es_kind (fl_enforcer f) \<noteq> KindExternal)
     \<and> (case parse_socket_addr (fl_listen f) of
          None \<Rightarrow> False
        | Some listen \<Rightarrow> enforcer_identity (fl_enforcer f) \<noteq> Inr IdPubkey \<or> reached_over_a_mesh listen)"

lemma resolve_peers_exactly:
  "(\<exists>cs. resolve_peers k ps = Inr cs) \<longleftrightarrow>
    list_all (\<lambda>(key, _). \<exists>bs. kl_hex k key = Some bs \<and> length bs = 33) ps"
proof (induction ps)
  case (Cons e ps)
  then show ?case
    by (cases e; cases "resolve_peers k ps")
      (auto simp: parse_pubkey_def split: option.splits)
qed simp

lemma enforcer_identity_exactly:
  "(\<exists>i. enforcer_identity s = Inr i) \<longleftrightarrow> es_identity s \<noteq> None \<or> es_kind s \<noteq> KindExternal"
  by (auto simp: enforcer_identity_def split: option.splits EnforcerKind.splits)

lemma sum_exists: "(\<exists>b. x = Inr b) \<longleftrightarrow> (\<forall>e. x \<noteq> Inl e)"
  by (cases x) auto

lemma file_resolves: "(\<exists>r. resolve_with lead k f = Inr r) = file_ok k f"
proof (cases "resolve_identity k f")
  case (Inr i)
  note exact = validate_channels_exactly [of "fl_channels f"] resolve_peers_exactly [of k "fl_peers f"]
    enforcer_identity_exactly [of "fl_enforcer f"]
  show ?thesis
    using Inr exact
    by (auto simp: resolve_with_def file_ok_def Let_def word_gt_0 not_less
        split: sum.splits option.splits)
qed (simp add: resolve_with_def file_ok_def)


subsection \<open>What core is given\<close>

lemma resolve_fields:
  assumes "resolve_with lead k f = Inr (c, w)"
  obtains pct where "validate_channels (fl_channels f) = Inr pct" "nc_policy c = node_policy_of f pct"
    "nc_buyer c = buyer_policy_of (fl_buying f)"
    "nc_channel_ttl_seconds c = cs_ttl_seconds (fl_channels f)"
    "resolve_peers k (fl_peers f) = Inr (nc_peers c)"
    "0 < gp_min_window_ms (grant_policy_of (fl_grants f))"
    "window_range_valid (grant_policy_of (fl_grants f))"
    "bu_renew_lead_ms (fl_buying f) < bu_window_ms (fl_buying f)"
    "nc_peer_identity c = IdPubkey \<longrightarrow> reached_over_a_mesh (nc_listen c)"
  using assms
  by (auto simp: resolve_with_def Let_def word_gt_0 not_le intro!: that
      split: sum.splits option.splits if_splits)

lemma clamp_capacity_within:
  "np_min_channel_capacity n \<le> c \<Longrightarrow> c \<le> np_max_channel_capacity n \<Longrightarrow> clamp_capacity n c = c"
  by (simp add: clamp_capacity_def)

lemma grown_capacity_grows:
  assumes "100 \<le> np_capacity_growth_pct n" "np_min_channel_capacity n \<le> c" "c \<le> np_max_channel_capacity n"
  shows "c \<le> grown_capacity n c"
proof -
  have "unat c * 100 \<le> unat c * unat (np_capacity_growth_pct n)"
    using assms(1) by (intro mult_le_mono2) (simp add: word_le_nat_alt)
  then have "unat c \<le> unat c * unat (np_capacity_growth_pct n) div 100"
    by (simp add: less_eq_div_iff_mult_less_eq)
  then have "c \<le> clamp_u64 (unat c * unat (np_capacity_growth_pct n) div 100)"
    by (simp add: u64_nat)
  then show ?thesis
    using assms(3) by (simp add: grown_capacity_def clamp_capacity_def max.coboundedI1)
qed

text \<open>A channel opened now with the whole time to live has more than the margin ahead of it.\<close>

lemma fresh_channel_outlives_margin:
  assumes "sat_mul margin 2 \<le> ttl" "0 < ttl" "unat now + unat ttl * 1000 < 2 ^ 64"
  shows "\<not> millis_add now (sat_mul margin 1000) \<ge> millis_add now (sat_mul ttl 1000)"
proof -
  have "min (unat margin * 2) 18446744073709551615 \<le> unat ttl" "0 < unat ttl"
    using assms(1,2) by (simp_all add: u64_nat)
  then have "unat margin * 2 \<le> unat ttl"
    using assms(3) by simp
  then have "unat margin * 1000 < unat ttl * 1000"
    using \<open>0 < unat ttl\<close> by simp
  then show ?thesis
    using assms(3) by (simp add: not_le word_less_nat_alt unat_millis_add unat_sat_mul)
qed


subsection \<open>The peers a file names\<close>

lemma resolve_peers_mem:
  "resolve_peers k ps = Inr cs \<Longrightarrow>
    (\<exists>key s. (key, s) \<in> set ps \<and> parse_pubkey k key = Inr p \<and> pol = peer_policy_of s) \<longleftrightarrow>
    (p, pol) \<in> (\<lambda>c. (pc_pubkey c, pc_policy c)) ` set cs"
proof (induction ps arbitrary: cs)
  case (Cons e ps)
  obtain key s where e: "e = (key, s)" by (cases e)
  obtain q cs' where step: "parse_pubkey k key = Inr q" "resolve_peers k ps = Inr cs'"
    "cs = \<lparr>pc_pubkey = q, pc_endpoint = pe_endpoint s, pc_policy = peer_policy_of s\<rparr> # cs'"
    using Cons.prems by (cases "resolve_peers k ps") (auto simp: e split: sum.splits)
  show ?case
    using Cons.IH [OF step(2)] step(1) by (auto simp: e step(3))
qed auto

definition configured_peers :: "'i NodeConfig \<Rightarrow> (PubKey \<times> PeerPolicy) list" where
  "configured_peers c = map (\<lambda>p. (pc_pubkey p, pc_policy p)) (nc_peers c)"

lemma configure_one:
  "ss_peers s = [] \<Longrightarrow> configure s (q, pol) = s\<lparr>ss_overrides := bt_insert q pol (ss_overrides s)\<rparr>"
  by (simp add: set_peer_policy_def Let_def)

lemma configure_all:
  assumes "ss_peers s = []"
  shows "(\<exists>pol. (p, pol) \<in> set ps \<and> bt_get (ss_overrides (foldl configure s ps)) p = Some pol)
     \<or> p \<notin> fst ` set ps \<and> bt_get (ss_overrides (foldl configure s ps)) p = bt_get (ss_overrides s) p"
  using assms
proof (induction ps arbitrary: s)
  case (Cons e ps)
  obtain q pol where e: "e = (q, pol)" by (cases e)
  have one: "configure s e = s\<lparr>ss_overrides := bt_insert q pol (ss_overrides s)\<rparr>"
    using Cons.prems by (simp only: e configure_one)
  have "ss_peers (configure s e) = []"
    using Cons.prems by (simp add: one)
  from Cons.IH [OF this] show ?case
    by (auto simp: e one [unfolded e] simp del: configure.simps split: if_splits)
qed auto


subsection \<open>Concrete files\<close>

text \<open>Keys read digit by digit, so that a key of 33 zeros is its 66 digits.\<close>

fun hex_pairs :: "string \<Rightarrow> u8 list option" where
  "hex_pairs [] = Some []"
| "hex_pairs (a # b # rest) =
     (case (digit_value 16 a, digit_value 16 b, hex_pairs rest) of
        (Some x, Some y, Some bs) \<Rightarrow> Some (of_nat (16 * x + y) # bs)
      | _ \<Rightarrow> None)"
| "hex_pairs _ = None"

definition ex_keys :: "u8 list Keys" where
  "ex_keys = \<lparr>kl_hex = hex_pairs, kl_secret = Some, kl_generated = replicate 32 1\<rparr>"

definition ex_blocked :: File where
  "ex_blocked = File_default\<lparr>fl_peers := [(replicate 66 CHR ''0'', PeerSection_default\<lparr>pe_blocked := True\<rparr>)]\<rparr>"

lemma listen_default_parses: "parse_socket_addr listen_default = Some \<lparr>sa_ip = V4 [0, 0, 0, 0], sa_port = 4747\<rparr>"
  by (simp add: listen_default_def DEFAULT_PORT_def show_base.simps digit_char_def parse_socket_addr_def
      read_socket_v4_def read_ipv4_def read_four read_given_def read_octet_def read_number_def
      is_digit_def digit_value_def digits_value_def read_port_def)

lemma hex_pairs_zeros: "hex_pairs (replicate (2 * n) CHR ''0'') = Some (replicate n 0)"
  by (induction n) (simp_all add: digit_value_def)

lemma zeros_parse: "parse_pubkey ex_keys (replicate 66 CHR ''0'') = Inr (PubKey (replicate 33 0))"
  using hex_pairs_zeros [of 33] by (simp add: parse_pubkey_def ex_keys_def)

lemmas ex_file_defs = File_default_def MintSection_default_def ChannelsSection_default_def
  GrantsSection_default_def BuyingSection_default_def EnforcerSection_default_def NodePolicy_default_def
  GrantPolicy_default_def BuyerPolicy_default_def DEFAULT_INITIAL_CAPACITY_def Let_def

lemma default_file_ok: "file_ok ex_keys File_default"
  by (simp add: file_ok_def ex_file_defs resolve_identity_def grant_policy_of_def window_range_valid_def
      channels_ok_def listen_default_parses enforcer_identity_def sat_mul_def clamp_u64_def)


lemma blocked_file_ok: "file_ok ex_keys ex_blocked"
  using default_file_ok zeros_parse
  by (auto simp: file_ok_def ex_blocked_def File_default_def resolve_identity_def parse_pubkey_def
      split: option.splits if_splits)

lemma ex_resolved: "\<exists>c w. resolve_with Operator ex_keys ex_blocked = Inr (c, w)"
  using blocked_file_ok file_resolves [of Operator ex_keys ex_blocked] by auto



end
