(* ===== verification/Kernel_Tables.thy ===== *)
theory Kernel_Tables
  imports Addresses Access_Level Meter Btree_Map
begin

text \<open>
  How the kernel enforcer reads the kernel's tables and decides what each peer holds in them
  (\<open>crates/tollgate-net/src/enforcer/ip.rs\<close>): routes and neighbours as \<open>ip -j\<close> prints them, on which
  side of the relationship a peer is, which IPv6 addresses follow its budget, and the elements of the
  maps and sets that say so. A set of addresses is listed in order, a hash map as an ordered one.
\<close>

unbundle bit_operations_syntax

subsection \<open>JSON as the library gives it\<close>

datatype Json =
    JNull
  | JBool bool
  | JInt int
  | JFloat
  | JString string
  | JArray "Json list"
  | JObject "(string \<times> Json) list"

fun json_get :: "string \<Rightarrow> Json \<Rightarrow> Json option" where
  "json_get key (JObject entries) = map_of entries key"
| "json_get key _ = None"

fun json_str :: "Json \<Rightarrow> string option" where
  "json_str (JString s) = Some s"
| "json_str _ = None"

fun json_array :: "Json \<Rightarrow> Json list option" where
  "json_array (JArray xs) = Some xs"
| "json_array _ = None"

fun json_u64 :: "Json \<Rightarrow> u64 option" where
  "json_u64 (JInt n) = (if 0 \<le> n \<and> n < 2 ^ 64 then Some (of_int n) else None)"
| "json_u64 _ = None"

text \<open>\<open>into_iter().flatten()\<close> of an array that may not be there.\<close>

definition json_items :: "Json option \<Rightarrow> Json list" where
  "json_items v = (case Option.bind v json_array of Some xs \<Rightarrow> xs | None \<Rightarrow> [])"

subsection \<open>Routes and neighbours\<close>

definition gateway_of :: "Json \<Rightarrow> u8 list option" where
  "gateway_of v = Option.bind (Option.bind (json_get ''gateway'' v) json_str) parse_ipv4"

definition route_gateways :: "Json \<Rightarrow> u8 list list" where
  "route_gateways route =
     (case gateway_of route of Some g \<Rightarrow> [g] | None \<Rightarrow> [])
     @ List.map_filter gateway_of (json_items (json_get ''nexthops'' route))"

definition parse_gateways :: "(string \<Rightarrow> Json option) \<Rightarrow> string \<Rightarrow> u8 list list option" where
  "parse_gateways json text =
     (case json text of
        Some (JArray routes) \<Rightarrow> Some (concat (map route_gateways routes))
      | _ \<Rightarrow> None)"

definition ascii_lower :: "char \<Rightarrow> char" where
  "ascii_lower c = (let n = of_char c :: nat in if 65 \<le> n \<and> n \<le> 90 then char_of (n + 32) else c)"

fun split_on :: "char \<Rightarrow> string \<Rightarrow> string list" where
  "split_on d [] = [[]]"
| "split_on d (c # cs) =
     (if c = d then [] # split_on d cs
      else case split_on d cs of w # ws \<Rightarrow> (c # w) # ws | [] \<Rightarrow> [[c]])"

definition normalize_mac :: "string \<Rightarrow> string option" where
  "normalize_mac mac =
     (let octets = split_on (CHR '':'') mac
      in if length octets = 6 \<and> list_all (\<lambda>o1. length o1 = 2 \<and> list_all (is_digit 16) o1) octets
         then Some (map ascii_lower mac) else None)"

definition neighbour_failed :: "Json \<Rightarrow> bool" where
  "neighbour_failed entry =
     list_ex (\<lambda>s. s = ''FAILED'' \<or> s = ''INCOMPLETE'')
       (List.map_filter json_str (json_items (json_get ''state'' entry)))"

definition neighbour_of :: "(string \<Rightarrow> 'a option) \<Rightarrow> Json \<Rightarrow> ('a \<times> string) option" where
  "neighbour_of parse entry =
     (if neighbour_failed entry then None
      else case Option.bind (Option.bind (json_get ''dst'' entry) json_str) parse of
        None \<Rightarrow> None
      | Some ip \<Rightarrow>
          (case Option.bind (Option.bind (json_get ''lladdr'' entry) json_str) normalize_mac of
             None \<Rightarrow> None
           | Some mac \<Rightarrow> Some (ip, mac)))"

definition parse_neighbours ::
  "(string \<Rightarrow> Json option) \<Rightarrow> (string \<Rightarrow> 'a::linorder option) \<Rightarrow> string \<Rightarrow> ('a, string) btreemap option" where
  "parse_neighbours json parse text =
     (case json text of
        Some (JArray entries) \<Rightarrow>
          Some (foldl (\<lambda>m (ip, mac). bt_insert ip mac m) [] (List.map_filter (neighbour_of parse) entries))
      | _ \<Rightarrow> None)"

subsection \<open>Which side of the relationship a peer is on\<close>

datatype Metering = MeterAddr | MeterUpstream "string option"

record IpLink =
  il_mac :: string
  il_v6 :: "u8 list list"
  il_overflowed :: bool

definition MAX_V6_PER_PEER :: nat where
  "MAX_V6_PER_PEER = 16"

definition classify :: "IpAddr \<Rightarrow> u8 list list \<Rightarrow> (u8 list, string) btreemap \<Rightarrow> Metering" where
  "classify addr gateways neighbours =
     (case addr of
        V6 _ \<Rightarrow> MeterAddr
      | V4 v4 \<Rightarrow> if v4 \<notin> set gateways then MeterAddr else MeterUpstream (bt_get neighbours v4))"

text \<open>Not unspecified, loopback, multicast or link-local.\<close>

definition forwardable :: "u8 list \<Rightarrow> bool" where
  "forwardable a =
     (\<not> (a = replicate 16 0 \<or> a = replicate 15 0 @ [1] \<or> hd a = 0xff
         \<or> (case segments a of s # _ \<Rightarrow> s AND 0xffc0 = 0xfe80 | [] \<Rightarrow> False)))"

text \<open>Addresses into an ordered set until it is full.\<close>

fun fill_v6 :: "u8 list list \<Rightarrow> u8 list list \<Rightarrow> u8 list list" where
  "fill_v6 v6 [] = v6"
| "fill_v6 v6 (a # as) =
     (if length v6 \<ge> MAX_V6_PER_PEER then v6 else fill_v6 (insort_insert a v6) as)"

definition kept_v6 :: "string \<Rightarrow> (u8 list, string) btreemap \<Rightarrow> IpLink option \<Rightarrow> u8 list list" where
  "kept_v6 mac neighbours6 previous =
     (case previous of
        Some link \<Rightarrow>
          if il_mac link = mac
          then filter (\<lambda>a. case bt_get neighbours6 a of None \<Rightarrow> True | Some m \<Rightarrow> m = mac) (il_v6 link)
          else []
      | None \<Rightarrow> [])"

definition seen_v6 :: "string \<Rightarrow> (u8 list, string) btreemap \<Rightarrow> u8 list list" where
  "seen_v6 mac neighbours6 =
     map fst (filter (\<lambda>(a, m). m = mac \<and> forwardable a) neighbours6)"

definition customer_link ::
  "IpAddr \<Rightarrow> Metering \<Rightarrow> (u8 list, string) btreemap \<Rightarrow> (u8 list, string) btreemap \<Rightarrow> IpLink option \<Rightarrow>
   IpLink option" where
  "customer_link addr metering neighbours neighbours6 previous =
     (case addr of
        V6 _ \<Rightarrow> None
      | V4 v4 \<Rightarrow>
          if metering \<noteq> MeterAddr then None
          else case bt_get neighbours v4 of
            None \<Rightarrow> previous
          | Some mac \<Rightarrow>
              (let kept = kept_v6 mac neighbours6 previous;
                   seen = seen_v6 mac neighbours6;
                   overflowed = length seen > MAX_V6_PER_PEER;
                   (first, rest) = (if overflowed then (kept, seen) else (seen, kept))
               in Some \<lparr>il_mac = mac, il_v6 = fill_v6 [] (first @ rest), il_overflowed = overflowed\<rparr>))"

subsection \<open>Elements\<close>

datatype ElemValue = ElMember | ElCounter string | ElMark u32

type_synonym Element = "string \<times> string \<times> ElemValue"

text \<open>The names of the maps and sets.\<close>

definition DOWN_TX :: string where
  "DOWN_TX = ''down_tx''"

definition DOWN_RX :: string where
  "DOWN_RX = ''down_rx''"

definition UP_TX :: string where
  "UP_TX = ''up_tx''"

definition UP_RX :: string where
  "UP_RX = ''up_rx''"

definition DOWN6_TX :: string where
  "DOWN6_TX = ''down6_tx''"

definition DOWN6_RX :: string where
  "DOWN6_RX = ''down6_rx''"

definition MARK6 :: string where
  "MARK6 = ''mark6''"

definition KNOWN_MAC :: string where
  "KNOWN_MAC = ''known_mac''"

definition ALLOWED_MAC :: string where
  "ALLOWED_MAC = ''allowed_mac''"

definition KNOWN6 :: string where
  "KNOWN6 = ''known6''"

definition ALLOWED6 :: string where
  "ALLOWED6 = ''allowed6''"


lemmas map_names = DOWN_TX_def DOWN_RX_def UP_TX_def UP_RX_def DOWN6_TX_def DOWN6_RX_def MARK6_def
  KNOWN_MAC_def ALLOWED_MAC_def KNOWN6_def ALLOWED6_def

definition address_elements :: "bool \<Rightarrow> string \<Rightarrow> u32 \<Rightarrow> u8 list \<Rightarrow> Element list" where
  "address_elements allow delivered mark a =
     (let key = show_ipv6 a
      in (KNOWN6, key, ElMember) # (if allow then [(ALLOWED6, key, ElMember)] else [])
         @ [(DOWN6_TX, key, ElCounter delivered), (MARK6, key, ElMark mark)])"

definition link_elements ::
  "IpLink option \<Rightarrow> bool \<Rightarrow> string \<Rightarrow> string \<Rightarrow> u32 \<Rightarrow> Element list" where
  "link_elements link allow delivered received mark =
     (case link of
        None \<Rightarrow> []
      | Some l \<Rightarrow>
          (let allow = (allow \<and> \<not> il_overflowed l)
           in [(KNOWN_MAC, il_mac l, ElMember), (DOWN6_RX, il_mac l, ElCounter received)]
              @ (if allow then [(ALLOWED_MAC, il_mac l, ElMember)] else [])
              @ concat (map (address_elements allow delivered mark) (il_v6 l))))"

definition map_elements :: "IpAddr \<Rightarrow> Metering \<Rightarrow> string \<Rightarrow> string \<Rightarrow> Element list" where
  "map_elements addr metering delivered received =
     (let ip = show_ip addr
      in case metering of
           MeterAddr \<Rightarrow> [(DOWN_TX, ip, ElCounter delivered), (DOWN_RX, ip, ElCounter received)]
         | MeterUpstream mac \<Rightarrow>
             [(UP_TX, ip, ElCounter delivered),
              (case mac of Some m \<Rightarrow> (UP_RX, m, ElCounter received)
                         | None \<Rightarrow> (DOWN_RX, ip, ElCounter received))])"

subsection \<open>What a refresh removes and adds\<close>

record Move =
  mv_before :: "Element list"
  mv_after :: "Element list"

definition plan_removals :: "Move list \<Rightarrow> Element list" where
  "plan_removals moves =
     (let claimed = concat (map mv_after moves)
      in foldl (\<lambda>removals (e, after).
             if e \<notin> set after \<and> e \<notin> set claimed \<and> e \<notin> set removals then removals @ [e] else removals)
           [] (concat (map (\<lambda>m. map (\<lambda>e. (e, mv_after m)) (mv_before m)) moves)))"

definition plan_additions :: "Move list \<Rightarrow> Element list list" where
  "plan_additions moves = map (\<lambda>m. filter (\<lambda>e. e \<notin> set (mv_before m)) (mv_after m)) moves"

definition plan_moves :: "Move list \<Rightarrow> Element list \<times> Element list list" where
  "plan_moves moves = (plan_removals moves, plan_additions moves)"

end
