(* ===== verification/Enforcer_Ip.thy ===== *)
theory Enforcer_Ip
  imports Kernel_Tables Clock Limits
begin

text \<open>
  The kernel enforcer (\<open>crates/tollgate-net/src/enforcer/ip.rs\<close>): one function per method, each
  running the commands the code runs, argument for argument, in its order. The kernel is behind
  \<open>ie_run\<close>: a program and its arguments, with the kernel as they find it, give what it prints, or
  nothing if it failed, and the kernel as they leave it. \<open>ie_json\<close> and \<open>ie_hex\<close> are the libraries'.
\<close>

unbundle bit_operations_syntax

record 'k IpEnv =
  ie_run :: "'k \<Rightarrow> string \<Rightarrow> string list \<Rightarrow> string option \<times> 'k"
  ie_json :: "string \<Rightarrow> Json option"
  ie_hex :: "u8 list \<Rightarrow> string"

record IpPeer =
  kp_addr :: IpAddr
  kp_classid :: u16
  kp_access :: AccessLevel
  kp_rate :: u64
  kp_carried :: bool
  kp_metering :: Metering
  kp_link :: "IpLink option"

record Ip =
  ip_interface :: string
  ip_peers :: "(PubKey, IpPeer) btreemap"
  ip_next_classid :: u16
  ip_refreshed :: "Millis option"

definition TABLE :: string where
  "TABLE = ''tollgate''"

definition CLASS_BURST_MS :: u64 where
  "CLASS_BURST_MS = 10"

definition MARK_BASE :: u32 where
  "MARK_BASE = 0x70110000"

definition REFRESH_MS :: u64 where
  "REFRESH_MS = 5000"

subsection \<open>Running commands\<close>

definition nft :: "'k IpEnv \<Rightarrow> string list \<Rightarrow> 'k \<Rightarrow> string option \<times> 'k" where
  "nft env args k = ie_run env k ''nft'' args"

definition tc :: "'k IpEnv \<Rightarrow> string list \<Rightarrow> 'k \<Rightarrow> string option \<times> 'k" where
  "tc env args k = ie_run env k ''tc'' args"

text \<open>A command whose result nobody looks at.\<close>

definition nft_quiet :: "'k IpEnv \<Rightarrow> string list \<Rightarrow> 'k \<Rightarrow> 'k" where
  "nft_quiet env args k = snd (nft env args k)"

definition tc_quiet :: "'k IpEnv \<Rightarrow> string list \<Rightarrow> 'k \<Rightarrow> 'k" where
  "tc_quiet env args k = snd (tc env args k)"

text \<open>One command after another, until one fails.\<close>

fun run_all :: "'k IpEnv \<Rightarrow> (string \<times> string list) list \<Rightarrow> 'k \<Rightarrow> bool \<times> 'k" where
  "run_all env [] k = (True, k)"
| "run_all env ((program, args) # rest) k =
     (case ie_run env k program args of
        (None, k') \<Rightarrow> (False, k')
      | (Some _, k') \<Rightarrow> run_all env rest k')"

subsection \<open>Installing the table\<close>

definition braced :: "string \<Rightarrow> string" where
  "braced s = ''{ '' @ s @ '' }''"

definition ipv6_gate_rules :: "string list list" where
  "ipv6_gate_rules =
     [[''meta'', ''nfproto'', ''ipv6'', ''ether'', ''saddr'', ''@known_mac'', ''ether'', ''saddr'',
       ''!='', ''@allowed_mac'', ''drop''],
      [''ip6'', ''daddr'', ''@known6'', ''ip6'', ''daddr'', ''!='', ''@allowed6'', ''drop'']]"

definition counting_rules :: "string list list" where
  "counting_rules =
     [[''counter'', ''name'', ''ip'', ''daddr'', ''map'', ''@down_tx''],
      [''counter'', ''name'', ''ip'', ''saddr'', ''map'', ''@down_rx''],
      [''counter'', ''name'', ''rt'', ''ip'', ''nexthop'', ''map'', ''@up_tx''],
      [''counter'', ''name'', ''ether'', ''saddr'', ''map'', ''@up_rx''],
      [''counter'', ''name'', ''ip6'', ''daddr'', ''map'', ''@down6_tx''],
      [''meta'', ''nfproto'', ''ipv6'', ''counter'', ''name'', ''ether'', ''saddr'', ''map'',
       ''@down6_rx'']]"

definition add_rule :: "string list \<Rightarrow> string \<times> string list" where
  "add_rule rule = (''nft'', [''add'', ''rule'', ''inet'', TABLE, ''forward''] @ rule)"

definition add_set :: "string \<times> string \<Rightarrow> string \<times> string list" where
  "add_set = (\<lambda>(set_name, key).
     (''nft'', [''add'', ''set'', ''inet'', TABLE, set_name, braced (''type '' @ key @ '';'')]))"

definition add_map :: "string \<times> string \<Rightarrow> string \<times> string list" where
  "add_map = (\<lambda>(name, key).
     (''nft'', [''add'', ''map'', ''inet'', TABLE, name, braced (''type '' @ key @ '' : counter;'')]))"

definition install_commands :: "string \<Rightarrow> (string \<times> string list) list" where
  "install_commands interface =
     [(''nft'', [''add'', ''table'', ''inet'', TABLE])]
     @ map add_set [(''known'', ''ipv4_addr''), (''allowed'', ''ipv4_addr'')]
     @ [(''nft'', [''add'', ''chain'', ''inet'', TABLE, ''forward'',
                   ''{ type filter hook forward priority 0; policy accept; }'']),
        add_rule [''ip'', ''saddr'', ''@known'', ''ip'', ''saddr'', ''!='', ''@allowed'', ''drop''],
        add_rule [''ip'', ''daddr'', ''@known'', ''ip'', ''daddr'', ''!='', ''@allowed'', ''drop'']]
     @ map add_set [(KNOWN_MAC, ''ether_addr''), (ALLOWED_MAC, ''ether_addr''),
                    (KNOWN6, ''ipv6_addr''), (ALLOWED6, ''ipv6_addr'')]
     @ map add_rule ipv6_gate_rules
     @ map add_map [(DOWN_TX, ''ipv4_addr''), (DOWN_RX, ''ipv4_addr''), (UP_TX, ''ipv4_addr''),
                    (UP_RX, ''ether_addr''), (DOWN6_TX, ''ipv6_addr''), (DOWN6_RX, ''ether_addr'')]
     @ map add_rule counting_rules
     @ [(''nft'', [''add'', ''map'', ''inet'', TABLE, MARK6, ''{ type ipv6_addr : mark; }'']),
        add_rule [''meta'', ''mark'', ''set'', ''ip6'', ''daddr'', ''map'', ''@mark6''],
        (''tc'', [''qdisc'', ''replace'', ''dev'', interface, ''root'', ''handle'', ''1:'', ''htb'',
                  ''default'', ''9999''])]"

definition ip_install :: "'k IpEnv \<Rightarrow> string \<Rightarrow> 'k \<Rightarrow> bool \<times> 'k" where
  "ip_install env interface k =
     run_all env (install_commands interface) (nft_quiet env [''delete'', ''table'', ''inet'', TABLE] k)"

definition ip_drop :: "'k IpEnv \<Rightarrow> Ip \<Rightarrow> 'k \<Rightarrow> 'k" where
  "ip_drop env ip k =
     tc_quiet env [''qdisc'', ''delete'', ''dev'', ip_interface ip, ''root'']
       (nft_quiet env [''delete'', ''table'', ''inet'', TABLE] k)"

text \<open>An enforcer that could not install is dropped, which takes away what it did install.\<close>

definition ip_new :: "'k IpEnv \<Rightarrow> string \<Rightarrow> 'k \<Rightarrow> Ip option \<times> 'k" where
  "ip_new env interface k =
     (let ip = \<lparr>ip_interface = interface, ip_peers = [], ip_next_classid = 2, ip_refreshed = None\<rparr>
      in case ip_install env interface k of
           (True, k') \<Rightarrow> (Some ip, k')
         | (False, k') \<Rightarrow> (None, ip_drop env ip k'))"

subsection \<open>Elements in and out\<close>

definition counter_names :: "'k IpEnv \<Rightarrow> PubKey \<Rightarrow> string \<times> string" where
  "counter_names env peer =
     (let tag = ie_hex env (take 6 (pubkey_bytes peer)) in (''d'' @ tag, ''r'' @ tag))"

text \<open>A number as \<open>{:#x}\<close>, and a class as \<open>1:{}\<close>.\<close>

definition show_mark :: "u32 \<Rightarrow> string" where
  "show_mark mark = ''0x'' @ show_base 16 (unat mark)"

definition show_class :: "u16 \<Rightarrow> string" where
  "show_class classid = ''1:'' @ show_base 10 (unat classid)"

definition mark_of :: "u16 \<Rightarrow> u32" where
  "mark_of classid = MARK_BASE OR ucast classid"

definition element_text :: "string \<Rightarrow> ElemValue \<Rightarrow> string" where
  "element_text key v =
     (case v of
        ElMember \<Rightarrow> braced key
      | ElCounter counter \<Rightarrow> braced (key @ '' : '' @ [CHR 0x22] @ counter @ [CHR 0x22])
      | ElMark mark \<Rightarrow> braced (key @ '' : '' @ show_mark mark))"

fun remove_elements :: "'k IpEnv \<Rightarrow> Element list \<Rightarrow> 'k \<Rightarrow> bool \<times> 'k" where
  "remove_elements env [] k = (True, k)"
| "remove_elements env ((m, key, _) # es) k =
     (let (r, k) = nft env [''delete'', ''element'', ''inet'', TABLE, m, braced key] k;
          (all, k) = remove_elements env es k
      in (r \<noteq> None \<and> all, k))"

fun add_elements :: "'k IpEnv \<Rightarrow> Element list \<Rightarrow> 'k \<Rightarrow> bool \<times> 'k" where
  "add_elements env [] k = (True, k)"
| "add_elements env ((m, key, v) # es) k =
     (let (r, k) = nft env [''add'', ''element'', ''inet'', TABLE, m, element_text key v] k;
          (all, k) = add_elements env es k
      in (r \<noteq> None \<and> all, k))"

text \<open>What is in the one list and not in the other; the result says whether all were added and removed.\<close>

definition apply_elements ::
  "'k IpEnv \<Rightarrow> Element list \<Rightarrow> Element list \<Rightarrow> 'k \<Rightarrow> (bool \<times> bool) \<times> 'k" where
  "apply_elements env old new k =
     (let gone = filter (\<lambda>e. e \<notin> set new) old;
          fresh = filter (\<lambda>e. e \<notin> set old) new;
          (removed, k) = remove_elements env gone k;
          (added, k) = add_elements env fresh k
      in ((added, removed), k))"

definition peer_elements :: "'k IpEnv \<Rightarrow> PubKey \<Rightarrow> IpPeer \<Rightarrow> Metering \<Rightarrow> IpLink option \<Rightarrow> Element list" where
  "peer_elements env peer entry metering link =
     (let (delivered, received) = counter_names env peer
      in map_elements (kp_addr entry) metering delivered received
         @ link_elements link (kp_carried entry) delivered received (mark_of (kp_classid entry)))"

subsection \<open>The gate\<close>

definition allowed_element :: "string \<Rightarrow> IpAddr \<Rightarrow> string list" where
  "allowed_element verb addr = [verb, ''element'', ''inet'', TABLE, ''allowed'', braced (show_ip addr)]"

definition gate :: "'k IpEnv \<Rightarrow> PubKey \<Rightarrow> IpPeer \<Rightarrow> 'k \<Rightarrow> IpPeer \<times> 'k" where
  "gate env peer entry k =
     (let on = carried (kp_access entry) (kp_rate entry)
      in if on = kp_carried entry then (entry, k)
         else case nft env (allowed_element (if on then ''add'' else ''delete'') (kp_addr entry)) k of
           (None, k) \<Rightarrow> (entry, k)
         | (Some _, k) \<Rightarrow>
             let (delivered, received) = counter_names env peer;
                 mark = mark_of (kp_classid entry);
                 (applied, k) = apply_elements env
                   (link_elements (kp_link entry) (kp_carried entry) delivered received mark)
                   (link_elements (kp_link entry) on delivered received mark) k
             in (entry\<lparr>kp_carried := on\<rparr>, k))"

subsection \<open>The trait's operations\<close>

definition class_replace :: "string \<Rightarrow> u16 \<Rightarrow> string list \<Rightarrow> string list" where
  "class_replace interface classid rate =
     [''class'', ''replace'', ''dev'', interface, ''parent'', ''1:'', ''classid'', show_class classid,
      ''htb''] @ rate"

definition filter_replace :: "string \<Rightarrow> u16 \<Rightarrow> string \<Rightarrow> string \<Rightarrow> string list" where
  "filter_replace interface classid protocol prio =
     [''filter'', ''replace'', ''dev'', interface, ''protocol'', protocol, ''parent'', ''1:'', ''prio'',
      prio, ''handle'', show_mark (mark_of classid), ''fw'', ''flowid'', show_class classid]"

definition filter_delete :: "string \<Rightarrow> u16 \<Rightarrow> string \<Rightarrow> string \<Rightarrow> string list" where
  "filter_delete interface classid protocol prio =
     [''filter'', ''delete'', ''dev'', interface, ''parent'', ''1:'', ''protocol'', protocol, ''prio'',
      prio, ''handle'', show_mark (mark_of classid), ''fw'']"

definition known_element :: "string \<Rightarrow> IpAddr \<Rightarrow> string list" where
  "known_element verb addr = [verb, ''element'', ''inet'', TABLE, ''known'', braced (show_ip addr)]"

definition mark_rule :: "IpAddr \<Rightarrow> u16 \<Rightarrow> string list" where
  "mark_rule addr classid =
     [''add'', ''rule'', ''inet'', TABLE, ''forward'', ''ip'', ''daddr'', show_ip addr, ''meta'',
      ''mark'', ''set'', show_mark (mark_of classid)]"

definition ip_register :: "'k IpEnv \<Rightarrow> PubKey \<Rightarrow> IpAddr \<Rightarrow> Ip \<times> 'k \<Rightarrow> Ip \<times> 'k" where
  "ip_register env peer addr = (\<lambda>(ip, k).
     if bt_get (ip_peers ip) peer \<noteq> None then (ip, k)
     else
       let classid = ip_next_classid ip;
           (delivered, received) = counter_names env peer;
           k = nft_quiet env (known_element ''add'' addr) k;
           k = nft_quiet env [''add'', ''counter'', ''inet'', TABLE, delivered] k;
           k = nft_quiet env [''add'', ''counter'', ''inet'', TABLE, received] k;
           (_, k) = apply_elements env [] (map_elements addr MeterAddr delivered received) k;
           k = nft_quiet env (mark_rule addr classid) k;
           k = tc_quiet env (class_replace (ip_interface ip) classid [''rate'', ''8bit'']) k;
           k = tc_quiet env (filter_replace (ip_interface ip) classid ''ip'' ''1'') k;
           k = tc_quiet env (filter_replace (ip_interface ip) classid ''ipv6'' ''2'') k;
           entry = \<lparr>kp_addr = addr, kp_classid = classid, kp_access = AccessNone, kp_rate = 0,
                    kp_carried = False, kp_metering = MeterAddr, kp_link = None\<rparr>
       in (ip\<lparr>ip_next_classid := (if classid = - 1 then - 1 else classid + 1),
              ip_peers := bt_insert peer entry (ip_peers ip), ip_refreshed := None\<rparr>, k))"

definition ip_set_access :: "'k IpEnv \<Rightarrow> PubKey \<Rightarrow> AccessLevel \<Rightarrow> Ip \<times> 'k \<Rightarrow> Ip \<times> 'k" where
  "ip_set_access env peer access = (\<lambda>(ip, k).
     case bt_get (ip_peers ip) peer of
       None \<Rightarrow> (ip, k)
     | Some entry \<Rightarrow>
         let (entry, k) = gate env peer (entry\<lparr>kp_access := access\<rparr>) k
         in (ip\<lparr>ip_peers := bt_insert peer entry (ip_peers ip)\<rparr>, k))"

definition rate_args :: "u64 \<Rightarrow> string list" where
  "rate_args rate =
     (let bits = max (sat_mul rate 8) 8; burst = sat_mul rate CLASS_BURST_MS div 1000
      in [''rate'', show_base 10 (unat bits) @ ''bit'', ''burst'',
          show_base 10 (unat (max burst 1600)) @ ''b''])"

definition ip_set_shaping_rate :: "'k IpEnv \<Rightarrow> PubKey \<Rightarrow> u64 \<Rightarrow> Ip \<times> 'k \<Rightarrow> Ip \<times> 'k" where
  "ip_set_shaping_rate env peer rate = (\<lambda>(ip, k).
     case bt_get (ip_peers ip) peer of
       None \<Rightarrow> (ip, k)
     | Some entry \<Rightarrow>
         let (entry, k) = gate env peer (entry\<lparr>kp_rate := rate\<rparr>) k;
             k = tc_quiet env (class_replace (ip_interface ip) (kp_classid entry) (rate_args rate)) k
         in (ip\<lparr>ip_peers := bt_insert peer entry (ip_peers ip)\<rparr>, k))"

definition ip_shaping_rate :: "Ip \<Rightarrow> PubKey \<Rightarrow> u64" where
  "ip_shaping_rate ip peer = (case bt_get (ip_peers ip) peer of Some e \<Rightarrow> kp_rate e | None \<Rightarrow> 0)"

definition ip_demand :: "Ip \<Rightarrow> PubKey \<Rightarrow> u64" where
  "ip_demand ip peer = 0"

definition ip_peer_list :: "Ip \<Rightarrow> PubKey list" where
  "ip_peer_list ip = bt_keys (ip_peers ip)"

definition ip_remove :: "'k IpEnv \<Rightarrow> PubKey \<Rightarrow> Ip \<times> 'k \<Rightarrow> Ip \<times> 'k" where
  "ip_remove env peer = (\<lambda>(ip, k).
     case bt_get (ip_peers ip) peer of
       None \<Rightarrow> (ip, k)
     | Some entry \<Rightarrow>
         let (_, k) = apply_elements env (peer_elements env peer entry (kp_metering entry) (kp_link entry)) [] k;
             k = nft_quiet env (allowed_element ''delete'' (kp_addr entry)) k;
             k = nft_quiet env (known_element ''delete'' (kp_addr entry)) k;
             k = tc_quiet env (filter_delete (ip_interface ip) (kp_classid entry) ''ip'' ''1'') k;
             k = tc_quiet env (filter_delete (ip_interface ip) (kp_classid entry) ''ipv6'' ''2'') k;
             k = tc_quiet env [''class'', ''delete'', ''dev'', ip_interface ip, ''classid'',
                               show_class (kp_classid entry)] k
         in (ip\<lparr>ip_peers := bt_remove peer (ip_peers ip)\<rparr>, k))"

subsection \<open>Reading the kernel\<close>

definition read_table ::
  "'k IpEnv \<Rightarrow> string list \<Rightarrow> (string \<Rightarrow> 'a option) \<Rightarrow> 'k \<Rightarrow> 'a option \<times> 'k" where
  "read_table env args parse k =
     (let (out, k) = ie_run env k ''ip'' args in (Option.bind out parse, k))"

definition counter_entry :: "Json \<Rightarrow> (string \<times> u64) option" where
  "counter_entry entry =
     (case json_get ''counter'' entry of
        None \<Rightarrow> None
      | Some counter \<Rightarrow>
          (case Option.bind (json_get ''name'' counter) json_str of
             None \<Rightarrow> None
           | Some name \<Rightarrow>
               map_option (Pair name) (Option.bind (json_get ''bytes'' counter) json_u64)))"

definition read_counters :: "'k IpEnv \<Rightarrow> 'k \<Rightarrow> (string \<times> u64) list \<times> 'k" where
  "read_counters env k =
     (let (out, k) = nft env [''-j'', ''list'', ''counters'', ''table'', ''inet'', TABLE] k
      in (case Option.bind out (ie_json env) of
            None \<Rightarrow> []
          | Some parsed \<Rightarrow> List.map_filter counter_entry (json_items (json_get ''nftables'' parsed)), k))"

text \<open>The peers' next metering and link with the move each makes.\<close>

definition next_state ::
  "'k IpEnv \<Rightarrow> u8 list list \<Rightarrow> (u8 list, string) btreemap \<Rightarrow> (u8 list, string) btreemap \<Rightarrow>
   PubKey \<times> IpPeer \<Rightarrow> PubKey \<times> Metering \<times> IpLink option \<times> Move" where
  "next_state env gateways neighbours neighbours6 = (\<lambda>(peer, entry).
     let metering = classify (kp_addr entry) gateways neighbours;
         link = customer_link (kp_addr entry) metering neighbours neighbours6 (kp_link entry)
     in (peer, metering, link,
         \<lparr>mv_before = peer_elements env peer entry (kp_metering entry) (kp_link entry),
          mv_after = peer_elements env peer entry metering link\<rparr>))"

definition settle_move ::
  "'k IpEnv \<Rightarrow> (PubKey \<times> Metering \<times> IpLink option \<times> Move) \<times> Element list \<Rightarrow>
   (PubKey, IpPeer) btreemap \<times> 'k \<Rightarrow> (PubKey, IpPeer) btreemap \<times> 'k" where
  "settle_move env = (\<lambda>((peer, metering, link, _), added) (peers, k).
     case bt_get peers peer of
       None \<Rightarrow> (peers, k)
     | Some entry \<Rightarrow>
         if metering = kp_metering entry \<and> link = kp_link entry then (peers, k)
         else case add_elements env added k of
             (False, k) \<Rightarrow> (peers, k)
           | (True, k) \<Rightarrow>
               (bt_insert peer (entry\<lparr>kp_metering := metering, kp_link := link\<rparr>) peers, k))"

definition move_peers ::
  "'k IpEnv \<Rightarrow> u8 list list \<Rightarrow> (u8 list, string) btreemap \<Rightarrow> (u8 list, string) btreemap \<Rightarrow>
   (PubKey, IpPeer) btreemap \<times> 'k \<Rightarrow> (PubKey, IpPeer) btreemap \<times> 'k" where
  "move_peers env gateways neighbours neighbours6 = (\<lambda>(peers, k).
     let nexts = map (next_state env gateways neighbours neighbours6) peers;
         (removals, additions) = plan_moves (map (\<lambda>(_, _, _, m). m) nexts);
         (_, k) = remove_elements env removals k
     in fold (settle_move env) (zip nexts additions) (peers, k))"

text \<open>
  Routes, neighbours and IPv6 neighbours, or nothing if one of the first two cannot be read; a node
  without IPv6 has no IPv6 neighbours.
\<close>

definition read_tables ::
  "'k IpEnv \<Rightarrow> 'k \<Rightarrow>
   (u8 list list \<times> (u8 list, string) btreemap \<times> (u8 list, string) btreemap) option \<times> 'k" where
  "read_tables env k =
     (case read_table env [''-4'', ''-j'', ''route'', ''show'', ''table'', ''all'']
            (parse_gateways (ie_json env)) k of
       (None, k) \<Rightarrow> (None, k)
     | (Some gateways, k) \<Rightarrow>
     (case read_table env [''-4'', ''-j'', ''neigh'', ''show'']
             (parse_neighbours (ie_json env) parse_ipv4) k of
       (None, k) \<Rightarrow> (None, k)
     | (Some neighbours, k) \<Rightarrow>
         let (n6, k) = read_table env [''-6'', ''-j'', ''neigh'', ''show'']
               (parse_neighbours (ie_json env) parse_ipv6) k
         in (Some (gateways, neighbours, case n6 of Some n \<Rightarrow> n | None \<Rightarrow> []), k)))"

definition ip_refresh :: "'k IpEnv \<Rightarrow> Ip \<times> 'k \<Rightarrow> Ip \<times> 'k" where
  "ip_refresh env = (\<lambda>(ip, k).
     case read_tables env k of
       (None, k) \<Rightarrow> (ip, k)
     | (Some (gateways, neighbours, neighbours6), k) \<Rightarrow>
         let (peers, k) = move_peers env gateways neighbours neighbours6 (ip_peers ip, k)
         in (ip\<lparr>ip_peers := peers\<rparr>, k))"

definition ip_refresh_if_due :: "'k IpEnv \<Rightarrow> Millis \<Rightarrow> Ip \<times> 'k \<Rightarrow> Ip \<times> 'k" where
  "ip_refresh_if_due env now = (\<lambda>(ip, k).
     if (case ip_refreshed ip of Some t \<Rightarrow> saturating_since now t < REFRESH_MS | None \<Rightarrow> False)
     then (ip, k)
     else ip_refresh env (ip\<lparr>ip_refreshed := Some now\<rparr>, k))"

definition ip_counters :: "'k IpEnv \<Rightarrow> Millis \<Rightarrow> PubKey \<Rightarrow> Ip \<times> 'k \<Rightarrow> Counters \<times> (Ip \<times> 'k)" where
  "ip_counters env now peer s =
     (let (ip, k) = ip_refresh_if_due env now s;
          (delivered, received) = counter_names env peer;
          (all, k) = read_counters env k;
          total = (\<lambda>name. case map_of (rev all) name of Some n \<Rightarrow> n | None \<Rightarrow> 0)
      in (\<lparr>to_payer = total delivered, from_payer = total received\<rparr>, (ip, k)))"

end
