(* ===== verification/Kernel_Moves.thy ===== *)
theory Kernel_Moves
  imports Enforcer_Ip
begin

text \<open>
  What the kernel enforcer may rely on of the kernel, as the locale \<open>nft_tables\<close>, and a kernel that
  keeps its promises; the elements a peer's link gives it, and a refresh that moves them between
  peers (\<open>crates/tollgate-net/src/enforcer/ip.rs\<close>).
\<close>

subsection \<open>Links\<close>

lemma set_fill_v6: "set (fill_v6 v6 as) \<subseteq> set v6 \<union> set as"
proof (induction v6 as rule: fill_v6.induct)
  case (2 v6 a as)
  then show ?case
    by (auto simp: set_insort_insert)
qed simp

lemma length_insort_insert: "length (insort_insert a xs) \<le> Suc (length xs)"
  by (simp add: insort_insert_key_def length_insort)

lemma length_fill_v6: "length v6 \<le> MAX_V6_PER_PEER \<Longrightarrow> length (fill_v6 v6 as) \<le> MAX_V6_PER_PEER"
proof (induction v6 as rule: fill_v6.induct)
  case (2 v6 a as)
  show ?case
  proof (cases "length v6 \<ge> MAX_V6_PER_PEER")
    case False
    then have "length (insort_insert a v6) \<le> MAX_V6_PER_PEER"
      using length_insort_insert [of a v6] by simp
    with 2 False show ?thesis by simp
  qed (use 2 in simp)
qed simp

lemma fill_v6_keeps: "set v6 \<subseteq> set (fill_v6 v6 as)"
  by (induction v6 as rule: fill_v6.induct) (auto simp: set_insort_insert)

text \<open>What comes first fits as long as it is no more than the cap together with what is there.\<close>

lemma fill_v6_takes:
  "length v6 + length as \<le> MAX_V6_PER_PEER \<Longrightarrow> set as \<subseteq> set (fill_v6 v6 (as @ bs))"
proof (induction as arbitrary: v6)
  case (Cons a as)
  have "length (insort_insert a v6) + length as \<le> MAX_V6_PER_PEER"
    using Cons.prems length_insort_insert [of a v6] by simp
  from Cons.IH [OF this] show ?case
    using Cons.prems fill_v6_keeps [of "insort_insert a v6" "as @ bs"]
    by (auto simp: set_insort_insert)
qed simp

lemma link_elements_allowed:
  "(ALLOWED_MAC, key, v) \<in> set (link_elements link allow delivered received mark) \<longleftrightarrow>
    v = ElMember \<and> allow \<and> (\<exists>l. link = Some l \<and> \<not> il_overflowed l \<and> key = il_mac l)"
  "(ALLOWED6, key, v) \<in> set (link_elements link allow delivered received mark) \<longleftrightarrow>
    v = ElMember \<and> allow \<and> (\<exists>l. link = Some l \<and> \<not> il_overflowed l \<and> key \<in> show_ipv6 ` set (il_v6 l))"
  "(KNOWN_MAC, key, v) \<in> set (link_elements link allow delivered received mark) \<longleftrightarrow>
    v = ElMember \<and> (\<exists>l. link = Some l \<and> key = il_mac l)"
  "(KNOWN6, key, v) \<in> set (link_elements link allow delivered received mark) \<longleftrightarrow>
    v = ElMember \<and> (\<exists>l. link = Some l \<and> key \<in> show_ipv6 ` set (il_v6 l))"
  by (auto simp: link_elements_def address_elements_def Let_def map_names split: option.splits)

text \<open>The link-local test by integers, which evaluates.\<close>

lemma forwardable_code [code]:
  "forwardable a =
     (\<not> (a = replicate 16 0 \<or> a = replicate 15 0 @ [1] \<or> hd a = 0xff
         \<or> (case a of x # y # _ \<Rightarrow> (uint x * 256 + uint y) AND 0xffc0 = 0xfe80 | _ \<Rightarrow> False)))"
proof -
  have both: "int ((unat x * 256 + unat y) AND 0xffc0) = (uint x * 256 + uint y) AND 0xffc0" for x y :: u8
    by (simp add: of_nat_and_eq)
  have num: "n = 0xfe80 \<longleftrightarrow> int n = 0xfe80" for n
    by linarith
  have "(unat x * 256 + unat y) AND 0xffc0 = 0xfe80 \<longleftrightarrow> (uint x * 256 + uint y) AND 0xffc0 = 0xfe80"
    for x y :: u8
    by (simp only: num both)
  then show ?thesis
    by (auto simp: forwardable_def split: list.splits)
qed

text \<open>C15: a flood of IPv6 addresses closes a peer's IPv6 instead of escaping its budget: a customer is
  tied to at most 16 addresses, none of them one that another MAC has claimed; while the table shows more than
  16 for its MAC nothing of it is in the \<open>allowed\<close> sets whatever it has paid, the MAC stays known and
  so do all the addresses it had; and once it shows few enough, every one it shows is tied to it.\<close>

theorem address_flood_fails_closed:
  assumes "customer_link (V4 v4) metering neighbours neighbours6 previous = Some link"
    and "bt_get neighbours v4 = Some mac" "metering = MeterAddr" "bt_wf neighbours6"
    and "\<And>l. previous = Some l \<Longrightarrow> length (il_v6 l) \<le> 16"
  shows "il_mac link = mac \<and> length (il_v6 link) \<le> 16
    \<and> (\<forall>a \<in> set (il_v6 link). bt_get neighbours6 a = None \<or> bt_get neighbours6 a = Some mac)
    \<and> (if length (seen_v6 mac neighbours6) > 16
       then set (kept_v6 mac neighbours6 previous) \<subseteq> set (il_v6 link)
          \<and> (KNOWN_MAC, mac, ElMember) \<in> set (link_elements (Some link) allow delivered received mark)
          \<and> (\<forall>key v. (ALLOWED_MAC, key, v) \<notin> set (link_elements (Some link) allow delivered received mark)
               \<and> (ALLOWED6, key, v) \<notin> set (link_elements (Some link) allow delivered received mark))
       else set (seen_v6 mac neighbours6) \<subseteq> set (il_v6 link))"
proof -
  let ?kept = "kept_v6 mac neighbours6 previous" and ?seen = "seen_v6 mac neighbours6"
  let ?over = "length ?seen > 16"
  have link: "link = \<lparr>il_mac = mac, il_v6 = fill_v6 [] (if ?over then ?kept @ ?seen else ?seen @ ?kept),
      il_overflowed = ?over\<rparr>"
    using assms(1,2,3) by (auto simp: customer_link_def MAX_V6_PER_PEER_def Let_def split: if_splits)
  have kept: "length ?kept \<le> 16"
    using assms(5) le_trans [OF length_filter_le] by (auto simp: kept_v6_def split: option.splits)
  have own: "bt_get neighbours6 a = None \<or> bt_get neighbours6 a = Some mac"
    if "a \<in> set ?kept \<or> a \<in> set ?seen" for a
    using that bt_get_mem [OF assms(4)]
    by (auto simp: kept_v6_def seen_v6_def split: option.splits if_splits)
  have "\<forall>a \<in> set (il_v6 link). a \<in> set ?kept \<or> a \<in> set ?seen"
    using set_fill_v6 [of "[]" "if ?over then ?kept @ ?seen else ?seen @ ?kept"]
    by (auto simp: link split: if_splits)
  moreover have "set (if ?over then ?kept else ?seen) \<subseteq> set (il_v6 link)"
    using fill_v6_takes [of "[]" ?kept ?seen] fill_v6_takes [of "[]" ?seen ?kept] kept
    by (auto simp: link MAX_V6_PER_PEER_def not_less)
  moreover have "length (il_v6 link) \<le> 16"
    using length_fill_v6 [of "[]"] by (simp add: link MAX_V6_PER_PEER_def)
  ultimately show ?thesis
    using own by (auto simp: link_elements_allowed link)
qed

definition flood :: "(u8 list, string) btreemap" where
  "flood = map (\<lambda>i. (32 # 1 # replicate 13 0 @ [i], ''aa:bb:cc:dd:ee:ff''))
     [1, 2, 3, 4, 5, 6, 7, 8, 9, 10, 11, 12, 13, 14, 15, 16, 17]"

definition flooded :: IpLink where
  "flooded = \<lparr>il_mac = ''aa:bb:cc:dd:ee:ff'', il_v6 = take 16 (map fst flood), il_overflowed = True\<rparr>"

theorem address_flood_fails_closed_witness:
  "length (seen_v6 ''aa:bb:cc:dd:ee:ff'' flood) = 17
    \<and> (ALLOWED_MAC, ''aa:bb:cc:dd:ee:ff'', ElMember) \<notin> set (link_elements (Some flooded) True ''d'' ''r'' 7)"
proof -
  have "customer_link (V4 [10, 0, 0, 1]) MeterAddr [([10, 0, 0, 1], ''aa:bb:cc:dd:ee:ff'')] flood None
      = Some flooded"
    by code_simp
  moreover have "bt_get [([10, 0, 0, 1], ''aa:bb:cc:dd:ee:ff'')] [10, 0, 0, 1 :: u8] = Some ''aa:bb:cc:dd:ee:ff''"
    by simp
  moreover have "bt_wf flood"
    by code_simp
  moreover have seen: "length (seen_v6 ''aa:bb:cc:dd:ee:ff'' flood) = 17"
    by code_simp
  ultimately show ?thesis
    using address_flood_fails_closed [where allow = True and delivered = "''d''" and received = "''r''"
        and mark = 7 and previous = None] by fastforce
qed

subsection \<open>What the kernel promises\<close>

text \<open>What a map or set takes: keys of its type, and a counter that exists where it counts.\<close>

definition v4_key :: "string \<Rightarrow> bool" where
  "v4_key key = (\<exists>a. length a = 4 \<and> key = show_ipv4 a)"

definition v6_key :: "string \<Rightarrow> bool" where
  "v6_key key = (\<exists>a. length a = 16 \<and> key = show_ipv6 a)"

definition mac_key :: "string \<Rightarrow> bool" where
  "mac_key key = (normalize_mac key = Some key)"

definition slot_fits :: "string \<Rightarrow> string \<Rightarrow> bool" where
  "slot_fits m key =
     (m \<in> {''known'', ''allowed'', DOWN_TX, DOWN_RX, UP_TX} \<and> v4_key key
      \<or> m \<in> {KNOWN6, ALLOWED6, DOWN6_TX, MARK6} \<and> v6_key key
      \<or> m \<in> {KNOWN_MAC, ALLOWED_MAC, UP_RX, DOWN6_RX} \<and> mac_key key)"

definition elem_fits :: "(string \<Rightarrow> bool) \<Rightarrow> Element \<Rightarrow> bool" where
  "elem_fits has = (\<lambda>(m, key, v). slot_fits m key \<and>
     (case v of
        ElMember \<Rightarrow> m \<in> {''known'', ''allowed'', KNOWN6, ALLOWED6, KNOWN_MAC, ALLOWED_MAC}
      | ElCounter c \<Rightarrow> m \<in> {DOWN_TX, DOWN_RX, UP_TX, UP_RX, DOWN6_TX, DOWN6_RX} \<and> has c
      | ElMark _ \<Rightarrow> m = MARK6))"

definition add_args :: "string \<Rightarrow> string \<Rightarrow> ElemValue \<Rightarrow> string list" where
  "add_args m key v = [''add'', ''element'', ''inet'', TABLE, m, element_text key v]"

definition delete_args :: "string \<Rightarrow> string \<Rightarrow> string list" where
  "delete_args m key = [''delete'', ''element'', ''inet'', TABLE, m, braced key]"

definition touches_elements :: "string list \<Rightarrow> bool" where
  "touches_elements args =
     (take 2 args \<in> {[''add'', ''element''], [''delete'', ''element''], [''delete'', ''table'']})"

text \<open>
  The text of the element a map or set of the table holds under a key, and the counters there are.
  Adding is refused where something else is held under the key, and is no error where the same is;
  deleting is refused where nothing is; no other command changes what is held, and counters only go
  with the table.
\<close>

locale nft_tables =
  fixes env :: "'k IpEnv"
    and elems :: "'k \<Rightarrow> string \<times> string \<Rightarrow> string option"
    and has_counter :: "'k \<Rightarrow> string \<Rightarrow> bool"
  assumes add_free: "elem_fits (has_counter k) (m, key, v) \<Longrightarrow>
      elems k (m, key) = None \<or> elems k (m, key) = Some (element_text key v) \<Longrightarrow>
      fst (nft env (add_args m key v) k) \<noteq> None
      \<and> elems (snd (nft env (add_args m key v) k)) = (elems k)((m, key) \<mapsto> element_text key v)"
    and add_taken: "elem_fits (has_counter k) (m, key, v) \<Longrightarrow> elems k (m, key) = Some t \<Longrightarrow>
      t \<noteq> element_text key v \<Longrightarrow>
      fst (nft env (add_args m key v) k) = None \<and> elems (snd (nft env (add_args m key v) k)) = elems k"
    and delete_held: "slot_fits m key \<Longrightarrow> elems k (m, key) \<noteq> None \<Longrightarrow>
      fst (nft env (delete_args m key) k) \<noteq> None
      \<and> elems (snd (nft env (delete_args m key) k)) = (elems k)((m, key) := None)"
    and delete_absent: "slot_fits m key \<Longrightarrow> elems k (m, key) = None \<Longrightarrow>
      fst (nft env (delete_args m key) k) = None \<and> elems (snd (nft env (delete_args m key) k)) = elems k"
    and table_deleted: "elems (snd (nft env [''delete'', ''table'', ''inet'', TABLE] k)) = (\<lambda>_. None)"
    and others_keep: "program \<noteq> ''nft'' \<or> \<not> touches_elements args \<Longrightarrow>
      elems (snd (ie_run env k program args)) = elems k"
    and counters_kept: "has_counter k c \<Longrightarrow> take 2 args \<noteq> [''delete'', ''table''] \<Longrightarrow>
      has_counter (snd (ie_run env k program args)) c"
    and counter_added: "has_counter (snd (nft env [''add'', ''counter'', ''inet'', TABLE, c] k)) c"
begin

text \<open>The kernel holds exactly these elements.\<close>

definition holds :: "'k \<Rightarrow> Element set \<Rightarrow> bool" where
  "holds k es = (\<forall>m key t. elems k (m, key) = Some t \<longleftrightarrow> (\<exists>v. (m, key, v) \<in> es \<and> t = element_text key v))"

definition clash_free :: "Element set \<Rightarrow> bool" where
  "clash_free es = (\<forall>m key v w. (m, key, v) \<in> es \<longrightarrow> (m, key, w) \<in> es \<longrightarrow> v = w)"

definition counters_stay :: "'k \<Rightarrow> 'k \<Rightarrow> bool" where
  "counters_stay k k' = (\<forall>c. has_counter k c \<longrightarrow> has_counter k' c)"

lemma counters_stay_refl [simp]: "counters_stay k k"
  by (simp add: counters_stay_def)

lemma counters_stay_trans: "counters_stay k k' \<Longrightarrow> counters_stay k' k'' \<Longrightarrow> counters_stay k k''"
  by (simp add: counters_stay_def)

lemma counters_stay_run: "take 2 args \<noteq> [''delete'', ''table''] \<Longrightarrow> counters_stay k (snd (ie_run env k program args))"
  by (simp add: counters_stay_def counters_kept)

lemma elem_fits_stays: "elem_fits (has_counter k) e \<Longrightarrow> counters_stay k k' \<Longrightarrow> elem_fits (has_counter k') e"
  by (auto simp: elem_fits_def counters_stay_def split: ElemValue.splits)

lemma clash_freeD: "clash_free es \<Longrightarrow> (m, key, v) \<in> es \<Longrightarrow> (m, key, w) \<in> es \<Longrightarrow> v = w"
  by (simp add: clash_free_def)

lemma clash_free_mono: "clash_free es \<Longrightarrow> es' \<subseteq> es \<Longrightarrow> clash_free es'"
  unfolding clash_free_def by blast

lemma holds_Some: "holds k es \<Longrightarrow> clash_free es \<Longrightarrow> (m, key, v) \<in> es \<Longrightarrow> elems k (m, key) = Some (element_text key v)"
  by (auto simp: holds_def)

lemma holds_None: "holds k es \<Longrightarrow> (\<And>v. (m, key, v) \<notin> es) \<Longrightarrow> elems k (m, key) = None"
  by (metis holds_def option.exhaust)

lemma holds_at: "clash_free (insert (m, key, v) es) \<Longrightarrow>
    (\<exists>w. (m, key, w) \<in> insert (m, key, v) es \<and> t = element_text key w) \<longleftrightarrow> t = element_text key v"
  unfolding clash_free_def by blast

lemma holds_put:
  assumes "holds k es" "clash_free (insert (m, key, v) es)" "elems k' = (elems k)((m, key) \<mapsto> element_text key v)"
  shows "holds k' (insert (m, key, v) es)"
  unfolding holds_def
proof (intro allI)
  fix m' key' t
  show "(elems k' (m', key') = Some t) = (\<exists>w. (m', key', w) \<in> insert (m, key, v) es \<and> t = element_text key' w)"
  proof (cases "(m', key') = (m, key)")
    case True
    then show ?thesis
      using holds_at [OF assms(2)] by (auto simp: assms(3))
  next
    case False
    then show ?thesis
      using assms(1) by (auto simp: assms(3) holds_def)
  qed
qed

lemma holds_cut:
  assumes "holds k es" "clash_free (insert (m, key, v) es)" "elems k' = (elems k)((m, key) := None)"
  shows "holds k' (es - {(m, key, v)})"
  unfolding holds_def
proof (intro allI)
  fix m' key' t
  have only: "(m, key, w) \<in> es \<Longrightarrow> w = v" for w
    using assms(2) unfolding clash_free_def by blast
  show "(elems k' (m', key') = Some t) = (\<exists>w. (m', key', w) \<in> es - {(m, key, v)} \<and> t = element_text key' w)"
  proof (cases "(m', key') = (m, key)")
    case True
    then show ?thesis
      using only by (auto simp: assms(3))
  next
    case False
    then show ?thesis
      using assms(1) by (auto simp: assms(3) holds_def)
  qed
qed

lemma holds_present:
  assumes "holds k es" "clash_free (insert (m, key, v) es)"
  shows "elems k (m, key) = (if (m, key, v) \<in> es then Some (element_text key v) else None)"
proof (cases "(m, key, v) \<in> es")
  case True
  then show ?thesis
    using holds_Some [OF assms(1) clash_free_mono [OF assms(2)]] by auto
next
  case False
  have "w = v" if "(m, key, w) \<in> es" for w
    using that assms(2) unfolding clash_free_def by blast
  with False show ?thesis
    using holds_None [OF assms(1), of m key] by auto
qed

lemma holds_add:
  assumes "holds k es" "clash_free (insert (m, key, v) es)" "elem_fits (has_counter k) (m, key, v)"
  shows "fst (nft env (add_args m key v) k) \<noteq> None"
    "holds (snd (nft env (add_args m key v) k)) (insert (m, key, v) es)"
    "counters_stay k (snd (nft env (add_args m key v) k))"
proof -
  have "elems k (m, key) = None \<or> elems k (m, key) = Some (element_text key v)"
    by (simp add: holds_present [OF assms(1,2)])
  note added = add_free [OF assms(3) this]
  show "fst (nft env (add_args m key v) k) \<noteq> None"
    using added by simp
  show "holds (snd (nft env (add_args m key v) k)) (insert (m, key, v) es)"
    using holds_put [OF assms(1,2)] added by blast
  show "counters_stay k (snd (nft env (add_args m key v) k))"
    by (simp add: nft_def counters_stay_run add_args_def)
qed

lemma holds_delete:
  assumes "holds k es" "clash_free (insert (m, key, v) es)" "slot_fits m key"
  shows "holds (snd (nft env (delete_args m key) k)) (es - {(m, key, v)})"
    "(fst (nft env (delete_args m key) k) \<noteq> None) = ((m, key, v) \<in> es)"
    "counters_stay k (snd (nft env (delete_args m key) k))"
proof -
  note here = holds_present [OF assms(1,2)]
  show "(fst (nft env (delete_args m key) k) \<noteq> None) = ((m, key, v) \<in> es)"
    using here delete_held [OF assms(3), of k] delete_absent [OF assms(3), of k] by (auto split: if_splits)
  have "elems (snd (nft env (delete_args m key) k)) = (elems k)((m, key) := None)"
    using delete_held [OF assms(3), of k] delete_absent [OF assms(3), of k]
    by (cases "elems k (m, key)") (auto simp: fun_eq_iff)
  then show "holds (snd (nft env (delete_args m key) k)) (es - {(m, key, v)})"
    by (rule holds_cut [OF assms(1,2)])
  show "counters_stay k (snd (nft env (delete_args m key) k))"
    by (simp add: nft_def counters_stay_run delete_args_def)
qed

lemma remove_elements_holds:
  assumes "holds k es" "clash_free (es \<union> set gone)" "\<And>m key v. (m, key, v) \<in> set gone \<Longrightarrow> slot_fits m key"
  shows "holds (snd (remove_elements env gone k)) (es - set gone)
    \<and> counters_stay k (snd (remove_elements env gone k))"
  using assms
proof (induction gone arbitrary: k es)
  case (Cons e gone)
  obtain m key v where e: "e = (m, key, v)" by (cases e) auto
  let ?k = "snd (nft env (delete_args m key) k)"
  have clash: "clash_free (insert (m, key, v) es)" "clash_free (es - {(m, key, v)} \<union> set gone)"
    by (rule clash_free_mono [OF Cons.prems(2)], auto simp: e)+
  have fits: "slot_fits m key" "\<And>m key v. (m, key, v) \<in> set gone \<Longrightarrow> slot_fits m key"
    using Cons.prems(3) by (auto simp: e)
  note one = holds_delete [OF Cons.prems(1) clash(1) fits(1)]
  have "holds (snd (remove_elements env gone ?k)) (es - {(m, key, v)} - set gone)
    \<and> counters_stay ?k (snd (remove_elements env gone ?k))"
    by (rule Cons.IH [OF one(1) clash(2) fits(2)])
  moreover have "es - {(m, key, v)} - set gone = es - set (e # gone)"
    by (auto simp: e)
  ultimately show ?case
    using counters_stay_trans [OF one(3)]
    by (simp add: e delete_args_def case_prod_unfold Let_def)
qed simp

lemma add_elements_holds:
  assumes "holds k es" "clash_free (es \<union> set new)" "\<And>e. e \<in> set new \<Longrightarrow> elem_fits (has_counter k) e"
  shows "fst (add_elements env new k) \<and> holds (snd (add_elements env new k)) (es \<union> set new)
    \<and> counters_stay k (snd (add_elements env new k))"
  using assms
proof (induction new arbitrary: k es)
  case (Cons e new)
  obtain m key v where e: "e = (m, key, v)" by (cases e) auto
  let ?k = "snd (nft env (add_args m key v) k)"
  have clash: "clash_free (insert (m, key, v) es)" "clash_free (insert (m, key, v) es \<union> set new)"
    by (rule clash_free_mono [OF Cons.prems(2)], auto simp: e)+
  have fits: "elem_fits (has_counter k) (m, key, v)"
    using Cons.prems(3) by (auto simp: e)
  note one = holds_add [OF Cons.prems(1) clash(1) fits]
  have "\<And>e. e \<in> set new \<Longrightarrow> elem_fits (has_counter ?k) e"
    using Cons.prems(3) by (auto intro: elem_fits_stays [OF _ one(3)])
  from Cons.IH [OF one(2) clash(2) this]
  have "fst (add_elements env new ?k)" "holds (snd (add_elements env new ?k)) (es \<union> set (e # new))"
    "counters_stay ?k (snd (add_elements env new ?k))"
    by (simp_all add: e)
  then show ?case
    using one(1) counters_stay_trans [OF one(3)]
    by (simp add: e add_args_def case_prod_unfold Let_def)
qed simp

lemma apply_elements_holds:
  assumes "holds k es" "clash_free (es \<union> set old)" "clash_free ((es - set old) \<union> set new)"
    and "set old \<subseteq> es" "\<And>e. e \<in> set old \<union> set new \<Longrightarrow> elem_fits (has_counter k) e"
  shows "holds (snd (apply_elements env old new k)) ((es - set old) \<union> set new)
    \<and> counters_stay k (snd (apply_elements env old new k))"
proof -
  let ?gone = "filter (\<lambda>e. e \<notin> set new) old" and ?fresh = "filter (\<lambda>e. e \<notin> set old) new"
  let ?k = "snd (remove_elements env ?gone k)"
  have "slot_fits m key" if "(m, key, v) \<in> set ?gone" for m key v
    using that assms(5) [of "(m, key, v)"] by (simp add: elem_fits_def)
  then have one: "holds ?k (es - set ?gone)" "counters_stay k ?k"
    using remove_elements_holds [OF assms(1) clash_free_mono [OF assms(2)], of ?gone] by auto
  have eq: "es - set ?gone \<union> set ?fresh = (es - set old) \<union> set new"
    using assms(4) by auto
  have "elem_fits (has_counter ?k) e" if "e \<in> set ?fresh" for e
    using that assms(5) elem_fits_stays [OF _ one(2)] by auto
  then have "holds (snd (add_elements env ?fresh ?k)) (es - set ?gone \<union> set ?fresh)"
    "counters_stay ?k (snd (add_elements env ?fresh ?k))"
    using add_elements_holds [OF one(1), of ?fresh] assms(3) unfolding eq by auto
  then show ?thesis
    using counters_stay_trans [OF one(2)]
    by (simp only: eq) (simp add: apply_elements_def case_prod_unfold Let_def)
qed

end

subsection \<open>A refresh\<close>

text \<open>
  With what every peer holds before and after, the removals take away what no peer holds after, and
  the additions bring what a peer did not hold before: together they turn the one into the other.
\<close>

lemma set_plan_removals:
  "set (plan_removals moves) = (\<Union>m \<in> set moves. set (mv_before m)) - (\<Union>m \<in> set moves. set (mv_after m))"
proof -
  have folded: "set (foldl (\<lambda>removals (e, after).
      if e \<notin> set after \<and> e \<notin> set claimed \<and> e \<notin> set removals then removals @ [e] else removals) acc xs)
    = set acc \<union> {e. \<exists>after. (e, after) \<in> set xs \<and> e \<notin> set after \<and> e \<notin> set claimed}"
    for claimed acc and xs :: "(Element \<times> Element list) list"
    by (induction xs arbitrary: acc) auto
  show ?thesis
    unfolding plan_removals_def Let_def folded by auto
qed

lemma distinct_plan_removals: "distinct (plan_removals moves)"
proof -
  have folded: "distinct acc \<Longrightarrow> distinct (foldl (\<lambda>removals (e, after).
      if e \<notin> set after \<and> e \<notin> set claimed \<and> e \<notin> set removals then removals @ [e] else removals) acc xs)"
    for claimed acc and xs :: "(Element \<times> Element list) list"
    by (induction xs arbitrary: acc) auto
  show ?thesis
    unfolding plan_removals_def Let_def by (rule folded) simp
qed

lemma plan_moves_exact:
  "(\<Union>m \<in> set moves. set (mv_before m)) - set (plan_removals moves) \<union> (\<Union>es \<in> set (plan_additions moves). set es)
    = (\<Union>m \<in> set moves. set (mv_after m))"
  by (auto simp: set_plan_removals plan_additions_def)

end
