(* ===== verification/Ip_Gate.thy ===== *)
theory Ip_Gate
  imports Kernel_Moves
begin

text \<open>
  The kernel enforcer as a whole (\<open>crates/tollgate-net/src/enforcer/ip.rs\<close>): whatever core tells it and
  whatever the neighbour tables show, the kernel holds what the peers' state says, and nothing else.
\<close>

subsection \<open>Keys of the right type\<close>

lemma split_on_map:
  "(\<And>c. c \<in> set s \<Longrightarrow> (f c = d) = (c = d)) \<Longrightarrow> split_on d (map f s) = map (map f) (split_on d s)"
proof (induction s)
  case (Cons c s)
  then have "split_on d (map f s) = map (map f) (split_on d s)" "(f c = d) = (c = d)" by auto
  then show ?case
    by (cases "split_on d s") auto
qed simp

lemma of_ascii_lower: "of_char (ascii_lower c) =
    (let n = of_char c :: nat in if 65 \<le> n \<and> n \<le> 90 then n + 32 else n)"
  by (simp add: ascii_lower_def Let_def take_bit_nat_eq_self)

lemma ascii_lower_idem: "ascii_lower (ascii_lower c) = ascii_lower c"
  using of_ascii_lower [of c] by (auto simp: ascii_lower_def [of "ascii_lower c"] Let_def split: if_splits)

lemma ascii_lower_colon: "(ascii_lower c = CHR '':'') = (c = CHR '':'')"
proof -
  have "(ascii_lower c = CHR '':'') = (of_char (ascii_lower c) = (of_char (CHR '':'') :: nat))"
    by (simp only: of_char_eq_iff)
  also have "\<dots> = (of_char c = (of_char (CHR '':'') :: nat))"
    by (auto simp: of_ascii_lower Let_def)
  finally show ?thesis
    by (simp only: of_char_eq_iff)
qed

lemma is_digit_ascii_lower: "is_digit 16 c \<Longrightarrow> is_digit 16 (ascii_lower c)"
  by (auto simp: is_digit_def digit_value_def of_ascii_lower Let_def split: if_splits)

lemma normalize_mac_idem: "normalize_mac mac = Some m \<Longrightarrow> mac_key m"
proof -
  assume "normalize_mac mac = Some m"
  then have m: "m = map ascii_lower mac" and six: "length (split_on (CHR '':'') mac) = 6"
    and hex: "list_all (\<lambda>o1. length o1 = 2 \<and> list_all (is_digit 16) o1) (split_on (CHR '':'') mac)"
    by (auto simp: normalize_mac_def Let_def split: if_splits)
  have "split_on (CHR '':'') m = map (map ascii_lower) (split_on (CHR '':'') mac)"
    unfolding m by (rule split_on_map) (rule ascii_lower_colon)
  then show ?thesis
    using six hex by (auto simp: mac_key_def normalize_mac_def Let_def m ascii_lower_idem list_all_iff
        is_digit_ascii_lower)
qed

lemma length_read_octets: "read_octets n s = Some (os, rest) \<Longrightarrow> length os = n"
  by (induction n arbitrary: s os rest) (auto split: option.splits)

lemma length_parse_ipv4: "parse_ipv4 s = Some a \<Longrightarrow> length a = 4"
  by (auto simp: parse_ipv4_def read_ipv4_def dest!: length_read_octets
      split: if_splits option.splits list.splits)

lemma read_groups_bound:
  "read_groups limit i s = ((bs, v4), rest) \<Longrightarrow> even (length bs) \<and> length bs \<le> 2 * (limit - i)"
proof (induction limit i s arbitrary: bs v4 rest rule: read_groups.induct)
  case (1 limit i s)
  show ?case
    using 1(2) [unfolded read_groups.simps [of limit i s]] 1(1)
    by (fastforce simp: read_ipv4_def segment_bytes_def bind_eq_Some_conv dest!: length_read_octets
        split: if_splits option.splits prod.splits)
qed

lemma length_parse_ipv6: "parse_ipv6 s = Some a \<Longrightarrow> length a = 16"
proof -
  assume "parse_ipv6 s = Some a"
  then obtain front v4 s1 where front: "read_groups 8 0 s = ((front, v4), s1)"
    and a: "length front = 16 \<and> a = front \<or> length front \<noteq> 16 \<and> (\<exists>tail_part b s2 s3.
      read_groups (8 - (length front div 2 + 1)) 0 s2 = ((tail_part, b), s3)
      \<and> a = front @ replicate (16 - length front - length tail_part) 0 @ tail_part)"
    by (auto simp: parse_ipv6_def read_ipv6_def split: if_splits option.splits list.splits prod.splits)
  note bound = read_groups_bound [OF front]
  from a show ?thesis
  proof
    assume "length front \<noteq> 16 \<and> (\<exists>tail_part b s2 s3.
      read_groups (8 - (length front div 2 + 1)) 0 s2 = ((tail_part, b), s3)
      \<and> a = front @ replicate (16 - length front - length tail_part) 0 @ tail_part)"
    then obtain tail_part b s2 s3 where "length front \<noteq> 16"
      and tail_part: "read_groups (8 - (length front div 2 + 1)) 0 s2 = ((tail_part, b), s3)"
      and a: "a = front @ replicate (16 - length front - length tail_part) 0 @ tail_part" by blast
    then have "length front + length tail_part \<le> 16"
      using bound read_groups_bound [OF tail_part] by auto
    then show ?thesis by (simp add: a)
  qed simp
qed

text \<open>What the neighbour tables give: MACs in the form the sets take, addresses of their length.\<close>

lemma set_bt_insert: "set (bt_insert k v m) \<subseteq> insert (k, v) (set m)"
  by (induction k v m rule: bt_insert.induct) auto

lemma fold_bt_insert:
  "(\<And>x. x \<in> set xs \<Longrightarrow> P x) \<Longrightarrow> (\<And>x. x \<in> set m \<Longrightarrow> P x) \<Longrightarrow> bt_wf m \<Longrightarrow>
    bt_wf (foldl (\<lambda>m (ip, mac). bt_insert ip mac m) m xs)
    \<and> (\<forall>x \<in> set (foldl (\<lambda>m (ip, mac). bt_insert ip mac m) m xs). P x)"
proof (induction xs arbitrary: m)
  case (Cons x xs)
  obtain ip mac where x: "x = (ip, mac)" by (cases x)
  have tail: "\<And>y. y \<in> set xs \<Longrightarrow> P y"
    using Cons.prems(1) by simp
  have here: "P y" if "y \<in> set (bt_insert ip mac m)" for y
  proof -
    have "y = (ip, mac) \<or> y \<in> set m"
      using that set_bt_insert [of ip mac m] by blast
    then show ?thesis
      using Cons.prems(1) [of x] Cons.prems(2) [of y] by (auto simp: x)
  qed
  have "bt_wf (bt_insert ip mac m)"
    using Cons.prems(3) by simp
  from Cons.IH [OF tail here this] show ?case
    by (simp add: x)
qed simp

lemma neighbour_of_ok: "neighbour_of parse entry = Some (ip, mac) \<Longrightarrow> mac_key mac \<and> (\<exists>s. parse s = Some ip)"
  by (auto simp: neighbour_of_def bind_eq_Some_conv dest: normalize_mac_idem
      split: if_splits option.splits)

lemma parse_neighbours_ok:
  assumes "parse_neighbours json parse text = Some n"
  shows "bt_wf n \<and> (\<forall>(ip, mac) \<in> set n. mac_key mac \<and> (\<exists>s. parse s = Some ip))"
proof -
  obtain entries where n: "n = foldl (\<lambda>m (ip, mac). bt_insert ip mac m) [] (List.map_filter (neighbour_of parse) entries)"
    using assms by (auto simp: parse_neighbours_def split: option.splits Json.splits)
  have "\<And>x. x \<in> set (List.map_filter (neighbour_of parse) entries) \<Longrightarrow>
      (\<lambda>(ip, mac). mac_key mac \<and> (\<exists>s. parse s = Some ip)) x"
    by (auto simp: List.map_filter_def dest: neighbour_of_ok)
  from fold_bt_insert [where P = "\<lambda>(ip, mac). mac_key mac \<and> (\<exists>s. parse s = Some ip)", OF this, of _ "[]"]
  show ?thesis
    unfolding n by simp
qed

lemma read_tables_ok:
  assumes "read_tables env k = (Some (gateways, neighbours, neighbours6), k')"
  shows "bt_wf neighbours6" "\<And>a mac. bt_get neighbours a = Some mac \<Longrightarrow> mac_key mac"
    "\<And>a mac. (a, mac) \<in> set neighbours6 \<Longrightarrow> length a = 16"
  using assms
  by (auto simp: read_tables_def read_table_def Let_def bind_eq_Some_conv
      dest!: parse_neighbours_ok map_of_SomeD dest: length_parse_ipv6
      split: option.splits prod.splits)

subsection \<open>What a peer holds\<close>

text \<open>
  Everything the kernel holds for a peer: its address among the known ones, and among the allowed ones
  while it is carried, and the elements its counting and its link give it. What it may come to hold
  while they stay as they are is what it would hold carried.
\<close>

definition own :: "'k IpEnv \<Rightarrow> PubKey \<Rightarrow> IpPeer \<Rightarrow> Element set" where
  "own env peer e =
     {(''known'', show_ip (kp_addr e), ElMember)}
     \<union> (if kp_carried e then {(''allowed'', show_ip (kp_addr e), ElMember)} else {})
     \<union> set (peer_elements env peer e (kp_metering e) (kp_link e))"

definition claims :: "'k IpEnv \<Rightarrow> PubKey \<Rightarrow> IpPeer \<Rightarrow> (string \<times> string) set" where
  "claims env peer e = (\<lambda>(m, key, _). (m, key)) ` own env peer (e\<lparr>kp_carried := True\<rparr>)"

definition peers_own :: "'k IpEnv \<Rightarrow> (PubKey, IpPeer) btreemap \<Rightarrow> Element set" where
  "peers_own env peers = {x. \<exists>p e. bt_get peers p = Some e \<and> x \<in> own env p e}"

text \<open>No two peers lay claim to one key of one map: no address and no MAC is two peers'.\<close>

definition apart :: "'k IpEnv \<Rightarrow> (PubKey, IpPeer) btreemap \<Rightarrow> bool" where
  "apart env peers = (\<forall>p e q f. bt_get peers p = Some e \<longrightarrow> bt_get peers q = Some f \<longrightarrow> p \<noteq> q \<longrightarrow>
     claims env p e \<inter> claims env q f = {})"

text \<open>A map holds one kind of value for one peer.\<close>

definition slot_value :: "'k IpEnv \<Rightarrow> PubKey \<Rightarrow> u16 \<Rightarrow> string \<Rightarrow> ElemValue" where
  "slot_value env peer classid m =
     (if m \<in> {DOWN_TX, UP_TX, DOWN6_TX} then ElCounter (fst (counter_names env peer))
      else if m \<in> {DOWN_RX, UP_RX, DOWN6_RX} then ElCounter (snd (counter_names env peer))
      else if m = MARK6 then ElMark (mark_of classid) else ElMember)"

lemma link_elements_cases:
  "(m, key, v) \<in> set (link_elements link allow delivered received mark) \<Longrightarrow>
    \<exists>l. link = Some l \<and>
      (m = KNOWN_MAC \<and> key = il_mac l \<and> v = ElMember
       \<or> m = DOWN6_RX \<and> key = il_mac l \<and> v = ElCounter received
       \<or> m = ALLOWED_MAC \<and> key = il_mac l \<and> v = ElMember \<and> allow \<and> \<not> il_overflowed l
       \<or> key \<in> show_ipv6 ` set (il_v6 l) \<and>
          (m = KNOWN6 \<and> v = ElMember \<or> m = ALLOWED6 \<and> v = ElMember \<and> allow \<and> \<not> il_overflowed l
           \<or> m = DOWN6_TX \<and> v = ElCounter delivered \<or> m = MARK6 \<and> v = ElMark mark))"
  by (auto simp: link_elements_def address_elements_def Let_def split: option.splits if_splits)

lemma map_elements_cases:
  "(m, key, v) \<in> set (map_elements addr metering delivered received) \<Longrightarrow>
    m = DOWN_TX \<and> key = show_ip addr \<and> v = ElCounter delivered
    \<or> m = DOWN_RX \<and> key = show_ip addr \<and> v = ElCounter received
    \<or> m = UP_TX \<and> key = show_ip addr \<and> v = ElCounter delivered
    \<or> m = UP_RX \<and> metering = MeterUpstream (Some key) \<and> v = ElCounter received"
  by (auto simp: map_elements_def Let_def split: Metering.splits option.splits)

lemma link_elements_value:
  "(m, key, v) \<in> set (link_elements link allow (fst (counter_names env p)) (snd (counter_names env p)) (mark_of c)) \<Longrightarrow>
    v = slot_value env p c m"
  by (drule link_elements_cases) (auto simp: slot_value_def map_names)

lemma map_elements_value:
  "(m, key, v) \<in> set (map_elements addr metering (fst (counter_names env p)) (snd (counter_names env p))) \<Longrightarrow>
    v = slot_value env p c m"
  by (drule map_elements_cases) (auto simp: slot_value_def map_names)

lemma peer_elements_eq:
  "peer_elements env p e metering link =
    map_elements (kp_addr e) metering (fst (counter_names env p)) (snd (counter_names env p))
    @ link_elements link (kp_carried e) (fst (counter_names env p)) (snd (counter_names env p)) (mark_of (kp_classid e))"
  by (simp add: peer_elements_def case_prod_unfold Let_def)

lemma own_value: "(m, key, v) \<in> own env p e \<Longrightarrow> v = slot_value env p (kp_classid e) m"
  by (auto simp: own_def peer_elements_eq dest: link_elements_value map_elements_value split: if_splits)
    (simp_all add: slot_value_def map_names)

lemma link_elements_mono:
  "set (link_elements link False delivered received mark) \<subseteq> set (link_elements link True delivered received mark)"
  by (auto simp: link_elements_def address_elements_def Let_def split: option.splits)

lemma own_claims: "(m, key, v) \<in> own env p e \<Longrightarrow> (m, key) \<in> claims env p e"
proof -
  assume "(m, key, v) \<in> own env p e"
  then have "(m, key, v) \<in> own env p (e\<lparr>kp_carried := True\<rparr>)"
    using link_elements_mono by (cases "kp_carried e") (fastforce simp: own_def peer_elements_eq)+
  then show ?thesis
    unfolding claims_def by force
qed

lemma claims_cong:
  "kp_addr e = kp_addr f \<Longrightarrow> kp_classid e = kp_classid f \<Longrightarrow> kp_metering e = kp_metering f \<Longrightarrow>
    kp_link e = kp_link f \<Longrightarrow> claims env p e = claims env p f"
  by (simp add: claims_def own_def peer_elements_eq)

lemma own_cong:
  "kp_addr e = kp_addr f \<Longrightarrow> kp_classid e = kp_classid f \<Longrightarrow> kp_metering e = kp_metering f \<Longrightarrow>
    kp_link e = kp_link f \<Longrightarrow> kp_carried e = kp_carried f \<Longrightarrow> own env p e = own env p f"
  by (simp add: own_def peer_elements_eq)

text \<open>A peer whose keys are of the maps' types and whose counters exist.\<close>

definition link_ok :: "IpLink option \<Rightarrow> bool" where
  "link_ok link = (\<forall>l. link = Some l \<longrightarrow> mac_key (il_mac l) \<and> (\<forall>a \<in> set (il_v6 l). length a = 16))"

definition metering_ok :: "Metering \<Rightarrow> bool" where
  "metering_ok metering = (\<forall>mac. metering = MeterUpstream (Some mac) \<longrightarrow> mac_key mac)"

definition keys_ok :: "(string \<Rightarrow> bool) \<Rightarrow> 'k IpEnv \<Rightarrow> PubKey \<Rightarrow> IpPeer \<Rightarrow> bool" where
  "keys_ok has env p e \<longleftrightarrow>
     (\<exists>a. kp_addr e = V4 a \<and> length a = 4) \<and> metering_ok (kp_metering e) \<and> link_ok (kp_link e)
     \<and> has (fst (counter_names env p)) \<and> has (snd (counter_names env p))"

lemma v4_key_show: "keys_ok has env p e \<Longrightarrow> v4_key (show_ip (kp_addr e))"
  by (auto simp: keys_ok_def v4_key_def)

lemma keys_ok_stays: "keys_ok has env p e \<Longrightarrow> (\<And>c. has c \<Longrightarrow> has' c) \<Longrightarrow> keys_ok has' env p e"
  by (simp add: keys_ok_def)

lemma map_elements_fit:
  assumes "v4_key (show_ip addr)" "metering_ok metering" "has delivered" "has received"
    and "x \<in> set (map_elements addr metering delivered received)"
  shows "elem_fits has x"
proof -
  obtain m key v where x: "x = (m, key, v)" by (cases x) auto
  from map_elements_cases [OF assms(5) [unfolded x]] show ?thesis
    using assms(1-4) by (auto simp: x elem_fits_def slot_fits_def metering_ok_def)
qed

lemma link_elements_fit:
  assumes "link_ok link" "has delivered" "has received"
    and "x \<in> set (link_elements link allow delivered received mark)"
  shows "elem_fits has x"
proof -
  obtain m key v where x: "x = (m, key, v)" by (cases x) auto
  have v6: "v6_key key" if "link = Some l" "key \<in> show_ipv6 ` set (il_v6 l)" for l
    using that assms(1) by (auto simp: link_ok_def v6_key_def)
  from link_elements_cases [OF assms(4) [unfolded x]] show ?thesis
    using assms(1-3) v6 by (auto simp: x elem_fits_def slot_fits_def link_ok_def)
qed

text \<open>The parts of it: what does not depend on the verdict, and what does.\<close>

definition base_elems :: "'k IpEnv \<Rightarrow> PubKey \<Rightarrow> IpPeer \<Rightarrow> Element set" where
  "base_elems env p e = insert (''known'', show_ip (kp_addr e), ElMember)
     (set (map_elements (kp_addr e) (kp_metering e) (fst (counter_names env p)) (snd (counter_names env p))))"

definition allowed_elems :: "IpPeer \<Rightarrow> bool \<Rightarrow> Element set" where
  "allowed_elems e on = (if on then {(''allowed'', show_ip (kp_addr e), ElMember)} else {})"

definition links :: "'k IpEnv \<Rightarrow> PubKey \<Rightarrow> IpPeer \<Rightarrow> bool \<Rightarrow> Element list" where
  "links env p e on = link_elements (kp_link e) on (fst (counter_names env p)) (snd (counter_names env p))
     (mark_of (kp_classid e))"

lemma own_parts:
  "own env p e = base_elems env p e \<union> allowed_elems e (kp_carried e) \<union> set (links env p e (kp_carried e))"
  "own env p (e\<lparr>kp_carried := on\<rparr>) = base_elems env p e \<union> allowed_elems e on \<union> set (links env p e on)"
  by (auto simp: own_def peer_elements_eq base_elems_def allowed_elems_def links_def)

lemma parts_fit:
  assumes "keys_ok has env p e" "x \<in> base_elems env p e \<union> allowed_elems e on \<union> set (links env p e on')"
  shows "elem_fits has x"
proof -
  have parts: "metering_ok (kp_metering e)" "link_ok (kp_link e)" "has (fst (counter_names env p))"
    "has (snd (counter_names env p))"
    using assms(1) by (simp_all add: keys_ok_def)
  note v4 = v4_key_show [OF assms(1)]
  have "elem_fits has (''known'', show_ip (kp_addr e), ElMember)"
    "elem_fits has (''allowed'', show_ip (kp_addr e), ElMember)"
    using v4 by (simp_all add: elem_fits_def slot_fits_def)
  then show ?thesis
    using assms(2) map_elements_fit [OF v4 parts(1,3,4)] link_elements_fit [OF parts(2,3,4)]
    unfolding base_elems_def allowed_elems_def links_def by (cases x) (auto split: if_splits)
qed

lemma own_fits: "keys_ok has env p e \<Longrightarrow> x \<in> own env p e \<Longrightarrow> elem_fits has x"
  using parts_fit [of has env p e x] unfolding own_parts by blast

lemma link_names_apart:
  assumes "x \<in> set (links env p e on)"
  shows "x \<notin> base_elems env p e" "x \<notin> allowed_elems e on'"
proof -
  obtain m key v where x: "x = (m, key, v)" by (cases x) auto
  note cases = link_elements_cases [OF assms [unfolded links_def x]]
  show "x \<notin> allowed_elems e on'"
    using cases by (auto simp: x map_names allowed_elems_def)
  show "x \<notin> base_elems env p e"
    using cases map_elements_cases [of m key v]
    by (auto simp: x map_names base_elems_def)
qed

lemma allowed_apart: "x \<in> allowed_elems e on \<Longrightarrow> x \<notin> base_elems env p e"
  using map_elements_cases [of "''allowed''"]
  by (auto simp: allowed_elems_def base_elems_def map_names split: if_splits)

subsection \<open>One peer among the others\<close>

definition alone :: "Element set \<Rightarrow> (string \<times> string) set \<Rightarrow> bool" where
  "alone rest slots = (\<forall>m key v. (m, key, v) \<in> rest \<longrightarrow> (m, key) \<notin> slots)"

definition within_claims :: "'k IpEnv \<Rightarrow> PubKey \<Rightarrow> IpPeer \<Rightarrow> Element set \<Rightarrow> bool" where
  "within_claims env p e es = (\<forall>m key v. (m, key, v) \<in> es \<longrightarrow>
     v = slot_value env p (kp_classid e) m \<and> (m, key) \<in> claims env p e)"

lemma within_own: "within_claims env p e (own env p e)"
  by (auto simp: within_claims_def own_value own_claims)

lemma within_Un [simp]: "within_claims env p e (a \<union> b) \<longleftrightarrow> within_claims env p e a \<and> within_claims env p e b"
  by (auto simp: within_claims_def)

lemma within_mono: "within_claims env p e b \<Longrightarrow> a \<subseteq> b \<Longrightarrow> within_claims env p e a"
  by (auto simp: within_claims_def)

lemma parts_within:
  "within_claims env p e (base_elems env p e \<union> allowed_elems e on \<union> set (links env p e on'))"
proof -
  let ?on = "e\<lparr>kp_carried := True\<rparr>" and ?off = "e\<lparr>kp_carried := False\<rparr>"
  have "claims env p ?on = claims env p e" "claims env p ?off = claims env p e"
    by (rule claims_cong; simp)+
  then have "within_claims env p e (own env p ?on)" "within_claims env p e (own env p ?off)"
    using within_own [of env p ?on] within_own [of env p ?off] by (simp_all add: within_claims_def)
  then show ?thesis
    by (cases on; cases on') (simp_all add: own_parts(2))
qed

lemma alone_disjoint: "alone rest (claims env p e) \<Longrightarrow> within_claims env p e es \<Longrightarrow> rest \<inter> es = {}"
  unfolding alone_def within_claims_def by fast

lemma peers_own_insert:
  "peers_own env (bt_insert p e peers) = peers_own env (bt_remove p peers) \<union> own env p e"
  by (auto simp: peers_own_def split: if_splits)

lemma peers_own_split:
  "bt_get peers p = Some e \<Longrightarrow> peers_own env peers = peers_own env (bt_remove p peers) \<union> own env p e"
proof -
  assume "bt_get peers p = Some e"
  then have "map_of (bt_insert p e peers) = map_of peers"
    by (simp add: fun_upd_idem)
  then show ?thesis
    unfolding peers_own_insert [symmetric] by (simp only: peers_own_def)
qed

lemma alone_others:
  assumes "apart env peers" "bt_get peers p = Some e"
  shows "alone (peers_own env (bt_remove p peers)) (claims env p e)"
  unfolding alone_def
proof (intro allI impI)
  fix m key v
  assume "(m, key, v) \<in> peers_own env (bt_remove p peers)"
  then obtain q f where "q \<noteq> p" "bt_get peers q = Some f" "(m, key, v) \<in> own env q f"
    by (auto simp: peers_own_def split: if_splits)
  moreover from this have "claims env p e \<inter> claims env q f = {}" "(m, key) \<in> claims env q f"
    using assms unfolding apart_def by (blast, simp add: own_claims)
  ultimately show "(m, key) \<notin> claims env p e" by blast
qed

lemma apart_remove: "apart env peers \<Longrightarrow> apart env (bt_remove p peers)"
  by (auto simp: apart_def split: if_splits)

lemma apart_update:
  assumes "apart env peers" "bt_get peers p = Some e" "claims env p e' = claims env p e"
  shows "apart env (bt_insert p e' peers)"
  unfolding apart_def
proof (intro allI impI)
  fix q f r g
  assume "bt_get (bt_insert p e' peers) q = Some f" "bt_get (bt_insert p e' peers) r = Some g" "q \<noteq> r"
  moreover from this obtain f' g' where "bt_get peers q = Some f'" "claims env q f = claims env q f'"
    "bt_get peers r = Some g'" "claims env r g = claims env r g'"
    using assms(2,3) by (auto split: if_splits)
  ultimately show "claims env q f \<inter> claims env r g = {}"
    using assms(1) unfolding apart_def by metis
qed

context nft_tables
begin

lemma clash_free_join:
  assumes "clash_free rest" "alone rest (claims env p e)" "within_claims env p e es"
  shows "clash_free (rest \<union> es)"
  unfolding clash_free_def
proof (intro allI impI)
  fix m key v w
  assume "(m, key, v) \<in> rest \<union> es" "(m, key, w) \<in> rest \<union> es"
  then show "v = w"
    using assms unfolding clash_free_def alone_def within_claims_def by (metis Un_iff)
qed

lemma clash_free_peers: "apart env peers \<Longrightarrow> clash_free (peers_own env peers)"
  unfolding clash_free_def
proof (intro allI impI)
  fix m key v w
  assume apart: "apart env peers" and v: "(m, key, v) \<in> peers_own env peers"
    and w: "(m, key, w) \<in> peers_own env peers"
  obtain p e q f where p: "bt_get peers p = Some e" "(m, key, v) \<in> own env p e"
    and q: "bt_get peers q = Some f" "(m, key, w) \<in> own env q f"
    using v w by (auto simp: peers_own_def)
  have "p = q"
    using apart p q own_claims unfolding apart_def by (metis disjoint_iff)
  then show "v = w"
    using p q own_value by (metis option.inject)
qed

lemma parts_clash_free:
  assumes "clash_free rest" "alone rest (claims env p e)"
    and "es \<subseteq> rest \<union> (base_elems env p e \<union> allowed_elems e on \<union> set (links env p e on')
      \<union> (base_elems env p e \<union> allowed_elems e onb \<union> set (links env p e onb')))"
  shows "clash_free es"
proof -
  have "within_claims env p e (base_elems env p e \<union> allowed_elems e on \<union> set (links env p e on')
      \<union> (base_elems env p e \<union> allowed_elems e onb \<union> set (links env p e onb')))"
    using parts_within [of env p e on on'] parts_within [of env p e onb onb'] by simp
  from clash_free_mono [OF clash_free_join [OF assms(1,2) this] assms(3)] show ?thesis .
qed

text \<open>The peer's address in or out of the allowed set.\<close>

lemma allowed_switches:
  assumes "holds k (rest \<union> (base_elems env p e \<union> allowed_elems e (\<not> on) \<union> set (links env p e (\<not> on))))"
    and "clash_free rest" "alone rest (claims env p e)" "keys_ok (has_counter k) env p e"
  defines "r \<equiv> nft env (allowed_element (if on then ''add'' else ''delete'') (kp_addr e)) k"
  shows "fst r \<noteq> None
    \<and> holds (snd r) (rest \<union> (base_elems env p e \<union> allowed_elems e on) \<union> set (links env p e (\<not> on)))
    \<and> counters_stay k (snd r)"
proof -
  let ?x = "(''allowed'', show_ip (kp_addr e), ElMember)"
  let ?es = "rest \<union> (base_elems env p e \<union> allowed_elems e (\<not> on) \<union> set (links env p e (\<not> on)))"
  have clash: "clash_free (insert ?x ?es)"
    by (rule parts_clash_free [OF assms(2,3), where on = "\<not> on" and on' = "\<not> on" and onb = True and onb' = on])
      (auto simp: allowed_elems_def)
  have slot: "slot_fits ''allowed'' (show_ip (kp_addr e))"
    using v4_key_show [OF assms(4)] by (simp add: slot_fits_def)
  then have fits: "elem_fits (has_counter k) ?x"
    by (simp add: elem_fits_def)
  show ?thesis
  proof (cases on)
    case True
    have "insert ?x ?es = rest \<union> (base_elems env p e \<union> allowed_elems e on) \<union> set (links env p e (\<not> on))"
      using True by (auto simp: allowed_elems_def)
    with holds_add [OF assms(1) clash fits] True show ?thesis
      by (simp add: r_def add_args_def allowed_element_def element_text_def)
  next
    case False
    have x: "?x \<in> allowed_elems e True"
      by (simp add: allowed_elems_def)
    then have "?x \<notin> rest"
      using alone_disjoint [OF assms(3) parts_within [of env p e True on]] by blast
    moreover have "?x \<notin> base_elems env p e"
      using x by (rule allowed_apart)
    moreover have "?x \<notin> set (links env p e (\<not> on))"
      using x link_names_apart(2) [of ?x env p e "\<not> on" True] by blast
    ultimately have "?x \<notin> rest \<union> base_elems env p e \<union> set (links env p e (\<not> on))"
      by blast
    then have "?es - {?x} = rest \<union> (base_elems env p e \<union> allowed_elems e on) \<union> set (links env p e (\<not> on))"
      using False by (auto simp: allowed_elems_def)
    moreover have "?x \<in> ?es"
      using False by (simp add: allowed_elems_def)
    ultimately show ?thesis
      using holds_delete [OF assms(1) clash slot] False
      by (simp add: r_def delete_args_def allowed_element_def)
  qed
qed

text \<open>Its link's elements after it.\<close>

lemma links_switch:
  assumes "holds k (rest \<union> (base_elems env p e \<union> allowed_elems e on) \<union> set (links env p e (\<not> on)))"
    and "clash_free rest" "alone rest (claims env p e)" "keys_ok (has_counter k) env p e"
  defines "r \<equiv> apply_elements env (links env p e (\<not> on)) (links env p e on) k"
  shows "holds (snd r) (rest \<union> own env p (e\<lparr>kp_carried := on\<rparr>)) \<and> counters_stay k (snd r)"
proof -
  let ?kept = "rest \<union> (base_elems env p e \<union> allowed_elems e on)"
  let ?old = "links env p e (\<not> on)" and ?new = "links env p e on"
  have "rest \<inter> set ?old = {}"
    using alone_disjoint [OF assms(3) parts_within [of env p e on "\<not> on"]] by blast
  moreover have "(base_elems env p e \<union> allowed_elems e on) \<inter> set ?old = {}"
    by (auto dest: link_names_apart)
  ultimately have "?kept - set ?old = ?kept" by blast
  then have eq: "?kept \<union> set ?old - set ?old \<union> set ?new = rest \<union> own env p (e\<lparr>kp_carried := on\<rparr>)"
    by (simp add: Un_Diff own_parts(2) Un_assoc)
  have clash: "clash_free (?kept \<union> set ?old \<union> set ?old)" "clash_free (?kept \<union> set ?old - set ?old \<union> set ?new)"
    by (rule parts_clash_free [OF assms(2,3), where on = on and on' = "\<not> on" and onb = on and onb' = on], blast)+
  have "\<And>x. x \<in> set ?old \<union> set ?new \<Longrightarrow> elem_fits (has_counter k) x"
    using parts_fit [OF assms(4)] by blast
  from apply_elements_holds [OF assms(1) clash _ this] show ?thesis
    unfolding eq r_def by blast
qed

text \<open>The gate leaves the peer recorded as core wants it, and the kernel with what it then holds.\<close>

lemma gate_holds:
  assumes "holds k (rest \<union> own env p e)" "clash_free rest" "alone rest (claims env p e)"
    and "keys_ok (has_counter k) env p e"
  shows "fst (gate env p e k) = e\<lparr>kp_carried := carried (kp_access e) (kp_rate e)\<rparr>
    \<and> holds (snd (gate env p e k)) (rest \<union> own env p (e\<lparr>kp_carried := carried (kp_access e) (kp_rate e)\<rparr>))
    \<and> counters_stay k (snd (gate env p e k))"
proof (cases "carried (kp_access e) (kp_rate e) = kp_carried e")
  case True
  moreover from this have "e\<lparr>kp_carried := carried (kp_access e) (kp_rate e)\<rparr> = e"
    by simp
  ultimately show ?thesis
    using assms(1) by (simp add: gate_def)
next
  case False
  define on where "on = carried (kp_access e) (kp_rate e)"
  let ?r = "nft env (allowed_element (if on then ''add'' else ''delete'') (kp_addr e)) k"
  have on: "kp_carried e = (\<not> on)"
    using False by (simp add: on_def)
  obtain out k1 where r: "?r = (Some out, k1)"
    and one: "holds k1 (rest \<union> (base_elems env p e \<union> allowed_elems e on) \<union> set (links env p e (\<not> on)))"
      "counters_stay k k1"
    using allowed_switches [OF _ assms(2-4), where on = on] assms(1) unfolding own_parts on
    by (metis option.collapse prod.collapse)
  have "keys_ok (has_counter k1) env p e"
    using assms(4) one(2) by (auto intro: keys_ok_stays simp: counters_stay_def)
  note two = links_switch [OF one(1) assms(2,3) this]
  have "gate env p e k =
      (e\<lparr>kp_carried := on\<rparr>, snd (apply_elements env (links env p e (\<not> on)) (links env p e on) k1))"
    using r on by (simp add: gate_def on_def [symmetric] links_def case_prod_unfold Let_def)
  then show ?thesis
    using two counters_stay_trans [OF one(2)] by (simp add: on_def)
qed

end

subsection \<open>The kernel mirrors the peers\<close>

context nft_tables
begin

definition peers_ok :: "(PubKey, IpPeer) btreemap \<Rightarrow> 'k \<Rightarrow> bool" where
  "peers_ok peers k \<longleftrightarrow> bt_wf peers \<and> apart env peers
     \<and> (\<forall>p e. bt_get peers p = Some e \<longrightarrow>
          keys_ok (has_counter k) env p e \<and> kp_carried e = carried (kp_access e) (kp_rate e))"

definition kernel_mirrors :: "Ip \<times> 'k \<Rightarrow> bool" where
  "kernel_mirrors s \<longleftrightarrow> peers_ok (ip_peers (fst s)) (snd s) \<and> holds (snd s) (peers_own env (ip_peers (fst s)))"

lemma mirrorsI: "peers_ok (ip_peers ip) k \<Longrightarrow> holds k (peers_own env (ip_peers ip)) \<Longrightarrow> kernel_mirrors (ip, k)"
  by (simp add: kernel_mirrors_def)

lemma peers_ok_stays: "peers_ok peers k \<Longrightarrow> counters_stay k k' \<Longrightarrow> peers_ok peers k'"
  unfolding peers_ok_def counters_stay_def by (blast intro: keys_ok_stays)

lemma holds_cong: "elems k' = elems k \<Longrightarrow> holds k' es = holds k es"
  by (simp add: holds_def)

lemma quiet_run:
  assumes "program \<noteq> ''nft'' \<or> \<not> touches_elements args" "take 2 args \<noteq> [''delete'', ''table'']"
  shows "holds (snd (ie_run env k program args)) es = holds k es"
    "counters_stay k (snd (ie_run env k program args))"
  by (rule holds_cong [OF others_keep [OF assms(1)]]) (rule counters_stay_run [OF assms(2)])

lemma mirrors_tc: "take 2 args \<noteq> [''delete'', ''table''] \<Longrightarrow> kernel_mirrors (ip, k) \<Longrightarrow> kernel_mirrors (ip, tc_quiet env args k)"
  using peers_ok_stays [OF _ quiet_run(2)] quiet_run(1) [of "''tc''" args k]
  by (simp add: kernel_mirrors_def tc_quiet_def tc_def)

lemma mirrors_gate:
  assumes "kernel_mirrors (ip, k)" "bt_get (ip_peers ip) p = Some e" and "gate env p f k = (f', k')"
    and "kp_addr f = kp_addr e" "kp_classid f = kp_classid e" "kp_metering f = kp_metering e"
      "kp_link f = kp_link e" "kp_carried f = kp_carried e"
  shows "kernel_mirrors (ip\<lparr>ip_peers := bt_insert p f' (ip_peers ip)\<rparr>, k') \<and> kp_classid f' = kp_classid e"
proof -
  let ?peers = "ip_peers ip" and ?rest = "peers_own env (bt_remove p (ip_peers ip))"
  have ok: "peers_ok ?peers k" and held: "holds k (peers_own env ?peers)"
    using assms(1) by (simp_all add: kernel_mirrors_def)
  have apart: "apart env ?peers" and keys: "keys_ok (has_counter k) env p e"
    using ok assms(2) by (simp_all add: peers_ok_def)
  have same: "own env p f = own env p e" "claims env p f = claims env p e"
    by (rule own_cong claims_cong; simp add: assms)+
  have fkeys: "keys_ok (has_counter k) env p f"
    using keys by (simp add: keys_ok_def assms)
  have "holds k (?rest \<union> own env p f)" "alone ?rest (claims env p f)"
    using held peers_own_split [OF assms(2), of env] alone_others [OF apart assms(2)] by (simp_all add: same)
  from gate_holds [OF this(1) clash_free_peers [OF apart_remove [OF apart]] this(2) fkeys]
  have f': "f' = f\<lparr>kp_carried := carried (kp_access f) (kp_rate f)\<rparr>"
    and held': "holds k' (?rest \<union> own env p f')" and stay: "counters_stay k k'"
    by (simp_all add: assms(3))
  have "claims env p f' = claims env p e"
    unfolding f' same(2) [symmetric] by (rule claims_cong) simp_all
  then have "apart env (bt_insert p f' ?peers)"
    by (rule apart_update [OF apart assms(2)])
  moreover have "keys_ok (has_counter k') env p f'"
    using fkeys stay by (simp add: f' keys_ok_def counters_stay_def)
  ultimately have "peers_ok (bt_insert p f' ?peers) k'"
    using peers_ok_stays [OF ok stay] by (auto simp: peers_ok_def f')
  then show ?thesis
    using held' by (simp add: kernel_mirrors_def peers_own_insert f' assms)
qed

lemma mirrors_set_access: "kernel_mirrors s \<Longrightarrow> kernel_mirrors (ip_set_access env p access s)"
proof -
  assume m: "kernel_mirrors s"
  obtain ip k where s: "s = (ip, k)" by force
  show ?thesis
  proof (cases "bt_get (ip_peers ip) p")
    case (Some e)
    obtain f' k' where g: "gate env p (e\<lparr>kp_access := access\<rparr>) k = (f', k')" by force
    show ?thesis
      using mirrors_gate [OF m [unfolded s] Some g] by (simp add: s ip_set_access_def Some g)
  qed (use m in \<open>simp add: s ip_set_access_def\<close>)
qed

lemma mirrors_set_shaping_rate: "kernel_mirrors s \<Longrightarrow> kernel_mirrors (ip_set_shaping_rate env p rate s)"
proof -
  assume m: "kernel_mirrors s"
  obtain ip k where s: "s = (ip, k)" by force
  show ?thesis
  proof (cases "bt_get (ip_peers ip) p")
    case (Some e)
    obtain f' k' where g: "gate env p (e\<lparr>kp_rate := rate\<rparr>) k = (f', k')" by force
    show ?thesis
      using mirrors_gate [OF m [unfolded s] Some g]
      by (simp add: s ip_set_shaping_rate_def Some g mirrors_tc class_replace_def)
  qed (use m in \<open>simp add: s ip_set_shaping_rate_def\<close>)
qed

end

end
