(* ===== verification/Ip_Mirror.thy ===== *)
theory Ip_Mirror
  imports Ip_Gate
begin

text \<open>
  Peers that come, go and move between the ways of being counted, and the whole of the kernel enforcer
  over a run (\<open>crates/tollgate-net/src/enforcer/ip.rs\<close>).
\<close>

context nft_tables
begin

subsection \<open>A peer comes\<close>

lemma mirrors_register:
  assumes "kernel_mirrors s" "addr = V4 a" "length a = 4"
    and "apart env (ip_peers (fst (ip_register env p addr s)))"
  shows "kernel_mirrors (ip_register env p addr s)"
proof -
  obtain ip k where s: "s = (ip, k)" by force
  show ?thesis
  proof (cases "bt_get (ip_peers ip) p")
    case (Some e)
    then show ?thesis using assms(1) by (simp add: s ip_register_def)
  next
    case None
    let ?c = "ip_next_classid ip" and ?d = "fst (counter_names env p)" and ?r = "snd (counter_names env p)"
    let ?entry = "\<lparr>kp_addr = addr, kp_classid = ?c, kp_access = AccessNone, kp_rate = 0,
      kp_carried = False, kp_metering = MeterAddr, kp_link = None\<rparr>"
    let ?peers = "bt_insert p ?entry (ip_peers ip)" and ?known = "(''known'', show_ip addr, ElMember)"
    let ?els = "map_elements addr MeterAddr ?d ?r"
    define k1 where "k1 = nft_quiet env (known_element ''add'' addr) k"
    define k2 where "k2 = nft_quiet env [''add'', ''counter'', ''inet'', TABLE, ?d] k1"
    define k3 where "k3 = nft_quiet env [''add'', ''counter'', ''inet'', TABLE, ?r] k2"
    define k4 where "k4 = snd (apply_elements env [] ?els k3)"
    define k5 where "k5 = tc_quiet env (filter_replace (ip_interface ip) ?c ''ipv6'' ''2'')
      (tc_quiet env (filter_replace (ip_interface ip) ?c ''ip'' ''1'')
        (tc_quiet env (class_replace (ip_interface ip) ?c [''rate'', ''8bit''])
          (nft_quiet env (mark_rule addr ?c) k4)))"
    have reg: "ip_register env p addr (ip, k) =
        (ip\<lparr>ip_next_classid := (if ?c = - 1 then - 1 else ?c + 1), ip_peers := ?peers, ip_refreshed := None\<rparr>, k5)"
      by (simp add: ip_register_def None k1_def k2_def k3_def k4_def k5_def case_prod_unfold Let_def)
    have ok: "peers_ok (ip_peers ip) k" and held: "holds k (peers_own env (ip_peers ip))"
      using assms(1) by (simp_all add: s kernel_mirrors_def)
    have apart: "apart env ?peers"
      using assms(4) by (simp add: s reg)
    have gone: "bt_remove p (ip_peers ip) = ip_peers ip"
      using None by (intro bt_remove_absent) (simp add: map_of_eq_None_iff)
    have own: "own env p ?entry = {?known} \<union> set ?els"
      by (simp add: own_def peer_elements_eq link_elements_def)
    have all: "peers_own env ?peers = peers_own env (ip_peers ip) \<union> {?known} \<union> set ?els"
      by (simp add: peers_own_insert gone own Un_assoc)
    have clash: "clash_free es" if "es \<subseteq> peers_own env ?peers" for es
      using clash_free_mono [OF clash_free_peers [OF apart] that] .
    have v4: "v4_key (show_ip addr)"
      using assms(2,3) by (auto simp: v4_key_def)
    have "elem_fits (has_counter k) ?known"
      using v4 by (simp add: elem_fits_def slot_fits_def)
    from holds_add [OF held clash this]
    have one: "holds k1 (insert ?known (peers_own env (ip_peers ip)))" "counters_stay k k1"
      by (auto simp: k1_def all nft_quiet_def known_element_def add_args_def element_text_def)
    have two: "holds k3 (insert ?known (peers_own env (ip_peers ip)))" "counters_stay k1 k3"
      using one(1) counters_stay_trans [OF quiet_run(2) quiet_run(2)]
      by (simp_all add: k3_def k2_def nft_quiet_def nft_def quiet_run(1) touches_elements_def)
    have counted: "has_counter k3 ?d" "has_counter k3 ?r"
    proof -
      have "has_counter k2 ?d" "counters_stay k2 k3"
        using counter_added [of ?d k1] quiet_run(2) [of "''nft''" "[''add'', ''counter'', ''inet'', TABLE, ?r]" k2]
        by (simp_all add: k2_def k3_def nft_quiet_def nft_def touches_elements_def)
      then show "has_counter k3 ?d" by (simp add: counters_stay_def)
      show "has_counter k3 ?r"
        using counter_added [of ?r k2] by (simp add: k3_def nft_quiet_def)
    qed
    have "metering_ok MeterAddr"
      by (simp add: metering_ok_def)
    then have fits: "\<And>x. x \<in> set [] \<union> set ?els \<Longrightarrow> elem_fits (has_counter k3) x"
      using map_elements_fit [OF v4 _ counted] by (metis Un_iff empty_iff empty_set)
    have three: "holds k4 (peers_own env ?peers)" "counters_stay k3 k4"
    proof -
      have "holds k4 (insert ?known (peers_own env (ip_peers ip)) - set [] \<union> set ?els) \<and> counters_stay k3 k4"
        unfolding k4_def by (rule apply_elements_holds [OF two(1) clash clash _ fits]) (auto simp: all)
      then show "holds k4 (peers_own env ?peers)" "counters_stay k3 k4"
        by (simp_all add: all)
    qed
    have four: "holds k5 (peers_own env ?peers)" "counters_stay k4 k5"
      using three(1)
        counters_stay_trans [OF counters_stay_trans [OF counters_stay_trans [OF quiet_run(2) quiet_run(2)] quiet_run(2)] quiet_run(2)]
      by (simp_all add: k5_def nft_quiet_def nft_def tc_quiet_def tc_def quiet_run(1) touches_elements_def
          mark_rule_def class_replace_def filter_replace_def)
    have stay: "counters_stay k k5" "counters_stay k3 k5"
      using one(2) two(2) three(2) four(2) counters_stay_trans by blast+
    have "peers_ok ?peers k5"
      using peers_ok_stays [OF ok stay(1)] apart counted stay(2) assms(2,3)
      by (auto simp: peers_ok_def keys_ok_def metering_ok_def link_ok_def counters_stay_def carried_def)
    then show ?thesis
      using four(1) by (simp add: s reg kernel_mirrors_def)
  qed
qed

subsection \<open>A peer goes\<close>

lemma mirrors_remove:
  assumes "kernel_mirrors s"
  shows "kernel_mirrors (ip_remove env p s)"
proof -
  obtain ip k where s: "s = (ip, k)" by force
  show ?thesis
  proof (cases "bt_get (ip_peers ip) p")
    case None
    then show ?thesis using assms by (simp add: s ip_remove_def)
  next
    case (Some e)
    let ?rest = "peers_own env (bt_remove p (ip_peers ip))"
    let ?old = "peer_elements env p e (kp_metering e) (kp_link e)" and ?ip = "show_ip (kp_addr e)"
    let ?known = "(''known'', ?ip, ElMember)" and ?allowed = "(''allowed'', ?ip, ElMember)"
    define k1 where "k1 = snd (apply_elements env ?old [] k)"
    define k2 where "k2 = nft_quiet env (allowed_element ''delete'' (kp_addr e)) k1"
    define k3 where "k3 = nft_quiet env (known_element ''delete'' (kp_addr e)) k2"
    have ok: "peers_ok (ip_peers ip) k" and held: "holds k (?rest \<union> own env p e)"
      using assms peers_own_split [OF Some, of env] by (simp_all add: s kernel_mirrors_def)
    have apart: "apart env (ip_peers ip)" and keys: "keys_ok (has_counter k) env p e"
      using ok Some by (simp_all add: peers_ok_def)
    note rest = clash_free_peers [OF apart_remove [OF apart]] alone_others [OF apart Some]
    have own: "own env p e = {?known} \<union> allowed_elems e (kp_carried e) \<union> set ?old"
      by (auto simp: own_def allowed_elems_def)
    have clash: "clash_free es" if "es \<subseteq> insert ?allowed (?rest \<union> own env p e)" for es
      by (rule parts_clash_free [OF rest, where on = True and on' = "kp_carried e" and onb = "kp_carried e" and onb' = "kp_carried e"])
        (use that in \<open>auto simp: own_parts allowed_elems_def\<close>)
    have slots: "slot_fits ''known'' ?ip" "slot_fits ''allowed'' ?ip"
      using v4_key_show [OF keys] by (simp_all add: slot_fits_def)
    have "\<And>x. x \<in> set ?old \<union> set [] \<Longrightarrow> elem_fits (has_counter k) x"
      using own_fits [OF keys] by (simp add: own)
    then have one: "holds k1 (?rest \<union> own env p e - set ?old)" "counters_stay k k1"
      using apply_elements_holds [OF held clash clash, of ?old "[]"] by (auto simp: k1_def own)
    have two: "holds k2 (?rest \<union> own env p e - set ?old - {?allowed})" "counters_stay k1 k2"
      using holds_delete [OF one(1) clash slots(2)]
      by (auto simp: k2_def nft_quiet_def delete_args_def allowed_element_def)
    have three: "holds k3 (?rest \<union> own env p e - set ?old - {?allowed} - {?known})" "counters_stay k2 k3"
      using holds_delete [OF two(1) clash slots(1)]
      by (auto simp: k3_def nft_quiet_def delete_args_def known_element_def own)
    have "?rest \<inter> (own env p e \<union> {?allowed}) = {}"
      using alone_disjoint [OF rest(2) parts_within [of env p e True "kp_carried e"]]
      by (auto simp: own_parts allowed_elems_def split: if_splits)
    then have "?rest \<union> own env p e - set ?old - {?allowed} - {?known} = ?rest"
      by (auto simp: own allowed_elems_def split: if_splits)
    then have "holds k3 ?rest"
      using three(1) by simp
    moreover have "counters_stay k k3"
      using one(2) two(2) three(2) counters_stay_trans by blast
    then have "peers_ok (bt_remove p (ip_peers ip)) k3"
      using peers_ok_stays [OF ok] apart_remove [of env "ip_peers ip" p] by (auto simp: peers_ok_def split: if_splits)
    ultimately have "kernel_mirrors (ip\<lparr>ip_peers := bt_remove p (ip_peers ip)\<rparr>, k3)"
      by (simp add: kernel_mirrors_def)
    then show ?thesis
      by (simp add: s ip_remove_def Some k1_def k2_def k3_def case_prod_unfold Let_def mirrors_tc filter_delete_def)
  qed
qed

end

subsection \<open>Peers move\<close>

definition moved_entry ::
  "u8 list list \<Rightarrow> (u8 list, string) btreemap \<Rightarrow> (u8 list, string) btreemap \<Rightarrow> IpPeer \<Rightarrow> IpPeer" where
  "moved_entry gateways neighbours neighbours6 e =
     (let metering = classify (kp_addr e) gateways neighbours
      in e\<lparr>kp_metering := metering,
           kp_link := customer_link (kp_addr e) metering neighbours neighbours6 (kp_link e)\<rparr>)"

definition moved_peers ::
  "u8 list list \<Rightarrow> (u8 list, string) btreemap \<Rightarrow> (u8 list, string) btreemap \<Rightarrow>
   (PubKey, IpPeer) btreemap \<Rightarrow> (PubKey, IpPeer) btreemap" where
  "moved_peers gateways neighbours neighbours6 =
     map (\<lambda>(p, e). (p, moved_entry gateways neighbours neighbours6 e))"

lemma moved_entry_sel [simp]:
  "kp_addr (moved_entry g n n6 e) = kp_addr e" "kp_classid (moved_entry g n n6 e) = kp_classid e"
  "kp_access (moved_entry g n n6 e) = kp_access e" "kp_rate (moved_entry g n n6 e) = kp_rate e"
  "kp_carried (moved_entry g n n6 e) = kp_carried e"
  by (simp_all add: moved_entry_def Let_def)

lemma get_moved_peers:
  "bt_get (moved_peers g n n6 peers) p = map_option (moved_entry g n n6) (bt_get peers p)"
  by (induction peers) (auto simp: moved_peers_def)

lemma keys_moved_peers [simp]: "bt_keys (moved_peers g n n6 peers) = bt_keys peers"
  by (auto simp: moved_peers_def bt_keys_def)

lemma classify_ok: "(\<And>a mac. bt_get n a = Some mac \<Longrightarrow> mac_key mac) \<Longrightarrow> metering_ok (classify addr g n)"
  by (auto simp: classify_def metering_ok_def split: IpAddr.splits)

lemma customer_link_ok:
  assumes "\<And>a mac. bt_get n a = Some mac \<Longrightarrow> mac_key mac" "\<And>a mac. (a, mac) \<in> set n6 \<Longrightarrow> length a = 16"
    and "link_ok previous"
  shows "link_ok (customer_link addr metering n n6 previous)"
proof -
  have "length a = 16" if "a \<in> set (fill_v6 [] (kept_v6 mac n6 previous @ seen_v6 mac n6))
      \<or> a \<in> set (fill_v6 [] (seen_v6 mac n6 @ kept_v6 mac n6 previous))" for a mac
  proof -
    have "a \<in> set (kept_v6 mac n6 previous) \<or> a \<in> set (seen_v6 mac n6)"
      using that set_fill_v6 [of "[]" "kept_v6 mac n6 previous @ seen_v6 mac n6"]
        set_fill_v6 [of "[]" "seen_v6 mac n6 @ kept_v6 mac n6 previous"] by auto
    then show ?thesis
      using assms(2,3) by (auto simp: kept_v6_def seen_v6_def link_ok_def split: option.splits if_splits)
  qed
  then show ?thesis
    using assms(1,3) by (auto simp: customer_link_def link_ok_def Let_def split: IpAddr.splits option.splits)
qed

lemma keys_ok_moved:
  assumes "\<And>a mac. bt_get n a = Some mac \<Longrightarrow> mac_key mac" "\<And>a mac. (a, mac) \<in> set n6 \<Longrightarrow> length a = 16"
    and "keys_ok has env p e"
  shows "keys_ok has env p (moved_entry g n n6 e)"
  using assms classify_ok [OF assms(1)] customer_link_ok [OF assms(1,2)]
  by (auto simp: keys_ok_def moved_entry_def Let_def)

lemma bt_wf_moved [simp]: "bt_wf (moved_peers g n n6 peers) = bt_wf peers"
  using keys_moved_peers [of g n n6 peers] by (simp add: bt_wf_def bt_keys_def)

text \<open>A peer's move, and what stays whatever the move.\<close>

definition move_of ::
  "'k IpEnv \<Rightarrow> u8 list list \<Rightarrow> (u8 list, string) btreemap \<Rightarrow> (u8 list, string) btreemap \<Rightarrow>
   PubKey \<times> IpPeer \<Rightarrow> Move" where
  "move_of env g n n6 = (\<lambda>(p, e).
     \<lparr>mv_before = peer_elements env p e (kp_metering e) (kp_link e),
      mv_after = peer_elements env p (moved_entry g n n6 e) (kp_metering (moved_entry g n n6 e))
        (kp_link (moved_entry g n n6 e))\<rparr>)"

definition fixed_elems :: "IpPeer \<Rightarrow> Element set" where
  "fixed_elems e = {(''known'', show_ip (kp_addr e), ElMember)} \<union> allowed_elems e (kp_carried e)"

lemma next_state_eq:
  "next_state env g n n6 (p, e) =
    (p, kp_metering (moved_entry g n n6 e), kp_link (moved_entry g n n6 e), move_of env g n n6 (p, e))"
  by (simp add: next_state_def move_of_def moved_entry_def peer_elements_eq Let_def)

lemma own_moves:
  "own env p e = fixed_elems e \<union> set (mv_before (move_of env g n n6 (p, e)))"
  "own env p (moved_entry g n n6 e) = fixed_elems e \<union> set (mv_after (move_of env g n n6 (p, e)))"
  by (auto simp: own_def fixed_elems_def move_of_def allowed_elems_def)

lemma fixed_not_moved: "x \<in> fixed_elems e \<Longrightarrow> x \<notin> set (peer_elements env p f metering link)"
  using map_elements_cases [of "''known''"] map_elements_cases [of "''allowed''"]
    link_elements_cases [of "''known''"] link_elements_cases [of "''allowed''"]
  by (fastforce simp: fixed_elems_def peer_elements_eq allowed_elems_def map_names split: if_splits)

definition additions_of ::
  "'k IpEnv \<Rightarrow> u8 list list \<Rightarrow> (u8 list, string) btreemap \<Rightarrow> (u8 list, string) btreemap \<Rightarrow>
   PubKey \<times> IpPeer \<Rightarrow> Element list" where
  "additions_of env g n n6 x =
     filter (\<lambda>e. e \<notin> set (mv_before (move_of env g n n6 x))) (mv_after (move_of env g n n6 x))"

lemma move_peers_eq:
  "move_peers env g n n6 (peers, k) =
    fold (\<lambda>x. settle_move env (next_state env g n n6 x, additions_of env g n n6 x)) peers
      (peers, snd (remove_elements env (plan_removals (map (move_of env g n n6) peers)) k))"
proof -
  have moves: "map (\<lambda>(_, _, _, m). m) (map (next_state env g n n6) peers) = map (move_of env g n n6) peers"
    by (auto simp: next_state_eq)
  have zipped: "zip (map (next_state env g n n6) peers) (plan_additions (map (move_of env g n n6) peers))
      = map (\<lambda>x. (next_state env g n n6 x, additions_of env g n n6 x)) peers"
    by (induction peers) (simp_all add: plan_additions_def additions_of_def)
  show ?thesis
    unfolding move_peers_def prod.case Let_def moves plan_moves_def zipped
    by (simp add: fold_map comp_def case_prod_unfold)
qed

context nft_tables
begin

lemma fold_settle:
  assumes "distinct (map fst xs)" "\<And>p e. (p, e) \<in> set xs \<Longrightarrow> bt_get ps p = Some e"
    and "holds k es" "clash_free (es \<union> (\<Union>x \<in> set xs. set (additions_of env g n n6 x)))"
    and "\<And>x y. x \<in> set xs \<Longrightarrow> y \<in> set (additions_of env g n n6 x) \<Longrightarrow> elem_fits (has_counter k) y"
  defines "r \<equiv> fold (\<lambda>x. settle_move env (next_state env g n n6 x, additions_of env g n n6 x)) xs (ps, k)"
  shows "holds (snd r) (es \<union> (\<Union>x \<in> set xs. set (additions_of env g n n6 x))) \<and> counters_stay k (snd r)
    \<and> (bt_wf ps \<longrightarrow> bt_wf (fst r))
    \<and> (\<forall>p. bt_get (fst r) p =
         (if p \<in> fst ` set xs then map_option (moved_entry g n n6) (bt_get ps p) else bt_get ps p))"
  using assms(1-5) unfolding r_def
proof (induction xs arbitrary: ps k es)
  case (Cons x xs)
  obtain p e where x: "x = (p, e)" by (cases x)
  let ?step = "\<lambda>x. settle_move env (next_state env g n n6 x, additions_of env g n n6 x)"
  let ?e = "moved_entry g n n6 e" and ?adds = "additions_of env g n n6 x"
  have e: "bt_get ps p = Some e"
    using Cons.prems(2) by (simp add: x)
  have clash: "clash_free (es \<union> set ?adds)"
    by (rule clash_free_mono [OF Cons.prems(4)]) auto
  define k1 where "k1 = (if kp_metering ?e = kp_metering e \<and> kp_link ?e = kp_link e then k
    else snd (add_elements env ?adds k))"
  define ps1 where "ps1 = (if kp_metering ?e = kp_metering e \<and> kp_link ?e = kp_link e then ps
    else bt_insert p ?e ps)"
  have one: "?step x (ps, k) = (ps1, k1) \<and> holds k1 (es \<union> set ?adds) \<and> counters_stay k k1"
  proof (cases "kp_metering ?e = kp_metering e \<and> kp_link ?e = kp_link e")
    case True
    then have "?adds = []"
      by (simp add: additions_of_def x move_of_def peer_elements_eq)
    then show ?thesis
      using Cons.prems(3) e True by (simp add: settle_move_def x next_state_eq k1_def ps1_def)
  next
    case False
    have "\<And>y. y \<in> set ?adds \<Longrightarrow> elem_fits (has_counter k) y"
      by (rule Cons.prems(5) [of x]) simp_all
    from add_elements_holds [OF Cons.prems(3) clash this]
    obtain k' where added: "add_elements env ?adds k = (True, k')" "holds k' (es \<union> set ?adds)" "counters_stay k k'"
      by (metis prod.collapse)
    have same: "e\<lparr>kp_metering := kp_metering ?e, kp_link := kp_link ?e\<rparr> = ?e"
      by (simp add: moved_entry_def Let_def)
    show ?thesis
      using e False added same by (auto simp: settle_move_def x next_state_eq k1_def ps1_def same)
  qed
  have new: "\<And>q. bt_get ps1 q = (if q = p then Some ?e else bt_get ps q)"
    using e by (auto simp: ps1_def moved_entry_def Let_def)
  have "distinct (map fst xs)" "p \<notin> fst ` set xs"
    using Cons.prems(1) by (auto simp: x)
  moreover have "\<And>q f. (q, f) \<in> set xs \<Longrightarrow> bt_get ps1 q = Some f"
    using Cons.prems(2) \<open>p \<notin> fst ` set xs\<close> by (force simp: new)
  moreover have "clash_free (es \<union> set ?adds \<union> (\<Union>x \<in> set xs. set (additions_of env g n n6 x)))"
    by (rule clash_free_mono [OF Cons.prems(4)]) auto
  moreover have "\<And>x y. x \<in> set xs \<Longrightarrow> y \<in> set (additions_of env g n n6 x) \<Longrightarrow> elem_fits (has_counter k1) y"
    using Cons.prems(5) elem_fits_stays one by (metis list.set_intros(2))
  ultimately have IH: "let r = fold ?step xs (ps1, k1) in
      holds (snd r) (es \<union> set ?adds \<union> (\<Union>x \<in> set xs. set (additions_of env g n n6 x))) \<and> counters_stay k1 (snd r)
      \<and> (bt_wf ps1 \<longrightarrow> bt_wf (fst r))
      \<and> (\<forall>q. bt_get (fst r) q =
           (if q \<in> fst ` set xs then map_option (moved_entry g n n6) (bt_get ps1 q) else bt_get ps1 q))"
    unfolding Let_def using one by (intro Cons.IH) blast+
  moreover have "fold ?step (x # xs) (ps, k) = fold ?step xs (ps1, k1)"
    using one by simp
  moreover have "bt_wf ps \<Longrightarrow> bt_wf ps1"
    by (simp add: ps1_def)
  ultimately show ?case
    using one counters_stay_trans [of k k1] \<open>p \<notin> fst ` set xs\<close> e
    by (auto simp: Let_def new x Un_assoc)
qed simp

lemma mirrors_moved:
  assumes "kernel_mirrors (ip, k)" "apart env (moved_peers g n n6 (ip_peers ip))"
    and "\<And>a mac. bt_get n a = Some mac \<Longrightarrow> mac_key mac" "\<And>a mac. (a, mac) \<in> set n6 \<Longrightarrow> length a = 16"
    and "move_peers env g n n6 (ip_peers ip, k) = (peers', k')"
  shows "kernel_mirrors (ip\<lparr>ip_peers := peers'\<rparr>, k')"
proof -
  let ?peers = "ip_peers ip" and ?move = "move_of env g n n6"
  let ?before = "\<Union>x \<in> set ?peers. set (mv_before (?move x))"
  let ?after = "\<Union>x \<in> set ?peers. set (mv_after (?move x))"
  let ?fixed = "\<Union>x \<in> set ?peers. fixed_elems (snd x)"
  let ?removals = "plan_removals (map ?move ?peers)"
  let ?adds = "\<Union>x \<in> set ?peers. set (additions_of env g n n6 x)"
  define k1 where "k1 = snd (remove_elements env ?removals k)"
  have ok: "peers_ok ?peers k" and held: "holds k (peers_own env ?peers)"
    using assms(1) by (simp_all add: kernel_mirrors_def)
  have wf: "bt_wf ?peers" and apart: "apart env ?peers"
    using ok by (simp_all add: peers_ok_def)
  have keys: "keys_ok (has_counter k) env p e" if "(p, e) \<in> set ?peers" for p e
    using ok that bt_get_mem [OF wf, of p e] by (simp add: peers_ok_def)
  have moved_keys: "keys_ok has env p (moved_entry g n n6 e)" if "keys_ok has env p e" for has p e
    using assms(3,4) that by (rule keys_ok_moved)
  have own: "peers_own env ?peers = ?fixed \<union> ?before"
    using own_moves(1) bt_get_mem [OF wf] by (fastforce simp: peers_own_def)
  have own': "peers_own env (moved_peers g n n6 ?peers) = ?fixed \<union> ?after"
    using own_moves(2) bt_get_mem [OF wf] by (fastforce simp: peers_own_def get_moved_peers)
  have removals: "set ?removals = ?before - ?after"
    by (simp add: set_plan_removals)
  have fits: "elem_fits (has_counter k) y" if "y \<in> ?fixed \<union> ?before \<union> ?after" for y
  proof -
    from that obtain p e where pe: "(p, e) \<in> set ?peers"
      and y: "y \<in> own env p e \<or> y \<in> own env p (moved_entry g n n6 e)"
      unfolding own_moves(1) [of env _ _ g n n6] own_moves(2) by fastforce
    show ?thesis
      using y own_fits [OF keys [OF pe]] own_fits [OF moved_keys [OF keys [OF pe]]] by blast
  qed
  have one: "holds k1 (peers_own env ?peers - set ?removals)" "counters_stay k k1"
  proof -
    have "clash_free (peers_own env ?peers \<union> set ?removals)"
      by (rule clash_free_mono [OF clash_free_peers [OF apart]]) (auto simp: own removals)
    moreover have "slot_fits m key" if "(m, key, v) \<in> set ?removals" for m key v
      using fits [of "(m, key, v)"] that by (auto simp: removals elem_fits_def)
    ultimately show "holds k1 (peers_own env ?peers - set ?removals)" "counters_stay k k1"
      using remove_elements_holds [OF held] unfolding k1_def by blast+
  qed
  have "?fixed \<inter> ?before = {}"
    using fixed_not_moved by (fastforce simp: move_of_def)
  then have total: "peers_own env ?peers - set ?removals \<union> ?adds = peers_own env (moved_peers g n n6 ?peers)"
    unfolding own own' removals by (auto simp: additions_of_def)
  have two: "holds k' (peers_own env (moved_peers g n n6 ?peers)) \<and> counters_stay k1 k' \<and> bt_wf peers'
      \<and> (\<forall>p. bt_get peers' p = map_option (moved_entry g n n6) (bt_get ?peers p))"
  proof -
    have "distinct (map fst ?peers)"
      using bt_wf_distinct [OF wf] by (simp add: bt_keys_def)
    moreover have "\<And>p e. (p, e) \<in> set ?peers \<Longrightarrow> bt_get ?peers p = Some e"
      using bt_get_mem [OF wf] by blast
    moreover have "clash_free (peers_own env ?peers - set ?removals \<union> ?adds)"
      unfolding total by (rule clash_free_peers [OF assms(2)])
    moreover have "\<And>x y. x \<in> set ?peers \<Longrightarrow> y \<in> set (additions_of env g n n6 x) \<Longrightarrow> elem_fits (has_counter k1) y"
      by (rule elem_fits_stays [OF fits one(2)]) (auto simp: additions_of_def)
    ultimately have "let r = (peers', k') in
        holds (snd r) (peers_own env ?peers - set ?removals \<union> ?adds) \<and> counters_stay k1 (snd r)
        \<and> (bt_wf ?peers \<longrightarrow> bt_wf (fst r))
        \<and> (\<forall>p. bt_get (fst r) p = (if p \<in> fst ` set ?peers
             then map_option (moved_entry g n n6) (bt_get ?peers p) else bt_get ?peers p))"
      unfolding Let_def assms(5) [symmetric] move_peers_eq k1_def [symmetric]
      using one(1) by (intro fold_settle) blast+
    moreover have "p \<notin> fst ` set ?peers \<Longrightarrow> bt_get ?peers p = None" for p
      by (simp add: map_of_eq_None_iff)
    ultimately show ?thesis
      using wf by (auto simp: total Let_def)
  qed
  then have same: "map_of peers' = map_of (moved_peers g n n6 ?peers)"
    by (simp add: fun_eq_iff get_moved_peers)
  have "peers_own env peers' = peers_own env (moved_peers g n n6 ?peers)"
    unfolding peers_own_def same ..
  moreover have "apart env peers'"
    using assms(2) unfolding apart_def same .
  moreover have "counters_stay k k'"
    using one(2) two counters_stay_trans by blast
  then have "peers_ok ?peers k'"
    by (rule peers_ok_stays [OF ok])
  ultimately show ?thesis
    using two moved_keys by (auto simp: kernel_mirrors_def peers_ok_def)
qed

subsection \<open>Reading the kernel changes nothing\<close>

lemma read_table_quiet:
  "holds (snd (read_table env (family # ''-j'' # args) parse k)) es = holds k es"
  "counters_stay k' k \<Longrightarrow> counters_stay k' (snd (read_table env (family # ''-j'' # args) parse k))"
  using quiet_run [of "''ip''" "family # ''-j'' # args" k] counters_stay_trans [of k' k]
  by (auto simp: read_table_def case_prod_unfold Let_def)

lemma read_tables_quiet:
  "holds (snd (read_tables env k)) es = holds k es" "counters_stay k (snd (read_tables env k))"
  unfolding read_tables_def Let_def case_prod_unfold
  by (auto simp: read_table_quiet(1) intro!: read_table_quiet(2) split: option.splits)

lemma mirrors_refresh:
  assumes "kernel_mirrors (ip, k)"
    and "\<And>g n n6. fst (read_tables env k) = Some (g, n, n6) \<Longrightarrow> apart env (moved_peers g n n6 (ip_peers ip))"
  shows "kernel_mirrors (ip_refresh env (ip, k))"
proof -
  obtain t k1 where t: "read_tables env k = (t, k1)" by force
  have k1: "kernel_mirrors (ip, k1)"
    using assms(1) read_tables_quiet [of k] peers_ok_stays [of "ip_peers ip" k k1]
    by (simp add: t kernel_mirrors_def)
  show ?thesis
  proof (cases t)
    case None
    then show ?thesis using k1 by (simp add: ip_refresh_def t)
  next
    case (Some gn)
    obtain g n n6 where gn: "gn = (g, n, n6)" by (cases gn) auto
    obtain peers' k' where moved: "move_peers env g n n6 (ip_peers ip, k1) = (peers', k')" by force
    have "apart env (moved_peers g n n6 (ip_peers ip))"
      using assms(2) by (simp add: t Some gn)
    from mirrors_moved [OF k1 this _ _ moved] show ?thesis
      using read_tables_ok [OF t [unfolded Some gn]] by (simp add: ip_refresh_def t Some gn moved)
  qed
qed

lemma mirrors_counters:
  assumes "kernel_mirrors (ip, k)"
    and "\<And>g n n6. fst (read_tables env k) = Some (g, n, n6) \<Longrightarrow> apart env (moved_peers g n n6 (ip_peers ip))"
  shows "kernel_mirrors (snd (ip_counters env now p (ip, k)))"
proof -
  obtain ip' k' where due: "ip_refresh_if_due env now (ip, k) = (ip', k')" by force
  have "kernel_mirrors (ip\<lparr>ip_refreshed := Some now\<rparr>, k)"
    using assms(1) by (simp add: kernel_mirrors_def)
  then have "kernel_mirrors (ip', k')"
    using mirrors_refresh [of "ip\<lparr>ip_refreshed := Some now\<rparr>" k] assms due
    by (auto simp: ip_refresh_if_due_def split: if_splits option.splits)
  then show ?thesis
    using quiet_run [of "''nft''" "[''-j'', ''list'', ''counters'', ''table'', ''inet'', TABLE]" k']
      peers_ok_stays [of "ip_peers ip'" k']
    by (simp add: ip_counters_def due read_counters_def nft_def case_prod_unfold Let_def kernel_mirrors_def
        touches_elements_def)
qed

end

end
