(* ===== verification/Ip_Properties.thy ===== *)
theory Ip_Properties
  imports Ip_Mirror
begin

text \<open>
  The kernel enforcer over a run of what the host asks of it: what the kernel then holds, and what it
  forwards for whom (\<open>crates/tollgate-net/src/enforcer/ip.rs\<close>). The kernel of nftables' documented
  behaviour is the interpretation of \<open>nft_tables\<close>.
\<close>

subsection \<open>A kernel\<close>

record Kernel =
  kn_elems :: "((string \<times> string) \<times> string) list"
  kn_counters :: "string list"
  kn_prints :: "(string list \<times> string) list"

text \<open>The key of an element's text: what stands between the brace and the next space.\<close>

definition text_key :: "string \<Rightarrow> string" where
  "text_key arg = takeWhile (\<lambda>c. c \<noteq> CHR '' '') (drop 2 arg)"

definition kernel_element :: "string \<Rightarrow> string \<Rightarrow> string \<Rightarrow> Kernel \<Rightarrow> string option \<times> Kernel" where
  "kernel_element verb m arg k =
     (let slot = (m, text_key arg)
      in if verb = ''add''
         then (case map_of (kn_elems k) slot of
                 None \<Rightarrow> (Some [], k\<lparr>kn_elems := (slot, arg) # kn_elems k\<rparr>)
               | Some t \<Rightarrow> (if t = arg then Some [] else None, k))
         else (case map_of (kn_elems k) slot of
                 None \<Rightarrow> (None, k)
               | Some _ \<Rightarrow> (Some [], k\<lparr>kn_elems := filter (\<lambda>e. fst e \<noteq> slot) (kn_elems k)\<rparr>)))"

definition kernel_run :: "Kernel \<Rightarrow> string \<Rightarrow> string list \<Rightarrow> string option \<times> Kernel" where
  "kernel_run k program args =
     (if program = ''ip'' then (map_of (kn_prints k) args, k)
      else if program \<noteq> ''nft'' then (Some [], k)
      else if take 2 args = [''delete'', ''table''] then (Some [], k\<lparr>kn_elems := [], kn_counters := []\<rparr>)
      else if take 2 args = [''add'', ''counter''] then (Some [], k\<lparr>kn_counters := last args # kn_counters k\<rparr>)
      else if take 2 args = [''add'', ''element''] then kernel_element ''add'' (args ! 4) (args ! 5) k
      else if take 2 args = [''delete'', ''element''] then kernel_element ''delete'' (args ! 4) (args ! 5) k
      else if take 1 args = [''-j''] then (map_of (kn_prints k) args, k)
      else (Some [], k))"

definition kernel_env :: "(string \<Rightarrow> Json option) \<Rightarrow> (u8 list \<Rightarrow> string) \<Rightarrow> Kernel IpEnv" where
  "kernel_env json hex = \<lparr>ie_run = kernel_run, ie_json = json, ie_hex = hex\<rparr>"

definition kernel_elems :: "Kernel \<Rightarrow> string \<times> string \<Rightarrow> string option" where
  "kernel_elems k = map_of (kn_elems k)"

definition kernel_has :: "Kernel \<Rightarrow> string \<Rightarrow> bool" where
  "kernel_has k c = (c \<in> set (kn_counters k))"

text \<open>No key has a space in it.\<close>

lemma is_digit_not_space: "is_digit base c \<Longrightarrow> base \<le> 36 \<Longrightarrow> c \<noteq> CHR '' ''"
  by (auto simp: is_digit_def digit_value_def Let_def split: if_splits)

lemma show_base_no_space: "2 \<le> base \<Longrightarrow> base \<le> 36 \<Longrightarrow> CHR '' '' \<notin> set (show_base base n)"
  using show_base_digits is_digit_not_space by blast

lemma show_ipv4_no_space: "CHR '' '' \<notin> set (show_ipv4 a)"
  using show_base_no_space by (auto simp: show_ipv4_def split: if_splits)

lemma show_segments_no_space: "CHR '' '' \<notin> set (show_segments segs)"
  by (induction segs rule: show_segments.induct) (auto simp: show_base_no_space)

lemma show_ipv6_no_space: "CHR '' '' \<notin> set (show_ipv6 a)"
  by (auto simp: show_ipv6_def show_ipv4_no_space show_segments_no_space Let_def split: prod.splits)

lemma split_on_chars: "c \<in> set s \<Longrightarrow> c = d \<or> (\<exists>w \<in> set (split_on d s). c \<in> set w)"
  by (induction s) (auto split: list.splits)

lemma mac_no_space: "mac_key key \<Longrightarrow> CHR '' '' \<notin> set key"
proof
  assume "mac_key key" and "CHR '' '' \<in> set key"
  then obtain w where "w \<in> set (split_on (CHR '':'') key)" "CHR '' '' \<in> set w"
    "list_all (\<lambda>o1. length o1 = 2 \<and> list_all (is_digit 16) o1) (split_on (CHR '':'') key)"
    using split_on_chars [of "CHR '' ''" key "CHR '':''"]
    by (auto simp: mac_key_def normalize_mac_def Let_def split: if_splits)
  then have "is_digit 16 (CHR '' '')"
    by (auto simp: list_all_iff)
  then show False
    by (simp add: is_digit_def digit_value_def)
qed

lemma slot_no_space: "slot_fits m key \<Longrightarrow> CHR '' '' \<notin> set key"
  using show_ipv4_no_space show_ipv6_no_space mac_no_space
  by (auto simp: slot_fits_def v4_key_def v6_key_def)

lemma key_span: "CHR '' '' \<notin> set key \<Longrightarrow> takeWhile (\<lambda>c. c \<noteq> CHR '' '') (key @ CHR '' '' # rest) = key"
  by (induction key) auto

lemma elems_cut: "map_of (filter (\<lambda>e. fst e \<noteq> slot) es) = (map_of es)(slot := None)"
  by (induction es) auto

lemma text_key_back: "slot_fits m key \<Longrightarrow> text_key (braced key) = key"
  "slot_fits m key \<Longrightarrow> text_key (element_text key v) = key"
  using slot_no_space [of m key]
  by (auto simp: text_key_def element_text_def braced_def key_span split: ElemValue.splits)

interpretation kernel: nft_tables "kernel_env json hex" kernel_elems kernel_has for json hex
proof unfold_locales
  fix k :: Kernel and m key :: string and v :: ElemValue and t :: string
  let ?env = "kernel_env json hex"
  have add: "nft ?env (add_args m key v) k = kernel_element ''add'' m (element_text key v) k" for k
    by (simp add: nft_def kernel_env_def kernel_run_def add_args_def)
  have delete: "nft ?env (delete_args m key) k = kernel_element ''delete'' m (braced key) k" for k
    by (simp add: nft_def kernel_env_def kernel_run_def delete_args_def)
  show "fst (nft ?env (add_args m key v) k) \<noteq> None
      \<and> kernel_elems (snd (nft ?env (add_args m key v) k)) = (kernel_elems k)((m, key) \<mapsto> element_text key v)"
    if "elem_fits (kernel_has k) (m, key, v)"
      "kernel_elems k (m, key) = None \<or> kernel_elems k (m, key) = Some (element_text key v)"
    using that text_key_back(2) [of m key v]
    by (auto simp: add kernel_element_def kernel_elems_def elem_fits_def fun_upd_idem split: option.splits)
  show "fst (nft ?env (add_args m key v) k) = None
      \<and> kernel_elems (snd (nft ?env (add_args m key v) k)) = kernel_elems k"
    if "elem_fits (kernel_has k) (m, key, v)" "kernel_elems k (m, key) = Some t" "t \<noteq> element_text key v"
    using that text_key_back(2) [of m key v]
    by (auto simp: add kernel_element_def kernel_elems_def elem_fits_def split: option.splits)
  show "fst (nft ?env (delete_args m key) k) \<noteq> None
      \<and> kernel_elems (snd (nft ?env (delete_args m key) k)) = (kernel_elems k)((m, key) := None)"
    if "slot_fits m key" "kernel_elems k (m, key) \<noteq> None"
    using that text_key_back(1) [of m key]
    by (auto simp: delete kernel_element_def kernel_elems_def elems_cut split: option.splits)
  show "fst (nft ?env (delete_args m key) k) = None
      \<and> kernel_elems (snd (nft ?env (delete_args m key) k)) = kernel_elems k"
    if "slot_fits m key" "kernel_elems k (m, key) = None"
    using that text_key_back(1) [of m key]
    by (auto simp: delete kernel_element_def kernel_elems_def split: option.splits)
qed (auto simp: nft_def kernel_env_def kernel_run_def kernel_elems_def kernel_has_def touches_elements_def
    kernel_element_def Let_def split: if_splits option.splits)

subsection \<open>A run\<close>

datatype IpInput =
    IpRegister PubKey IpAddr
  | IpSetAccess PubKey AccessLevel
  | IpSetRate PubKey u64
  | IpSample Millis PubKey
  | IpRemove PubKey

fun ip_step :: "'k IpEnv \<Rightarrow> IpInput \<Rightarrow> Ip \<times> 'k \<Rightarrow> Ip \<times> 'k" where
  "ip_step env (IpRegister p addr) s = ip_register env p addr s"
| "ip_step env (IpSetAccess p access) s = ip_set_access env p access s"
| "ip_step env (IpSetRate p rate) s = ip_set_shaping_rate env p rate s"
| "ip_step env (IpSample now p) s = snd (ip_counters env now p s)"
| "ip_step env (IpRemove p) s = ip_remove env p s"

definition ip_run :: "'k IpEnv \<Rightarrow> IpInput list \<Rightarrow> Ip \<times> 'k \<Rightarrow> Ip \<times> 'k" where
  "ip_run env inputs s = fold (ip_step env) inputs s"

text \<open>
  Peers come from IPv4 addresses of their own, and the neighbour tables never show two of them on
  one MAC or one IPv6 address.
\<close>

fun separate :: "'k IpEnv \<Rightarrow> Ip \<times> 'k \<Rightarrow> IpInput \<Rightarrow> bool" where
  "separate env s (IpRegister p addr) =
     ((\<exists>a. addr = V4 a \<and> length a = 4) \<and> apart env (ip_peers (fst (ip_register env p addr s))))"
| "separate env (ip, k) (IpSample now p) =
     (case fst (read_tables env k) of
        None \<Rightarrow> True
      | Some (g, n, n6) \<Rightarrow> apart env (moved_peers g n n6 (ip_peers ip)))"
| "separate env s _ = True"

fun separate_run :: "'k IpEnv \<Rightarrow> Ip \<times> 'k \<Rightarrow> IpInput list \<Rightarrow> bool" where
  "separate_run env s [] = True"
| "separate_run env s (i # inputs) = (separate env s i \<and> separate_run env (ip_step env i s) inputs)"

context nft_tables
begin

lemma mirrors_step: "kernel_mirrors s \<Longrightarrow> separate env s i \<Longrightarrow> kernel_mirrors (ip_step env i s)"
  by (cases s; cases i)
    (auto intro: mirrors_register mirrors_set_access mirrors_set_shaping_rate mirrors_counters mirrors_remove)

lemma mirrors_run: "kernel_mirrors s \<Longrightarrow> separate_run env s inputs \<Longrightarrow> kernel_mirrors (ip_run env inputs s)"
  by (induction inputs arbitrary: s) (simp_all add: ip_run_def mirrors_step)

lemma run_all_keeps:
  "list_all (\<lambda>(program, args). program \<noteq> ''nft'' \<or> \<not> touches_elements args) cmds \<Longrightarrow>
    elems (snd (run_all env cmds k)) = elems k"
proof (induction cmds arbitrary: k)
  case (Cons c cmds)
  obtain program args where c: "c = (program, args)" by (cases c)
  obtain r k' where run: "ie_run env k program args = (r, k')" by force
  have "elems k' = elems k"
    using others_keep [of program args k] Cons.prems by (simp add: c run)
  then show ?case
    using Cons.IH [of k'] Cons.prems by (cases r) (simp_all add: c run)
qed simp

lemma installs_empty:
  assumes "ip_new env interface k0 = (Some ip, k)"
  shows "kernel_mirrors (ip, k) \<and> ip_next_classid ip = 2 \<and> ip_peers ip = []"
proof -
  let ?k = "nft_quiet env [''delete'', ''table'', ''inet'', TABLE] k0"
  have k: "run_all env (install_commands interface) ?k = (True, k)" and ip: "ip_peers ip = []" "ip_next_classid ip = 2"
    using assms by (auto simp: ip_new_def ip_install_def Let_def split: prod.splits bool.splits)
  have "list_all (\<lambda>(program, args). program \<noteq> ''nft'' \<or> \<not> touches_elements args) (install_commands interface)"
    by (simp add: install_commands_def add_rule_def add_set_def add_map_def touches_elements_def
        ipv6_gate_rules_def counting_rules_def)
  from run_all_keeps [OF this, of ?k] have "elems k = elems ?k"
    by (simp only: k snd_conv)
  also have "\<dots> = (\<lambda>_. None)"
    by (simp add: nft_quiet_def table_deleted)
  finally have "elems k = (\<lambda>_. None)" .
  with ip show ?thesis
    by (simp add: kernel_mirrors_def peers_ok_def apart_def holds_def peers_own_def)
qed

lemma run_holds:
  assumes "ip_new env interface k0 = (Some ip0, k1)" "separate_run env (ip0, k1) inputs"
    and "ip_run env inputs (ip0, k1) = (ip, k)"
  shows "holds k (peers_own env (ip_peers ip))" "clash_free (peers_own env (ip_peers ip))"
    "\<And>p e. bt_get (ip_peers ip) p = Some e \<Longrightarrow> kp_carried e = carried (kp_access e) (kp_rate e)"
  using mirrors_run [OF _ assms(2)] installs_empty [OF assms(1)] clash_free_peers
  by (auto simp: assms(3) kernel_mirrors_def peers_ok_def)

lemma run_exact:
  assumes "ip_new env interface k0 = (Some ip0, k1)" "separate_run env (ip0, k1) inputs"
    and "ip_run env inputs (ip0, k1) = (ip, k)"
  shows "elems k (m, key) = Some t \<longleftrightarrow>
    (\<exists>p e v. bt_get (ip_peers ip) p = Some e \<and> (m, key, v) \<in> own env p e \<and> t = element_text key v)"
  using run_holds(1) [OF assms] unfolding holds_def peers_own_def by blast

text \<open>What a peer's own elements are found under, and what nothing of it is found under.\<close>

lemma run_own:
  assumes "ip_new env interface k0 = (Some ip0, k1)" "separate_run env (ip0, k1) inputs"
    and "ip_run env inputs (ip0, k1) = (ip, k)" "bt_get (ip_peers ip) p = Some e"
    and "(m', key) \<in> claims env p e"
    and "\<And>q f v. (m, key, v) \<in> own env q f \<Longrightarrow> (m', key) \<in> claims env q f"
  shows "(elems k (m, key) \<noteq> None) = (\<exists>v. (m, key, v) \<in> own env p e)"
proof -
  have "kernel_mirrors (ip_run env inputs (ip0, k1))"
    using mirrors_run [OF _ assms(2)] installs_empty [OF assms(1)] by blast
  then have "apart env (ip_peers ip)"
    unfolding assms(3) by (simp add: kernel_mirrors_def peers_ok_def)
  then have "q = p" if "bt_get (ip_peers ip) q = Some f" "(m, key, v) \<in> own env q f" for q f v
    using that assms(4,5) assms(6) [OF that(2)] unfolding apart_def by (metis disjoint_iff)
  then show ?thesis
    using run_exact [OF assms(1-3), of m key] assms(4) by (metis not_None_eq option.inject)
qed

end

lemma own_known: "(''known'', show_ip (kp_addr e), v) \<in> own env p e \<longleftrightarrow> v = ElMember"
  by (rule iffI, drule own_value, simp add: slot_value_def map_names, simp add: own_def)

lemma own_allowed: "(''allowed'', key, v) \<in> own env p e \<longleftrightarrow> v = ElMember \<and> key = show_ip (kp_addr e) \<and> kp_carried e"
proof -
  have "(''allowed'', key, v) \<notin> base_elems env p e" "(''allowed'', key, v) \<notin> set (links env p e on)" for on
    unfolding base_elems_def links_def
    by (auto dest!: map_elements_cases link_elements_cases simp: map_names)
  then show ?thesis
    by (auto simp: own_parts(1) allowed_elems_def)
qed

lemma own_link_names:
  assumes "m \<in> {KNOWN_MAC, ALLOWED_MAC, KNOWN6, ALLOWED6}"
  shows "(m, key, v) \<in> own env p e \<longleftrightarrow> (m, key, v) \<in> set (links env p e (kp_carried e))"
proof -
  have "(m, key, v) \<notin> base_elems env p e" "(m, key, v) \<notin> allowed_elems e on" for on
    using assms unfolding base_elems_def allowed_elems_def
    by (auto dest!: map_elements_cases simp: map_names)
  then show ?thesis
    by (simp add: own_parts(1))
qed

lemma own_link:
  assumes "kp_link e = Some l"
  shows "(ALLOWED_MAC, il_mac l, v) \<in> own env p e \<longleftrightarrow> v = ElMember \<and> kp_carried e \<and> \<not> il_overflowed l"
    "(KNOWN_MAC, il_mac l, v) \<in> own env p e \<longleftrightarrow> v = ElMember"
    "a \<in> set (il_v6 l) \<Longrightarrow> (ALLOWED6, show_ipv6 a, v) \<in> own env p e \<longleftrightarrow> v = ElMember \<and> kp_carried e \<and> \<not> il_overflowed l"
    "a \<in> set (il_v6 l) \<Longrightarrow> (KNOWN6, show_ipv6 a, v) \<in> own env p e \<longleftrightarrow> v = ElMember"
  by (auto simp: own_link_names links_def link_elements_allowed assms)

lemma claims_own: "(m, key, v) \<in> own env p (e\<lparr>kp_carried := True\<rparr>) \<Longrightarrow> (m, key) \<in> claims env p e"
  unfolding claims_def by force

lemma claims_known: "(''known'', show_ip (kp_addr e)) \<in> claims env p e" "(''allowed'', show_ip (kp_addr e)) \<in> claims env p e"
  using own_known [of "e\<lparr>kp_carried := True\<rparr>" ElMember env p] own_allowed [of "show_ip (kp_addr e)" ElMember env p "e\<lparr>kp_carried := True\<rparr>"]
  by (auto intro: claims_own)

lemma link_claims:
  assumes "kp_link e = Some l"
  shows "(KNOWN_MAC, il_mac l) \<in> claims env p e"
    "a \<in> set (il_v6 l) \<Longrightarrow> (KNOWN6, show_ipv6 a) \<in> claims env p e"
  using own_link [OF assms] own_claims by metis+

lemma allowed_known:
  "(ALLOWED_MAC, key, v) \<in> own env q f \<Longrightarrow> (KNOWN_MAC, key) \<in> claims env q f"
  "(ALLOWED6, key, v) \<in> own env q f \<Longrightarrow> (KNOWN6, key) \<in> claims env q f"
  by (rule own_claims [where v = ElMember],
      auto simp: own_link_names links_def link_elements_allowed)+

subsection \<open>What the kernel does for whom\<close>

text \<open>C14: on a kernel that does what nftables documents, after any run of what the host asks of the
  enforcer, peers coming and going, paying and not, and moving between the ways of being counted as
  routes and neighbours change, the kernel's maps and sets hold exactly what the peers' state says
  and nothing else: every element of every peer, and none left behind by one that is gone.\<close>

theorem kernel_holds_exactly:
  assumes "nft_tables env elems has_counter"
    and "ip_new env interface k0 = (Some ip0, k1)" "separate_run env (ip0, k1) inputs"
    and "ip_run env inputs (ip0, k1) = (ip, k)"
  shows "elems k (m, key) = Some t \<longleftrightarrow>
    (\<exists>p e v. bt_get (ip_peers ip) p = Some e \<and> (m, key, v) \<in> own env p e \<and> t = element_text key v)"
  by (rule nft_tables.run_exact [OF assms])

text \<open>C13: after any such run a peer the enforcer has is known to the kernel by its address, and allowed
  exactly when the level and the rate core last gave it say it is carried; the MAC and the IPv6
  addresses tied to it are known too, and allowed exactly when it is carried and has no more
  addresses than it may, so that its IPv6 opens and closes with its IPv4.\<close>

theorem kernel_gate_follows_core:
  assumes "nft_tables env elems has_counter"
    and "ip_new env interface k0 = (Some ip0, k1)" "separate_run env (ip0, k1) inputs"
    and "ip_run env inputs (ip0, k1) = (ip, k)" "bt_get (ip_peers ip) p = Some e"
  shows "elems k (''known'', show_ip (kp_addr e)) \<noteq> None
    \<and> (elems k (''allowed'', show_ip (kp_addr e)) \<noteq> None) = carried (kp_access e) (kp_rate e)
    \<and> (\<forall>l. kp_link e = Some l \<longrightarrow>
         elems k (KNOWN_MAC, il_mac l) \<noteq> None
         \<and> (elems k (ALLOWED_MAC, il_mac l) \<noteq> None) =
             (carried (kp_access e) (kp_rate e) \<and> \<not> il_overflowed l)
         \<and> (\<forall>a \<in> set (il_v6 l). elems k (KNOWN6, show_ipv6 a) \<noteq> None
             \<and> (elems k (ALLOWED6, show_ipv6 a) \<noteq> None) =
                 (carried (kp_access e) (kp_rate e) \<and> \<not> il_overflowed l)))"
proof -
  have carried: "kp_carried e = carried (kp_access e) (kp_rate e)"
    by (rule nft_tables.run_holds(3) [OF assms])
  note here = nft_tables.run_own [OF assms]
  have address: "elems k (''known'', show_ip (kp_addr e)) \<noteq> None"
    "(elems k (''allowed'', show_ip (kp_addr e)) \<noteq> None) = carried (kp_access e) (kp_rate e)"
    using here [where m = "''known''", OF claims_known(1) own_claims]
      here [where m = "''allowed''", OF claims_known(2) own_claims]
    by (simp_all add: own_known own_allowed carried)
  have link: "elems k (KNOWN_MAC, il_mac l) \<noteq> None
      \<and> (elems k (ALLOWED_MAC, il_mac l) \<noteq> None) = (carried (kp_access e) (kp_rate e) \<and> \<not> il_overflowed l)
      \<and> (\<forall>a \<in> set (il_v6 l). elems k (KNOWN6, show_ipv6 a) \<noteq> None
          \<and> (elems k (ALLOWED6, show_ipv6 a) \<noteq> None) = (carried (kp_access e) (kp_rate e) \<and> \<not> il_overflowed l))"
    if "kp_link e = Some l" for l
    using here [where m = KNOWN_MAC, OF link_claims(1) [OF that] own_claims]
      here [where m = ALLOWED_MAC, OF link_claims(1) [OF that] allowed_known(1)]
      here [where m = KNOWN6, OF link_claims(2) [OF that] own_claims]
      here [where m = ALLOWED6, OF link_claims(2) [OF that] allowed_known(2)]
    by (simp add: own_link [OF that] carried)
  show ?thesis
    using address link by blast
qed

subsection \<open>Numbers printed\<close>

text \<open>Printing by integers, which evaluates for a 32-bit mark.\<close>

definition show_int :: "int \<Rightarrow> int \<Rightarrow> string" where
  "show_int base n = show_base (nat base) (nat n)"

lemma show_int_code [code]:
  "show_int base n = (if base < 2 \<or> n < base then [digit_char (nat n)]
     else show_int base (n div base) @ [digit_char (nat (n mod base))])"
proof (cases "base < 2 \<or> n < base")
  case True
  then show ?thesis
    unfolding show_int_def by (subst show_base.simps) auto
next
  case False
  then have "\<not> (nat n < nat base \<or> nat base < 2)"
    by auto
  then have "show_base (nat base) (nat n) = show_base (nat base) (nat n div nat base) @ [digit_char (nat n mod nat base)]"
    by (subst show_base.simps) simp
  with False show ?thesis
    by (simp add: show_int_def nat_div_distrib nat_mod_distrib)
qed

lemma show_base_unat: "show_base base (unat w) = show_int (int base) (uint w)"
  by (simp add: show_int_def)

lemma show_mark_code [code]: "show_mark mark = ''0x'' @ show_int 16 (uint mark)"
  by (simp add: show_mark_def show_base_unat)

lemma show_class_code [code]: "show_class classid = ''1:'' @ show_int 10 (uint classid)"
  by (simp add: show_class_def show_base_unat)

lemma rate_args_code [code]:
  "rate_args rate =
     (let bits = max (sat_mul rate 8) 8; burst = sat_mul rate CLASS_BURST_MS div 1000
      in [''rate'', show_int 10 (uint bits) @ ''bit'', ''burst'', show_int 10 (uint (max burst 1600)) @ ''b''])"
  by (simp add: rate_args_def show_base_unat)

definition read_group :: "string \<Rightarrow> (nat \<times> string) option" where
  "read_group = read_number 16 (Some 4) True 65535"

lemma read_group_code [code]:
  "read_group s =
     (let ds = takeWhile (is_digit 16) s; n = digits_value 16 ds
      in if ds = [] \<or> length ds > 4 \<or> int n > 65535 then None
         else Some (n, dropWhile (is_digit 16) s))"
  by (simp add: read_group_def read_number_def Let_def)

lemma read_groups_code [code]:
  "read_groups limit i s =
     (if i \<ge> limit then (([], False), s)
      else case (if Suc i < limit then Option.bind (after_colon i s) read_ipv4 else None) of
        Some (v4, rest) \<Rightarrow> ((v4, True), rest)
      | None \<Rightarrow>
          (case Option.bind (after_colon i s) read_group of
             None \<Rightarrow> (([], False), s)
           | Some (g, rest) \<Rightarrow>
               (case read_groups limit (Suc i) rest of
                  ((bs, v4), rest') \<Rightarrow> ((segment_bytes g @ bs, v4), rest'))))"
  unfolding read_group_def by (rule read_groups.simps)

lemma mark_of_code [code]: "mark_of classid = word_of_int (uint MARK_BASE OR uint classid)"
  by (simp add: mark_of_def of_int_or_eq)

subsection \<open>Two peers on one MAC\<close>

text \<open>
  A device with two addresses and two keys: the neighbour tables show both addresses on its MAC, and
  its one IPv6 address on it too.
\<close>

definition shared_mac :: string where
  "shared_mac = ''aa:bb:cc:dd:ee:ff''"

definition peer_a :: PubKey where
  "peer_a = PubKey [1]"

definition peer_b :: PubKey where
  "peer_b = PubKey [2]"

definition shared_json :: "string \<Rightarrow> Json option" where
  "shared_json s =
     (if s = ''route'' then Some (JArray [])
      else if s = ''4'' then Some (JArray
        [JObject [(''dst'', JString ''10.0.0.1''), (''lladdr'', JString shared_mac)],
         JObject [(''dst'', JString ''10.0.0.2''), (''lladdr'', JString shared_mac)]])
      else if s = ''6'' then Some (JArray
        [JObject [(''dst'', JString ''2::1''), (''lladdr'', JString shared_mac)]])
      else None)"

definition shared_env :: "Kernel IpEnv" where
  "shared_env = kernel_env shared_json (\<lambda>bs. if bs = [1] then ''1'' else ''2'')"

definition shared_kernel :: Kernel where
  "shared_kernel = \<lparr>kn_elems = [], kn_counters = [],
     kn_prints =
       [([''-4'', ''-j'', ''route'', ''show'', ''table'', ''all''], ''route''),
        ([''-4'', ''-j'', ''neigh'', ''show''], ''4''), ([''-6'', ''-j'', ''neigh'', ''show''], ''6'')]\<rparr>"

definition shared_inputs :: "IpInput list" where
  "shared_inputs =
     [IpRegister peer_a (V4 [10, 0, 0, 1]), IpRegister peer_b (V4 [10, 0, 0, 2]),
      IpSetAccess peer_b AccessActive, IpSetRate peer_b 1000, IpSample 0 peer_a,
      IpSetRate peer_b 0]"

definition shared_start :: Ip where
  "shared_start = \<lparr>ip_interface = ''eth0'', ip_peers = [], ip_next_classid = 2, ip_refreshed = None\<rparr>"

text \<open>a move that fails leaves open what it opened: where a device registers two addresses with two
  keys, the second peer's counter for their MAC is refused as taken, so its link is not recorded, but
  the MAC and the address went into the allowed sets first; once it stops paying, neither peer is
  carried and nothing takes them out, so the device's IPv6 is forwarded for nothing.\<close>

lemma failed_move_opens_gate:
  "let (ip, k) = ip_run shared_env shared_inputs (shared_start, shared_kernel)
   in bt_keys (ip_peers ip) = [peer_a, peer_b] \<and> list_all (\<lambda>(_, e). \<not> kp_carried e) (ip_peers ip)
      \<and> kernel_elems k (ALLOWED_MAC, shared_mac) \<noteq> None \<and> kernel_elems k (ALLOWED6, ''2::1'') \<noteq> None"
  by code_simp

subsection \<open>Classes run out\<close>

definition nth_peer :: "nat \<Rightarrow> PubKey" where
  "nth_peer i = PubKey [of_nat (i div 256), of_nat (i mod 256)]"

definition nth_addr :: "nat \<Rightarrow> IpAddr" where
  "nth_addr i = V4 [10, 0, of_nat (i div 256), of_nat (i mod 256)]"

definition register_many :: "'k IpEnv \<Rightarrow> nat \<Rightarrow> Ip \<times> 'k \<Rightarrow> Ip \<times> 'k" where
  "register_many env n s = fold (\<lambda>i. ip_register env (nth_peer i) (nth_addr i)) [0..<n] s"

lemma nth_peer_inj: "i < 65536 \<Longrightarrow> j < 65536 \<Longrightarrow> nth_peer i = nth_peer j \<Longrightarrow> i = j"
proof -
  assume "i < 65536" "j < 65536" "nth_peer i = nth_peer j"
  then have "i div 256 < 256" "j div 256 < 256"
    "(of_nat (i div 256) :: u8) = of_nat (j div 256)" "(of_nat (i mod 256) :: u8) = of_nat (j mod 256)"
    by (simp_all add: nth_peer_def less_mult_imp_div_less)
  then have "unat (of_nat (i div 256) :: u8) = unat (of_nat (j div 256) :: u8)"
    "unat (of_nat (i mod 256) :: u8) = unat (of_nat (j mod 256) :: u8)"
    by simp_all
  then have "i div 256 = j div 256" "i mod 256 = j mod 256"
    using \<open>i div 256 < 256\<close> \<open>j div 256 < 256\<close> by (simp_all add: unat_of_nat take_bit_nat_eq_self)
  then show "i = j"
    by (metis mult_div_mod_eq)
qed

lemma register_fresh:
  assumes "bt_get (ip_peers ip) p = None"
  shows "ip_peers (fst (ip_register env p addr (ip, k))) = bt_insert p
      \<lparr>kp_addr = addr, kp_classid = ip_next_classid ip, kp_access = AccessNone, kp_rate = 0,
       kp_carried = False, kp_metering = MeterAddr, kp_link = None\<rparr> (ip_peers ip)"
    "ip_next_classid (fst (ip_register env p addr (ip, k))) =
      (if ip_next_classid ip = - 1 then - 1 else ip_next_classid ip + 1)"
  using assms by (simp_all add: ip_register_def case_prod_unfold Let_def)

lemma small_not_max: "m < 65535 \<Longrightarrow> (of_nat m :: u16) \<noteq> - 1"
proof
  assume "m < 65535" "(of_nat m :: u16) = - 1"
  from this(2) have "unat (of_nat m :: u16) = unat (- 1 :: u16)" by (rule arg_cong)
  moreover have "unat (- 1 :: u16) = 65535"
    by (simp add: unsigned_minus_1_eq_mask mask_eq_exp_minus_1)
  ultimately show False
    using \<open>m < 65535\<close> by (simp add: unat_of_nat take_bit_nat_eq_self)
qed

lemma register_many_classes:
  assumes "n \<le> 60000" "ip_next_classid (fst s) = 2" "ip_peers (fst s) = []"
  shows "ip_next_classid (fst (register_many env n s)) = of_nat (n + 2)
    \<and> (\<forall>i < 65536. map_option kp_classid (bt_get (ip_peers (fst (register_many env n s))) (nth_peer i)) =
         (if i < n then Some (of_nat (i + 2)) else None))"
  using assms(1)
proof (induction n)
  case 0
  then show ?case using assms(2,3) by (simp add: register_many_def)
next
  case (Suc n)
  let ?s = "register_many env n s"
  have IH: "ip_next_classid (fst ?s) = of_nat (n + 2)"
    "\<And>i. i < 65536 \<Longrightarrow> map_option kp_classid (bt_get (ip_peers (fst ?s)) (nth_peer i)) =
       (if i < n then Some (of_nat (i + 2)) else None)"
    using Suc by simp_all
  have fresh: "bt_get (ip_peers (fst ?s)) (nth_peer n) = None"
    using IH(2) [of n] Suc.prems by simp
  have step: "register_many env (Suc n) s = ip_register env (nth_peer n) (nth_addr n) (fst ?s, snd ?s)"
    by (simp add: register_many_def)
  have "(of_nat (n + 2) :: u16) \<noteq> - 1"
    using small_not_max [of "n + 2"] Suc.prems by simp
  then have "ip_next_classid (fst (register_many env (Suc n) s)) = of_nat (Suc n + 2)"
    unfolding step register_fresh(2) [OF fresh] IH(1) by simp
  moreover have "map_option kp_classid (bt_get (ip_peers (fst (register_many env (Suc n) s))) (nth_peer i)) =
      (if i < Suc n then Some (of_nat (i + 2)) else None)" if "i < 65536" for i
  proof (cases "i = n")
    case True
    then show ?thesis
      unfolding step register_fresh(1) [OF fresh] IH(1) by simp
  next
    case False
    then have "nth_peer i \<noteq> nth_peer n"
      using nth_peer_inj [of i n] that Suc.prems by auto
    then show ?thesis
      unfolding step register_fresh(1) [OF fresh] using IH(2) [OF that] False by (simp add: less_Suc_eq)
  qed
  ultimately show ?case by blast
qed

text \<open>the default class, where the node's own traffic goes and which is meant never to be created, is
  created for the 9998th peer registered: its class is \<open>1:9999\<close>, the one the root qdisc was given as its
  default, so everything unclassified is then shaped to that peer's rate.\<close>

lemma default_class_is_taken:
  "map_option (\<lambda>e. show_class (kp_classid e)) (bt_get (ip_peers (fst (register_many env 9998
      (\<lparr>ip_interface = interface, ip_peers = [], ip_next_classid = 2, ip_refreshed = None\<rparr>, k))))
      (nth_peer 9997)) = Some (''1:'' @ last (snd (last (install_commands interface))))"
proof -
  let ?s = "(\<lparr>ip_interface = interface, ip_peers = [], ip_next_classid = 2, ip_refreshed = None\<rparr>, k)"
  have "map_option kp_classid (bt_get (ip_peers (fst (register_many env 9998 ?s))) (nth_peer 9997)) = Some 9999"
    using register_many_classes [of 9998 ?s env, THEN conjunct2, rule_format, of 9997] by simp
  moreover have "show_class 9999 = ''1:9999''"
    by (simp add: show_class_def show_base.simps digit_char_def) code_simp
  ultimately have "map_option (\<lambda>e. show_class (kp_classid e))
      (bt_get (ip_peers (fst (register_many env 9998 ?s))) (nth_peer 9997)) = Some ''1:9999''"
    by (auto simp del: One_nat_def)
  moreover have "last (snd (last (install_commands interface))) = ''9999''"
    by (simp add: install_commands_def)
  ultimately show ?thesis
    by simp
qed

subsection \<open>Concrete runs\<close>

lemma run_all_kernel:
  "list_all (\<lambda>(program, args). program \<noteq> ''ip'' \<and> \<not> touches_elements args \<and> take 1 args \<noteq> [''-j'']) cmds \<Longrightarrow>
    fst (run_all (kernel_env json hex) cmds k)"
proof (induction cmds arbitrary: k)
  case (Cons c cmds)
  obtain program args where c: "c = (program, args)" by (cases c)
  have "fst (kernel_run k program args) \<noteq> None"
    using Cons.prems by (auto simp: c kernel_run_def touches_elements_def)
  then obtain out k' where "kernel_run k program args = (Some out, k')"
    by (metis option.collapse prod.collapse)
  then show ?case
    using Cons.IH [of k'] Cons.prems by (simp add: c kernel_env_def)
qed simp

lemma kernel_installs:
  "\<exists>k'. ip_new (kernel_env json hex) ''eth0'' k = (Some shared_start, k')"
proof -
  have "list_all (\<lambda>(program, args). program \<noteq> ''ip'' \<and> \<not> touches_elements args \<and> take 1 args \<noteq> [''-j''])
      (install_commands ''eth0'')"
    by (simp add: install_commands_def add_rule_def add_set_def add_map_def touches_elements_def
        ipv6_gate_rules_def counting_rules_def)
  from run_all_kernel [OF this, of json hex] have whole: "fst (ip_install (kernel_env json hex) ''eth0'' k)"
    by (simp add: ip_install_def)
  obtain b k' where ran: "ip_install (kernel_env json hex) ''eth0'' k = (b, k')"
    by (cases "ip_install (kernel_env json hex) ''eth0'' k")
  with whole show ?thesis
    by (simp add: ip_new_def shared_start_def)
qed

definition ex_ip_inputs :: "IpInput list" where
  "ex_ip_inputs = [IpRegister peer_a (V4 [10, 0, 0, 1]), IpSetAccess peer_a AccessActive, IpSetRate peer_a 1000]"

lemma gate_sel [simp]:
  "kp_addr (fst (gate env p e k)) = kp_addr e" "kp_access (fst (gate env p e k)) = kp_access e"
  "kp_rate (fst (gate env p e k)) = kp_rate e"
  by (simp_all add: gate_def case_prod_unfold Let_def split: option.splits)

lemma set_access_get:
  assumes "bt_get (ip_peers ip) p = Some e"
  obtains e' where "bt_get (ip_peers (fst (ip_set_access env p a (ip, k)))) p = Some e'"
    "kp_addr e' = kp_addr e" "kp_access e' = a" "kp_rate e' = kp_rate e"
  using assms that by (simp add: ip_set_access_def case_prod_unfold Let_def)

lemma set_rate_get:
  assumes "bt_get (ip_peers ip) p = Some e"
  obtains e' where "bt_get (ip_peers (fst (ip_set_shaping_rate env p r (ip, k)))) p = Some e'"
    "kp_addr e' = kp_addr e" "kp_access e' = kp_access e" "kp_rate e' = r"
  using assms that by (simp add: ip_set_shaping_rate_def case_prod_unfold Let_def)

lemma ex_ip_run:
  "\<exists>e. bt_get (ip_peers (fst (ip_run env ex_ip_inputs (shared_start, k)))) peer_a = Some e
     \<and> kp_addr e = V4 [10, 0, 0, 1] \<and> kp_access e = AccessActive \<and> kp_rate e = 1000"
proof -
  define s1 where "s1 = ip_register env peer_a (V4 [10, 0, 0, 1]) (shared_start, k)"
  define s2 where "s2 = ip_set_access env peer_a AccessActive s1"
  have run: "ip_run env ex_ip_inputs (shared_start, k) = ip_set_shaping_rate env peer_a 1000 s2"
    by (simp add: ip_run_def ex_ip_inputs_def s1_def s2_def)
  have "bt_get (ip_peers shared_start) peer_a = None"
    by (simp add: shared_start_def)
  from register_fresh(1) [OF this, of env "V4 [10, 0, 0, 1]" k]
  obtain e1 where e1: "bt_get (ip_peers (fst s1)) peer_a = Some e1" "kp_addr e1 = V4 [10, 0, 0, 1]"
    by (simp add: s1_def)
  obtain e2 where e2: "bt_get (ip_peers (fst s2)) peer_a = Some e2" "kp_addr e2 = V4 [10, 0, 0, 1]"
    "kp_access e2 = AccessActive"
    using set_access_get [OF e1(1), of env AccessActive "snd s1"] e1(2) by (auto simp: s2_def)
  show ?thesis
    unfolding run using set_rate_get [OF e2(1), of env 1000 "snd s2"] e2(2,3) by auto
qed

lemma ex_separate: "separate_run env (shared_start, k) ex_ip_inputs"
proof -
  have "apart env [(p, e)]" for p e
    by (simp add: apart_def)
  then show ?thesis
    by (simp add: ex_ip_inputs_def shared_start_def ip_register_def case_prod_unfold Let_def)
qed

lemma ex_kernel:
  obtains k0 k1 ip k e where "ip_new (kernel_env json hex) ''eth0'' k0 = (Some shared_start, k1)"
    "separate_run (kernel_env json hex) (shared_start, k1) ex_ip_inputs"
    "ip_run (kernel_env json hex) ex_ip_inputs (shared_start, k1) = (ip, k)"
    "bt_get (ip_peers ip) peer_a = Some e" "kp_addr e = V4 [10, 0, 0, 1]"
    "carried (kp_access e) (kp_rate e)"
proof -
  obtain k1 where new: "ip_new (kernel_env json hex) ''eth0'' shared_kernel = (Some shared_start, k1)"
    using kernel_installs by blast
  obtain ip k where run: "ip_run (kernel_env json hex) ex_ip_inputs (shared_start, k1) = (ip, k)"
    by (cases "ip_run (kernel_env json hex) ex_ip_inputs (shared_start, k1)")
  obtain e where e: "bt_get (ip_peers ip) peer_a = Some e" "kp_addr e = V4 [10, 0, 0, 1]" "kp_rate e = 1000"
    using ex_ip_run [of "kernel_env json hex" k1] by (auto simp: run)
  have "carried (kp_access e) (kp_rate e)"
    by (simp add: carried_def e(3))
  with new ex_separate run e(1,2) show thesis
    by (rule that)
qed

lemma ten_text: "show_ip (V4 [10, 0, 0, 1]) = ''10.0.0.1''"
  by code_simp

theorem kernel_gate_follows_core_witness:
  "\<exists>k. kernel_elems k (''known'', ''10.0.0.1'') \<noteq> None \<and> kernel_elems k (''allowed'', ''10.0.0.1'') \<noteq> None"
proof -
  obtain k0 k1 ip k e where run: "ip_new (kernel_env Map.empty (\<lambda>_. [])) ''eth0'' k0 = (Some shared_start, k1)"
    "separate_run (kernel_env Map.empty (\<lambda>_. [])) (shared_start, k1) ex_ip_inputs"
    "ip_run (kernel_env Map.empty (\<lambda>_. [])) ex_ip_inputs (shared_start, k1) = (ip, k)"
    and e: "bt_get (ip_peers ip) peer_a = Some e" "kp_addr e = V4 [10, 0, 0, 1]"
      "carried (kp_access e) (kp_rate e)"
    by (rule ex_kernel)
  from kernel_gate_follows_core [OF kernel.nft_tables_axioms run e(1)] show ?thesis
    unfolding e(2) ten_text using e(3) by blast
qed

theorem kernel_holds_exactly_witness:
  "\<exists>k. kernel_elems k (''known'', ''10.0.0.1'') = Some ''{ 10.0.0.1 }''"
proof -
  obtain k0 k1 ip k e where run: "ip_new (kernel_env Map.empty (\<lambda>_. [])) ''eth0'' k0 = (Some shared_start, k1)"
    "separate_run (kernel_env Map.empty (\<lambda>_. [])) (shared_start, k1) ex_ip_inputs"
    "ip_run (kernel_env Map.empty (\<lambda>_. [])) ex_ip_inputs (shared_start, k1) = (ip, k)"
    and e: "bt_get (ip_peers ip) peer_a = Some e" "kp_addr e = V4 [10, 0, 0, 1]"
      "carried (kp_access e) (kp_rate e)"
    by (rule ex_kernel)
  have "(''known'', ''10.0.0.1'', ElMember) \<in> own (kernel_env Map.empty (\<lambda>_. [])) peer_a e"
    using own_known [of e ElMember "kernel_env Map.empty (\<lambda>_. [])" peer_a] unfolding e(2) ten_text by simp
  moreover have "element_text ''10.0.0.1'' ElMember = ''{ 10.0.0.1 }''"
    by (simp add: element_text_def braced_def)
  ultimately show ?thesis
    using kernel_holds_exactly [OF kernel.nft_tables_axioms run] e(1) by metis
qed

end
