(* ===== verification/Enforcer_Fips.thy ===== *)
theory Enforcer_Fips
  imports Kernel_Tables Instance Clock
begin

text \<open>
  The enforcer that sets policy on a FIPS mesh (\<open>crates/tollgate-net/src/enforcer/fips.rs\<close>), with the
  names FIPS knows a key by (\<open>crates/tollgate-net/src/fips.rs\<close>). The FIPS node behind the control
  socket is a state of its own: \<open>fe_ask\<close> is one connection, one line out and one line back, or
  nothing if the socket failed. \<open>fe_json\<close>, \<open>fe_bech32\<close>, \<open>fe_hex\<close> and \<open>fe_sha256\<close> stand for the
  libraries' operations; a policy is passed as the JSON value it is. Instants are the node's
  milliseconds, and the hash map is listed in key order.
\<close>

subsection \<open>State\<close>

record 'k FipsEnv =
  fe_ask :: "'k \<Rightarrow> Json \<Rightarrow> string option \<times> 'k"
  fe_json :: "string \<Rightarrow> Json option"
  fe_bech32 :: "string \<Rightarrow> u8 list \<Rightarrow> string"
  fe_hex :: "u8 list \<Rightarrow> string"
  fe_sha256 :: "u8 list \<Rightarrow> u8 list"

record FipsPeer =
  fp_npub :: string
  fp_node_addr :: string
  fp_access :: AccessLevel
  fp_rate :: u64
  fp_demand :: u64
  fp_counters :: Counters

record Fips =
  fs_peers :: "(PubKey, FipsPeer) btreemap"
  fs_last_refresh :: "Millis option"

definition COUNTER_TTL_MS :: u64 where
  "COUNTER_TTL_MS = 200"

definition fips_names :: "'k FipsEnv \<Rightarrow> PubKey \<Rightarrow> string \<times> string" where
  "fips_names env peer =
     (let x_only = drop 1 (pubkey_bytes peer)
      in (fe_bech32 env ''npub'' x_only, fe_hex env (take 16 (fe_sha256 env x_only))))"

definition fips_default_socket_path :: "Host \<Rightarrow> string" where
  "fips_default_socket_path h =
     (if h_is_dir h ''/run/fips'' then ''/run/fips/control.sock''
      else case h_xdg_runtime h of
        Some xdg \<Rightarrow> if h_is_dir h xdg then xdg @ ''/fips/control.sock'' else ''/tmp/fips-control.sock''
      | None \<Rightarrow> ''/tmp/fips-control.sock'')"

definition fips_running :: "Host \<Rightarrow> bool" where
  "fips_running h = (h_exists h ''/sys/class/net/fips0'' \<or> h_exists h (fips_default_socket_path h))"

subsection \<open>Requests\<close>

text \<open>Indexing a JSON value: what is not there is null.\<close>

definition json_index :: "string \<Rightarrow> Json \<Rightarrow> Json" where
  "json_index key v = (case json_get key v of Some x \<Rightarrow> x | None \<Rightarrow> JNull)"

definition fips_request :: "'k FipsEnv \<Rightarrow> string \<Rightarrow> Json \<Rightarrow> 'k \<Rightarrow> Json option \<times> 'k" where
  "fips_request env command params k =
     (case fe_ask env k (JObject [(''command'', JString command), (''params'', params)]) of
        (None, k) \<Rightarrow> (None, k)
      | (Some line, k) \<Rightarrow>
          (case fe_json env line of
             None \<Rightarrow> (None, k)
           | Some response \<Rightarrow>
               if json_index ''status'' response \<noteq> JString ''ok'' then (None, k)
               else (Some (json_index ''data'' response), k)))"

definition rate_for_fips :: "u64 \<Rightarrow> Json" where
  "rate_for_fips rate = (if rate = - 1 then JNull else JInt (uint rate))"

definition policy_params :: "string \<Rightarrow> bool \<Rightarrow> Json \<Rightarrow> Json" where
  "policy_params npub admitted rate =
     JObject [(''npub'', JString npub), (''admitted'', JBool admitted), (''rate_bytes_per_sec'', rate)]"

definition fips_policy :: "FipsPeer \<Rightarrow> Json" where
  "fips_policy peer = policy_params (fp_npub peer) (carried (fp_access peer) (fp_rate peer)) (rate_for_fips (fp_rate peer))"

definition default_params :: "u64 \<Rightarrow> Json" where
  "default_params minimum_flow =
     JObject [(''admitted'', JBool (carried AccessNone minimum_flow)),
              (''rate_bytes_per_sec'', JInt (uint minimum_flow))]"

definition clear_params :: "string \<Rightarrow> Json" where
  "clear_params npub = JObject [(''npub'', JString npub)]"

definition fips_new :: "'k FipsEnv \<Rightarrow> u64 \<Rightarrow> 'k \<Rightarrow> Fips option \<times> 'k" where
  "fips_new env minimum_flow k =
     (case fips_request env ''show_transit_policy'' (JObject []) k of
        (None, k) \<Rightarrow> (None, k)
      | (Some _, k) \<Rightarrow>
          (case fips_request env ''set_default_transit_policy'' (default_params minimum_flow) k of
             (None, k) \<Rightarrow> (None, k)
           | (Some _, k) \<Rightarrow> (Some \<lparr>fs_peers = [], fs_last_refresh = None\<rparr>, k)))"

definition fips_apply :: "'k FipsEnv \<Rightarrow> FipsPeer \<Rightarrow> 'k \<Rightarrow> 'k" where
  "fips_apply env peer k = snd (fips_request env ''set_transit_policy'' (fips_policy peer) k)"

subsection \<open>Counters\<close>

definition u64_or_0 :: "Json \<Rightarrow> u64" where
  "u64_or_0 v = (case json_u64 v of Some n \<Rightarrow> n | None \<Rightarrow> 0)"

definition transit_entry :: "Json \<Rightarrow> (string \<times> Counters) option" where
  "transit_entry entry =
     map_option (\<lambda>addr. (addr, \<lparr>to_payer = u64_or_0 (json_index ''forwarded_bytes'' entry),
                              from_payer = u64_or_0 (json_index ''received_bytes'' entry)\<rparr>))
       (json_str (json_index ''node_addr'' entry))"

definition transit_counters :: "Json \<Rightarrow> (string \<times> Counters) list" where
  "transit_counters data = List.map_filter transit_entry (json_items (Some (json_index ''peers'' data)))"

text \<open>A later entry for one address replaces an earlier one; a peer that is not reported keeps its reading.\<close>

definition fips_refresh_counters :: "'k FipsEnv \<Rightarrow> Millis \<Rightarrow> Fips \<times> 'k \<Rightarrow> Fips \<times> 'k" where
  "fips_refresh_counters env now = (\<lambda>(fips, k).
     if (case fs_last_refresh fips of Some t \<Rightarrow> saturating_since now t < COUNTER_TTL_MS | None \<Rightarrow> False)
     then (fips, k)
     else case fips_request env ''show_transit_policy'' (JObject []) k of
       (None, k) \<Rightarrow> (fips, k)
     | (Some data, k) \<Rightarrow>
         let by_addr = map_of (rev (transit_counters data))
         in (\<lparr>fs_peers = map (\<lambda>(p, peer).
                 (p, case by_addr (fp_node_addr peer) of
                       Some c \<Rightarrow> peer\<lparr>fp_counters := c\<rparr> | None \<Rightarrow> peer)) (fs_peers fips),
              fs_last_refresh = Some now\<rparr>, k))"

subsection \<open>The trait's operations\<close>

definition fips_register :: "'k FipsEnv \<Rightarrow> PubKey \<Rightarrow> IpAddr \<Rightarrow> Fips \<times> 'k \<Rightarrow> Fips \<times> 'k" where
  "fips_register env peer addr = (\<lambda>(fips, k).
     if bt_get (fs_peers fips) peer \<noteq> None then (fips, k)
     else let (npub, node_addr) = fips_names env peer
          in (fips\<lparr>fs_peers := bt_insert peer
                \<lparr>fp_npub = npub, fp_node_addr = node_addr, fp_access = AccessNone, fp_rate = 0,
                 fp_demand = 0, fp_counters = counters_zero\<rparr> (fs_peers fips)\<rparr>, k))"

definition fips_set_access :: "'k FipsEnv \<Rightarrow> PubKey \<Rightarrow> AccessLevel \<Rightarrow> Fips \<times> 'k \<Rightarrow> Fips \<times> 'k" where
  "fips_set_access env peer access = (\<lambda>(fips, k).
     case bt_get (fs_peers fips) peer of
       None \<Rightarrow> (fips, k)
     | Some entry \<Rightarrow>
         let updated = entry\<lparr>fp_access := access\<rparr>;
             fips = fips\<lparr>fs_peers := bt_insert peer updated (fs_peers fips)\<rparr>
         in if carried (fp_access entry) (fp_rate entry) = carried access (fp_rate entry) then (fips, k)
            else (fips, fips_apply env updated k))"

definition fips_set_shaping_rate :: "'k FipsEnv \<Rightarrow> PubKey \<Rightarrow> u64 \<Rightarrow> Fips \<times> 'k \<Rightarrow> Fips \<times> 'k" where
  "fips_set_shaping_rate env peer rate = (\<lambda>(fips, k).
     case bt_get (fs_peers fips) peer of
       None \<Rightarrow> (fips, k)
     | Some entry \<Rightarrow>
         if fp_rate entry = rate then (fips, k)
         else let updated = entry\<lparr>fp_rate := rate\<rparr>
              in (fips\<lparr>fs_peers := bt_insert peer updated (fs_peers fips)\<rparr>, fips_apply env updated k))"

definition fips_counters :: "'k FipsEnv \<Rightarrow> Millis \<Rightarrow> PubKey \<Rightarrow> Fips \<times> 'k \<Rightarrow> Counters \<times> (Fips \<times> 'k)" where
  "fips_counters env now peer s =
     (let (fips, k) = fips_refresh_counters env now s
      in (case bt_get (fs_peers fips) peer of Some e \<Rightarrow> fp_counters e | None \<Rightarrow> counters_zero, (fips, k)))"

definition fips_demand :: "Fips \<Rightarrow> PubKey \<Rightarrow> u64" where
  "fips_demand fips peer = (case bt_get (fs_peers fips) peer of Some e \<Rightarrow> fp_demand e | None \<Rightarrow> 0)"

definition fips_set_demand :: "PubKey \<Rightarrow> u64 \<Rightarrow> Fips \<Rightarrow> Fips" where
  "fips_set_demand peer rate fips =
     (case bt_get (fs_peers fips) peer of
        None \<Rightarrow> fips
      | Some entry \<Rightarrow> fips\<lparr>fs_peers := bt_insert peer (entry\<lparr>fp_demand := rate\<rparr>) (fs_peers fips)\<rparr>)"

definition fips_shaping_rate :: "Fips \<Rightarrow> PubKey \<Rightarrow> u64" where
  "fips_shaping_rate fips peer = (case bt_get (fs_peers fips) peer of Some e \<Rightarrow> fp_rate e | None \<Rightarrow> 0)"

definition fips_peer_list :: "Fips \<Rightarrow> PubKey list" where
  "fips_peer_list fips = bt_keys (fs_peers fips)"

definition fips_remove :: "'k FipsEnv \<Rightarrow> PubKey \<Rightarrow> Fips \<times> 'k \<Rightarrow> Fips \<times> 'k" where
  "fips_remove env peer = (\<lambda>(fips, k).
     case bt_get (fs_peers fips) peer of
       None \<Rightarrow> (fips, k)
     | Some entry \<Rightarrow>
         (fips\<lparr>fs_peers := bt_remove peer (fs_peers fips)\<rparr>,
          snd (fips_request env ''clear_transit_policy'' (clear_params (fp_npub entry)) k)))"

end
