(* ===== verification/Fips_Properties.thy ===== *)
theory Fips_Properties
  imports Enforcer_Fips Session_Handlers
begin

text \<open>
  What a FIPS node promises of the commands it answers, as the locale \<open>fips_mesh\<close>, a node that keeps
  it, and what the policies on the mesh then are after any run of the enforcer
  (\<open>crates/tollgate-net/src/enforcer/fips.rs\<close>).
\<close>

subsection \<open>The mesh's promises\<close>

text \<open>
  \<open>pol\<close> reads the policy set for an npub and \<open>dflt\<close> the one of everybody else: whether it is admitted
  and its rate. A command that was answered did what it says and nothing else; \<open>show\<close> changes nothing.
\<close>

locale fips_mesh =
  fixes env :: "'k FipsEnv" and pol :: "'k \<Rightarrow> string \<Rightarrow> (bool \<times> Json) option" and dflt :: "'k \<Rightarrow> bool \<times> Json"
  assumes set_done: "fips_request env ''set_transit_policy'' (policy_params npub admitted rate) k = (Some d, k') \<Longrightarrow>
      pol k' = (pol k)(npub \<mapsto> (admitted, rate)) \<and> dflt k' = dflt k"
    and clear_done: "fips_request env ''clear_transit_policy'' (clear_params npub) k = (Some d, k') \<Longrightarrow>
      pol k' = (pol k)(npub := None) \<and> dflt k' = dflt k"
    and default_done: "fips_request env ''set_default_transit_policy'' (default_params minimum_flow) k = (Some d, k') \<Longrightarrow>
      pol k' = pol k \<and> dflt k' = (carried AccessNone minimum_flow, JInt (uint minimum_flow))"
    and show_keeps: "pol (snd (fips_request env ''show_transit_policy'' params k)) = pol k"
      "dflt (snd (fips_request env ''show_transit_policy'' params k)) = dflt k"

text \<open>One that always answers.\<close>

locale answering_mesh = fips_mesh +
  assumes set_answers: "fst (fips_request env ''set_transit_policy'' params k) \<noteq> None"
    and clear_answers: "fst (fips_request env ''clear_transit_policy'' params k) \<noteq> None"

text \<open>What a peer gets: its own policy, or everybody's.\<close>

definition effective :: "(string \<Rightarrow> 'p option) \<Rightarrow> 'p \<Rightarrow> string \<Rightarrow> 'p" where
  "effective pol dflt npub = (case pol npub of Some x \<Rightarrow> x | None \<Rightarrow> dflt)"

definition mesh_told :: "(string \<Rightarrow> (bool \<times> Json) option) \<Rightarrow> FipsPeer \<Rightarrow> bool" where
  "mesh_told pol e =
     (pol (fp_npub e) = Some (carried (fp_access e) (fp_rate e), rate_for_fips (fp_rate e))
      \<or> pol (fp_npub e) = None \<and> \<not> carried (fp_access e) (fp_rate e))"

definition mesh_follows ::
  "'k FipsEnv \<Rightarrow> PubKey set \<Rightarrow> (string \<Rightarrow> (bool \<times> Json) option) \<Rightarrow> (PubKey, FipsPeer) btreemap \<Rightarrow> bool" where
  "mesh_follows env P pol peers \<longleftrightarrow>
     (\<forall>p e. bt_get peers p = Some e \<longrightarrow> p \<in> P \<and> fp_npub e = fst (fips_names env p) \<and> mesh_told pol e)
     \<and> (\<forall>npub. pol npub \<noteq> None \<longrightarrow> (\<exists>p e. bt_get peers p = Some e \<and> fp_npub e = npub))"

lemma followsD:
  assumes "mesh_follows env P pol peers" "bt_get peers p = Some e"
  shows "p \<in> P" "fp_npub e = fst (fips_names env p)" "mesh_told pol e"
  using assms by (auto simp: mesh_follows_def)

lemma followsI:
  assumes "\<And>p e. bt_get peers p = Some e \<Longrightarrow> p \<in> P \<and> fp_npub e = fst (fips_names env p) \<and> mesh_told pol e"
    and "\<And>npub x. pol npub = Some x \<Longrightarrow> \<exists>p e. bt_get peers p = Some e \<and> fp_npub e = npub"
  shows "mesh_follows env P pol peers"
  using assms unfolding mesh_follows_def by (metis not_None_eq)

lemma follows_covers:
  "mesh_follows env P pol peers \<Longrightarrow> pol npub = Some x \<Longrightarrow> \<exists>p e. bt_get peers p = Some e \<and> fp_npub e = npub"
  by (auto simp: mesh_follows_def)

text \<open>Another entry for a peer that is there, told the same or told nothing that changes.\<close>

lemma follows_update:
  assumes "mesh_follows env P pol peers" "bt_get peers p = Some e" "fp_npub e' = fp_npub e" "mesh_told pol' e'"
    and "inj_on (\<lambda>p. fst (fips_names env p)) P"
    and "\<And>npub. npub \<noteq> fp_npub e \<Longrightarrow> pol' npub = pol npub"
  shows "mesh_follows env P pol' (bt_insert p e' peers)"
proof -
  have other: "mesh_told pol' f" if "bt_get peers q = Some f" "q \<noteq> p" for q f
  proof -
    have "fp_npub f \<noteq> fp_npub e"
      using followsD(1,2) [OF assms(1) that(1)] followsD(1,2) [OF assms(1,2)] assms(5) that(2)
      by (auto dest: inj_onD)
    then show ?thesis
      using assms(6) followsD(3) [OF assms(1) that(1)] by (simp add: mesh_told_def)
  qed
  have covers: "\<exists>q f. bt_get (bt_insert p e' peers) q = Some f \<and> fp_npub f = npub" if "pol' npub = Some x" for npub x
  proof (cases "npub = fp_npub e")
    case True
    then show ?thesis
      using assms(3) by (intro exI [of _ p] exI [of _ e']) simp
  next
    case False
    then have "pol npub = Some x"
      using assms(6) that by simp
    then obtain q f where q: "bt_get peers q = Some f" "fp_npub f = npub"
      using follows_covers [OF assms(1)] by blast
    then have "q \<noteq> p"
      using False assms(2) by auto
    then show ?thesis
      using q by (intro exI [of _ q] exI [of _ f]) simp
  qed
  have here: "q \<in> P \<and> fp_npub f = fst (fips_names env q) \<and> mesh_told pol' f"
    if "bt_get (bt_insert p e' peers) q = Some f" for q f
  proof (cases "q = p")
    case True
    then show ?thesis
      using that assms(3,4) followsD(1,2) [OF assms(1,2)] by simp
  next
    case False
    then show ?thesis
      using that other followsD(1,2) [OF assms(1)] by simp
  qed
  show ?thesis
    by (rule followsI [OF here covers])
qed

lemma follows_map:
  assumes "mesh_follows env P pol peers"
    and "\<And>e. fp_npub (f e) = fp_npub e \<and> fp_access (f e) = fp_access e \<and> fp_rate (f e) = fp_rate e"
  shows "mesh_follows env P pol (map (\<lambda>(p, e). (p, f e)) peers)"
proof -
  have get: "bt_get (map (\<lambda>(p, e). (p, f e)) peers) p = map_option f (bt_get peers p)" for p
    by (induction peers) auto
  have same: "mesh_told pol (f e) = mesh_told pol e" for e
    by (simp add: mesh_told_def assms(2))
  have covers: "\<exists>p e. bt_get (map (\<lambda>(p, e). (p, f e)) peers) p = Some e \<and> fp_npub e = npub"
    if "pol npub = Some x" for npub x
    using follows_covers [OF assms(1) that] assms(2) unfolding get by force
  have here: "p \<in> P \<and> fp_npub e = fst (fips_names env p) \<and> mesh_told pol e"
    if "bt_get (map (\<lambda>(p, e). (p, f e)) peers) p = Some e" for p e
    using that followsD [OF assms(1)] unfolding get by (auto simp: assms(2) same)
  show ?thesis
    by (rule followsI [OF here covers])
qed

subsection \<open>A run\<close>

datatype FipsInput =
    FipsRegister PubKey IpAddr
  | FipsAccess PubKey AccessLevel
  | FipsRate PubKey u64
  | FipsDemand PubKey u64
  | FipsCounters Millis PubKey
  | FipsRemove PubKey

fun input_key :: "FipsInput \<Rightarrow> PubKey" where
  "input_key (FipsRegister p _) = p"
| "input_key (FipsAccess p _) = p"
| "input_key (FipsRate p _) = p"
| "input_key (FipsDemand p _) = p"
| "input_key (FipsCounters _ p) = p"
| "input_key (FipsRemove p) = p"

fun fips_step :: "'k FipsEnv \<Rightarrow> FipsInput \<Rightarrow> Fips \<times> 'k \<Rightarrow> Fips \<times> 'k" where
  "fips_step env (FipsRegister p addr) s = fips_register env p addr s"
| "fips_step env (FipsAccess p a) s = fips_set_access env p a s"
| "fips_step env (FipsRate p r) s = fips_set_shaping_rate env p r s"
| "fips_step env (FipsDemand p r) s = (fips_set_demand p r (fst s), snd s)"
| "fips_step env (FipsCounters now p) s = snd (fips_counters env now p s)"
| "fips_step env (FipsRemove p) s = fips_remove env p s"

definition fips_run :: "'k FipsEnv \<Rightarrow> FipsInput list \<Rightarrow> Fips \<times> 'k \<Rightarrow> Fips \<times> 'k" where
  "fips_run env inputs s = fold (fips_step env) inputs s"

context answering_mesh
begin

lemma applied:
  obtains d where "fips_request env ''set_transit_policy'' (fips_policy e) k = (Some d, fips_apply env e k)"
  using set_answers [of "fips_policy e" k] by (cases "fips_request env ''set_transit_policy'' (fips_policy e) k")
    (auto simp: fips_apply_def)

lemma applied_mesh:
  "pol (fips_apply env e k) = (pol k)(fp_npub e \<mapsto> (carried (fp_access e) (fp_rate e), rate_for_fips (fp_rate e)))"
  "dflt (fips_apply env e k) = dflt k"
  using applied [of e k] set_done unfolding fips_policy_def by metis+

lemma cleared_mesh:
  "pol (snd (fips_request env ''clear_transit_policy'' (clear_params npub) k)) = (pol k)(npub := None)"
  "dflt (snd (fips_request env ''clear_transit_policy'' (clear_params npub) k)) = dflt k"
  using clear_answers [of "clear_params npub" k] clear_done [of npub k]
  by (cases "fips_request env ''clear_transit_policy'' (clear_params npub) k"; auto)+

lemma follows_applied:
  assumes "mesh_follows env P (pol k) peers" "bt_get peers p = Some e" "fp_npub e' = fp_npub e"
    and "inj_on (\<lambda>p. fst (fips_names env p)) P"
  shows "mesh_follows env P (pol (fips_apply env e' k)) (bt_insert p e' peers)"
  by (rule follows_update [OF assms(1-3) _ assms(4)]) (simp_all add: applied_mesh mesh_told_def assms(3))

text \<open>Every step keeps what the peers are told and the default.\<close>

definition holds_for :: "PubKey set \<Rightarrow> bool \<times> Json \<Rightarrow> Fips \<times> 'a \<Rightarrow> bool" where
  "holds_for P d s \<longleftrightarrow> mesh_follows env P (pol (snd s)) (fs_peers (fst s)) \<and> dflt (snd s) = d"

lemma register_holds:
  assumes "holds_for P d (fips, k)" "p \<in> P" "inj_on (\<lambda>p. fst (fips_names env p)) P"
  shows "holds_for P d (fips_register env p addr (fips, k))"
proof (cases "bt_get (fs_peers fips) p")
  case None
  let ?npub = "fst (fips_names env p)"
  have f: "mesh_follows env P (pol k) (fs_peers fips)"
    using assms(1) by (simp add: holds_for_def)
  have free: "pol k ?npub = None"
  proof (rule ccontr)
    assume "pol k ?npub \<noteq> None"
    then obtain q f where q: "bt_get (fs_peers fips) q = Some f" "fp_npub f = ?npub"
      using follows_covers [OF f] by blast
    then have "q = p"
      using followsD(1,2) [OF f q(1)] assms(2,3) by (auto dest: inj_onD)
    then show False using q(1) None by simp
  qed
  define e where "e = \<lparr>fp_npub = ?npub, fp_node_addr = snd (fips_names env p), fp_access = AccessNone,
      fp_rate = 0, fp_demand = 0, fp_counters = counters_zero\<rparr>"
  have e: "fp_npub e = ?npub" "mesh_told (pol k) e"
    using free by (simp_all add: e_def mesh_told_def carried_def)
  have "mesh_follows env P (pol k) (bt_insert p e (fs_peers fips))"
  proof (rule followsI)
    show "q \<in> P \<and> fp_npub f = fst (fips_names env q) \<and> mesh_told (pol k) f"
      if "bt_get (bt_insert p e (fs_peers fips)) q = Some f" for q f
      using that followsD [OF f] e assms(2) by (auto simp: fun_upd_apply split: if_splits)
    show "\<exists>q f. bt_get (bt_insert p e (fs_peers fips)) q = Some f \<and> fp_npub f = npub"
      if given: "pol k npub = Some x" for npub x
    proof -
      obtain q f where q: "bt_get (fs_peers fips) q = Some f" "fp_npub f = npub"
        using follows_covers [OF f given] by blast
      then have "q \<noteq> p" using None by auto
      with q show ?thesis by (intro exI [of _ q] exI [of _ f]) simp
    qed
  qed
  then show ?thesis
    using assms(1) None by (simp add: holds_for_def fips_register_def case_prod_unfold Let_def e_def)
qed (use assms in \<open>simp add: fips_register_def\<close>)

lemma access_holds:
  assumes "holds_for P d (fips, k)" "inj_on (\<lambda>p. fst (fips_names env p)) P"
  shows "holds_for P d (fips_set_access env p a (fips, k))"
proof (cases "bt_get (fs_peers fips) p")
  case (Some e)
  have f: "mesh_follows env P (pol k) (fs_peers fips)" and d: "dflt k = d"
    using assms(1) by (simp_all add: holds_for_def)
  let ?e = "e\<lparr>fp_access := a\<rparr>"
  show ?thesis
  proof (cases "carried (fp_access e) (fp_rate e) = carried a (fp_rate e)")
    case True
    then have "mesh_told (pol k) ?e"
      using followsD(3) [OF f Some] by (simp add: mesh_told_def)
    from follows_update [OF f Some _ this assms(2)] show ?thesis
      using True Some d by (simp add: fips_set_access_def holds_for_def Let_def)
  next
    case False
    then show ?thesis
      using follows_applied [OF f Some _ assms(2), of ?e] Some d
      by (simp add: fips_set_access_def holds_for_def applied_mesh Let_def)
  qed
qed (use assms in \<open>simp add: fips_set_access_def\<close>)

lemma rate_holds:
  assumes "holds_for P d (fips, k)" "inj_on (\<lambda>p. fst (fips_names env p)) P"
  shows "holds_for P d (fips_set_shaping_rate env p r (fips, k))"
proof (cases "bt_get (fs_peers fips) p")
  case (Some e)
  have f: "mesh_follows env P (pol k) (fs_peers fips)" and d: "dflt k = d"
    using assms(1) by (simp_all add: holds_for_def)
  show ?thesis
    using assms(1) follows_applied [OF f Some _ assms(2), of "e\<lparr>fp_rate := r\<rparr>"] Some d
    by (simp add: fips_set_shaping_rate_def holds_for_def applied_mesh Let_def)
qed (use assms in \<open>simp add: fips_set_shaping_rate_def\<close>)

lemma demand_holds:
  assumes "holds_for P d (fips, k)" "inj_on (\<lambda>p. fst (fips_names env p)) P"
  shows "holds_for P d (fips_set_demand p r fips, k)"
proof (cases "bt_get (fs_peers fips) p")
  case (Some e)
  have f: "mesh_follows env P (pol k) (fs_peers fips)"
    using assms(1) by (simp add: holds_for_def)
  have "mesh_told (pol k) (e\<lparr>fp_demand := r\<rparr>)"
    using followsD(3) [OF f Some] by (simp add: mesh_told_def)
  from follows_update [OF f Some _ this assms(2)] show ?thesis
    using assms(1) Some by (simp add: fips_set_demand_def holds_for_def)
qed (use assms in \<open>simp add: fips_set_demand_def\<close>)

lemma counters_holds:
  assumes "holds_for P d s"
  shows "holds_for P d (snd (fips_counters env now p s))"
proof -
  obtain fips k where s: "s = (fips, k)" by (cases s)
  obtain shown k' where shown: "fips_request env ''show_transit_policy'' (JObject []) k = (shown, k')"
    by (cases "fips_request env ''show_transit_policy'' (JObject []) k")
  then have k': "pol k' = pol k" "dflt k' = dflt k"
    using show_keeps [of "JObject []" k] by simp_all
  have f: "mesh_follows env P (pol k) (fs_peers fips)" "dflt k = d"
    using assms by (simp_all add: s holds_for_def)
  have "mesh_follows env P (pol k) (map (\<lambda>(p, e). (p, case by_addr (fp_node_addr e) of
      Some c \<Rightarrow> e\<lparr>fp_counters := c\<rparr> | None \<Rightarrow> e)) (fs_peers fips))" for by_addr
    by (rule follows_map [OF f(1)]) (simp split: option.splits)
  then show ?thesis
    using assms f k' by (simp add: s fips_counters_def fips_refresh_counters_def holds_for_def shown
        case_prod_unfold Let_def split: option.splits)
qed

lemma remove_holds:
  assumes "holds_for P d (fips, k)" "inj_on (\<lambda>p. fst (fips_names env p)) P"
  shows "holds_for P d (fips_remove env p (fips, k))"
proof (cases "bt_get (fs_peers fips) p")
  case (Some e)
  have f: "mesh_follows env P (pol k) (fs_peers fips)" and d: "dflt k = d"
    using assms(1) by (simp_all add: holds_for_def)
  have other: "fp_npub g \<noteq> fp_npub e" if "bt_get (fs_peers fips) q = Some g" "q \<noteq> p" for q g
    using followsD(1,2) [OF f that(1)] followsD(1,2) [OF f Some] assms(2) that(2) by (auto dest: inj_onD)
  have "mesh_follows env P ((pol k)(fp_npub e := None)) (bt_remove p (fs_peers fips))"
  proof (rule followsI)
    show "q \<in> P \<and> fp_npub g = fst (fips_names env q) \<and> mesh_told ((pol k)(fp_npub e := None)) g"
      if "bt_get (bt_remove p (fs_peers fips)) q = Some g" for q g
      using that followsD [OF f, of q g] other [of q g] by (auto simp: mesh_told_def split: if_splits)
    show "\<exists>q g. bt_get (bt_remove p (fs_peers fips)) q = Some g \<and> fp_npub g = npub"
      if given: "((pol k)(fp_npub e := None)) npub = Some x" for npub x
    proof -
      obtain q g where q: "bt_get (fs_peers fips) q = Some g" "fp_npub g = npub"
        using follows_covers [OF f, of npub x] given by (auto split: if_splits)
      then have "q \<noteq> p" using Some given by auto
      with q show ?thesis by (intro exI [of _ q] exI [of _ g]) simp
    qed
  qed
  then show ?thesis
    using Some d by (simp add: fips_remove_def holds_for_def cleared_mesh)
qed (use assms in \<open>simp add: fips_remove_def\<close>)

lemma run_holds:
  assumes "holds_for P d s" "inj_on (\<lambda>p. fst (fips_names env p)) P" "input_key ` set inputs \<subseteq> P"
  shows "holds_for P d (fips_run env inputs s)"
  using assms(1,3)
proof (induction inputs arbitrary: s)
  case (Cons i inputs)
  have "holds_for P d (fips_step env i s)"
    using Cons.prems register_holds [OF _ _ assms(2)] access_holds [OF _ assms(2)] rate_holds [OF _ assms(2)]
      demand_holds [OF _ assms(2)] counters_holds remove_holds [OF _ assms(2)]
    by (cases i; cases s) auto
  then show ?case
    using Cons by (simp add: fips_run_def)
qed (simp add: fips_run_def)

lemma new_mesh:
  assumes "fips_new env m k0 = (Some f0, k1)"
  shows "pol k1 = pol k0" "dflt k1 = (carried AccessNone m, JInt (uint m))"
    "f0 = \<lparr>fs_peers = [], fs_last_refresh = None\<rparr>"
proof -
  obtain d1 k d2 where shown: "fips_request env ''show_transit_policy'' (JObject []) k0 = (Some d1, k)"
    and set: "fips_request env ''set_default_transit_policy'' (default_params m) k = (Some d2, k1)"
    and f0: "f0 = \<lparr>fs_peers = [], fs_last_refresh = None\<rparr>"
    using assms(1) by (auto simp: fips_new_def split: prod.splits option.splits)
  have "pol k = pol k0"
    using show_keeps(1) [of "JObject []" k0] shown by simp
  then show "pol k1 = pol k0" "dflt k1 = (carried AccessNone m, JInt (uint m))"
    "f0 = \<lparr>fs_peers = [], fs_last_refresh = None\<rparr>"
    using default_done [OF set] f0 by simp_all
qed

lemma new_holds:
  assumes "fips_new env m k0 = (Some f0, k1)" "pol k0 = Map.empty"
  shows "holds_for P (carried AccessNone m, JInt (uint m)) (f0, k1)"
  using new_mesh [OF assms(1)] assms(2) by (simp add: holds_for_def mesh_follows_def)

lemma unpaid_is_untold:
  assumes "fips_new env m k0 = (Some f0, k1)" "pol k0 = Map.empty"
    and "inputs = [FipsRegister p addr] \<or> inputs = [FipsRegister p addr, FipsRemove p]"
    and "fips_run env inputs (f0, k1) = (fips, k)"
  shows "pol k = Map.empty \<and> dflt k = (carried AccessNone m, JInt (uint m))"
proof -
  have "pol (snd (fips_run env inputs (f0, k1))) = Map.empty
      \<and> dflt (snd (fips_run env inputs (f0, k1))) = (carried AccessNone m, JInt (uint m))"
    using assms(2,3) new_mesh [OF assms(1)]
    by (auto simp: fips_run_def fips_register_def fips_remove_def case_prod_unfold Let_def cleared_mesh)
  then show ?thesis by (simp add: assms(4))
qed

lemma run_follows:
  assumes "fips_new env m k0 = (Some f0, k1)" "pol k0 = Map.empty"
    and "inj_on (\<lambda>p. fst (fips_names env p)) (set (map input_key inputs))"
    and "fips_run env inputs (f0, k1) = (fips, k)"
  shows "mesh_follows env (set (map input_key inputs)) (pol k) (fs_peers fips)"
    "dflt k = (carried AccessNone m, JInt (uint m))"
  using run_holds [OF new_holds [OF assms(1,2)] assms(3), of inputs] assms(4) by (simp_all add: holds_for_def)

end

subsection \<open>A FIPS node\<close>

text \<open>A node that keeps the policies it is sent and says so.\<close>

record Mesh =
  ms_policies :: "(string \<times> (bool \<times> Json)) list"
  ms_default :: "bool \<times> Json"

fun json_bool :: "Json \<Rightarrow> bool" where
  "json_bool (JBool b) = b"
| "json_bool _ = False"

fun json_text :: "Json \<Rightarrow> string" where
  "json_text (JString s) = s"
| "json_text _ = []"

definition mesh_run :: "string \<Rightarrow> Json \<Rightarrow> Mesh \<Rightarrow> Mesh" where
  "mesh_run command params k =
     (let npub = json_text (json_index ''npub'' params);
          given = (json_bool (json_index ''admitted'' params), json_index ''rate_bytes_per_sec'' params)
      in if command = ''set_transit_policy'' then k\<lparr>ms_policies := (npub, given) # ms_policies k\<rparr>
         else if command = ''clear_transit_policy''
           then k\<lparr>ms_policies := filter (\<lambda>e. fst e \<noteq> npub) (ms_policies k)\<rparr>
         else if command = ''set_default_transit_policy'' then k\<lparr>ms_default := given\<rparr>
         else k)"

definition mesh_env :: "(u8 list \<Rightarrow> string) \<Rightarrow> Mesh FipsEnv" where
  "mesh_env render =
     \<lparr>fe_ask = (\<lambda>k request. (Some [], mesh_run (json_text (json_index ''command'' request)) (json_index ''params'' request) k)),
      fe_json = (\<lambda>_. Some (JObject [(''status'', JString ''ok'')])),
      fe_bech32 = (\<lambda>_. render), fe_hex = render, fe_sha256 = id\<rparr>"

lemma mesh_request: "fips_request (mesh_env render) command params k = (Some JNull, mesh_run command params k)"
  by (simp add: fips_request_def mesh_env_def json_index_def)

lemma map_of_cut: "map_of (filter (\<lambda>e. fst e \<noteq> a) xs) = (map_of xs)(a := None)"
  by (induction xs) auto

interpretation mesh: answering_mesh "mesh_env render" "\<lambda>k. map_of (ms_policies k)" ms_default for render
  by unfold_locales
    (auto simp: mesh_request mesh_run_def policy_params_def clear_params_def default_params_def json_index_def
      Let_def map_of_cut)

subsection \<open>What the mesh does for whom\<close>


definition ex_mesh :: Mesh where
  "ex_mesh = \<lparr>ms_policies = [], ms_default = (True, JNull)\<rparr>"

definition ex_mesh_inputs :: "FipsInput list" where
  "ex_mesh_inputs = [FipsRegister (PubKey [2, 7]) (V4 [10, 0, 0, 1]), FipsAccess (PubKey [2, 7]) AccessActive,
     FipsRate (PubKey [2, 7]) 5000]"

definition ex_render :: "u8 list \<Rightarrow> string" where
  "ex_render bs = map (\<lambda>b. char_of (unat b)) bs"

lemma ex_comes_up:
  "fips_new (mesh_env ex_render) 0 ex_mesh = (Some \<lparr>fs_peers = [], fs_last_refresh = None\<rparr>,
     \<lparr>ms_policies = [], ms_default = (False, JInt 0)\<rparr>)"
  by code_simp

lemma ex_pays:
  "map_option (\<lambda>e. (carried (fp_access e) (fp_rate e), fp_rate e)) (bt_get (fs_peers (fst (fips_run (mesh_env ex_render)
     ex_mesh_inputs (\<lparr>fs_peers = [], fs_last_refresh = None\<rparr>, \<lparr>ms_policies = [], ms_default = (False, JInt 0)\<rparr>))))
     (PubKey [2, 7])) = Some (True, 5000)"
  by code_simp


text \<open>a policy that could not be set is not set later: the enforcer has already recorded the rate
  the mesh never got, so core saying the same again, as every tick does, asks the mesh nothing until
  the rate or the verdict changes.\<close>

lemma failed_policy_never_retried:
  assumes "bt_get (fs_peers fips) p = Some e" "fp_rate e \<noteq> r"
    and "fips_request env ''set_transit_policy'' (fips_policy (e\<lparr>fp_rate := r\<rparr>)) k = (None, k1)"
    and "carried a r = carried (fp_access e) r"
  shows "let s1 = fips_set_shaping_rate env p r (fips, k)
    in snd s1 = k1 \<and> fips_shaping_rate (fst s1) p = r \<and> fips_set_shaping_rate env p r s1 = s1
       \<and> snd (fips_set_access env p a s1) = k1"
  using assms by (simp add: fips_set_shaping_rate_def fips_set_access_def fips_shaping_rate_def fips_apply_def Let_def)

lemma failed_policy_never_retried_witness:
  "fips_set_shaping_rate ((mesh_env ex_render)\<lparr>fe_ask := \<lambda>k request. (None, k)\<rparr>) (PubKey [2, 7]) 9
     (fips_set_shaping_rate ((mesh_env ex_render)\<lparr>fe_ask := \<lambda>k request. (None, k)\<rparr>) (PubKey [2, 7]) 9
       (fst (fips_register (mesh_env ex_render) (PubKey [2, 7]) (V4 []) (\<lparr>fs_peers = [], fs_last_refresh = None\<rparr>, ex_mesh)), ex_mesh))
   = fips_set_shaping_rate ((mesh_env ex_render)\<lparr>fe_ask := \<lambda>k request. (None, k)\<rparr>) (PubKey [2, 7]) 9
       (fst (fips_register (mesh_env ex_render) (PubKey [2, 7]) (V4 []) (\<lparr>fs_peers = [], fs_last_refresh = None\<rparr>, ex_mesh)), ex_mesh)"
proof -
  let ?env = "(mesh_env ex_render)\<lparr>fe_ask := \<lambda>k request. (None, k)\<rparr>"
  let ?fips = "fst (fips_register (mesh_env ex_render) (PubKey [2, 7]) (V4 []) (\<lparr>fs_peers = [], fs_last_refresh = None\<rparr>, ex_mesh))"
  obtain e where e: "bt_get (fs_peers ?fips) (PubKey [2, 7]) = Some e" "fp_rate e \<noteq> 9"
    by (simp add: fips_register_def case_prod_unfold Let_def)
  have "fips_request ?env ''set_transit_policy'' (fips_policy (e\<lparr>fp_rate := 9\<rparr>)) ex_mesh = (None, ex_mesh)"
    by (simp add: fips_request_def)
  from failed_policy_never_retried [OF e this refl] show ?thesis
    by (simp add: Let_def)
qed

text \<open>the mesh keeps what an enforcer that is gone told it: a node that comes up again with no
  allowance says the default, registers a peer that had paid before and gives it no level and no
  rate, which is what it was registered with, so nothing is sent and it is still carried at the rate it
  once bought.\<close>

lemma stale_policy_survives_restart:
  "let env = mesh_env ex_render; p = PubKey [2, 7]; npub = fst (fips_names env p);
       before = \<lparr>ms_policies = [(npub, (True, JInt 1000000))], ms_default = (True, JNull)\<rparr>;
       (fips, k1) = fips_new env 0 before;
       (fips, k) = fips_run env [FipsRegister p (V4 [10, 0, 0, 1]), FipsAccess p AccessNone, FipsRate p 0] (the fips, k1)
   in bt_keys (fs_peers fips) = [p] \<and> list_all (\<lambda>(_, e). \<not> carried (fp_access e) (fp_rate e)) (fs_peers fips)
      \<and> ms_default k = (False, JInt 0)
      \<and> effective (map_of (ms_policies k)) (ms_default k) npub = (True, JInt 1000000)"
  by code_simp

text \<open>a blocked peer is carried at the allowance on a mesh that admits unnamed peers: core sends it a
  Disconnect and nothing for the enforcer to apply, so from its registration to its removal and after
  it is under the default.\<close>

lemma blocked_peer_carried_by_default:
  assumes "answering_mesh env pol dflt" and "fips_new env m k0 = (Some f0, k1)" "pol k0 = Map.empty" "m > 0"
    and "bt_get (ss_overrides s) p = Some policy" "pp_blocked policy"
    and "inputs = [FipsRegister p addr] \<or> inputs = [FipsRegister p addr, FipsRemove p]"
    and "fips_run env inputs (f0, k1) = (fips, k)"
  shows "snd (on_connected p budget now s) = [Send p (MDisconnect \<lparr>disc_reason = OtherReason\<rparr>), DropPeer p]
    \<and> effective (pol k) (dflt k) (fst (fips_names env p)) = (True, JInt (uint m))"
  using answering_mesh.unpaid_is_untold [OF assms(1-3,7,8)] assms(4-6)
  by (simp add: on_connected_def effective_def carried_def)

lemma blocked_peer_carried_by_default_witness:
  "\<exists>k :: Mesh. effective (map_of (ms_policies k)) (ms_default k) (fst (fips_names (mesh_env ex_render) (PubKey [2, 7])))
     = (True, JInt 4096)"
proof -
  obtain k1 where new: "fips_new (mesh_env ex_render) 4096 ex_mesh = (Some \<lparr>fs_peers = [], fs_last_refresh = None\<rparr>, k1)"
    by (simp add: fips_new_def mesh_request)
  obtain fips k where run: "fips_run (mesh_env ex_render) [FipsRegister (PubKey [2, 7]) (V4 [])]
      (\<lparr>fs_peers = [], fs_last_refresh = None\<rparr>, k1) = (fips, k)"
    by (meson surj_pair)
  have empty: "map_of (ms_policies ex_mesh) = Map.empty"
    by (simp add: ex_mesh_def)
  let ?policy = "PeerPolicy_default\<lparr>pp_blocked := True\<rparr>"
  have blocked: "bt_get (ss_overrides ((sessions_new (PubKey [3]) NodePolicy_default BuyerPolicy_default)
      \<lparr>ss_overrides := [(PubKey [2, 7], ?policy)]\<rparr>)) (PubKey [2, 7]) = Some ?policy"
    by simp
  have "(4096 :: u64) > 0" "pp_blocked ?policy"
    by simp_all
  from blocked_peer_carried_by_default [OF mesh.answering_mesh_axioms new empty this(1) blocked this(2) disjI1 [OF refl] run]
  have "effective (map_of (ms_policies k)) (ms_default k) (fst (fips_names (mesh_env ex_render) (PubKey [2, 7])))
      = (True, JInt (uint (4096 :: u64)))"
    by (rule conjunct2)
  then show ?thesis
    by (intro exI [of _ k]) simp
qed

end
