(* ===== verification/Wallet.thy ===== *)
theory Wallet
  imports Config "HOL-Library.Char_ord" "HOL-Library.Product_Lexorder"
begin

text \<open>
  The wallet of \<open>crates/tollgate-net/src/wallet.rs\<close> over the \<open>cdk\<close> library's: what is taken in, paid
  out, split and handed back. \<open>'w\<close> is the state of the library's wallets and of the mints behind
  them, and the record \<open>WalletEnv\<close> its operations; an error is the text it is reported with, its causes
  after it. A wallet of the library is named by its mint and unit. The pause between two claims, and
  logging, are left out.
\<close>

subsection \<open>What is held\<close>

definition show_u64 :: "u64 \<Rightarrow> string" where
  "show_u64 n = show_base 10 (unat n)"

datatype Kind = Money | PrepaidTransit

definition kind_of :: "string \<Rightarrow> string \<Rightarrow> Kind" where
  "kind_of unit resource = (if unit = resource then PrepaidTransit else Money)"

record Holding =
  hd_mint :: string
  hd_unit :: string
  hd_amount :: u64
  hd_kind :: Kind

text \<open>A token as the library reads it; each part may be missing or unreadable.\<close>

record Token =
  tk_mint_url :: "string + string"
  tk_unit :: "string option"
  tk_value :: "string + u64"

text \<open>
  The library: a mint quote has an id and an invoice; minting fails with a text, and with whether the
  quote was reserved; a mint sells a unit for the asking or not, with a ceiling or none.
\<close>

datatype QuoteState = QuotePaid | QuoteIssued | QuoteOther

record 'w WalletEnv =
  we_token :: "string \<Rightarrow> string + Token"
  we_new :: "string \<times> string \<Rightarrow> string option"
  we_receive :: "string \<times> string \<Rightarrow> string \<Rightarrow> 'w \<Rightarrow> (string + u64) \<times> 'w"
  we_prepare :: "string \<times> string \<Rightarrow> u64 \<Rightarrow> 'w \<Rightarrow> (string + u64) \<times> 'w"
  we_held_fee :: "string \<times> string \<Rightarrow> 'w \<Rightarrow> string + u64"
  we_cancel :: "string \<times> string \<Rightarrow> u64 \<Rightarrow> 'w \<Rightarrow> 'w"
  we_confirm :: "string \<times> string \<Rightarrow> u64 \<Rightarrow> 'w \<Rightarrow> (string + string) \<times> 'w"
  we_balance :: "string \<times> string \<Rightarrow> 'w \<Rightarrow> u64 option"
  we_mint_info :: "string \<times> string \<Rightarrow> 'w \<Rightarrow> (string + u64 option option) \<times> 'w"
  we_mint_quote :: "string \<times> string \<Rightarrow> u64 \<Rightarrow> 'w \<Rightarrow> (string + string \<times> string) \<times> 'w"
  we_quote_state :: "string \<times> string \<Rightarrow> string \<Rightarrow> 'w \<Rightarrow> (string + QuoteState) \<times> 'w"
  we_mint :: "string \<times> string \<Rightarrow> string \<Rightarrow> 'w \<Rightarrow> (string \<times> bool + u64 list) \<times> 'w"
  we_recover :: "string \<times> string \<Rightarrow> 'w \<Rightarrow> 'w"
  we_unissued :: "string \<times> string \<Rightarrow> 'w \<Rightarrow> string + string list"

record 'w Wallet =
  wl_opened :: "(string \<times> string) list"
  wl_resource :: string
  wl_world :: 'w

definition normalise :: "string \<Rightarrow> string" where
  "normalise mint_url = trim_end_slashes mint_url"

definition describe :: "'w WalletEnv \<Rightarrow> string \<Rightarrow> string + string \<times> string \<times> u64" where
  "describe env token =
     (case we_token env (trim token) of
        Inl e \<Rightarrow> Inl (''parse a token: '' @ e)
      | Inr parsed \<Rightarrow>
          (case tk_mint_url parsed of
             Inl e \<Rightarrow> Inl (''read a token's mint: '' @ e)
           | Inr mint \<Rightarrow>
               (case tk_value parsed of
                  Inl e \<Rightarrow> Inl (''read a token's value: '' @ e)
                | Inr amount \<Rightarrow>
                    Inr (normalise mint, (case tk_unit parsed of Some u \<Rightarrow> u | None \<Rightarrow> ''sat''), amount))))"

definition wallet_for ::
  "'w WalletEnv \<Rightarrow> string \<Rightarrow> string \<Rightarrow> 'w Wallet \<Rightarrow> (string + string \<times> string) \<times> 'w Wallet" where
  "wallet_for env mint unit wl =
     (let key = (normalise mint, unit)
      in if key \<in> set (wl_opened wl) then (Inr key, wl)
         else case we_new env key of
           Some e \<Rightarrow> (Inl (''open a wallet for '' @ unit @ '' at '' @ mint @ '': '' @ e), wl)
         | None \<Rightarrow> (Inr key, wl\<lparr>wl_opened := key # wl_opened wl\<rparr>))"

definition deposit :: "'w WalletEnv \<Rightarrow> string \<Rightarrow> 'w Wallet \<Rightarrow> (string + Holding) \<times> 'w Wallet" where
  "deposit env token wl =
     (case describe env token of
        Inl e \<Rightarrow> (Inl e, wl)
      | Inr (mint, unit, _) \<Rightarrow>
          (case wallet_for env mint unit wl of
             (Inl e, wl) \<Rightarrow> (Inl e, wl)
           | (Inr key, wl) \<Rightarrow>
               (case we_receive env key (trim token) (wl_world wl) of
                  (Inl e, w) \<Rightarrow> (Inl (''receive '' @ unit @ '' from '' @ mint @ '': '' @ e), wl\<lparr>wl_world := w\<rparr>)
                | (Inr amount, w) \<Rightarrow>
                    (Inr \<lparr>hd_mint = mint, hd_unit = unit, hd_amount = amount,
                          hd_kind = kind_of unit (wl_resource wl)\<rparr>, wl\<lparr>wl_world := w\<rparr>))))"

definition spend ::
  "'w WalletEnv \<Rightarrow> string \<Rightarrow> string \<Rightarrow> u64 \<Rightarrow> 'w Wallet \<Rightarrow> (string + string) \<times> 'w Wallet" where
  "spend env mint unit amount wl =
     (if amount = 0 then (Inl ''spending nothing is not a payment'', wl)
      else case wallet_for env mint unit wl of
        (Inl e, wl) \<Rightarrow> (Inl e, wl)
      | (Inr key, wl) \<Rightarrow>
          (case we_prepare env key amount (wl_world wl) of
             (Inl e, w) \<Rightarrow>
               (Inl (''this node cannot pay '' @ show_u64 amount @ '' '' @ unit @ '' from '' @ mint @ '': '' @ e),
                wl\<lparr>wl_world := w\<rparr>)
           | (Inr _, w) \<Rightarrow>
               (case we_confirm env key amount w of
                  (Inl e, w) \<Rightarrow>
                    (Inl (''send '' @ show_u64 amount @ '' '' @ unit @ '' from '' @ mint @ '': '' @ e),
                     wl\<lparr>wl_world := w\<rparr>)
                | (Inr token, w) \<Rightarrow> (Inr token, wl\<lparr>wl_world := w\<rparr>))))"

subsection \<open>A token within a budget\<close>

record Sent =
  sn_token :: string
  sn_worth :: u64
  sn_fee :: u64

text \<open>What making it took; the sum is checked, so nothing stands for the panic of one that overflows.\<close>

definition spent :: "Sent \<Rightarrow> u64 option" where
  "spent s = (if unat (sn_worth s) + unat (sn_fee s) < 2 ^ 64 then Some (sn_worth s + sn_fee s) else None)"

text \<open>The tries that are left, what is wanted and the last error.\<close>

fun send_tries ::
  "'w WalletEnv \<Rightarrow> string \<times> string \<Rightarrow> u64 \<Rightarrow> nat \<Rightarrow> u64 \<Rightarrow> string \<Rightarrow> 'w \<Rightarrow> (string + Sent) \<times> 'w" where
  "send_tries env key budget 0 want final w = (Inl final, w)"
| "send_tries env key budget (Suc tries) want final w =
     (if want = 0 then (Inl final, w)
      else case we_prepare env key want w of
        (Inl e, w) \<Rightarrow>
          (case we_held_fee env key w of
             Inl e2 \<Rightarrow> (Inl e2, w)
           | Inr fee \<Rightarrow>
               send_tries env key budget tries (min (sat_sub budget fee) (want - 1))
                 (''prepare '' @ show_u64 want @ '': '' @ e) w)
      | (Inr fee, w) \<Rightarrow>
          if sat_add want fee > budget
          then send_tries env key budget tries (min (sat_sub budget fee) (want - 1))
                 (show_u64 want @ '' and a fee of '' @ show_u64 fee @ '' come to more than '' @ show_u64 budget)
                 (we_cancel env key want w)
          else case we_confirm env key want w of
            (Inl e, w) \<Rightarrow> (Inl (''send '' @ show_u64 want @ '': '' @ e), w)
          | (Inr token, w) \<Rightarrow> (Inr \<lparr>sn_token = token, sn_worth = want, sn_fee = fee\<rparr>, w))"

definition send_within ::
  "'w WalletEnv \<Rightarrow> string \<times> string \<Rightarrow> u64 \<Rightarrow> u64 \<Rightarrow> 'w \<Rightarrow> (string + Sent) \<times> 'w" where
  "send_within env key want budget w =
     send_tries env key budget 8 (min want budget) ''nothing to send'' w"

lemma send_tries_bound:
  "send_tries env key budget tries want final w = (Inr s, w') \<Longrightarrow>
     0 < sn_worth s \<and> sn_worth s \<le> want \<and> sat_add (sn_worth s) (sn_fee s) \<le> budget"
proof (induction tries arbitrary: want final w)
  case (Suc tries)
  have shrinks: "min (sat_sub budget fee) (want - 1) \<le> want" if "want \<noteq> 0" for fee
  proof -
    have "want - 1 \<le> want"
      using that by (simp add: word_le_nat_alt unat_minus_one)
    then show ?thesis by (rule min.coboundedI2)
  qed
  have again: ?case if "want \<noteq> 0" "send_tries env key budget tries (min (sat_sub budget fee) (want - 1)) f w1 = (Inr s, w')"
    for fee f w1
    using Suc.IH [OF that(2)] shrinks [OF that(1), of fee] by (meson order_trans)
  have "want \<noteq> 0"
    using Suc.prems by auto
  obtain r w1 where r: "we_prepare env key want w = (r, w1)"
    by (cases "we_prepare env key want w")
  show ?case
  proof (cases r)
    case (Inl e)
    then obtain fee f where "send_tries env key budget tries (min (sat_sub budget fee) (want - 1)) f w1 = (Inr s, w')"
      using Suc.prems r \<open>want \<noteq> 0\<close> by (auto split: sum.splits)
    then show ?thesis by (rule again [OF \<open>want \<noteq> 0\<close>])
  next
    case (Inr fee)
    show ?thesis
    proof (cases "sat_add want fee > budget")
      case True
      then obtain f w2 where "send_tries env key budget tries (min (sat_sub budget fee) (want - 1)) f w2 = (Inr s, w')"
        using Suc.prems r Inr \<open>want \<noteq> 0\<close> by auto
      then show ?thesis by (rule again [OF \<open>want \<noteq> 0\<close>])
    next
      case False
      then have "sn_worth s = want" "sn_fee s = fee"
        using Suc.prems r Inr \<open>want \<noteq> 0\<close> by (auto split: prod.splits sum.splits)
      then show ?thesis
        using \<open>want \<noteq> 0\<close> False by (simp add: word_gt_0 not_less)
    qed
  qed
qed simp

lemma send_within_bound:
  assumes "send_within env key want budget w = (Inr s, w')"
  shows "0 < sn_worth s" "sn_worth s \<le> want" "sat_add (sn_worth s) (sn_fee s) \<le> budget"
proof -
  have "0 < sn_worth s \<and> sn_worth s \<le> min want budget \<and> sat_add (sn_worth s) (sn_fee s) \<le> budget"
    using assms unfolding send_within_def by (rule send_tries_bound)
  then show "0 < sn_worth s" "sn_worth s \<le> want" "sat_add (sn_worth s) (sn_fee s) \<le> budget"
    by simp_all
qed

lemma spent_bound:
  assumes "send_within env key want budget w = (Inr s, w')" "spent s = Some n"
  shows "unat n = unat (sn_worth s) + unat (sn_fee s)" "0 < unat n" "unat n \<le> unat budget"
proof -
  have sum: "unat (sn_worth s) + unat (sn_fee s) < 2 ^ 64" and n: "n = sn_worth s + sn_fee s"
    using assms(2) by (auto simp: spent_def split: if_splits)
  then show eq: "unat n = unat (sn_worth s) + unat (sn_fee s)"
    by (simp add: u64_plus_nat)
  show "0 < unat n"
    using send_within_bound(1) [OF assms(1)] by (simp add: eq word_gt_0 unat_gt_0)
  show "unat n \<le> unat budget"
    using send_within_bound(3) [OF assms(1)] sum by (simp add: eq word_le_nat_alt unat_sat_add)
qed

text \<open>Only a budget of \<open>u64::MAX\<close> lets a worth and its fee overflow.\<close>

lemma spent_fits:
  assumes "send_within env key want budget w = (Inr s, w')" "budget \<noteq> - 1"
  shows "spent s \<noteq> None"
proof -
  have "unat budget \<noteq> unat (- 1 :: u64)"
    using assms(2) u64_eq_nat [of budget "- 1"] by blast
  moreover have "unat (- 1 :: u64) = 2 ^ 64 - 1"
    by (simp add: unsigned_minus_1_eq_mask mask_eq_exp_minus_1)
  ultimately have "unat budget < 2 ^ 64 - 1"
    using unat_u64_less [of budget] by linarith
  then show ?thesis
    using send_within_bound(3) [OF assms(1)] by (auto simp: spent_def word_le_nat_alt unat_sat_add)
qed

subsection \<open>Splitting and refunding\<close>

text \<open>The loop of \<open>split\<close>: the parts it made and what is left, or nothing if \<open>spent\<close> panicked.\<close>

function split_loop ::
  "'w WalletEnv \<Rightarrow> string \<times> string \<Rightarrow> u64 \<Rightarrow> u64 \<Rightarrow> 'w \<Rightarrow> (Sent list \<times> u64) option \<times> 'w" where
  "split_loop env key most left w =
     (if left = 0 then (Some ([], left), w)
      else case send_within env key (min left most) left w of
        (Inl _, w) \<Rightarrow> (Some ([], left), w)
      | (Inr part, w) \<Rightarrow>
          (case spent part of
             None \<Rightarrow> (None, w)
           | Some n \<Rightarrow>
               (case split_loop env key most (left - n) w of
                  (r, w) \<Rightarrow> (map_option (\<lambda>(parts, rest). (part # parts, rest)) r, w))))"
  by pat_completeness auto
termination
proof (relation "measure (\<lambda>(_, _, _, left, _). unat left)")
  fix env :: "'w WalletEnv" and key most left w r w1 part n
  assume "left \<noteq> 0" "(r, w1) = send_within env key (min left most) left w" "r = Inr part" "spent part = Some n"
  then have sent: "send_within env key (min left most) left w = (Inr part, w1)" "spent part = Some n" by simp_all
  have "unat (left - n) = unat left - unat n"
    using spent_bound(3) [OF sent] by (rule u64_minus_nat)
  then show "((env, key, most, left - n, w1), env, key, most, left, w) \<in> measure (\<lambda>(_, _, _, left, _). unat left)"
    using spent_bound(2,3) [OF sent] by simp
qed simp

declare split_loop.simps [simp del]

definition split_parts ::
  "'w WalletEnv \<Rightarrow> string \<Rightarrow> u64 \<Rightarrow> 'w Wallet \<Rightarrow> (string + string list \<times> u64) option \<times> 'w Wallet" where
  "split_parts env token most wl =
     (if most = 0 then (Some (Inl ''parts of nothing are not a split''), wl)
      else case deposit env token wl of
        (Inl e, wl) \<Rightarrow> (Some (Inl e), wl)
      | (Inr held, wl) \<Rightarrow>
          (case wallet_for env (hd_mint held) (hd_unit held) wl of
             (Inl e, wl) \<Rightarrow> (Some (Inl e), wl)
           | (Inr key, wl) \<Rightarrow>
               (case split_loop env key most (hd_amount held) (wl_world wl) of
                  (r, w) \<Rightarrow> (map_option (\<lambda>(parts, left). Inr (map sn_token parts, left)) r, wl\<lparr>wl_world := w\<rparr>))))"

definition refund ::
  "'w WalletEnv \<Rightarrow> string \<Rightarrow> string \<Rightarrow> u64 \<Rightarrow> 'w Wallet \<Rightarrow> (string + Sent) \<times> 'w Wallet" where
  "refund env mint unit amount wl =
     (case wallet_for env mint unit wl of
        (Inl e, wl) \<Rightarrow> (Inl e, wl)
      | (Inr key, wl) \<Rightarrow>
          (case send_within env key amount amount (wl_world wl) of
             (Inl e, w) \<Rightarrow>
               (Inl (''hand '' @ show_u64 amount @ '' '' @ unit @ '' of '' @ mint @ '' back: '' @ e),
                wl\<lparr>wl_world := w\<rparr>)
           | (Inr s, w) \<Rightarrow> (Inr s, wl\<lparr>wl_world := w\<rparr>)))"

subsection \<open>Balances\<close>

definition balance_at :: "'w WalletEnv \<Rightarrow> string \<times> string \<Rightarrow> 'w \<Rightarrow> u64" where
  "balance_at env key w = (case we_balance env key w of Some n \<Rightarrow> n | None \<Rightarrow> 0)"

definition balances :: "'w WalletEnv \<Rightarrow> 'w Wallet \<Rightarrow> Holding list" where
  "balances env wl =
     sort_key (\<lambda>h. (hd_kind h \<noteq> Money, hd_unit h, hd_mint h))
       (filter (\<lambda>h. hd_amount h \<noteq> 0)
         (map (\<lambda>(mint, unit). \<lparr>hd_mint = mint, hd_unit = unit,
              hd_amount = balance_at env (mint, unit) (wl_world wl),
              hd_kind = kind_of unit (wl_resource wl)\<rparr>) (wl_opened wl)))"

definition balance_of_paper :: "'w WalletEnv \<Rightarrow> string \<Rightarrow> string \<Rightarrow> 'w Wallet \<Rightarrow> u64 \<times> 'w Wallet" where
  "balance_of_paper env mint unit wl =
     (case wallet_for env mint unit wl of
        (Inl _, wl) \<Rightarrow> (0, wl)
      | (Inr key, wl) \<Rightarrow> (balance_at env key (wl_world wl), wl))"

subsection \<open>Buying money\<close>

record WalletTopUp =
  tu_mint :: string
  tu_unit :: string
  tu_amount :: u64
  tu_quote :: string
  tu_request :: string

definition top_up ::
  "'w WalletEnv \<Rightarrow> string \<Rightarrow> string \<Rightarrow> u64 \<Rightarrow> 'w Wallet \<Rightarrow> (string + WalletTopUp) \<times> 'w Wallet" where
  "top_up env mint unit amount wl =
     (if amount = 0 then (Inl ''topping up by nothing is not a top-up'', wl)
      else case wallet_for env mint unit wl of
        (Inl e, wl) \<Rightarrow> (Inl e, wl)
      | (Inr key, wl) \<Rightarrow>
          (case we_mint_quote env key amount (wl_world wl) of
             (Inl e, w) \<Rightarrow>
               (Inl (''ask '' @ mint @ '' for '' @ show_u64 amount @ '' '' @ unit @ '': '' @ e), wl\<lparr>wl_world := w\<rparr>)
           | (Inr (quote, request), w) \<Rightarrow>
               (Inr \<lparr>tu_mint = normalise mint, tu_unit = unit, tu_amount = amount, tu_quote = quote,
                     tu_request = request\<rparr>, wl\<lparr>wl_world := w\<rparr>)))"

definition proofs_total :: "u64 list \<Rightarrow> u64" where
  "proofs_total proofs = foldl sat_add 0 proofs"

definition wallet_recover ::
  "'w WalletEnv \<Rightarrow> string \<Rightarrow> string \<Rightarrow> 'w Wallet \<Rightarrow> string option \<times> 'w Wallet" where
  "wallet_recover env mint unit wl =
     (case wallet_for env mint unit wl of
        (Inl e, wl) \<Rightarrow> (Some e, wl)
      | (Inr key, wl) \<Rightarrow> (None, wl\<lparr>wl_world := we_recover env key (wl_world wl)\<rparr>))"

text \<open>Minting a quote, and once more after a recovery if an earlier run left it reserved.\<close>

definition mint_claimed ::
  "'w WalletEnv \<Rightarrow> string \<times> string \<Rightarrow> WalletTopUp \<Rightarrow> 'w Wallet \<Rightarrow> (string + u64 list) \<times> 'w Wallet" where
  "mint_claimed env key topup wl =
     (let claim = (\<lambda>e. ''claim '' @ show_u64 (tu_amount topup) @ '' '' @ tu_unit topup @ '' from '' @ tu_mint topup @ '': '' @ e)
      in case we_mint env key (tu_quote topup) (wl_world wl) of
           (Inr proofs, w) \<Rightarrow> (Inr proofs, wl\<lparr>wl_world := w\<rparr>)
         | (Inl (e, in_use), w) \<Rightarrow>
             if \<not> in_use then (Inl (claim e), wl\<lparr>wl_world := w\<rparr>)
             else case wallet_recover env (tu_mint topup) (tu_unit topup) (wl\<lparr>wl_world := w\<rparr>) of
               (Some e, wl) \<Rightarrow> (Inl e, wl)
             | (None, wl) \<Rightarrow>
                 (case we_mint env key (tu_quote topup) (wl_world wl) of
                    (Inl (e, _), w) \<Rightarrow> (Inl (claim e), wl\<lparr>wl_world := w\<rparr>)
                  | (Inr proofs, w) \<Rightarrow> (Inr proofs, wl\<lparr>wl_world := w\<rparr>)))"

definition collect :: "'w WalletEnv \<Rightarrow> WalletTopUp \<Rightarrow> 'w Wallet \<Rightarrow> (string + u64) \<times> 'w Wallet" where
  "collect env topup wl =
     (case wallet_for env (tu_mint topup) (tu_unit topup) wl of
        (Inl e, wl) \<Rightarrow> (Inl e, wl)
      | (Inr key, wl) \<Rightarrow>
          (case we_quote_state env key (tu_quote topup) (wl_world wl) of
             (Inl e, w) \<Rightarrow>
               (Inl (''claim '' @ show_u64 (tu_amount topup) @ '' '' @ tu_unit topup @ '' from '' @ tu_mint topup @ '': '' @ e),
                wl\<lparr>wl_world := w\<rparr>)
           | (Inr QuotePaid, w) \<Rightarrow>
               (case mint_claimed env key topup (wl\<lparr>wl_world := w\<rparr>) of
                  (Inl e, wl) \<Rightarrow> (Inl e, wl)
                | (Inr proofs, wl) \<Rightarrow> (Inr (proofs_total proofs), wl))
           | (Inr QuoteIssued, w) \<Rightarrow> (Inl (''quote '' @ tu_quote topup @ '' was already claimed''), wl\<lparr>wl_world := w\<rparr>)
           | (Inr QuoteOther, w) \<Rightarrow> (Inl (''quote '' @ tu_quote topup @ '' is not paid yet''), wl\<lparr>wl_world := w\<rparr>)))"

fun claim_each :: "'w WalletEnv \<Rightarrow> string \<times> string \<Rightarrow> string list \<Rightarrow> u64 \<Rightarrow> 'w \<Rightarrow> u64 \<times> 'w" where
  "claim_each env key [] claimed w = (claimed, w)"
| "claim_each env key (quote # quotes) claimed w =
     (case we_mint env key quote w of
        (Inl _, w) \<Rightarrow> claim_each env key quotes claimed w
      | (Inr proofs, w) \<Rightarrow> claim_each env key quotes (sat_add claimed (proofs_total proofs)) w)"

definition claim_pending ::
  "'w WalletEnv \<Rightarrow> string \<Rightarrow> string \<Rightarrow> 'w Wallet \<Rightarrow> (string + u64) \<times> 'w Wallet" where
  "claim_pending env mint unit wl =
     (case wallet_recover env mint unit wl of
        (Some e, wl) \<Rightarrow> (Inl e, wl)
      | (None, wl) \<Rightarrow>
          (case wallet_for env mint unit wl of
             (Inl e, wl) \<Rightarrow> (Inl e, wl)
           | (Inr key, wl) \<Rightarrow>
               (case we_unissued env key (wl_world wl) of
                  Inl e \<Rightarrow> (Inl (''list unclaimed quotes at '' @ mint @ '': '' @ e), wl)
                | Inr outstanding \<Rightarrow>
                    (case claim_each env key outstanding 0 (wl_world wl) of
                       (claimed, w) \<Rightarrow> (Inr claimed, wl\<lparr>wl_world := w\<rparr>)))))"

subsection \<open>Minting for the asking\<close>

lemma minted_grows: "minted < amount \<Longrightarrow> got \<noteq> 0 \<Longrightarrow> unat minted < unat (sat_add minted got)"
  using unat_u64_less [of amount]
  by (auto simp: unat_sat_add word_less_nat_alt unat_gt_0 min_def)

text \<open>The loop of \<open>issue\<close>; every turn mints something, so it ends.\<close>

function issue_loop ::
  "'w WalletEnv \<Rightarrow> string \<times> string \<Rightarrow> string \<Rightarrow> string \<Rightarrow> u64 \<Rightarrow> u64 \<Rightarrow> u64 \<Rightarrow> 'w \<Rightarrow> (string + u64) \<times> 'w" where
  "issue_loop env key mint unit amount ceiling minted w =
     (if \<not> minted < amount then (Inr minted, w)
      else let ask = min (amount - minted) ceiling
           in case we_mint_quote env key ask w of
                (Inl e, w) \<Rightarrow> (Inl (''ask '' @ mint @ '' for '' @ show_u64 ask @ '' '' @ unit @ '': '' @ e), w)
              | (Inr (quote, _), w) \<Rightarrow>
                  (case we_mint env key quote w of
                     (Inl (e, _), w) \<Rightarrow>
                       (Inl (''mint '' @ show_u64 ask @ '' '' @ unit @ '' at '' @ mint @ '': '' @ e), w)
                   | (Inr proofs, w) \<Rightarrow>
                       if proofs_total proofs = 0
                       then (Inl (mint @ '' issued nothing against a quote for '' @ show_u64 ask @ '' '' @ unit), w)
                       else issue_loop env key mint unit amount ceiling (sat_add minted (proofs_total proofs)) w))"
  by pat_completeness auto
termination
proof (relation "measure (\<lambda>(_, _, _, _, amount, _, minted, _). unat amount - unat minted)", goal_cases)
  case (2 env key mint unit amount ceiling minted)
  then show ?case
    using minted_grows [of minted amount] by (simp add: word_less_nat_alt diff_less_mono2)
qed simp

declare issue_loop.simps [simp del]

lemma issue_loop_mints: "issue_loop env key mint unit amount ceiling minted w = (Inr n, w') \<Longrightarrow> amount \<le> n"
proof (induction env key mint unit amount ceiling minted w rule: issue_loop.induct)
  case (1 env key mint unit amount ceiling minted w)
  from 1(2) show ?case
    by (subst (asm) issue_loop.simps)
      (auto simp: Let_def not_less split: if_splits prod.splits sum.splits dest!: 1(1) [rotated -1])
qed

definition wallet_issue ::
  "'w WalletEnv \<Rightarrow> string \<Rightarrow> string \<Rightarrow> u64 \<Rightarrow> 'w Wallet \<Rightarrow> (string + u64) \<times> 'w Wallet" where
  "wallet_issue env mint unit amount wl =
     (if amount = 0 then (Inl ''minting nothing is not an issuance'', wl)
      else case wallet_for env mint unit wl of
        (Inl e, wl) \<Rightarrow> (Inl e, wl)
      | (Inr key, wl) \<Rightarrow>
          (case we_mint_info env key (wl_world wl) of
             (Inl e, w) \<Rightarrow> (Inl (''read what '' @ mint @ '' offers: '' @ e), wl\<lparr>wl_world := w\<rparr>)
           | (Inr None, w) \<Rightarrow> (Inl (mint @ '' does not mint '' @ unit @ '' for the asking''), wl\<lparr>wl_world := w\<rparr>)
           | (Inr (Some most), w) \<Rightarrow>
               (case issue_loop env key mint unit amount
                       (case most of Some m \<Rightarrow> if m > 0 then m else amount | None \<Rightarrow> amount) 0 w of
                  (r, w) \<Rightarrow> (r, wl\<lparr>wl_world := w\<rparr>))))"

text \<open>What \<open>issue\<close> reports it minted is never short of what was asked.\<close>

lemma wallet_issue_mints: "wallet_issue env mint unit amount wl = (Inr n, wl') \<Longrightarrow> 0 < amount \<and> amount \<le> n"
  by (auto simp: wallet_issue_def word_gt_0 split: if_splits prod.splits sum.splits option.splits
      dest: issue_loop_mints)

definition fund_from ::
  "'w WalletEnv \<Rightarrow> string \<Rightarrow> string \<Rightarrow> u64 \<Rightarrow> 'w Wallet \<Rightarrow> (string + string) \<times> 'w Wallet" where
  "fund_from env mint unit amount wl =
     (let (held, wl) = balance_of_paper env mint unit wl;
          short = sat_sub amount held;
          (minted, wl) =
            (if short > 0
             then wallet_issue env mint unit short wl
             else (Inr 0, wl))
      in case minted of
           Inl e \<Rightarrow> (Inl e, wl)
         | Inr _ \<Rightarrow>
             (case spend env mint unit amount wl of
                (Inl e, wl) \<Rightarrow>
                  (Inl (''take '' @ show_u64 amount @ '' '' @ unit @ '' from '' @ mint @ '' out to fund: '' @ e), wl)
              | (Inr token, wl) \<Rightarrow> (Inr token, wl)))"

end
