(* ===== verification/Market.thy ===== *)
theory Market
  imports Wallet Kernel_Tables Clock
begin

text \<open>
  The market of \<open>crates/tollgate-net/src/market.rs\<close>: the price list, what a payment buys, the swap that
  takes money and has vouchers issued, and the wait for a quote to be paid. The wallet is that of
  \<open>Wallet\<close>; the issuing mint is behind two operations on the world the wallet lives in, its info
  and a POST, and \<open>mk_json\<close>, \<open>mk_render\<close> and \<open>mk_signatures\<close> stand for the JSON library. Logging is left out.
\<close>

subsection \<open>Prices\<close>

record Accepted =
  acc_mint :: string
  acc_unit :: string
  acc_bytes_per_unit :: u64

type_synonym Prices = "(string \<times> string, u64) btreemap"

definition prices_set :: "Prices \<Rightarrow> string \<Rightarrow> string \<Rightarrow> u64 \<Rightarrow> Prices" where
  "prices_set prices mint unit rate =
     (let key = (normalise mint, unit)
      in if rate = 0 then bt_remove key prices else bt_insert key rate prices)"

definition prices_new :: "Accepted list \<Rightarrow> Prices" where
  "prices_new accepted =
     foldl (\<lambda>prices entry. prices_set prices (acc_mint entry) (acc_unit entry) (acc_bytes_per_unit entry)) [] accepted"

definition bytes_per_unit :: "Prices \<Rightarrow> string \<Rightarrow> string \<Rightarrow> u64 option" where
  "bytes_per_unit prices mint unit =
     (case bt_get prices (normalise mint, unit) of
        Some price \<Rightarrow> if price > 0 then Some price else None
      | None \<Rightarrow> None)"

definition prices_listed :: "Prices \<Rightarrow> Accepted list" where
  "prices_listed prices =
     map (\<lambda>((mint, unit), price). \<lparr>acc_mint = mint, acc_unit = unit, acc_bytes_per_unit = price\<rparr>) prices"

definition prices_replace :: "Accepted list \<Rightarrow> Prices" where
  "prices_replace table =
     foldl (\<lambda>prices entry.
         if acc_bytes_per_unit entry > 0
         then bt_insert (normalise (acc_mint entry), acc_unit entry) (acc_bytes_per_unit entry) prices
         else prices) [] table"

definition is_selling :: "Prices \<Rightarrow> bool" where
  "is_selling prices = (prices \<noteq> [])"

definition price_of :: "u64 \<Rightarrow> u64 \<Rightarrow> u64 option" where
  "price_of bytes rate =
     (if bytes = 0 \<or> rate = 0 then None
      else Some (of_nat ((unat bytes + (unat rate - 1)) div unat rate)))"

definition units_for :: "Prices \<Rightarrow> string \<Rightarrow> string \<Rightarrow> u64 \<Rightarrow> u64 option" where
  "units_for prices mint unit bytes = Option.bind (bytes_per_unit prices mint unit) (price_of bytes)"

datatype Refusal_Reason =
    NotTaken string string
  | TooMuchAtOnce u64 string
  | ComesToNothing
  | PriceNotPaid u64 string u64 string u64

definition priced_purchase ::
  "Prices \<Rightarrow> u64 \<Rightarrow> string \<Rightarrow> string \<times> string \<times> u64 \<Rightarrow> u64 \<Rightarrow> Refusal_Reason + u64" where
  "priced_purchase prices max_amount unit = (\<lambda>(paid_mint, paid_unit, paid) wanted.
     if bytes_per_unit prices paid_mint paid_unit = None then Inl (NotTaken paid_unit paid_mint)
     else if wanted > max_amount then Inl (TooMuchAtOnce wanted unit)
     else case units_for prices paid_mint paid_unit wanted of
       None \<Rightarrow> Inl ComesToNothing
     | Some owed \<Rightarrow>
         if owed \<noteq> paid then Inl (PriceNotPaid wanted unit owed paid_unit paid) else Inr wanted)"

subsection \<open>The issuing mint\<close>

record Looked =
  lk_at :: Millis
  lk_max :: "u64 option"
  lk_ttl :: u64

definition LIMIT_TTL_MS :: u64 where
  "LIMIT_TTL_MS = 60000"

definition FAILED_LIMIT_TTL_MS :: u64 where
  "FAILED_LIMIT_TTL_MS = 5000"

text \<open>
  A blinded output, and an answer: its status and body, unless that could not be read. \<open>mk_info\<close> gives
  the mint's info, or nothing when there was no answer, and the instant by then.
\<close>

record Output =
  out_amount :: u64
  out_json :: Json

record Reply =
  rp_success :: bool
  rp_status :: string
  rp_text :: "string + string"

record ('w, 's) MarketEnv =
  mk_wallet :: "'w WalletEnv"
  mk_info :: "'w \<Rightarrow> Json option \<times> Millis \<times> 'w"
  mk_post :: "string \<Rightarrow> Json \<Rightarrow> 'w \<Rightarrow> (string + Reply) \<times> 'w"
  mk_json :: "string \<Rightarrow> string + Json"
  mk_render :: "Json \<Rightarrow> string"
  mk_signatures :: "Json \<Rightarrow> string + 's list"

record 'w Market =
  mt_issuer_url :: string
  mt_issuer_unit :: string
  mt_looked :: "Looked option"
  mt_unit :: string
  mt_mint_url :: string
  mt_prices :: Prices
  mt_max_amount :: u64
  mt_wallet :: "'w Wallet"

definition json_at :: "string \<Rightarrow> Json \<Rightarrow> Json" where
  "json_at key v = (case json_get key v of Some x \<Rightarrow> x | None \<Rightarrow> JNull)"

definition read_limit :: "string \<Rightarrow> Json \<Rightarrow> u64 option" where
  "read_limit unit info =
     Option.bind (json_array (json_at ''methods'' (json_at ''4'' (json_at ''nuts'' info))))
       (\<lambda>methods. Option.bind
          (find (\<lambda>m. json_at ''method'' m = JString ''bolt11'' \<and> json_at ''unit'' m = JString unit) methods)
          (\<lambda>m. json_u64 (json_at ''max_amount'' m)))"

text \<open>The ceiling, read or remembered, and the market with what it now remembers.\<close>

definition issuer_limit :: "('w, 's) MarketEnv \<Rightarrow> Millis \<Rightarrow> 'w Market \<Rightarrow> u64 option \<times> 'w Market" where
  "issuer_limit env now mt =
     (if (case mt_looked mt of Some l \<Rightarrow> saturating_since now (lk_at l) < lk_ttl l | None \<Rightarrow> False)
      then (lk_max (the (mt_looked mt)), mt)
      else
        let wl = mt_wallet mt;
            (info, at, w) = mk_info env (wl_world wl);
            (max_sale, ttl) = (case info of
                Some v \<Rightarrow> (read_limit (mt_issuer_unit mt) v, LIMIT_TTL_MS)
              | None \<Rightarrow> (None, FAILED_LIMIT_TTL_MS))
        in (max_sale, mt\<lparr>mt_looked := Some \<lparr>lk_at = at, lk_max = max_sale, lk_ttl = ttl\<rparr>,
                         mt_wallet := wl\<lparr>wl_world := w\<rparr>\<rparr>))"

definition max_sale :: "('w, 's) MarketEnv \<Rightarrow> Millis \<Rightarrow> 'w Market \<Rightarrow> u64 \<times> 'w Market" where
  "max_sale env now mt =
     (case issuer_limit env now mt of
        (Some mint, mt) \<Rightarrow> (min (mt_max_amount mt) mint, mt)
      | (None, mt) \<Rightarrow> (mt_max_amount mt, mt))"

record Info =
  info_unit :: string
  info_mint :: string
  info_accepts :: "Accepted list"
  info_max_amount :: "u64 option"

definition market_info :: "('w, 's) MarketEnv \<Rightarrow> Millis \<Rightarrow> 'w Market \<Rightarrow> Info \<times> 'w Market" where
  "market_info env now mt =
     (let (most, mt) = max_sale env now mt
      in (\<lparr>info_unit = mt_unit mt, info_mint = mt_mint_url mt, info_accepts = prices_listed (mt_prices mt),
           info_max_amount = Some most\<rparr>, mt))"

text \<open>An answer in JSON, or the mint's refusal in its own words.\<close>

definition mint_answer :: "('w, 's) MarketEnv \<Rightarrow> Reply \<Rightarrow> string + Json" where
  "mint_answer env reply =
     (case rp_text reply of
        Inl e \<Rightarrow> Inl (''read the mint's answer: '' @ e)
      | Inr body \<Rightarrow>
          if \<not> rp_success reply
          then Inl (rp_status reply @ '': '' @
            (case mk_json env body of
               Inl _ \<Rightarrow> body
             | Inr v \<Rightarrow> (case json_str (json_at ''detail'' v) of Some detail \<Rightarrow> detail | None \<Rightarrow> body)))
          else case mk_json env body of
            Inr v \<Rightarrow> Inr v
          | Inl e \<Rightarrow> Inl (''not JSON: '' @ body @ '': '' @ e))"

text \<open>One call: what to say when the mint was not reached, and what it was asked for.\<close>

definition post_json ::
  "('w, 's) MarketEnv \<Rightarrow> string \<Rightarrow> string \<Rightarrow> string \<Rightarrow> Json \<Rightarrow> 'w \<Rightarrow> (string + Json) \<times> 'w" where
  "post_json env unreached asked url body w =
     (case mk_post env url body w of
        (Inl e, w) \<Rightarrow> (Inl (unreached @ '': '' @ e), w)
      | (Inr reply, w) \<Rightarrow>
          (case mint_answer env reply of
             Inl e \<Rightarrow> (Inl (asked @ '': '' @ e), w)
           | Inr v \<Rightarrow> (Inr v, w)))"

definition outputs_total :: "Output list \<Rightarrow> u64" where
  "outputs_total outputs = foldl (\<lambda>n o1. sat_add n (out_amount o1)) 0 outputs"

definition issue ::
  "('w, 's) MarketEnv \<Rightarrow> string \<Rightarrow> string \<Rightarrow> Output list \<Rightarrow> 'w \<Rightarrow> (string + 's list) \<times> 'w" where
  "issue env url unit outputs w =
     (let amount = outputs_total outputs
      in case post_json env (''reach the mint at '' @ url)
                (''ask the mint for a quote of '' @ show_u64 amount @ '' '' @ unit) (url @ ''/v1/mint/quote/bolt11'')
                (JObject [(''amount'', JInt (uint amount)), (''unit'', JString unit)]) w of
           (Inl e, w) \<Rightarrow> (Inl e, w)
         | (Inr answer, w) \<Rightarrow>
             (case json_str (json_at ''quote'' answer) of
                None \<Rightarrow> (Inl (''the mint's quote had no id: '' @ mk_render env answer), w)
              | Some quote \<Rightarrow>
                  (case post_json env (''reach the mint at '' @ url @ '' to mint quote '' @ quote)
                          (''mint against quote '' @ quote) (url @ ''/v1/mint/bolt11'')
                          (JObject [(''quote'', JString quote), (''outputs'', JArray (map out_json outputs))]) w of
                     (Inl e, w) \<Rightarrow> (Inl e, w)
                   | (Inr minted, w) \<Rightarrow>
                       (case mk_signatures env (json_at ''signatures'' minted) of
                          Inl e \<Rightarrow> (Inl (''read the signatures for quote '' @ quote @ '': '' @ e), w)
                        | Inr signatures \<Rightarrow> (Inr signatures, w)))))"

subsection \<open>A swap\<close>

record SwapRequest =
  sr_token :: string
  sr_outputs :: "Output list"

datatype 's SwapAnswer =
    Signatures "'s list"
  | BadRequest string
  | UnpricedRequest Refusal_Reason
  | RefusedWithRefund string string

text \<open>The issuer, unit and value of a payment, as the market reads them.\<close>

definition read_payment :: "'w WalletEnv \<Rightarrow> string \<Rightarrow> string + string \<times> string \<times> u64" where
  "read_payment env token =
     (case we_token env (trim token) of
        Inl _ \<Rightarrow> Inl ''that is not a voucher''
      | Inr parsed \<Rightarrow>
          (case tk_mint_url parsed of
             Inl _ \<Rightarrow> Inl ''that voucher names no issuer''
           | Inr mint \<Rightarrow>
               (case tk_value parsed of
                  Inl _ \<Rightarrow> Inl ''that voucher looks damaged''
                | Inr paid \<Rightarrow>
                    Inr (normalise mint, (case tk_unit parsed of Some u \<Rightarrow> u | None \<Rightarrow> ''sat''), paid))))"

fun contains :: "string \<Rightarrow> string \<Rightarrow> bool" where
  "contains word [] = (word = [])"
| "contains word (c # cs) = (take (length word) (c # cs) = word \<or> contains word cs)"

definition not_cleared :: "string \<Rightarrow> string" where
  "not_cleared e =
     (if contains ''spent'' (map ascii_lower e) then ''that payment did not clear: already spent''
      else ''that payment did not clear'')"

text \<open>What follows a payment that cleared: the vouchers, or the payment handed back.\<close>

definition sell ::
  "('w, 's) MarketEnv \<Rightarrow> Holding \<Rightarrow> Output list \<Rightarrow> 'w Market \<Rightarrow> 's SwapAnswer \<times> 'w Market" where
  "sell env held outputs mt =
     (let wl = mt_wallet mt
      in case issue env (mt_issuer_url mt) (mt_issuer_unit mt) outputs (wl_world wl) of
           (Inr signatures, w) \<Rightarrow> (Signatures signatures, mt\<lparr>mt_wallet := wl\<lparr>wl_world := w\<rparr>\<rparr>)
         | (Inl _, w) \<Rightarrow>
             (case refund (mk_wallet env) (hd_mint held) (hd_unit held) (hd_amount held) (wl\<lparr>wl_world := w\<rparr>) of
                (Inr s, wl) \<Rightarrow>
                  (RefusedWithRefund ''the router could not issue the data just now'' (sn_token s),
                   mt\<lparr>mt_wallet := wl\<rparr>)
              | (Inl _, wl) \<Rightarrow>
                  (BadRequest (''the router took the payment and could not issue the data; ''
                     @ ''ask the operator for a refund''), mt\<lparr>mt_wallet := wl\<rparr>)))"

definition swap ::
  "('w, 's) MarketEnv \<Rightarrow> Millis \<Rightarrow> SwapRequest \<Rightarrow> 'w Market \<Rightarrow> 's SwapAnswer \<times> 'w Market" where
  "swap env now request mt =
     (case read_payment (mk_wallet env) (sr_token request) of
        Inl e \<Rightarrow> (BadRequest e, mt)
      | Inr payment \<Rightarrow>
          (let (most, mt) = max_sale env now mt
           in case priced_purchase (mt_prices mt) most (mt_unit mt) payment (outputs_total (sr_outputs request)) of
                Inl reason \<Rightarrow> (UnpricedRequest reason, mt)
              | Inr _ \<Rightarrow>
                  (case deposit (mk_wallet env) (sr_token request) (mt_wallet mt) of
                     (Inl e, wl) \<Rightarrow> (BadRequest (not_cleared e), mt\<lparr>mt_wallet := wl\<rparr>)
                   | (Inr held, wl) \<Rightarrow> sell env held (sr_outputs request) (mt\<lparr>mt_wallet := wl\<rparr>))))"

subsection \<open>The buying side\<close>

definition active_keyset_from :: "(string \<times> string \<times> bool) list \<Rightarrow> string \<Rightarrow> string option" where
  "active_keyset_from keysets unit =
     map_option fst (find (\<lambda>(_, u, active). active \<and> u = unit) keysets)"

definition refund_in :: "(string \<Rightarrow> Json option) \<Rightarrow> string \<Rightarrow> (string \<times> string) option" where
  "refund_in json e =
     (case dropWhile (\<lambda>c. c \<noteq> CHR ''{'') e of
        [] \<Rightarrow> None
      | body \<Rightarrow>
          (case json body of
             None \<Rightarrow> None
           | Some v \<Rightarrow>
               map_option (Pair (case json_str (json_at ''error'' v) of Some r \<Rightarrow> r | None \<Rightarrow> ''refused''))
                 (json_str (json_at ''refund'' v))))"

fun before :: "string \<Rightarrow> string \<Rightarrow> string" where
  "before sep [] = []"
| "before sep (c # cs) = (if take (length sep) (c # cs) = sep then [] else c # before sep cs)"

definition withheld :: "string \<Rightarrow> string" where
  "withheld e =
     (if \<not> contains ([CHR 0x22] @ ''refund'' @ [CHR 0x22]) e \<and> \<not> contains ''cashuA'' e \<and> \<not> contains ''cashuB'' e
      then e
      else before '': '' e @ '' (the answer mentions a refund, and is not repeated here)'')"

text \<open>The sides of a purchase that are not the market's: sending a request, and the blinding library.\<close>

record 'm BuyEnv =
  be_send :: "string \<Rightarrow> string \<Rightarrow> string \<Rightarrow> 'm \<Rightarrow> (string + Reply) \<times> 'm"
  be_blind :: "u64 \<Rightarrow> string \<Rightarrow> string + string"
  be_proofs :: "string \<Rightarrow> string \<Rightarrow> string \<Rightarrow> string + string"
  be_token :: "string \<Rightarrow> string \<Rightarrow> string \<Rightarrow> string + string"
  be_json :: "string \<Rightarrow> string + Json"
  be_render :: "Json \<Rightarrow> string"
  be_keysets :: "Json \<Rightarrow> string + (string \<times> string \<times> bool) list"

definition http_call :: "'m BuyEnv \<Rightarrow> string \<Rightarrow> string \<Rightarrow> string \<Rightarrow> 'm \<Rightarrow> (string + string) \<times> 'm" where
  "http_call env method url body m =
     (case be_send env method url body m of
        (Inl e, m) \<Rightarrow> (Inl e, m)
      | (Inr reply, m) \<Rightarrow>
          ((case rp_text reply of
              Inl e \<Rightarrow> Inl e
            | Inr answer \<Rightarrow> if rp_success reply then Inr answer else Inl (rp_status reply @ '': '' @ answer)), m))"

datatype BuyError = Refunded (bought_reason: string) (bought_refund: string) | BuyFailed string

text \<open>What an error shows: a refund's reason, and never the token.\<close>

fun show_buy_error :: "BuyError \<Rightarrow> string" where
  "show_buy_error (Refunded reason _) = reason @ '' (the payment was refunded)''"
| "show_buy_error (BuyFailed e) = e"

definition result_json :: "(string \<Rightarrow> string + Json) \<Rightarrow> string \<Rightarrow> Json option" where
  "result_json json body = (case json body of Inl _ \<Rightarrow> None | Inr v \<Rightarrow> Some v)"

text \<open>What an answer that sold something is turned into: signatures unblinded, and made a token.\<close>

definition token_bought ::
  "'m BuyEnv \<Rightarrow> string \<Rightarrow> u64 \<Rightarrow> string \<Rightarrow> string \<Rightarrow> string \<Rightarrow> string \<Rightarrow> BuyError + string" where
  "token_bought env market_url amount unit keyset_info secrets body =
     (case be_json env body of
        Inl e \<Rightarrow> Inl (BuyFailed (''swap response: '' @ e))
      | Inr response \<Rightarrow>
          (case json_array (json_at ''signatures'' response) of
             None \<Rightarrow> Inl (BuyFailed (market_url @ '' sold nothing for that payment: '' @ body))
           | Some signatures \<Rightarrow>
               (case be_proofs env (be_render env (JArray signatures)) secrets keyset_info of
                  Inl e \<Rightarrow> Inl (BuyFailed (''unblind '' @ show_u64 amount @ '' '' @ unit @ '': '' @ e))
                | Inr proofs \<Rightarrow>
                    (case be_token env market_url unit proofs of
                       Inl e \<Rightarrow> Inl (BuyFailed (''build a token: '' @ e))
                     | Inr token \<Rightarrow> Inr token))))"

definition buy ::
  "'m BuyEnv \<Rightarrow> string \<Rightarrow> u64 \<Rightarrow> string \<Rightarrow> string \<Rightarrow> string \<Rightarrow> 'm \<Rightarrow> (BuyError + string) \<times> 'm" where
  "buy env market_url amount unit keyset_info money m =
     (case be_blind env amount keyset_info of
        Inl e \<Rightarrow> (Inl (BuyFailed (''blind '' @ show_u64 amount @ '' '' @ unit @ '': '' @ e)), m)
      | Inr messages \<Rightarrow>
          (case be_json env messages of
             Inl e \<Rightarrow> (Inl (BuyFailed (''blinded messages: '' @ e)), m)
           | Inr blinded \<Rightarrow>
               (case http_call env ''POST'' (market_url @ ''/tollgate/market/v1/swap'')
                       (be_render env (JObject [(''token'', JString money),
                                                (''outputs'', json_at ''blinded_messages'' blinded)])) m of
                  (Inl e, m) \<Rightarrow>
                    (Inl (case refund_in (result_json (be_json env)) e of
                       Some (reason, back) \<Rightarrow> Refunded reason back
                     | None \<Rightarrow> BuyFailed (''buy '' @ show_u64 amount @ '' '' @ unit @ '' from '' @ market_url @ '': ''
                         @ withheld e)), m)
                | (Inr body, m) \<Rightarrow>
                    (token_bought env market_url amount unit keyset_info
                       (be_render env (json_at ''secrets_with_blinding'' blinded)) body, m))))"

definition keysets_at :: "'m BuyEnv \<Rightarrow> string \<Rightarrow> 'm \<Rightarrow> (string + (string \<times> string \<times> bool) list) \<times> 'm" where
  "keysets_at env mint_url m =
     (case http_call env ''GET'' (mint_url @ ''/v1/keysets'') [] m of
        (Inl e, m) \<Rightarrow> (Inl (''list keysets at '' @ mint_url @ '': '' @ e), m)
      | (Inr body, m) \<Rightarrow>
          ((case be_json env body of
              Inl e \<Rightarrow> Inl (''keyset listing from '' @ mint_url @ '': '' @ e)
            | Inr listing \<Rightarrow>
                (case be_keysets env (json_at ''keysets'' listing) of
                   Inl e \<Rightarrow> Inl (''keyset listing from '' @ mint_url @ '': '' @ be_render env listing @ '': '' @ e)
                 | Inr keysets \<Rightarrow> Inr keysets)), m))"

definition active_keyset :: "'m BuyEnv \<Rightarrow> string \<Rightarrow> string \<Rightarrow> 'm \<Rightarrow> (string + string) \<times> 'm" where
  "active_keyset env mint_url unit m =
     (case keysets_at env mint_url m of
        (Inl e, m) \<Rightarrow> (Inl e, m)
      | (Inr keysets, m) \<Rightarrow>
          ((case active_keyset_from keysets unit of
              Some i \<Rightarrow> Inr i
            | None \<Rightarrow> Inl (mint_url @ '' has no active '' @ unit @ '' keyset'')), m))"

definition quote_paid :: "Json \<Rightarrow> bool" where
  "quote_paid status =
     (json_str (json_at ''state'' status) \<in> {Some ''PAID'', Some ''ISSUED''}
      \<or> json_at ''paid'' status = JBool True
      \<or> (case json_u64 (json_at ''amount_paid'' status) of Some a \<Rightarrow> a > 0 | None \<Rightarrow> False))"

definition PAYMENT_TIMEOUT_MS :: nat where
  "PAYMENT_TIMEOUT_MS = 10000"

text \<open>
  The wait: each question asks the mint once, takes the time the answer took and the 50 ms slept; the
  instants are those of the monotonic clock.
\<close>

function wait_loop ::
  "('m \<Rightarrow> (string + string) \<times> nat \<times> 'm) \<Rightarrow> (string \<Rightarrow> string + Json) \<Rightarrow> string \<Rightarrow> nat \<Rightarrow> nat \<Rightarrow> 'm \<Rightarrow> (string option) \<times> 'm" where
  "wait_loop ask json late deadline now m =
     (if now < deadline
      then case ask m of
        (Inl e, _, m) \<Rightarrow> (Some (''check a mint quote: '' @ e), m)
      | (Inr body, took, m) \<Rightarrow>
          (case json body of
             Inl e \<Rightarrow> (Some (''quote status: '' @ body @ '': '' @ e), m)
           | Inr status \<Rightarrow>
               if quote_paid status then (None, m)
               else wait_loop ask json late deadline (now + took + 50) m)
      else (Some late, m))"
  by pat_completeness auto
termination
  by (relation "measure (\<lambda>(_, _, _, deadline, now, _). deadline - now)") auto

declare wait_loop.simps [simp del]

definition wait_until_paid ::
  "('m \<Rightarrow> (string + string) \<times> nat \<times> 'm) \<Rightarrow> (string \<Rightarrow> string + Json) \<Rightarrow> string \<Rightarrow> string \<Rightarrow> nat \<Rightarrow> 'm
     \<Rightarrow> (string option) \<times> 'm" where
  "wait_until_paid ask json mint_url quote now m =
     wait_loop ask json (mint_url @ '' has not seen payment for quote '' @ quote) (now + PAYMENT_TIMEOUT_MS) now m"

end
