(* ===== verification/Merchant.thy ===== *)
theory Merchant
  imports Market
begin

text \<open>
  Prices and the merchant of \<open>crates/tollgate-net/src/pricing.rs\<close> and \<open>merchant.rs\<close>: what a unit of each
  accepted mint's tokens buys, and what each socket's requests do. HOL's library has no binary
  floating point, so the operations of an \<open>f64\<close> are those of the record \<open>FloatOps\<close>, a number written in the
  source among them; the model composes them as the source does. Fetching rates, the sockets
  and logging are left out.
\<close>

subsection \<open>Prices\<close>

record 'f FloatOps =
  f_lit :: "string \<Rightarrow> 'f"
  f_add :: "'f \<Rightarrow> 'f \<Rightarrow> 'f"
  f_mul :: "'f \<Rightarrow> 'f \<Rightarrow> 'f"
  f_div :: "'f \<Rightarrow> 'f \<Rightarrow> 'f"
  f_floor :: "'f \<Rightarrow> 'f"
  f_less :: "'f \<Rightarrow> 'f \<Rightarrow> bool"
  f_le :: "'f \<Rightarrow> 'f \<Rightarrow> bool"
  f_finite :: "'f \<Rightarrow> bool"
  f_of_u64 :: "u64 \<Rightarrow> 'f"
  f_to_u64 :: "'f \<Rightarrow> u64"

record 'f Price =
  pr_unit :: string
  pr_per_mbit :: 'f

record 'f AcceptMint =
  ac_mint :: string
  ac_unit :: string
  ac_price :: "'f Price option"

type_synonym 'f Rates = "(string, 'f) btreemap"

definition rates_set :: "'f FloatOps \<Rightarrow> string \<Rightarrow> 'f \<Rightarrow> 'f Rates \<Rightarrow> 'f Rates" where
  "rates_set F currency btc rates =
     (if f_finite F btc \<and> f_less F (f_lit F ''0.0'') btc then bt_insert currency btc rates else rates)"

definition sats_per :: "'f FloatOps \<Rightarrow> string \<Rightarrow> 'f Rates \<Rightarrow> 'f option" where
  "sats_per F unit rates =
     (if unit = ''sat'' then Some (f_lit F ''1.0'')
      else if unit = ''usd'' \<or> unit = ''eur'' then map_option (f_div F (f_lit F ''1e8'')) (bt_get rates unit)
      else None)"

definition token_unit_value :: "'f FloatOps \<Rightarrow> string \<Rightarrow> (string \<times> 'f) option" where
  "token_unit_value F unit =
     (if unit = ''sat'' then Some (''sat'', f_lit F ''1.0'')
      else if unit = ''usd'' then Some (''usd'', f_lit F ''0.01'')
      else if unit = ''eur'' then Some (''eur'', f_lit F ''0.01'')
      else None)"

text \<open>A token unit's value and a Mbit's price, both in sats, or in the currency they share.\<close>

definition in_one_currency :: "'f FloatOps \<Rightarrow> 'f Price \<Rightarrow> string \<Rightarrow> 'f \<Rightarrow> 'f Rates \<Rightarrow> ('f \<times> 'f) option" where
  "in_one_currency F price currency amount rates =
     (if currency = pr_unit price then Some (amount, pr_per_mbit price)
      else case sats_per F currency rates of
        None \<Rightarrow> None
      | Some sats \<Rightarrow>
          map_option (\<lambda>other. (f_mul F amount sats, f_mul F (pr_per_mbit price) other))
            (sats_per F (pr_unit price) rates))"

definition token_buys :: "'f FloatOps \<Rightarrow> 'f Price \<Rightarrow> string \<Rightarrow> 'f Rates \<Rightarrow> u64 option" where
  "token_buys F price token_unit rates =
     (if \<not> (f_finite F (pr_per_mbit price) \<and> f_less F (f_lit F ''0.0'') (pr_per_mbit price)) then None
      else case token_unit_value F token_unit of
        None \<Rightarrow> None
      | Some (currency, amount) \<Rightarrow>
          (case in_one_currency F price currency amount rates of
             None \<Rightarrow> None
           | Some (token_value, mbit_price) \<Rightarrow>
               (let bytes = f_floor F
                      (f_mul F (f_mul F (f_div F token_value mbit_price) (f_lit F ''125_000.0''))
                        (f_add F (f_lit F ''1.0'') (f_lit F ''1e-12'')))
                in if f_le F (f_lit F ''1.0'') bytes \<and> f_less F bytes (f_of_u64 F U64_MAX)
                   then Some (f_to_u64 F bytes) else None)))"

definition price_for :: "'f Price option \<Rightarrow> 'f AcceptMint \<Rightarrow> 'f Price option" where
  "price_for standard a = (case ac_price a of Some p \<Rightarrow> Some p | None \<Rightarrow> standard)"

definition price_table :: "'f FloatOps \<Rightarrow> 'f Price option \<Rightarrow> 'f AcceptMint list \<Rightarrow> 'f Rates \<Rightarrow> Accepted list" where
  "price_table F standard accepts rates =
     List.map_filter (\<lambda>a.
         Option.bind (price_for standard a) (\<lambda>price.
           map_option (\<lambda>n. \<lparr>acc_mint = trim_end_slashes (ac_mint a), acc_unit = ac_unit a, acc_bytes_per_unit = n\<rparr>)
             (token_buys F price (ac_unit a) rates))) accepts"

definition currencies_needed :: "'f Price option \<Rightarrow> 'f AcceptMint list \<Rightarrow> string list" where
  "currencies_needed standard accepts =
     map fst (foldl (\<lambda>needed a.
         case price_for standard a of
           None \<Rightarrow> needed
         | Some price \<Rightarrow>
             if pr_unit price = ac_unit a then needed
             else foldl (\<lambda>needed unit. if unit \<noteq> ''sat'' then bt_insert unit () needed else needed) needed
               [pr_unit price, ac_unit a]) [] accepts)"

subsection \<open>The merchant\<close>

record ('f, 'w) Merchant =
  me_prices :: Prices
  me_rates :: "'f Rates"
  me_price :: "'f Price option"
  me_accepts :: "'f AcceptMint list"
  me_wallet :: "'w Wallet"
  me_money :: "(string \<times> string) option"

definition reprice :: "'f FloatOps \<Rightarrow> ('f, 'w) Merchant \<Rightarrow> ('f, 'w) Merchant" where
  "reprice F m = m\<lparr>me_prices := prices_replace (price_table F (me_price m) (me_accepts m) (me_rates m))\<rparr>"

definition merchant_new ::
  "'f FloatOps \<Rightarrow> 'f Price option \<Rightarrow> 'f AcceptMint list \<Rightarrow> 'w Wallet \<Rightarrow> (string \<times> string) option \<Rightarrow> ('f, 'w) Merchant" where
  "merchant_new F price accepts wl money =
     reprice F \<lparr>me_prices = [], me_rates = [], me_price = price, me_accepts = accepts, me_wallet = wl,
                me_money = money\<rparr>"

definition set_price ::
  "'f FloatOps \<Rightarrow> string option \<Rightarrow> 'f Price \<Rightarrow> ('f, 'w) Merchant \<Rightarrow> string option \<times> ('f, 'w) Merchant" where
  "set_price F mint price m =
     (case mint of
        None \<Rightarrow> (None, reprice F (m\<lparr>me_price := Some price\<rparr>))
      | Some mint \<Rightarrow>
          (let this = (\<lambda>a. trim_end_slashes (ac_mint a) = trim_end_slashes mint)
           in if find this (me_accepts m) = None then (Some (mint @ '' is not an accepted mint''), m)
              else (None, reprice F (m\<lparr>me_accepts :=
                      update_first this (\<lambda>a. a\<lparr>ac_price := Some price\<rparr>) (me_accepts m)\<rparr>))))"

text \<open>A rate that was fetched, and the repricing after it.\<close>

definition rate_fetched :: "'f FloatOps \<Rightarrow> string \<Rightarrow> 'f \<Rightarrow> ('f, 'w) Merchant \<Rightarrow> ('f, 'w) Merchant" where
  "rate_fetched F currency btc m = reprice F (m\<lparr>me_rates := rates_set F currency btc (me_rates m)\<rparr>)"

record 'f MerchantSnapshot =
  ms_price :: "'f Price option"
  ms_accepts :: "'f AcceptMint list"
  ms_table :: "Accepted list"
  ms_rates :: "'f Rates"
  ms_holdings :: "Holding list"
  ms_money_mint :: "Accepted option"

definition merchant_snapshot :: "'w WalletEnv \<Rightarrow> ('f, 'w) Merchant \<Rightarrow> 'f MerchantSnapshot" where
  "merchant_snapshot env m =
     \<lparr>ms_price = me_price m, ms_accepts = me_accepts m, ms_table = prices_listed (me_prices m),
      ms_rates = me_rates m, ms_holdings = balances env (me_wallet m),
      ms_money_mint = map_option (\<lambda>(mint, unit). \<lparr>acc_mint = mint, acc_unit = unit, acc_bytes_per_unit = 0\<rparr>) (me_money m)\<rparr>"

subsection \<open>Requests\<close>

datatype 'f MerchantRequest =
    Fund string string u64
  | DepositToken string
  | ShowSnapshot
  | SetPrice "string option" "'f Price"
  | BuyMoney u64
  | ClaimMoney

datatype MerchantSocket = Funding | Control

datatype 'f MerchantAnswer =
    Funded string
  | Deposited Holding
  | Shown "'f MerchantSnapshot"
  | ToPay WalletTopUp
  | Claimed u64 string string
  | RequestRefused string

fun socket_name :: "MerchantSocket \<Rightarrow> string" where
  "socket_name Funding = ''funding socket''"
| "socket_name Control = ''control socket''"

fun for_funding :: "'f MerchantRequest \<Rightarrow> bool" where
  "for_funding (Fund _ _ _) = True"
| "for_funding (DepositToken _) = True"
| "for_funding _ = False"

text \<open>What a request that is for its socket does; a top-up to be collected is \<open>ToPay\<close>.\<close>

fun carry_out_request ::
  "'f FloatOps \<Rightarrow> 'w WalletEnv \<Rightarrow> 'f MerchantRequest \<Rightarrow> ('f, 'w) Merchant \<Rightarrow> 'f MerchantAnswer \<times> ('f, 'w) Merchant" where
  "carry_out_request F env (Fund mint unit amount) m =
     (case fund_from env mint unit amount (me_wallet m) of
        (Inr token, wl) \<Rightarrow> (Funded token, m\<lparr>me_wallet := wl\<rparr>)
      | (Inl e, wl) \<Rightarrow> (RequestRefused e, m\<lparr>me_wallet := wl\<rparr>))"
| "carry_out_request F env (DepositToken token) m =
     (case deposit env token (me_wallet m) of
        (Inr held, wl) \<Rightarrow> (Deposited held, m\<lparr>me_wallet := wl\<rparr>)
      | (Inl e, wl) \<Rightarrow> (RequestRefused e, m\<lparr>me_wallet := wl\<rparr>))"
| "carry_out_request F env ShowSnapshot m = (Shown (merchant_snapshot env m), m)"
| "carry_out_request F env (SetPrice mint price) m =
     (case set_price F mint price m of
        (None, m) \<Rightarrow> (Shown (merchant_snapshot env m), m)
      | (Some e, m) \<Rightarrow> (RequestRefused e, m))"
| "carry_out_request F env (BuyMoney amount) m =
     (case me_money m of
        None \<Rightarrow> (RequestRefused ''no wallet.mint is configured to top up at'', m)
      | Some (mint, unit) \<Rightarrow>
          (case top_up env mint unit amount (me_wallet m) of
             (Inr bought, wl) \<Rightarrow> (ToPay bought, m\<lparr>me_wallet := wl\<rparr>)
           | (Inl e, wl) \<Rightarrow> (RequestRefused e, m\<lparr>me_wallet := wl\<rparr>)))"
| "carry_out_request F env ClaimMoney m =
     (case me_money m of
        None \<Rightarrow> (RequestRefused ''no wallet.mint is configured to claim at'', m)
      | Some (mint, unit) \<Rightarrow>
          (case claim_pending env mint unit (me_wallet m) of
             (Inr n, wl) \<Rightarrow> (Claimed n unit mint, m\<lparr>me_wallet := wl\<rparr>)
           | (Inl e, wl) \<Rightarrow> (RequestRefused e, m\<lparr>me_wallet := wl\<rparr>)))"

definition run_request ::
  "'f FloatOps \<Rightarrow> 'w WalletEnv \<Rightarrow> MerchantSocket \<Rightarrow> 'f MerchantRequest \<Rightarrow> ('f, 'w) Merchant
     \<Rightarrow> 'f MerchantAnswer \<times> ('f, 'w) Merchant" where
  "run_request F env socket request m =
     (if for_funding request \<noteq> (socket = Funding)
      then (RequestRefused (''not a request for the '' @ socket_name socket), m)
      else carry_out_request F env request m)"

text \<open>
  Collecting a top-up in the background: after each wait it tries once, and waits twice as long up to
  30 s, until it has the money or 600 s have gone by; no wait is 0; \<open>took\<close> is how long a try takes.
\<close>

function collect_later ::
  "'w WalletEnv \<Rightarrow> ('w \<Rightarrow> nat) \<Rightarrow> WalletTopUp \<Rightarrow> nat \<Rightarrow> nat \<Rightarrow> nat \<Rightarrow> 'w Wallet \<Rightarrow> u64 option \<times> 'w Wallet" where
  "collect_later env took topup deadline wait now wl =
     (if \<not> now < deadline \<or> wait = 0 then (None, wl)
      else case collect env topup wl of
        (Inr minted, wl) \<Rightarrow> (Some minted, wl)
      | (Inl _, wl) \<Rightarrow>
          collect_later env took topup deadline (min (wait * 2) 30000) (now + wait + took (wl_world wl)) wl)"
  by pat_completeness auto
termination
  by (relation "measure (\<lambda>(_, _, _, deadline, _, now, _). deadline - now)") auto

declare collect_later.simps [simp del]

definition collect_top_up :: "'w WalletEnv \<Rightarrow> ('w \<Rightarrow> nat) \<Rightarrow> WalletTopUp \<Rightarrow> nat \<Rightarrow> 'w Wallet \<Rightarrow> u64 option \<times> 'w Wallet" where
  "collect_top_up env took topup now wl = collect_later env took topup (now + 600000) 2000 now wl"

subsection \<open>The funding socket's other end\<close>

datatype ClientAnswer = AnswerOk Json | AnswerError string

text \<open>One request and its answer; \<open>Inl\<close> when \<open>merchantd\<close> is not reached, or its answer not read.\<close>

definition client_call :: "(Json \<Rightarrow> 'm \<Rightarrow> (string + ClientAnswer) \<times> 'm) \<Rightarrow> Json \<Rightarrow> 'm \<Rightarrow> (string + Json) \<times> 'm" where
  "client_call ask request m =
     (case ask request m of
        (Inl e, m) \<Rightarrow> (Inl e, m)
      | (Inr (AnswerOk data), m) \<Rightarrow> (Inr data, m)
      | (Inr (AnswerError message), m) \<Rightarrow> (Inl (''merchantd: '' @ message), m))"

definition client_vouchers ::
  "(Json \<Rightarrow> 'm \<Rightarrow> (string + ClientAnswer) \<times> 'm) \<Rightarrow> (Json \<Rightarrow> string) \<Rightarrow> string \<Rightarrow> string \<Rightarrow> u64 \<Rightarrow> 'm
     \<Rightarrow> (string + string) \<times> 'm" where
  "client_vouchers ask render mint unit amount m =
     (case client_call ask (JObject [(''command'', JString ''fund''),
             (''params'', JObject [(''mint'', JString mint), (''unit'', JString unit), (''amount'', JInt (uint amount))])]) m of
        (Inl e, m) \<Rightarrow> (Inl e, m)
      | (Inr data, m) \<Rightarrow>
          ((case json_str (json_at ''token'' data) of
              Some token \<Rightarrow> Inr token
            | None \<Rightarrow> Inl (''merchantd funded nothing: '' @ render data)), m))"

definition client_deposit ::
  "(Json \<Rightarrow> 'm \<Rightarrow> (string + ClientAnswer) \<times> 'm) \<Rightarrow> string \<Rightarrow> 'm \<Rightarrow> (string + unit) \<times> 'm" where
  "client_deposit ask token m =
     (case client_call ask (JObject [(''command'', JString ''deposit''),
             (''params'', JObject [(''token'', JString token)])]) m of
        (Inl e, m) \<Rightarrow> (Inl e, m)
      | (Inr _, m) \<Rightarrow> (Inr (), m))"

end
