(* ===== verification/Market_Properties.thy ===== *)
theory Market_Properties
  imports Market
begin

text \<open>
  What a swap does with the money, what a split keeps to, and how long a wait may go on
  (\<open>crates/tollgate-net/src/market.rs\<close> and \<open>wallet.rs\<close>).
\<close>

subsection \<open>Prices\<close>

text \<open>A price is rounded up to a whole unit: never a unit short, never one too many.\<close>

lemma price_of_spec:
  assumes "price_of bytes rate = Some units"
  shows "0 < unat units" "unat bytes \<le> unat units * unat rate" "(unat units - 1) * unat rate < unat bytes"
proof -
  let ?b = "unat bytes" and ?r = "unat rate"
  have pos: "0 < ?b" "0 < ?r" and units: "units = of_nat ((?b + (?r - 1)) div ?r)"
    using assms by (auto simp: price_of_def unat_gt_0 split: if_splits)
  let ?n = "(?b + (?r - 1)) div ?r"
  have "?b + (?r - 1) < (?b + 1) * ?r"
    using pos by (cases ?r) auto
  then have "?n < ?b + 1"
    by (simp add: less_mult_imp_div_less)
  then have n: "unat units = ?n"
    using unat_u64_less [of bytes] by (simp add: units unat_of_nat take_bit_nat_eq_self)
  have le: "?n * ?r \<le> ?b + (?r - 1)"
    by (rule div_times_less_eq_dividend)
  have gt: "?b + (?r - 1) < ?n * ?r + ?r"
    using dividend_less_div_times [OF pos(2), of "?b + (?r - 1)"] by simp
  show "unat bytes \<le> unat units * unat rate"
    using gt pos by (simp add: n)
  then show "0 < unat units"
    using pos by (cases "unat units") auto
  have "(?n - 1) * ?r = ?n * ?r - ?r"
    by (simp add: diff_mult_distrib)
  then show "(unat units - 1) * unat rate < unat bytes"
    unfolding n using le pos by linarith
qed

lemma priced_purchase_Inr:
  assumes "priced_purchase prices most unit (mint, paper, paid) wanted = Inr bought"
  obtains rate where "bytes_per_unit prices mint paper = Some rate" "bought = wanted" "wanted \<le> most"
    "price_of wanted rate = Some paid"
  using assms that
  by (auto simp: priced_purchase_def units_for_def not_less split: if_splits option.splits)

text \<open>A list that was put up is the list that is shown, and putting that up again changes nothing.\<close>

lemma strip_slashes_rev_idem: "strip_slashes_rev (strip_slashes_rev s) = strip_slashes_rev s"
  by (induction s rule: strip_slashes_rev.induct) auto

lemma normalise_idem: "normalise (normalise mint) = normalise mint"
  by (simp add: normalise_def trim_end_slashes_def strip_slashes_rev_idem)

definition prices_ok :: "Prices \<Rightarrow> bool" where
  "prices_ok prices \<longleftrightarrow> bt_wf prices \<and> (\<forall>((mint, _), price) \<in> set prices. normalise mint = mint \<and> price > 0)"

lemma set_bt_insert_le: "set (bt_insert k v m) \<subseteq> insert (k, v) (set m)"
  by (induction k v m rule: bt_insert.induct) auto

lemma prices_set_ok: "prices_ok prices \<Longrightarrow> prices_ok (prices_set prices mint unit rate)"
  using set_bt_insert_le [of "(normalise mint, unit)" rate prices]
  by (fastforce simp: prices_ok_def prices_set_def Let_def normalise_idem word_gt_0 bt_remove_def
      intro: bt_wf_remove [unfolded bt_remove_def])

lemma bt_insert_last: "\<forall>e \<in> set m. fst e < k \<Longrightarrow> bt_insert k v m = m @ [(k, v)]"
  by (induction m) (auto simp: not_less_iff_gr_or_eq)

lemma replace_listed:
  assumes "prices_ok prices"
  shows "prices_replace (prices_listed prices) = prices"
  using assms
proof (induction prices rule: rev_induct)
  case (snoc e prices)
  obtain mint unit price where e: "e = ((mint, unit), price)"
    by (metis surj_pair)
  have "prices_ok prices"
    using snoc.prems by (auto simp: prices_ok_def bt_wf_def sorted_wrt_append)
  moreover have "\<forall>e' \<in> set prices. fst e' < (mint, unit)" "normalise mint = mint" "price > 0"
    using snoc.prems by (auto simp: prices_ok_def bt_wf_def sorted_wrt_append e)
  ultimately show ?case
    using snoc.IH bt_insert_last [of prices "(mint, unit)" price] by (simp add: prices_replace_def prices_listed_def e)
qed (simp add: prices_replace_def prices_listed_def)

subsection \<open>The ceiling leaves the rest alone\<close>

lemma max_sale_keeps:
  assumes "max_sale env now mt = (most, mt')"
  shows "mt_prices mt' = mt_prices mt" "mt_max_amount mt' = mt_max_amount mt" "most \<le> mt_max_amount mt"
    "wl_opened (mt_wallet mt') = wl_opened (mt_wallet mt)"
  using assms
  by (auto simp: max_sale_def issuer_limit_def Let_def split: prod.splits option.splits if_splits)

lemma sell_cases [consumes 1, case_names sold refunded kept]:
  assumes "sell env held outputs mt = (answer, mt')"
  obtains (sold) signatures where "answer = Signatures signatures"
  | (refunded) s :: Sent and reason where "answer = RefusedWithRefund reason (sn_token s)" "0 < sn_worth s"
      "sat_add (sn_worth s) (sn_fee s) \<le> hd_amount held"
  | (kept) "answer = BadRequest (''the router took the payment and could not issue the data; ''
      @ ''ask the operator for a refund'')"
proof -
  let ?wl = "mt_wallet mt"
  obtain r w where i: "issue env (mt_issuer_url mt) (mt_issuer_unit mt) outputs (wl_world ?wl) = (r, w)"
    by (meson surj_pair)
  obtain q wl where q: "refund (mk_wallet env) (hd_mint held) (hd_unit held) (hd_amount held) (?wl\<lparr>wl_world := w\<rparr>) = (q, wl)"
    by (meson surj_pair)
  show thesis
  proof (cases r)
    case (Inr signatures)
    then have "answer = Signatures signatures"
      using assms i by (simp add: sell_def)
    then show thesis by (rule sold)
  next
    case failed: (Inl e)
    show thesis
    proof (cases q)
      case (Inl e2)
      then show thesis
        using assms i q failed by (intro kept) (simp add: sell_def)
    next
      case (Inr s)
      then obtain key w1 w2 where "send_within (mk_wallet env) key (hd_amount held) (hd_amount held) w1 = (Inr s, w2)"
        using q by (auto simp: refund_def split: prod.splits sum.splits)
      note bound = send_within_bound(1,3) [OF this]
      have "answer = RefusedWithRefund ''the router could not issue the data just now'' (sn_token s)"
        using assms i q failed Inr by (simp add: sell_def)
      from refunded [OF this bound] show thesis .
    qed
  qed
qed

lemma swap_cases:
  fixes env :: "('w, 's) MarketEnv" and mt :: "'w Market"
  assumes "max_sale env now mt = (most, mt1)"
  obtains (unread) e where "swap env now request mt = (BadRequest e, mt)"
  | (unpriced) reason where "swap env now request mt = (UnpricedRequest reason, mt1)"
  | (unclear) e mt' where "swap env now request mt = (BadRequest (not_cleared e), mt')"
      "fst (deposit (mk_wallet env) (sr_token request) (mt_wallet mt1)) = Inl e"
  | (taken) mint unit paid bought held mt2 where
      "swap env now request mt = sell env held (sr_outputs request) mt2"
      "read_payment (mk_wallet env) (sr_token request) = Inr (mint, unit, paid)"
      "priced_purchase (mt_prices mt1) most (mt_unit mt1) (mint, unit, paid) (outputs_total (sr_outputs request)) = Inr bought"
      "fst (deposit (mk_wallet env) (sr_token request) (mt_wallet mt1)) = Inr held"
proof -
  obtain d wl where d: "deposit (mk_wallet env) (sr_token request) (mt_wallet mt1) = (d, wl)"
    by (meson surj_pair)
  show thesis
  proof (cases "read_payment (mk_wallet env) (sr_token request)")
    case (Inl e)
    then show thesis
      by (intro unread) (simp add: swap_def)
  next
    case read: (Inr payment)
    obtain mint unit paid where payment: "payment = (mint, unit, paid)"
      by (cases payment)
    show thesis
    proof (cases "priced_purchase (mt_prices mt1) most (mt_unit mt1) payment (outputs_total (sr_outputs request))")
      case (Inl reason)
      then show thesis
        using read assms by (intro unpriced) (simp add: swap_def)
    next
      case priced: (Inr bought)
      then show thesis
        using read assms d payment by (cases d) (auto simp: swap_def intro: unclear taken)
    qed
  qed
qed


text \<open>
  What is shown of a refusal that mentions a refund is its status and a fixed remark, never the answer,
  so no token in it reaches a log.
\<close>

lemma before_status:
  assumes "\<not> contains '': '' status" "status = [] \<or> last status \<noteq> CHR '':''"
  shows "before '': '' (status @ '': '' @ body) = status"
  using assms
proof (induction status)
  case (Cons c cs)
  then show ?case
    by (cases cs) (auto split: if_splits)
qed simp

lemma withheld_hides_answer:
  assumes "\<not> contains '': '' status" "status = [] \<or> last status \<noteq> CHR '':''"
    and "withheld (status @ '': '' @ body) \<noteq> status @ '': '' @ body"
  shows "withheld (status @ '': '' @ body) = status @ '' (the answer mentions a refund, and is not repeated here)''"
proof -
  have "withheld e = e \<or> withheld e = before '': '' e @ '' (the answer mentions a refund, and is not repeated here)''" for e
    unfolding withheld_def by (split if_split) blast
  from this [of "status @ '': '' @ body"] assms(3) show ?thesis
    unfolding before_status [OF assms(1,2)] by blast
qed

subsection \<open>Splitting\<close>

lemma split_loop_spends:
  "split_loop env key most left w = (Some (parts, rest), w') \<Longrightarrow>
     sum_list (map (\<lambda>s. unat (sn_worth s) + unat (sn_fee s)) parts) + unat rest = unat left
     \<and> (\<forall>s \<in> set parts. 0 < sn_worth s \<and> sn_worth s \<le> most)"
proof (induction env key most left w arbitrary: parts rest w' rule: split_loop.induct)
  case (1 env key most left w)
  show ?case
  proof (cases "left = 0")
    case True
    then show ?thesis
      using 1(2) by (simp add: split_loop.simps)
  next
    case False
    obtain r w1 where r: "send_within env key (min left most) left w = (r, w1)"
      by (meson surj_pair)
    show ?thesis
    proof (cases r)
      case (Inl e)
      then show ?thesis
        using 1(2) False r by (subst (asm) split_loop.simps) simp
    next
      case (Inr part)
      obtain n where n: "spent part = Some n"
        using 1(2) False r Inr by (subst (asm) split_loop.simps) (auto split: option.splits)
      obtain parts' w2 where again: "split_loop env key most (left - n) w1 = (Some (parts', rest), w2)"
        and p: "parts = part # parts'"
        using 1(2) False r Inr n by (subst (asm) split_loop.simps) (auto split: prod.splits)
      note b = spent_bound [OF r [unfolded Inr] n] send_within_bound(1,2) [OF r [unfolded Inr]]
      have "unat (left - n) = unat left - unat n"
        using b(3) by (rule u64_minus_nat)
      then have "unat n + (sum_list (map (\<lambda>s. unat (sn_worth s) + unat (sn_fee s)) parts') + unat rest) = unat left"
        using 1(1) [OF False r [symmetric] Inr n again] b(3) by simp
      then show ?thesis
        using 1(1) [OF False r [symmetric] Inr n again] b(1,4,5) by (simp add: p)
    qed
  qed
qed

lemma split_loop_returns:
  "left \<noteq> - 1 \<Longrightarrow> fst (split_loop env key most left w) \<noteq> None"
proof (induction env key most left w rule: split_loop.induct)
  case (1 env key most left w)
  show ?case
  proof (cases "left = 0 \<or> (\<exists>e w1. send_within env key (min left most) left w = (Inl e, w1))")
    case True
    then show ?thesis
      by (subst split_loop.simps) auto
  next
    case False
    then obtain part w1 where r: "send_within env key (min left most) left w = (Inr part, w1)" and "left \<noteq> 0"
      by (metis old.sum.exhaust surj_pair)
    then obtain n where n: "spent part = Some n"
      using spent_fits [OF r 1(2)] by blast
    have "unat (left - n) = unat left - unat n"
      using spent_bound(3) [OF r n] by (rule u64_minus_nat)
    then have "unat (left - n) \<noteq> unat (- 1 :: u64)"
      using spent_bound(2,3) [OF r n] unat_u64_less [of left] unat_U64_MAX by simp
    then have "left - n \<noteq> - 1"
      by metis
    then show ?thesis
      using 1(1) [OF \<open>left \<noteq> 0\<close> r [symmetric] refl n] r n \<open>left \<noteq> 0\<close>
      by (subst split_loop.simps) (simp add: case_prod_unfold)
  qed
qed


text \<open>A wallet whose mint takes 1 for each swap.\<close>

definition ex_wallet_env :: "nat WalletEnv" where
  "ex_wallet_env =
     \<lparr>we_token = (\<lambda>_. Inr \<lparr>tk_mint_url = Inr ''m/'', tk_unit = None, tk_value = Inr 10\<rparr>),
      we_new = (\<lambda>_. None), we_receive = (\<lambda>_ _ w. (Inr 10, w + 10)), we_prepare = (\<lambda>_ _ w. (Inr 1, w)),
      we_held_fee = (\<lambda>_ _. Inr 1), we_cancel = (\<lambda>_ _ w. w),
      we_confirm = (\<lambda>_ want w. (Inr ''token'', w - unat want - 1)), we_balance = (\<lambda>_ _. None),
      we_mint_info = (\<lambda>_ w. (Inr None, w)), we_mint_quote = (\<lambda>_ _ w. (Inl [], w)),
      we_quote_state = (\<lambda>_ _ w. (Inr QuoteOther, w)), we_mint = (\<lambda>_ _ w. (Inl ([], False), w)),
      we_recover = (\<lambda>_ w. w), we_unissued = (\<lambda>_ _. Inr [])\<rparr>"

lemma ex_sends:
  "0 < want \<Longrightarrow> want \<le> budget \<Longrightarrow> sat_add want 1 \<le> budget \<Longrightarrow>
     send_within ex_wallet_env key want budget w
       = (Inr \<lparr>sn_token = ''token'', sn_worth = want, sn_fee = 1\<rparr>, w - unat want - 1)"
  by (simp add: send_within_def eval_nat_numeral ex_wallet_env_def min_absorb1 not_less [symmetric])

lemma ex_deposits:
  "deposit ex_wallet_env [] \<lparr>wl_opened = [], wl_resource = ''byte'', wl_world = 0\<rparr>
     = (Inr \<lparr>hd_mint = ''m'', hd_unit = ''sat'', hd_amount = 10, hd_kind = Money\<rparr>,
        \<lparr>wl_opened = [(''m'', ''sat'')], wl_resource = ''byte'', wl_world = 10\<rparr>)"
  by (simp add: deposit_def describe_def wallet_for_def ex_wallet_env_def normalise_def trim_end_slashes_def
      kind_of_def Let_def)

lemma ex_splits:
  "split_parts ex_wallet_env [] 4 \<lparr>wl_opened = [], wl_resource = ''byte'', wl_world = 0\<rparr>
     = (Some (Inr ([''token'', ''token''], 0)), \<lparr>wl_opened = [(''m'', ''sat'')], wl_resource = ''byte'', wl_world = 0\<rparr>)"
proof -
  have small: "min (5 :: u64) 4 = 4" "min (10 :: u64) 4 = 4" "sat_add (4 :: u64) 1 = 5"
    by code_simp+
  have zero: "split_loop ex_wallet_env (''m'', ''sat'') 4 0 0 = (Some ([], 0), 0)"
    by (simp add: split_loop.simps)
  have last: "split_loop ex_wallet_env (''m'', ''sat'') 4 5 5
      = (Some ([\<lparr>sn_token = ''token'', sn_worth = 4, sn_fee = 1\<rparr>], 0), 0)"
    by (subst split_loop.simps) (simp add: ex_sends spent_def zero small)
  have "split_loop ex_wallet_env (''m'', ''sat'') 4 10 10
      = (Some ([\<lparr>sn_token = ''token'', sn_worth = 4, sn_fee = 1\<rparr>, \<lparr>sn_token = ''token'', sn_worth = 4, sn_fee = 1\<rparr>], 0), 0)"
    by (subst split_loop.simps) (simp add: ex_sends spent_def last small)
  then show ?thesis
    by (simp add: split_parts_def ex_deposits wallet_for_def normalise_def trim_end_slashes_def Let_def)
qed


subsection \<open>Waiting\<close>

lemma wait_loop_asks:
  "snd (wait_loop (\<lambda>k. (answer k, took k, Suc k)) json late deadline now k) \<le> k + (deadline - now + 49) div 50"
proof (induction "deadline - now" arbitrary: now k rule: less_induct)
  case less
  show ?case
  proof (cases "now < deadline")
    case True
    have "snd (wait_loop (\<lambda>k. (answer k, took k, Suc k)) json late deadline (now + took k + 50) (Suc k))
        \<le> Suc k + (deadline - (now + took k + 50) + 49) div 50"
      by (rule less) (use True in simp)
    also have "\<dots> \<le> k + (deadline - now + 49) div 50"
      using True by (simp add: le_div_geq) 
    finally show ?thesis
      using True by (subst wait_loop.simps) (auto split: sum.splits option.splits)
  qed (simp add: wait_loop.simps)
qed

text \<open>C22: waiting for a quote to be paid ends: whatever the mint answers and however long it takes to,
  it is asked at most 200 times, and never when no time is left.\<close>

theorem wait_asks_boundedly:
  "snd (wait_until_paid (\<lambda>k. (answer k, took k, Suc k)) json mint_url quote now k) \<le> k + 200"
  using wait_loop_asks [of answer took json "mint_url @ '' has not seen payment for quote '' @ quote" "now + PAYMENT_TIMEOUT_MS" now k]
  by (simp add: wait_until_paid_def PAYMENT_TIMEOUT_MS_def)

end
