(* ===== verification/Merchant_Properties.thy ===== *)
theory Merchant_Properties
  imports Merchant Market_Properties
begin

text \<open>
  What the merchant's requests keep (\<open>crates/tollgate-net/src/merchant.rs\<close>): the market always sells by
  the prices in force, the two sockets are kept apart, and a top-up is not waited for without end.
\<close>

subsection \<open>The table\<close>

lemma prices_replace_snoc:
  "prices_replace (table @ [e]) =
     (if acc_bytes_per_unit e > 0
      then bt_insert (normalise (acc_mint e), acc_unit e) (acc_bytes_per_unit e) (prices_replace table)
      else prices_replace table)"
  by (simp add: prices_replace_def)

lemma set_prices_replace:
  "set (prices_replace table) \<subseteq>
     (\<lambda>e. ((normalise (acc_mint e), acc_unit e), acc_bytes_per_unit e)) ` {e \<in> set table. acc_bytes_per_unit e > 0}"
proof (induction table rule: rev_induct)
  case (snoc e table)
  then show ?case
    using set_bt_insert_le [of "(normalise (acc_mint e), acc_unit e)" "acc_bytes_per_unit e" "prices_replace table"]
    by (auto simp: prices_replace_snoc)
qed (simp add: prices_replace_def)

lemma prices_ok_replace: "prices_ok (prices_replace table)"
proof -
  have "bt_wf (prices_replace table)"
    by (induction table rule: rev_induct) (simp_all add: prices_replace_snoc, simp add: prices_replace_def bt_wf_def)
  then show ?thesis
    using set_prices_replace [of table] by (fastforce simp: prices_ok_def normalise_idem)
qed

lemma bytes_per_unit_replace:
  assumes "bytes_per_unit (prices_replace table) mint unit = Some rate"
  obtains e where "e \<in> set table" "normalise (acc_mint e) = normalise mint" "acc_unit e = unit" "acc_bytes_per_unit e = rate"
proof -
  have "((normalise mint, unit), rate) \<in> set (prices_replace table)"
    using assms by (auto simp: bytes_per_unit_def split: option.splits if_splits dest: map_of_SomeD)
  then have "((normalise mint, unit), rate)
      \<in> (\<lambda>e. ((normalise (acc_mint e), acc_unit e), acc_bytes_per_unit e)) ` {e \<in> set table. acc_bytes_per_unit e > 0}"
    using set_prices_replace by (rule subsetD [rotated])
  then show thesis
    by (rule imageE) (rule that, simp_all)
qed

lemma price_table_entry:
  assumes "e \<in> set (price_table F standard accepts rates)"
  obtains a price where "a \<in> set accepts" "price_for standard a = Some price" "acc_mint e = trim_end_slashes (ac_mint a)"
    "acc_unit e = ac_unit a" "token_buys F price (ac_unit a) rates = Some (acc_bytes_per_unit e)"
proof -
  let ?f = "\<lambda>a. Option.bind (price_for standard a) (\<lambda>price.
    map_option (\<lambda>n. \<lparr>acc_mint = trim_end_slashes (ac_mint a), acc_unit = ac_unit a, acc_bytes_per_unit = n\<rparr>)
      (token_buys F price (ac_unit a) rates))"
  have "e \<in> (\<lambda>x. the (?f x)) ` {x \<in> set accepts. ?f x \<noteq> None}"
    using assms by (simp only: price_table_def List.map_filter_def set_map set_filter o_def)
  then obtain a where a: "a \<in> set accepts" "?f a = Some e"
    by auto
  then obtain price where "price_for standard a = Some price"
    by (cases "price_for standard a") simp_all
  then show thesis
    using a that [of a price] by auto
qed

subsection \<open>A run\<close>

datatype 'f MerchantEvent = Requested MerchantSocket "'f MerchantRequest" | RateFetched string 'f

fun merchant_step :: "'f FloatOps \<Rightarrow> 'w WalletEnv \<Rightarrow> ('f, 'w) Merchant \<Rightarrow> 'f MerchantEvent \<Rightarrow> ('f, 'w) Merchant" where
  "merchant_step F env m (Requested socket request) = snd (run_request F env socket request m)"
| "merchant_step F env m (RateFetched currency btc) = rate_fetched F currency btc m"

definition table_in_force :: "'f FloatOps \<Rightarrow> ('f, 'w) Merchant \<Rightarrow> bool" where
  "table_in_force F m \<longleftrightarrow> me_prices m = prices_replace (price_table F (me_price m) (me_accepts m) (me_rates m))"

lemma reprice_in_force [simp]: "table_in_force F (reprice F m)"
  by (simp add: table_in_force_def reprice_def)

lemma wallet_in_force [simp]: "table_in_force F (m\<lparr>me_wallet := wl\<rparr>) = table_in_force F m"
  by (simp add: table_in_force_def)

lemma set_price_in_force: "table_in_force F m \<Longrightarrow> table_in_force F (snd (set_price F mint price m))"
  by (simp add: set_price_def Let_def split: option.split)

lemma carry_out_in_force:
  assumes "table_in_force F m"
  shows "table_in_force F (snd (carry_out_request F env request m))"
proof (cases request)
  case (SetPrice mint price)
  then show ?thesis
    using set_price_in_force [OF assms, of mint price] by (simp add: case_prod_unfold split: option.split)
qed (use assms in \<open>simp_all add: case_prod_unfold split: option.split sum.split\<close>)

lemma merchant_step_in_force: "table_in_force F m \<Longrightarrow> table_in_force F (merchant_step F env m e)"
  by (cases e) (auto simp: run_request_def rate_fetched_def carry_out_in_force)

lemma merchant_run_in_force: "table_in_force F m \<Longrightarrow> table_in_force F (foldl (merchant_step F env) m events)"
  by (induction events arbitrary: m) (simp_all add: merchant_step_in_force)


subsection \<open>The sockets\<close>

text \<open>
  The operator's socket never has a token handed out or taken in, and the funding socket never
  shows or changes a price.
\<close>

lemma control_never_funds:
  "fst (run_request F env Control request m) \<noteq> Funded token"
  "fst (run_request F env Control request m) \<noteq> Deposited held"
  by (cases request; auto simp: run_request_def split: option.splits prod.splits sum.splits)+

lemma funding_never_prices:
  "me_prices (snd (run_request F env Funding request m)) = me_prices m"
  "fst (run_request F env Funding request m) \<noteq> Shown snapshot"
  by (cases request; auto simp: run_request_def split: option.splits prod.splits sum.splits)+

subsection \<open>Collecting\<close>

text \<open>What is collected in the background is what one try collected.\<close>

lemma collect_later_collects:
  "collect_later env took topup deadline wait now wl = (Some n, wl') \<Longrightarrow> \<exists>wl0. collect env topup wl0 = (Inr n, wl')"
proof (induction env took topup deadline wait now wl rule: collect_later.induct)
  case (1 env took topup deadline wait now wl)
  obtain r wl1 where r: "collect env topup wl = (r, wl1)"
    by (meson surj_pair)
  show ?case
  proof (cases r)
    case (Inl e)
    have go: "\<not> (\<not> now < deadline \<or> wait = 0)"
      using 1(2) by (subst (asm) collect_later.simps) (auto split: if_splits)
    then have "collect_later env took topup deadline (min (wait * 2) 30000) (now + wait + took (wl_world wl1)) wl1 = (Some n, wl')"
      using 1(2) r Inl by (subst (asm) collect_later.simps) simp
    then show ?thesis
      using 1(1) [OF go r [symmetric] Inl] by blast
  next
    case (Inr minted)
    then show ?thesis
      using 1(2) r by (subst (asm) collect_later.simps) (auto split: if_splits)
  qed
qed

end
