(* ===== verification/Mint.thy ===== *)
theory Mint
  imports Wallet
begin

text \<open>
  The mint of \<open>crates/tollgate-net/src/mint.rs\<close>, as much of it as is the program's own: the limit on how
  often a quote may be asked for, the two payment processors that carry a payment's amount in its id,
  and what stands before each listener; and \<open>mintd.rs\<close>, what its file says. The mint itself, with its
  keysets, signatures and database, is the \<open>cdk\<close> library's, and so is how it prints an id. A
  \<open>u128\<close> is a \<open>128 word\<close>; an instant is its nanoseconds.
\<close>

type_synonym u128 = "128 word"

definition clamp_u128 :: "nat \<Rightarrow> u128" where
  "clamp_u128 n = of_nat (min n (2 ^ 128 - 1))"

definition sat_add128 :: "u128 \<Rightarrow> u128 \<Rightarrow> u128" where
  "sat_add128 a b = clamp_u128 (unat a + unat b)"

definition sat_mul128 :: "u128 \<Rightarrow> u128 \<Rightarrow> u128" where
  "sat_mul128 a b = clamp_u128 (unat a * unat b)"

definition sat_sub128 :: "u128 \<Rightarrow> u128 \<Rightarrow> u128" where
  "sat_sub128 a b = (if a \<le> b then 0 else a - b)"

subsection \<open>Units\<close>

datatype CurrencyUnit = UnitSat | UnitMsat | UnitCustom string

definition currency_unit :: "string \<Rightarrow> CurrencyUnit" where
  "currency_unit unit =
     (if unit = ''sat'' then UnitSat else if unit = ''msat'' then UnitMsat else UnitCustom unit)"

record Amount =
  am_value :: u64
  am_unit :: CurrencyUnit

subsection \<open>How many quotes\<close>

record IssueLimit =
  quotes_per_minute :: u64

definition issue_limit_default :: IssueLimit where
  "issue_limit_default = \<lparr>quotes_per_minute = 60\<rparr>"

record Bucket =
  bk_per_period :: u128
  bk_period_ns :: u128
  bk_capacity :: u128
  bk_level :: u128
  bk_last :: u128

definition bucket_new :: "u64 \<Rightarrow> u128 \<Rightarrow> u64 \<Rightarrow> u128 \<Rightarrow> Bucket" where
  "bucket_new per_period period burst now =
     (let period_ns = max period 1; capacity = sat_mul128 (ucast burst) period_ns
      in \<lparr>bk_per_period = ucast per_period, bk_period_ns = period_ns, bk_capacity = capacity,
          bk_level = capacity, bk_last = now\<rparr>)"

definition bucket_refill :: "u128 \<Rightarrow> Bucket \<Rightarrow> Bucket" where
  "bucket_refill now b =
     (let elapsed = sat_sub128 now (bk_last b)
      in b\<lparr>bk_level := min (sat_add128 (bk_level b) (sat_mul128 elapsed (bk_per_period b))) (bk_capacity b),
           bk_last := max (bk_last b) now\<rparr>)"

definition bucket_holds :: "u64 \<Rightarrow> Bucket \<Rightarrow> bool" where
  "bucket_holds tokens b = (bk_level b \<ge> sat_mul128 (ucast tokens) (bk_period_ns b))"

definition bucket_take :: "u64 \<Rightarrow> Bucket \<Rightarrow> Bucket" where
  "bucket_take tokens b = b\<lparr>bk_level := sat_sub128 (bk_level b) (sat_mul128 (ucast tokens) (bk_period_ns b))\<rparr>"

record QuoteLimits =
  li_quotes :: "Bucket option"

definition limits_new :: "IssueLimit \<Rightarrow> u128 \<Rightarrow> QuoteLimits" where
  "limits_new limit now =
     \<lparr>li_quotes = (if quotes_per_minute limit > 0
        then Some (bucket_new (quotes_per_minute limit) 60000000000 (quotes_per_minute limit) now) else None)\<rparr>"

definition limits_admit :: "u128 \<Rightarrow> QuoteLimits \<Rightarrow> (string + unit) \<times> QuoteLimits" where
  "limits_admit now l =
     (case li_quotes l of
        None \<Rightarrow> (Inr (), l)
      | Some quotes \<Rightarrow>
          (let quotes = bucket_refill now quotes
           in if \<not> bucket_holds 1 quotes then (Inl ''quotes asked for'', l\<lparr>li_quotes := Some quotes\<rparr>)
              else (Inr (), l\<lparr>li_quotes := Some (bucket_take 1 quotes)\<rparr>)))"

subsection \<open>Text\<close>

definition split_once :: "char \<Rightarrow> string \<Rightarrow> (string \<times> string) option" where
  "split_once c s =
     (case dropWhile (\<lambda>x. x \<noteq> c) s of
        [] \<Rightarrow> None
      | _ # rest \<Rightarrow> Some (takeWhile (\<lambda>x. x \<noteq> c) s, rest))"

definition rsplit_once :: "char \<Rightarrow> string \<Rightarrow> (string \<times> string) option" where
  "rsplit_once c s = map_option (\<lambda>(back, front). (rev front, rev back)) (split_once c (rev s))"

text \<open>\<open>str::parse\<close> into a \<open>u64\<close>: digits, after a \<open>+\<close> or not, of a number that fits.\<close>

definition parse_u64 :: "string \<Rightarrow> u64 option" where
  "parse_u64 s =
     (let ds = (case read_given (CHR ''+'') s of Some rest \<Rightarrow> rest | None \<Rightarrow> s)
      in if ds = [] \<or> \<not> list_all (is_digit 10) ds \<or> digits_value 10 ds \<ge> 2 ^ 64 then None
         else Some (of_nat (digits_value 10 ds)))"

subsection \<open>A quote that is paid when it is made\<close>

datatype PaymentIdentifier = CustomId string | OtherId string

datatype PaymentError = UnsupportedPaymentOption | UnsupportedUnit | CustomError string

definition lookup_id :: "u128 \<Rightarrow> u64 \<Rightarrow> PaymentIdentifier" where
  "lookup_id nonce amount =
     (let hex = show_base 16 (unat nonce)
      in CustomId (''auto-'' @ replicate (32 - length hex) (CHR ''0'') @ hex @ ''-'' @ show_u64 amount))"

fun amount_of :: "PaymentIdentifier \<Rightarrow> u64 option" where
  "amount_of (CustomId s) =
     Option.bind (strip_prefix ''auto-'' s) (\<lambda>rest. Option.bind (split_once (CHR ''-'') rest) (\<lambda>(_, n). parse_u64 n))"
| "amount_of (OtherId _) = None"

datatype IncomingOptions = IncomingBolt11 Amount "u64 option" | IncomingOther

record IncomingRequest =
  ir_request :: string
  ir_lookup_id :: PaymentIdentifier
  ir_expiry :: "u64 option"

definition paid_create_request ::
  "(PaymentIdentifier \<Rightarrow> string) \<Rightarrow> CurrencyUnit \<Rightarrow> u128 \<Rightarrow> IncomingOptions \<Rightarrow> PaymentError + IncomingRequest" where
  "paid_create_request show_id unit nonce options =
     (case options of
        IncomingOther \<Rightarrow> Inl UnsupportedPaymentOption
      | IncomingBolt11 amount expiry \<Rightarrow>
          if am_unit amount \<noteq> unit then Inl UnsupportedUnit
          else (let i = lookup_id nonce (am_value amount)
                in Inr \<lparr>ir_request = ''auto-accepted:'' @ show_id i, ir_lookup_id = i, ir_expiry = expiry\<rparr>))"

record PaymentSeen =
  sp_identifier :: PaymentIdentifier
  sp_amount :: Amount
  sp_payment_id :: string

definition paid_check_status ::
  "(PaymentIdentifier \<Rightarrow> string) \<Rightarrow> CurrencyUnit \<Rightarrow> PaymentIdentifier \<Rightarrow> PaymentSeen list" where
  "paid_check_status show_id unit i =
     (case amount_of i of
        None \<Rightarrow> []
      | Some amount \<Rightarrow>
          [\<lparr>sp_identifier = i, sp_amount = \<lparr>am_value = amount, am_unit = unit\<rparr>, sp_payment_id = show_id i\<rparr>])"

subsection \<open>A melt that pays nothing\<close>

datatype MeltState = MeltUnpaid | MeltPaid

datatype OutgoingOptions = OutgoingCustom (og_request: string) (og_amount: "Amount option") (og_quote: string)
  | OutgoingOther

record PaymentQuote =
  pq_lookup_id :: "PaymentIdentifier option"
  pq_amount :: Amount
  pq_fee :: Amount
  pq_state :: MeltState

record MadePayment =
  mp_lookup_id :: PaymentIdentifier
  mp_status :: MeltState
  mp_total_spent :: Amount

definition burn_id :: "string \<Rightarrow> u64 \<Rightarrow> PaymentIdentifier" where
  "burn_id quote amount = CustomId (''burn-'' @ quote @ ''-'' @ show_u64 amount)"

fun burnt_amount :: "PaymentIdentifier \<Rightarrow> u64 option" where
  "burnt_amount (CustomId s) =
     Option.bind (strip_prefix ''burn-'' s) (\<lambda>rest. Option.bind (rsplit_once (CHR ''-'') rest) (\<lambda>(_, n). parse_u64 n))"
| "burnt_amount (OtherId _) = None"

definition burn_amount :: "CurrencyUnit \<Rightarrow> string \<Rightarrow> Amount option \<Rightarrow> PaymentError + u64" where
  "burn_amount unit request asked =
     (case parse_u64 (trim request) of
        None \<Rightarrow> Inl (CustomError ''a burn's request is the amount to burn'')
      | Some amount \<Rightarrow>
          if (case asked of Some a \<Rightarrow> am_unit a \<noteq> unit \<or> am_value a \<noteq> amount | None \<Rightarrow> False)
          then Inl (CustomError ''a burn's amount has to match its request'') else Inr amount)"

definition burn_payment_quote :: "CurrencyUnit \<Rightarrow> CurrencyUnit \<Rightarrow> OutgoingOptions \<Rightarrow> PaymentError + PaymentQuote" where
  "burn_payment_quote own unit options =
     (case options of
        OutgoingOther \<Rightarrow> Inl UnsupportedPaymentOption
      | OutgoingCustom request asked quote \<Rightarrow>
          if unit \<noteq> own then Inl UnsupportedUnit
          else case burn_amount own request asked of
            Inl e \<Rightarrow> Inl e
          | Inr amount \<Rightarrow>
              Inr \<lparr>pq_lookup_id = Some (burn_id quote amount), pq_amount = \<lparr>am_value = amount, am_unit = own\<rparr>,
                   pq_fee = \<lparr>am_value = 0, am_unit = own\<rparr>, pq_state = MeltUnpaid\<rparr>)"

definition burn_make_payment :: "CurrencyUnit \<Rightarrow> CurrencyUnit \<Rightarrow> OutgoingOptions \<Rightarrow> PaymentError + MadePayment" where
  "burn_make_payment own unit options =
     (case options of
        OutgoingOther \<Rightarrow> Inl UnsupportedPaymentOption
      | OutgoingCustom request asked quote \<Rightarrow>
          if unit \<noteq> own then Inl UnsupportedUnit
          else case burn_amount own request asked of
            Inl e \<Rightarrow> Inl e
          | Inr amount \<Rightarrow>
              Inr \<lparr>mp_lookup_id = burn_id quote amount, mp_status = MeltPaid,
                   mp_total_spent = \<lparr>am_value = amount, am_unit = own\<rparr>\<rparr>)"

definition burn_check_outgoing :: "CurrencyUnit \<Rightarrow> PaymentIdentifier \<Rightarrow> PaymentError + MadePayment" where
  "burn_check_outgoing own i =
     (case burnt_amount i of
        None \<Rightarrow> Inl UnsupportedPaymentOption
      | Some amount \<Rightarrow>
          Inr \<lparr>mp_lookup_id = i, mp_status = MeltPaid, mp_total_spent = \<lparr>am_value = amount, am_unit = own\<rparr>\<rparr>)"

subsection \<open>The listeners\<close>

record Stats =
  public_quotes :: u64
  private_quotes :: u64
  refused_quotes :: u64

record Counting =
  ct_limits :: "QuoteLimits option"
  ct_private :: bool
  ct_issues :: bool

text \<open>What stands before the public listener, and before the private one.\<close>

definition public_counting :: "bool \<Rightarrow> IssueLimit \<Rightarrow> u128 \<Rightarrow> Counting" where
  "public_counting auto_accept limit now =
     \<lparr>ct_limits = Some (limits_new limit now), ct_private = False, ct_issues = auto_accept\<rparr>"

definition private_counting :: Counting where
  "private_counting = \<lparr>ct_limits = None, ct_private = True, ct_issues = True\<rparr>"

datatype QuoteAnswer = NotFound | TooManyQuotes | PassedOn

definition starts_with :: "string \<Rightarrow> string \<Rightarrow> bool" where
  "starts_with s p = (strip_prefix p s \<noteq> None)"

definition asks_quote :: "bool \<Rightarrow> string \<Rightarrow> bool" where
  "asks_quote is_post path = (is_post \<and> starts_with path ''/v1/mint/quote/'')"

definition counted :: "Counting \<Rightarrow> Stats \<Rightarrow> Stats" where
  "counted c stats =
     (if ct_private c then stats\<lparr>private_quotes := private_quotes stats + 1\<rparr>
      else stats\<lparr>public_quotes := public_quotes stats + 1\<rparr>)"

definition count_quotes ::
  "u128 \<Rightarrow> bool \<Rightarrow> string \<Rightarrow> Counting \<times> Stats \<Rightarrow> QuoteAnswer \<times> Counting \<times> Stats" where
  "count_quotes now is_post path = (\<lambda>(c, stats).
     if \<not> ct_issues c \<and> starts_with path ''/v1/mint/'' then (NotFound, c, stats)
     else if \<not> asks_quote is_post path then (PassedOn, c, stats)
     else case ct_limits c of
       None \<Rightarrow> (PassedOn, c, counted c stats)
     | Some limits \<Rightarrow>
         (case limits_admit now limits of
            (Inl _, limits) \<Rightarrow>
              (TooManyQuotes, c\<lparr>ct_limits := Some limits\<rparr>, stats\<lparr>refused_quotes := refused_quotes stats + 1\<rparr>)
          | (Inr _, limits) \<Rightarrow> (PassedOn, c\<lparr>ct_limits := Some limits\<rparr>, counted c stats)))"

subsection \<open>What \<open>mintd\<close> reads\<close>

record MintdFile =
  md_unit :: string
  md_url :: string
  md_seed_file :: string
  md_file :: string
  md_max_amount :: u64
  md_public_listen :: string
  md_private_listen :: string
  md_auto_accept :: bool
  md_issue_quotes_per_minute :: u64
  md_control_socket :: string

definition MintdFile_default :: MintdFile where
  "MintdFile_default =
     \<lparr>md_unit = ''byte'', md_url = ''http://127.0.0.1:3338'', md_seed_file = [], md_file = [],
      md_max_amount = push_bit 40 1, md_public_listen = ''0.0.0.0:3338'', md_private_listen = ''127.0.0.1:3337'',
      md_auto_accept = True, md_issue_quotes_per_minute = quotes_per_minute issue_limit_default,
      md_control_socket = []\<rparr>"

definition mintd_seed_path :: "Host \<Rightarrow> MintdFile \<Rightarrow> string" where
  "mintd_seed_path h f = (if md_seed_file f = [] then state_file h ''mint.seed'' else md_seed_file f)"

definition mintd_db_path :: "Host \<Rightarrow> MintdFile \<Rightarrow> string" where
  "mintd_db_path h f = (if md_file f = [] then state_file h ''mint.sqlite'' else md_file f)"

definition mintd_control_path :: "Host \<Rightarrow> MintdFile \<Rightarrow> string" where
  "mintd_control_path h f =
     (if md_control_socket f = [] then path_join (h_temp_dir h) ''mintd.sock'' else md_control_socket f)"

record MintConfig =
  mc_url :: string
  mc_unit :: string
  mc_seed :: "u8 list"
  mc_file :: string
  mc_max_amount :: u64

definition mint_config :: "Host \<Rightarrow> MintdFile \<Rightarrow> u8 list \<Rightarrow> MintConfig" where
  "mint_config h f seed =
     \<lparr>mc_url = md_url f, mc_unit = md_unit f, mc_seed = seed, mc_file = mintd_db_path h f,
      mc_max_amount = max (md_max_amount f) 1\<rparr>"

record Listeners =
  ls_public :: SocketAddr
  ls_private :: SocketAddr
  ls_auto_accept :: bool
  ls_issue_limit :: IssueLimit

datatype ListenError = NotAnAddress string string

definition parse_listen :: "string \<Rightarrow> string \<Rightarrow> ListenError + SocketAddr" where
  "parse_listen what addr =
     (case parse_socket_addr addr of None \<Rightarrow> Inl (NotAnAddress what addr) | Some a \<Rightarrow> Inr a)"

definition mintd_listeners :: "MintdFile \<Rightarrow> ListenError + Listeners" where
  "mintd_listeners f =
     (case parse_listen ''public'' (md_public_listen f) of
        Inl e \<Rightarrow> Inl e
      | Inr public \<Rightarrow>
          (case parse_listen ''private'' (md_private_listen f) of
             Inl e \<Rightarrow> Inl e
           | Inr private \<Rightarrow>
               Inr \<lparr>ls_public = public, ls_private = private, ls_auto_accept = md_auto_accept f,
                    ls_issue_limit = \<lparr>quotes_per_minute = md_issue_quotes_per_minute f\<rparr>\<rparr>))"

end
