(* ===== verification/Mint_Properties.thy ===== *)
theory Mint_Properties
  imports Mint
begin

text \<open>
  What the mint's own code keeps to (\<open>crates/tollgate-net/src/mint.rs\<close>): the public listener serves no
  more quotes than its rate, a payment's id says what was paid, and a burn settles what it quoted.
\<close>

subsection \<open>Arithmetic of 128 bits\<close>

lemma unat_u128_less: "unat (a :: u128) < 2 ^ 128"
  using unsigned_less [of a, where 'a = nat] by simp

lemma unat_clamp_u128: "unat (clamp_u128 n) = min n (2 ^ 128 - 1)"
  by (simp add: clamp_u128_def unat_of_nat min_def take_bit_eq_mod)

lemma unat_sat_sub128: "unat (sat_sub128 a b) = unat a - unat b"
  by (auto simp: sat_sub128_def word_le_nat_alt unat_sub)

lemma unat_min128: "unat (min a b :: u128) = min (unat a) (unat b)"
  by (simp add: min_def word_le_nat_alt)

lemma unat_max128: "unat (max a b :: u128) = max (unat a) (unat b)"
  by (simp add: max_def word_le_nat_alt)

lemma unat_widened: "unat (ucast (a :: u64) :: u128) = unat a"
  using unat_u64_less [of a] by (simp add: unsigned_ucast_eq take_bit_nat_eq_self)

lemmas u128_nat = unat_clamp_u128 unat_sat_sub128 unat_min128 unat_max128 unat_widened sat_add128_def sat_mul128_def

subsection \<open>The bucket\<close>

text \<open>What has been taken since \<open>start\<close>, and what is left, came from the burst and the time since.\<close>

definition bucket_ok :: "nat \<Rightarrow> nat \<Rightarrow> nat \<Rightarrow> nat \<Rightarrow> Bucket \<Rightarrow> bool" where
  "bucket_ok rate start taken latest b \<longleftrightarrow>
     unat (bk_per_period b) = rate \<and> unat (bk_period_ns b) = 60000000000 \<and> unat (bk_last b) = latest \<and> start \<le> latest
     \<and> taken * 60000000000 + unat (bk_level b) \<le> rate * 60000000000 + rate * (latest - start)"

lemma bucket_ok_new:
  "bucket_ok (unat rate) (unat now) 0 (unat now) (bucket_new rate 60000000000 rate now)"
  by (simp add: bucket_ok_def bucket_new_def Let_def u128_nat)

lemma bucket_ok_refill:
  assumes "bucket_ok rate start taken latest b"
  shows "bucket_ok rate start taken (max latest (unat now)) (bucket_refill now b)"
proof -
  have "unat (bk_level (bucket_refill now b)) \<le> unat (bk_level b) + (unat now - latest) * rate"
    using assms by (simp add: bucket_ok_def bucket_refill_def Let_def u128_nat)
  moreover have "latest - start + (unat now - latest) = max latest (unat now) - start"
    using assms by (auto simp: bucket_ok_def max_def)
  then have "rate * (latest - start) + (unat now - latest) * rate = rate * (max latest (unat now) - start)"
    by (metis add_mult_distrib2 mult.commute)
  ultimately show ?thesis
    using assms by (simp add: bucket_ok_def bucket_refill_def Let_def unat_max128 le_max_iff_disj)
qed

lemma bucket_ok_take:
  assumes "bucket_ok rate start taken latest b" "bucket_holds 1 b"
  shows "bucket_ok rate start (Suc taken) latest (bucket_take 1 b)"
  using assms by (simp add: bucket_ok_def bucket_holds_def bucket_take_def word_le_nat_alt u128_nat)

subsection \<open>A listener\<close>

text \<open>Requests as they come, each an instant, whether it is a POST, and its path.\<close>

fun serve_requests ::
  "(u128 \<times> bool \<times> string) list \<Rightarrow> Counting \<times> Stats \<Rightarrow> QuoteAnswer list \<times> Counting \<times> Stats" where
  "serve_requests [] st = ([], st)"
| "serve_requests ((now, is_post, path) # requests) st =
     (let (answer, st) = count_quotes now is_post path st; (replies, st) = serve_requests requests st
      in (answer # replies, st))"

definition quotes_served :: "(u128 \<times> bool \<times> string) list \<Rightarrow> QuoteAnswer list \<Rightarrow> nat" where
  "quotes_served requests replies =
     length (filter (\<lambda>((_, is_post, path), answer). asks_quote is_post path \<and> answer = PassedOn)
       (zip requests replies))"

definition latest_instant :: "u128 \<Rightarrow> (u128 \<times> bool \<times> string) list \<Rightarrow> nat" where
  "latest_instant start requests = fold (\<lambda>r latest. max latest (unat (fst r))) requests (unat start)"

lemma quotes_served_simps [simp]:
  "quotes_served [] replies = 0"
  "quotes_served ((now, is_post, path) # requests) (answer # replies)
     = (if asks_quote is_post path \<and> answer = PassedOn then 1 else 0) + quotes_served requests replies"
  by (simp_all add: quotes_served_def)

lemma quote_path_is_mint_path: "asks_quote is_post path \<Longrightarrow> starts_with path ''/v1/mint/''"
proof -
  assume "asks_quote is_post path"
  then obtain rest where "path = ''/v1/mint/quote/'' @ rest"
    by (metis append_take_drop_id asks_quote_def option.distinct(1) starts_with_def strip_prefix_def)
  then show ?thesis
    by (simp add: starts_with_def strip_prefix_def)
qed

lemma closed_listener_step:
  assumes "\<not> ct_issues c"
  obtains answer where "count_quotes now is_post path (c, stats) = (answer, c, stats)"
    "\<not> (asks_quote is_post path \<and> answer = PassedOn)"
proof (cases "starts_with path ''/v1/mint/''")
  case True
  then show thesis
    using assms that [of NotFound] by (simp add: count_quotes_def)
next
  case False
  then have "\<not> asks_quote is_post path"
    using quote_path_is_mint_path by blast
  then show thesis
    using assms False that [of PassedOn] by (simp add: count_quotes_def)
qed

lemma closed_listener_serves_nothing:
  "\<not> ct_issues c \<Longrightarrow> quotes_served requests (fst (serve_requests requests (c, stats))) = 0"
proof (induction requests)
  case (Cons request requests)
  obtain now is_post path where request: "request = (now, is_post, path)"
    by (cases request)
  obtain answer where "count_quotes now is_post path (c, stats) = (answer, c, stats)"
    and "\<not> (asks_quote is_post path \<and> answer = PassedOn)"
    using closed_listener_step [OF Cons.prems] by blast
  then show ?case
    using Cons.IH [OF Cons.prems] by (auto simp: request case_prod_unfold Let_def)
qed simp

text \<open>One request: an answer that serves a quote takes one from the bucket.\<close>

lemma count_quotes_ok:
  assumes "ct_limits c = Some \<lparr>li_quotes = Some b\<rparr>" "bucket_ok rate start taken latest b"
    and "count_quotes now is_post path (c, stats) = (answer, c', stats')"
  obtains b' latest' where "ct_limits c' = Some \<lparr>li_quotes = Some b'\<rparr>" "latest' \<le> max latest (unat now)"
    "bucket_ok rate start (taken + (if asks_quote is_post path \<and> answer = PassedOn then 1 else 0)) latest' b'"
proof (cases "asks_quote is_post path \<and> ct_issues c")
  case True
  note refilled = bucket_ok_refill [OF assms(2), of now]
  show ?thesis
  proof (cases "bucket_holds 1 (bucket_refill now b)")
    case holds: True
    then show ?thesis
      using that [of "bucket_take 1 (bucket_refill now b)" "max latest (unat now)"] bucket_ok_take [OF refilled holds] assms True
      by (auto simp: count_quotes_def limits_admit_def Let_def)
  next
    case False
    then show ?thesis
      using that [of "bucket_refill now b" "max latest (unat now)"] refilled assms True
      by (auto simp: count_quotes_def limits_admit_def Let_def)
  qed
next
  case False
  then have "c' = c" "\<not> (asks_quote is_post path \<and> answer = PassedOn)"
    using assms(3) quote_path_is_mint_path by (auto simp: count_quotes_def split: if_splits)
  then have "(if asks_quote is_post path \<and> answer = PassedOn then 1 else 0 :: nat) = 0"
    by auto
  then show ?thesis
    using that [of b latest] assms(1,2) \<open>c' = c\<close> by simp
qed

lemma serve_requests_ok:
  assumes "ct_limits c = Some \<lparr>li_quotes = Some b\<rparr>" "bucket_ok rate start taken latest b"
  shows "(taken + quotes_served requests (fst (serve_requests requests (c, stats)))) * 60000000000
     \<le> rate * 60000000000 + rate * (fold (\<lambda>r latest. max latest (unat (fst r))) requests latest - start)"
  using assms
proof (induction requests arbitrary: c stats b taken latest)
  case Nil
  then show ?case
    by (simp add: bucket_ok_def)
next
  case (Cons request requests)
  obtain now is_post path where request: "request = (now, is_post, path)"
    by (cases request)
  obtain answer c' stats' where step: "count_quotes now is_post path (c, stats) = (answer, c', stats')"
    by (metis surj_pair)
  obtain b' latest' where b': "ct_limits c' = Some \<lparr>li_quotes = Some b'\<rparr>" and le: "latest' \<le> max latest (unat now)"
    and ok: "bucket_ok rate start (taken + (if asks_quote is_post path \<and> answer = PassedOn then 1 else 0)) latest' b'"
    by (rule count_quotes_ok [OF Cons.prems step])
  let ?later = "fold (\<lambda>r latest. max latest (unat (fst r))) requests"
  have mono: "?later m \<le> ?later n" if "m \<le> n" for m n
    using that by (induction requests arbitrary: m n) (auto simp: max.coboundedI1 intro!: max.mono)
  have "rate * (?later latest' - start) \<le> rate * (?later (max latest (unat now)) - start)"
    using mono [OF le] by (intro mult_le_mono diff_le_mono) simp_all
  moreover have "(taken + quotes_served (request # requests) (fst (serve_requests (request # requests) (c, stats)))) * 60000000000
      \<le> rate * 60000000000 + rate * (?later latest' - start)"
    using Cons.IH [OF b' ok, of stats'] by (simp add: request step case_prod_unfold Let_def add.assoc)
  ultimately have "(taken + quotes_served (request # requests) (fst (serve_requests (request # requests) (c, stats)))) * 60000000000
      \<le> rate * 60000000000 + rate * (?later (max latest (unat now)) - start)"
    by linarith
  then show ?case
    by (simp add: request)
qed

text \<open>C23: the public listener serves no quote at all unless the mint gives its vouchers away; and when it
  does, with a rate of so many quotes a minute, then over any run of requests no more are served
  than one minute's worth and what the time since the start adds, whatever the requests and however
  their instants are ordered.\<close>

theorem public_quotes_rationed:
  "let served = quotes_served requests
        (fst (serve_requests requests (public_counting auto_accept limit start, stats)));
       rate = unat (quotes_per_minute limit)
   in (\<not> auto_accept \<longrightarrow> served = 0)
      \<and> (0 < rate \<longrightarrow> served * 60000000000 \<le> rate * (60000000000 + (latest_instant start requests - unat start)))"
proof -
  have "quotes_served requests (fst (serve_requests requests (public_counting auto_accept limit start, stats))) * 60000000000
      \<le> unat (quotes_per_minute limit) * 60000000000
          + unat (quotes_per_minute limit) * (latest_instant start requests - unat start)"
    if "0 < unat (quotes_per_minute limit)"
    using that serve_requests_ok [OF _ bucket_ok_new, of "public_counting auto_accept limit start"]
    by (auto simp: public_counting_def limits_new_def latest_instant_def unat_gt_0 word_gt_0)
  moreover have "quotes_served requests (fst (serve_requests requests (public_counting auto_accept limit start, stats))) = 0"
    if "\<not> auto_accept"
    using that by (intro closed_listener_serves_nothing) (simp add: public_counting_def)
  ultimately show ?thesis
    by (simp add: Let_def add_mult_distrib2)
qed

text \<open>A quote at once and another half a minute later, at two a minute.\<close>

definition ex_requests :: "(u128 \<times> bool \<times> string) list" where
  "ex_requests = [(0, True, ''/v1/mint/quote/bolt11''), (30000000000, True, ''/v1/mint/quote/bolt11'')]"

definition ex_stats :: Stats where
  "ex_stats = \<lparr>public_quotes = 0, private_quotes = 0, refused_quotes = 0\<rparr>"

theorem public_quotes_rationed_witness:
  "quotes_served ex_requests (fst (serve_requests ex_requests (public_counting False \<lparr>quotes_per_minute = 2\<rparr> 0, ex_stats))) = 0
   \<and> quotes_served ex_requests (fst (serve_requests ex_requests (public_counting True \<lparr>quotes_per_minute = 2\<rparr> 0, ex_stats)))
       * 60000000000 \<le> 2 * (60000000000 + 30000000000)"
  using public_quotes_rationed [of ex_requests False "\<lparr>quotes_per_minute = 2\<rparr>" 0 ex_stats]
    public_quotes_rationed [of ex_requests True "\<lparr>quotes_per_minute = 2\<rparr>" 0 ex_stats]
  by (simp add: Let_def latest_instant_def ex_requests_def)

subsection \<open>A payment's id\<close>

lemma show_base_not_dash: "2 \<le> base \<Longrightarrow> base \<le> 36 \<Longrightarrow> CHR ''-'' \<notin> set (show_base base n)"
  using show_base_digits [of base "CHR ''-''" n] by (auto simp: is_digit_def digit_value_def Let_def)

lemma parse_show_u64: "parse_u64 (show_u64 n) = Some n"
proof -
  have digits: "list_all (is_digit 10) (show_base 10 (unat n))"
    using show_base_digits [of 10 _ "unat n"] by (auto simp: list_all_iff)
  moreover have "\<not> is_digit 10 (CHR ''+'')"
    by (simp add: is_digit_def digit_value_def)
  ultimately have "read_given (CHR ''+'') (show_base 10 (unat n)) = None"
    by (auto simp: read_given_def split: list.splits)
  then show ?thesis
    using digits unat_u64_less [of n] by (simp add: parse_u64_def show_u64_def show_base_value not_le)
qed

lemma split_once_first: "c \<notin> set a \<Longrightarrow> split_once c (a @ c # b) = Some (a, b)"
  by (simp add: split_once_def dropWhile_append2 takeWhile_append2 dropWhile_append takeWhile_append)

lemma rsplit_once_last: "c \<notin> set b \<Longrightarrow> rsplit_once c (a @ c # b) = Some (a, b)"
  by (simp add: rsplit_once_def split_once_first)

lemma strip_prefix_append [simp]: "strip_prefix p (p @ s) = Some s"
  by (simp add: strip_prefix_def)

definition padded_hex :: "u128 \<Rightarrow> string" where
  "padded_hex nonce = (let hex = show_base 16 (unat nonce) in replicate (32 - length hex) (CHR ''0'') @ hex)"

lemma lookup_id_padded: "lookup_id nonce amount = CustomId (''auto-'' @ padded_hex nonce @ ''-'' @ show_u64 amount)"
  by (simp add: lookup_id_def padded_hex_def Let_def)

lemma padded_hex_not_dash: "CHR ''-'' \<notin> set (padded_hex nonce)"
  by (simp add: padded_hex_def Let_def show_base_not_dash)

lemma digits_value_padded: "digits_value 16 (replicate n (CHR ''0'') @ s) = digits_value 16 s"
proof (induction n)
  case (Suc n)
  then show ?case
    by (simp add: digits_value_def digit_value_def)
qed simp

lemma padded_hex_inject: "padded_hex m = padded_hex n \<longleftrightarrow> m = n"
proof
  have reads: "digits_value 16 (padded_hex k) = unat k" for k
    by (simp add: padded_hex_def Let_def digits_value_padded show_base_value)
  assume "padded_hex m = padded_hex n"
  then have "unat m = unat n"
    using reads by metis
  then show "m = n"
    by (rule word_unat_eq_iff [THEN iffD2])
qed simp

lemma amount_of_lookup_id: "amount_of (lookup_id nonce amount) = Some amount"
  using strip_prefix_append [of "''auto-''" "padded_hex nonce @ ''-'' @ show_u64 amount"]
    split_once_first [OF padded_hex_not_dash [of nonce], of "show_u64 amount"]
  by (simp add: lookup_id_padded parse_show_u64)

lemma burnt_amount_burn_id: "burnt_amount (burn_id quote amount) = Some amount"
  using strip_prefix_append [of "''burn-''" "quote @ ''-'' @ show_u64 amount"]
    rsplit_once_last [of "CHR ''-''" "show_u64 amount" quote] show_base_not_dash [of 10 "unat amount"]
  by (simp add: burn_id_def show_u64_def parse_show_u64 [unfolded show_u64_def])

text \<open>C24: a payment's id alone says how much was paid, by quote or by burn, whatever the nonce and whatever
  the quote is called; neither kind is taken for the other; and two quotes share an id only when they
  share nonce and amount.\<close>

theorem payment_ids_carry_amounts:
  "amount_of (lookup_id nonce amount) = Some amount \<and> burnt_amount (burn_id quote amount) = Some amount
     \<and> amount_of (burn_id quote amount) = None \<and> burnt_amount (lookup_id nonce amount) = None
     \<and> (lookup_id nonce amount = lookup_id nonce' amount' \<longleftrightarrow> nonce = nonce' \<and> amount = amount')"
proof (intro conjI)
  show "lookup_id nonce amount = lookup_id nonce' amount' \<longleftrightarrow> nonce = nonce' \<and> amount = amount'"
  proof
    assume eq: "lookup_id nonce amount = lookup_id nonce' amount'"
    then have "amount = amount'"
      using amount_of_lookup_id by (metis option.inject)
    moreover from this eq have "padded_hex nonce = padded_hex nonce'"
      by (simp add: lookup_id_padded)
    ultimately show "nonce = nonce' \<and> amount = amount'"
      by (simp add: padded_hex_inject)
  qed simp
qed (simp_all add: amount_of_lookup_id burnt_amount_burn_id, simp_all add: burn_id_def lookup_id_def Let_def strip_prefix_def)

subsection \<open>Burning\<close>

text \<open>C25: a burn settles what it quoted: paying an order whose quote was refused is refused for the same
  reason, and otherwise spends exactly the amount of the quote, under the id the quote gave, and
  asking after that id later gives the same answer, from the id alone.\<close>

theorem burn_settles_what_it_quoted:
  "case burn_payment_quote own unit options of
     Inl e \<Rightarrow> burn_make_payment own unit options = Inl e
   | Inr q \<Rightarrow> \<exists>p. burn_make_payment own unit options = Inr p \<and> pq_lookup_id q = Some (mp_lookup_id p)
       \<and> mp_total_spent p = pq_amount q \<and> am_value (pq_fee q) = 0 \<and> pq_state q = MeltUnpaid \<and> mp_status p = MeltPaid
       \<and> burn_check_outgoing own (mp_lookup_id p) = Inr p"
  by (auto simp: burn_payment_quote_def burn_make_payment_def burn_check_outgoing_def burnt_amount_burn_id
      split: OutgoingOptions.splits sum.splits if_splits)

end
