(* ===== verification/Spec2Isabelle.thy ===== *)
theory Spec2Isabelle
  imports Lockstep Session_Behaviour Budget_Properties Wire Enforcer_Roundtrip Budget_Store
    Enforcer_Loopback Settle Local_Channels Node_Properties
    Enforcer_Agreement Config_Properties Ip_Properties Fips_Properties
    Merchant_Properties
    Mint_Properties
begin

text \<open>
  A verification development for tollgate-rs, a node that sells and buys network capacity peer to
  peer, prepaid, over payment channels.

  \<^bold>\<open>The program.\<close> \<open>crates/tollgate-core\<close> is the pure part: events in, actions out, no I/O. A peer
  connects, both sides announce and offer, each funds the channel it pays on, and from then on each
  tops the other up on its own schedule. Towards a peer a node is a provider (\<open>grant/\<close>: a prepaid
  budget, drawn by the one rule, that a purchase adds to) and a payer (\<open>buyer/\<close>: its own count of
  the same thing, and the decision when to buy). \<open>session/\<close> holds both per peer and turns every event
  into a change of state and a list of actions for the host. \<open>crates/tollgate-protocol\<close> is what
  goes over the wire, to peers and to an external enforcer. \<open>crates/tollgate-net\<close> is the host: it
  turns sockets and clocks into events and carries the actions out.

  \<^bold>\<open>The theories.\<close>

  \<^item> \<open>Prelude\<close>: 64-bit arithmetic as the code uses it (saturating, clamped from a wider product),
    lists searched from the front. \<open>Btree_Map\<close>: \<open>BTreeMap\<close> as an ordered association list, behind the
    locale \<open>keyed_store\<close>.
  \<^item> \<open>Wire_Types\<close>: \<open>types.rs\<close> and \<open>message.rs\<close> of the protocol crate.
  \<^item> \<open>Clock\<close>, \<open>Access_Level\<close>, \<open>Meter\<close>, \<open>Policy\<close>: \<open>time.rs\<close>, \<open>access.rs\<close>, \<open>meter.rs\<close>, \<open>config.rs\<close>.
  \<^item> \<open>Limits\<close>: \<open>grant/limits.rs\<close>, with the bounds of the one rule over a run of readings.
    \<open>Account\<close>: the locale of a prepaid account. \<open>Grant\<close>: \<open>grant/state.rs\<close>, an instance of it.
    \<open>Admission\<close>: \<open>grant/core.rs\<close>, the verdict on a purchase.
  \<^item> \<open>Buyer\<close>: \<open>buyer/state.rs\<close>. \<open>Buying\<close>: \<open>buyer/core.rs\<close>, the decision.
  \<^item> \<open>Lockstep\<close>: provider and payer together, as a transition system whose invariant is that their
    two counts of one budget agree.
  \<^item> \<open>Session_State\<close>, \<open>Session\<close>, \<open>Session_Handlers\<close>: \<open>event.rs\<close>, \<open>action.rs\<close>, \<open>session/state.rs\<close>
    and \<open>session/core.rs\<close>; one definition per method, state in, state and actions out.
  \<^item> \<open>Session_Steps\<close>: what core may do about one peer as an inductive step relation, and the
    simulation: \<open>handle\<close> and the operator's operations are sequences of its steps.
    \<open>Session_Invariants\<close>: the invariants, each by rule induction over the steps.
    \<open>Session_Properties\<close>: what follows at every point of a run. \<open>Session_Behaviour\<close>: what single
    events do. \<open>Budget_Properties\<close>: budgets, meters and purchases on their own.

  \<^item> \<open>Cbor\<close>: the operations of the \<open>minicbor\<close> library the codecs call, as a record of functions, what
    they promise as the locale \<open>cbor_lib\<close>, and RFC 8949's encoding as an interpretation of it.
    \<open>Decoder\<close>: what the two codecs share, the scan for the type and the loop over a map's pairs.
    \<open>Codec\<close>, \<open>Codec_Properties\<close>: \<open>codec.rs\<close>. \<open>Frame\<close>: \<open>frame.rs\<close>. \<open>Enforcer_Protocol\<close>,
    \<open>Enforcer_Roundtrip\<close>: \<open>enforcer.rs\<close>.
  \<^item> \<open>Wire\<close>: \<open>wire.rs\<close> and the address of \<open>fips.rs\<close>, a connection from the peer's outbox to this node's
    event queue, with the framing and the codec under it.
  \<^item> \<open>Budget_Store\<close>: \<open>budgets.rs\<close>. \<open>Enforcer_Loopback\<close>: the interface of \<open>enforcer/mod.rs\<close> as the
    locale \<open>enforcer\<close>, \<open>enforcer/loopback.rs\<close> as its interpretation, and the writer of
    \<open>dataplane.rs\<close>. \<open>Settle\<close>: \<open>settle.rs\<close>. \<open>Local_Channels\<close>: the interface of \<open>channel/mod.rs\<close>,
    \<open>channel/local.rs\<close> and what an update's signature covers in \<open>identity.rs\<close>.
  \<^item> \<open>Session_Host\<close>: what core asks of its host over a run. \<open>Node\<close>, \<open>Node_Properties\<close>: \<open>node.rs\<close>, the
    loop that feeds core and carries its actions out, with the enforcer it then drives.
  \<^item> \<open>Enforcer_External\<close>, \<open>Enforcer_Agreement\<close>: \<open>enforcer/external.rs\<close>, the client of an enforcer in
    another process, and what that enforcer then holds.
  \<^item> \<open>Addresses\<close>: how the standard library prints and parses IP and socket addresses. \<open>Instance\<close>:
    \<open>instance.rs\<close>. \<open>Config\<close>, \<open>Config_Properties\<close>: \<open>config.rs\<close>, the sections, their checks and what a
    file resolves to.
  \<^item> \<open>Kernel_Tables\<close>, \<open>Enforcer_Ip\<close>: \<open>enforcer/ip.rs\<close>, the enforcer that drives nftables and tc: what it
    reads of the kernel, the elements each peer holds, and every operation. \<open>Kernel_Moves\<close>: the locale
    \<open>nft_tables\<close>, what a kernel's sets and maps promise, and a refresh that moves elements between
    peers. \<open>Ip_Gate\<close>, \<open>Ip_Mirror\<close>: the kernel's elements as a mirror of the enforcer's peers, kept by
    each operation. \<open>Ip_Properties\<close>: a kernel that interprets \<open>nft_tables\<close>, and what it holds and
    forwards after any run; runs in which the mirror breaks.
  \<^item> \<open>Enforcer_Fips\<close>: \<open>enforcer/fips.rs\<close> and the names of \<open>fips.rs\<close>, the enforcer that sets policy on a
    FIPS mesh. \<open>Fips_Properties\<close>: the locale \<open>fips_mesh\<close> of what a FIPS node promises, a node that keeps
    it, and the policies it holds after any run.
  \<^item> \<open>Wallet\<close>: \<open>wallet.rs\<close> over the \<open>cdk\<close> library's wallets. \<open>Market\<close>: \<open>market.rs\<close>, the price list, the
    swap, the issuer and the buying side. \<open>Market_Properties\<close>: what a swap does with the money it takes,
    what a split spends, how long a wait may last.
  \<^item> \<open>Merchant\<close>: \<open>pricing.rs\<close> and \<open>merchant.rs\<close>, the prices and the requests of both sockets.
    \<open>Merchant_Properties\<close>: the market sells at the prices in force, after any run.
  \<^item> \<open>Mint\<close>: what of \<open>mint.rs\<close> and \<open>mintd.rs\<close> is the program's own. \<open>Mint_Properties\<close>: how many quotes the
    public listener serves, what a payment's id says, what a burn settles.

  \<^bold>\<open>Modelling.\<close> \<open>u64\<close>, \<open>u32\<close>, \<open>u16\<close> and \<open>u8\<close> are words of their width; saturating operations are
  written out, products the code widens to 128 bits are natural numbers. A struct is a record, an
  enum a datatype, \<open>&mut self\<close> a state passed in and returned, the \<open>out\<close> vector a list returned with
  it. A loop over an ordered map is a loop over its keys. No function needs fuel: every loop is over a
  finite list, or consumes its input, and its termination is proved. Text is a list of characters,
  one per byte of its UTF-8; a fixed-width array is a byte list whose width is stated. A panic is a
  value (\<open>Panic\<close>) and what it unwinds is left out of the result. \<open>usize\<close> has 64 bits. What third-party
  code computes is an argument: the CBOR library, SHA-256, Schnorr signatures, hex. The clock an
  operation reads is an argument of it.

  \<^bold>\<open>Not modelled.\<close> \<open>Debug\<close> and \<open>Display\<close> formatting; the read-only accessors, which are record
  selectors here; allocations the machine cannot serve; of \<open>crates/tollgate-net\<close>, what is I/O,
  processes, sockets and their timeouts, HTTP, cryptography or terminal drawing: the Spilman channel
  backend, building and serving the \<open>cdk\<close> mint, fetching rates, the control socket, the reading of
  YAML, the async runtime and the binaries. The arithmetic of an \<open>f64\<close> is an argument.
\<close>

end
